(* ===== verification/Prelude.thy ===== *)
theory Prelude
  imports Main "HOL-Library.Char_ord" "HOL-Library.List_Lexorder" "HOL-Library.Sublist"
begin

text \<open>
  Shared material of the development: the JavaScript values and library operations that the
  modelled code uses, with the lemmas about them that every component needs.

  \<^item> Strings.  A JavaScript string is a list of UTF-16 code units.  The model keeps the
    units below 256, one \<open>char\<close> each, so every operation below (case mapping, trimming,
    searching) is the exact one of ECMAScript on that range.
  \<^item> \<open>Map\<close> objects.  A JavaScript \<open>Map\<close> remembers insertion order, which several components
    rely on (they sweep from the oldest key on), so a map is an association list whose \<open>jset\<close>
    overwrites in place and appends a new key at the end.
  \<^item> Results.  A thrown \<open>Error\<close> is \<open>Inl\<close> of its message.
\<close>

named_theorems jsmap_simps \<open>insertion-ordered map lookups and updates\<close>
named_theorems guards \<open>definitions of the boolean guards of the code\<close>

section \<open>Strings\<close>

definition js_lower_char :: "char \<Rightarrow> char" where
  "js_lower_char c =
     (let n = (of_char c :: nat) in
      if (65 \<le> n \<and> n \<le> 90) \<or> (192 \<le> n \<and> n \<le> 222 \<and> n \<noteq> 215) then char_of (n + 32) else c)"

definition js_lower :: "string \<Rightarrow> string" where
  "js_lower s = map js_lower_char s"

definition js_ws :: "char \<Rightarrow> bool" where
  "js_ws c = ((of_char c :: nat) \<in> {9, 10, 11, 12, 13, 32, 160})"

definition js_trim_start :: "string \<Rightarrow> string" where
  "js_trim_start s = dropWhile js_ws s"

definition js_trim :: "string \<Rightarrow> string" where
  "js_trim s = rev (dropWhile js_ws (rev (dropWhile js_ws s)))"

definition starts_with :: "string \<Rightarrow> string \<Rightarrow> bool" where
  "starts_with s p = (take (length p) s = p)"

definition ends_with :: "string \<Rightarrow> string \<Rightarrow> bool" where
  "ends_with s p = starts_with (rev s) (rev p)"

fun js_includes :: "string \<Rightarrow> string \<Rightarrow> bool" where
  "js_includes [] p = (p = [])"
| "js_includes (c # s) p = (starts_with (c # s) p \<or> js_includes s p)"

text \<open>\<open>s.indexOf(p)\<close>: the first offset at which \<open>p\<close> occurs.\<close>

fun index_of :: "string \<Rightarrow> string \<Rightarrow> nat option" where
  "index_of [] p = (if p = [] then Some 0 else None)"
| "index_of (c # s) p =
     (if starts_with (c # s) p then Some 0 else map_option Suc (index_of s p))"

text \<open>\<open>s.indexOf(p, i)\<close>, with the offset clamped to the length as ECMAScript does.\<close>

definition index_from :: "string \<Rightarrow> string \<Rightarrow> nat \<Rightarrow> nat option" where
  "index_from s p i =
     (let k = min i (length s) in map_option (\<lambda>j. k + j) (index_of (drop k s) p))"

fun js_split :: "char \<Rightarrow> string \<Rightarrow> string list" where
  "js_split c [] = [[]]"
| "js_split c (x # s) =
     (if x = c then [] # js_split c s
      else (case js_split c s of [] \<Rightarrow> [[x]] | w # ws \<Rightarrow> (x # w) # ws))"

fun js_join :: "string \<Rightarrow> string list \<Rightarrow> string" where
  "js_join sep [] = []"
| "js_join sep [w] = w"
| "js_join sep (w # v # ws) = w @ sep @ js_join sep (v # ws)"

text \<open>\<open>s.slice(a, b)\<close> for offsets that are not negative.\<close>

definition js_slice :: "nat \<Rightarrow> nat \<Rightarrow> 'a list \<Rightarrow> 'a list" where
  "js_slice a b s = take (b - a) (drop a s)"

text \<open>\<open>xs.slice(-n)\<close>: the last \<open>n\<close> elements, and the whole list for \<open>-0\<close>.\<close>

definition js_last_n :: "nat \<Rightarrow> 'a list \<Rightarrow> 'a list" where
  "js_last_n n xs = (if n = 0 then xs else drop (length xs - n) xs)"

subsection \<open>Decimal rendering of integers\<close>

definition digit_char :: "nat \<Rightarrow> char" where
  "digit_char d = char_of (48 + d)"

fun show_nat :: "nat \<Rightarrow> string" where
  "show_nat n = (if n < 10 then [digit_char n] else show_nat (n div 10) @ [digit_char (n mod 10)])"

declare show_nat.simps [simp del]

definition show_int :: "int \<Rightarrow> string" where
  "show_int i = (if i < 0 then CHR ''-'' # show_nat (nat (- i)) else show_nat (nat i))"

definition is_digit :: "char \<Rightarrow> bool" where
  "is_digit c = (48 \<le> (of_char c :: nat) \<and> (of_char c :: nat) \<le> 57)"

definition digit_val :: "char \<Rightarrow> nat" where
  "digit_val c = of_char c - 48"

subsection \<open>Lemmas on strings\<close>

lemma starts_with_iff_prefix: "starts_with s p \<longleftrightarrow> prefix p s"
  unfolding starts_with_def prefix_def
  by (metis append_eq_conv_conj append_take_drop_id)

lemma starts_with_Nil [simp]: "starts_with s []"
  by (simp add: starts_with_def)

lemma starts_with_append [simp]: "starts_with (p @ s) p"
  by (simp add: starts_with_def)

lemma starts_with_refl [simp]: "starts_with s s"
  by (simp add: starts_with_def)

lemma js_includes_iff_sublist: "js_includes s p \<longleftrightarrow> sublist p s"
  by (induction s) (auto simp: starts_with_iff_prefix sublist_Cons_right)

lemma index_of_None_iff: "index_of s p = None \<longleftrightarrow> \<not> js_includes s p"
  by (induction s) auto

lemma index_of_SomeD:
  "index_of s p = Some i \<Longrightarrow> starts_with (drop i s) p \<and> i + length p \<le> length s"
proof (induction s arbitrary: i)
  case Nil
  then show ?case by (auto split: if_splits)
next
  case (Cons c s)
  then show ?case
    by (auto simp: starts_with_iff_prefix dest: prefix_length_le split: if_splits)
qed

lemma index_from_SomeD:
  assumes "index_from s p i = Some j"
  shows "starts_with (drop j s) p \<and> j + length p \<le> length s \<and> min i (length s) \<le> j"
proof -
  let ?k = "min i (length s)"
  obtain r where r: "index_of (drop ?k s) p = Some r" and j: "j = ?k + r"
    using assms by (auto simp: index_from_def Let_def)
  from index_of_SomeD [OF r] have
    p: "starts_with (drop r (drop ?k s)) p" and l: "r + length p \<le> length (drop ?k s)"
    by auto
  have d: "drop r (drop ?k s) = drop j s"
    unfolding j by (simp only: drop_drop add.commute)
  show ?thesis using p l unfolding d j by auto
qed

lemma length_js_slice [simp]: "length (js_slice a b s) = min (b - a) (length s - a)"
  by (simp add: js_slice_def)

lemma set_js_last_n: "set (js_last_n n xs) \<subseteq> set xs"
  by (auto simp: js_last_n_def dest: in_set_dropD)

lemma js_split_nonempty [simp]: "js_split c s \<noteq> []"
  by (induction s) (auto split: list.splits)

lemma js_split_no_sep: "c \<notin> set w \<Longrightarrow> js_split c w = [w]"
  by (induction w) auto

lemma js_split_append:
  "c \<notin> set w \<Longrightarrow> js_split c (w @ c # s) = w # js_split c s"
  by (induction w) auto

lemma js_split_sep_free: "w \<in> set (js_split c s) \<Longrightarrow> c \<notin> set w"
proof (induction s arbitrary: w)
  case Nil
  then show ?case by simp
next
  case (Cons x s)
  then show ?case
    by (cases "js_split c s") (auto split: if_splits)
qed

lemma of_char_digit_char: "d < 10 \<Longrightarrow> of_char (digit_char d) = 48 + d"
  by (simp add: digit_char_def)

lemma is_digit_digit_char: "d < 10 \<Longrightarrow> is_digit (digit_char d)"
  by (simp add: is_digit_def of_char_digit_char)

lemma digit_val_digit_char: "d < 10 \<Longrightarrow> digit_val (digit_char d) = d"
  by (simp add: digit_val_def of_char_digit_char)

lemma show_nat_nonempty [simp]: "show_nat n \<noteq> []"
  by (subst show_nat.simps) simp

lemma show_nat_digits: "c \<in> set (show_nat n) \<Longrightarrow> is_digit c"
proof (induction n rule: show_nat.induct)
  case (1 n)
  then show ?case
    by (cases "n < 10") (auto simp: show_nat.simps [of n] is_digit_digit_char)
qed

section \<open>Insertion-ordered maps\<close>

type_synonym ('k, 'v) jsmap = "('k \<times> 'v) list"

fun jset :: "('k, 'v) jsmap \<Rightarrow> 'k \<Rightarrow> 'v \<Rightarrow> ('k, 'v) jsmap" where
  "jset [] k v = [(k, v)]"
| "jset ((k', v') # m) k v = (if k' = k then (k, v) # m else (k', v') # jset m k v)"

definition jdel :: "('k, 'v) jsmap \<Rightarrow> 'k \<Rightarrow> ('k, 'v) jsmap" where
  "jdel m k = filter (\<lambda>kv. fst kv \<noteq> k) m"

definition jhas :: "('k, 'v) jsmap \<Rightarrow> 'k \<Rightarrow> bool" where
  "jhas m k = (map_of m k \<noteq> None)"

definition jwf :: "('k, 'v) jsmap \<Rightarrow> bool" where
  "jwf m = distinct (map fst m)"

lemma map_of_jset [simp, jsmap_simps]:
  "map_of (jset m k v) k' = (if k' = k then Some v else map_of m k')"
  by (induction m k v rule: jset.induct) auto

lemma map_of_jdel [simp, jsmap_simps]:
  "map_of (jdel m k) k' = (if k' = k then None else map_of m k')"
  by (induction m) (auto simp: jdel_def)

lemma jhas_jset [simp, jsmap_simps]: "jhas (jset m k v) k' \<longleftrightarrow> k' = k \<or> jhas m k'"
  by (simp add: jhas_def)

lemma jhas_iff_key: "jhas m k \<longleftrightarrow> k \<in> fst ` set m"
  by (simp add: jhas_def map_of_eq_None_iff)

lemma keys_jset: "map fst (jset m k v) = (if jhas m k then map fst m else map fst m @ [k])"
  by (induction m k v rule: jset.induct) (auto simp: jhas_def)

lemma jset_fresh: "\<not> jhas m k \<Longrightarrow> jset m k v = m @ [(k, v)]"
  by (induction m k v rule: jset.induct) (auto simp: jhas_def split: if_splits)

lemma set_jset_subset: "set (jset m k v) \<subseteq> insert (k, v) (set m)"
  by (induction m k v rule: jset.induct) auto

lemma jwf_Nil [simp]: "jwf []"
  by (simp add: jwf_def)

lemma jwf_jset [simp]: "jwf m \<Longrightarrow> jwf (jset m k v)"
  by (auto simp: jwf_def keys_jset jhas_iff_key)

lemma jwf_jdel [simp]: "jwf m \<Longrightarrow> jwf (jdel m k)"
  by (simp add: jwf_def jdel_def distinct_map_filter)

lemma length_jset: "length (jset m k v) = (if jhas m k then length m else Suc (length m))"
  by (metis keys_jset length_append_singleton length_map)

lemma length_jdel_le: "length (jdel m k) \<le> length m"
  by (simp add: jdel_def)

text \<open>
  The interface the stateful components rely on when they keep a \<open>Map\<close>: what a lookup returns
  after an insertion or a deletion.
\<close>

locale keyed_store =
  fixes get :: "'m \<Rightarrow> 'k \<Rightarrow> 'v option"
    and put :: "'m \<Rightarrow> 'k \<Rightarrow> 'v \<Rightarrow> 'm"
    and del :: "'m \<Rightarrow> 'k \<Rightarrow> 'm"
    and wf :: "'m \<Rightarrow> bool"
  assumes get_put: "get (put m k v) k' = (if k' = k then Some v else get m k')"
    and get_del: "get (del m k) k' = (if k' = k then None else get m k')"
    and wf_put: "wf m \<Longrightarrow> wf (put m k v)"
    and wf_del: "wf m \<Longrightarrow> wf (del m k)"
begin

lemma put_frame: "k' \<noteq> k \<Longrightarrow> get (put m k v) k' = get m k'"
  by (simp add: get_put)

lemma del_after_put: "k' \<noteq> k \<Longrightarrow> get (del (put m k v) k) k' = get m k'"
  by (simp add: get_del get_put)

lemma fold_put_frame: "k \<notin> fst ` set kvs \<Longrightarrow> get (foldl (\<lambda>m kv. put m (fst kv) (snd kv)) m kvs) k = get m k"
  by (induction kvs arbitrary: m) (auto simp: get_put)

end

interpretation jm: keyed_store map_of jset jdel jwf
  by unfold_locales auto

end
