(* ===== verification/Json.thy ===== *)
theory Json
  imports Prelude
begin

text \<open>
  The JavaScript values the platform hashes, persists and parses, with the three conversions the
  code applies to them: \<open>JSON.stringify\<close>, \<open>JSON.parse\<close> and the key-sorted \<open>canonical\<close> of
  src/ledger/ledger.js.  Numbers are integers (the hashed and persisted records hold no others);
  an object is its property list in insertion order, and no property name is an array index.
  \<open>JUndef\<close> is the value \<open>undefined\<close>, which an object may hold and which \<open>JSON.stringify\<close> drops;
  \<open>JNaN\<close> is \<open>NaN\<close>, which arithmetic on a corrupted record can produce and which renders as \<open>null\<close>.
\<close>

datatype json =
    JNull
  | JUndef
  | JNaN
  | JBool bool
  | JNum int
  | JStr string
  | JArr "json list"
  | JObj "(string \<times> json) list"

section \<open>Reading values\<close>

fun obj_get :: "json \<Rightarrow> string \<Rightarrow> json" where
  "obj_get (JObj kvs) k = (case map_of kvs k of None \<Rightarrow> JUndef | Some v \<Rightarrow> v)"
| "obj_get v k = JUndef"

fun truthy :: "json \<Rightarrow> bool" where
  "truthy JNull = False"
| "truthy JUndef = False"
| "truthy JNaN = False"
| "truthy (JBool b) = b"
| "truthy (JNum n) = (n \<noteq> 0)"
| "truthy (JStr s) = (s \<noteq> [])"
| "truthy (JArr xs) = True"
| "truthy (JObj kvs) = True"

fun nullish :: "json \<Rightarrow> bool" where
  "nullish JNull = True"
| "nullish JUndef = True"
| "nullish v = False"

text \<open>\<open>a ?? b\<close> on values.\<close>

definition js_coalesce :: "json \<Rightarrow> json \<Rightarrow> json" where
  "js_coalesce a b = (if nullish a then b else a)"

text \<open>\<open>String(v)\<close>; an array joins its elements, and \<open>null\<close> and \<open>undefined\<close> join as nothing.\<close>

fun js_string :: "json \<Rightarrow> string" where
  "js_string JNull = ''null''"
| "js_string JUndef = ''undefined''"
| "js_string JNaN = ''NaN''"
| "js_string (JBool b) = (if b then ''true'' else ''false'')"
| "js_string (JNum n) = show_int n"
| "js_string (JStr s) = s"
| "js_string (JArr xs) = js_join '','' (map (\<lambda>x. if nullish x then [] else js_string x) xs)"
| "js_string (JObj kvs) = ''[object Object]''"

section \<open>\<open>JSON.stringify\<close>\<close>

definition hex_digit :: "nat \<Rightarrow> char" where
  "hex_digit d = (if d < 10 then char_of (48 + d) else char_of (87 + d))"

definition esc_char :: "char \<Rightarrow> string" where
  "esc_char c =
     (let n = (of_char c :: nat) in
      if n = 34 then [CHR 0x5C, CHR 0x22]
      else if n = 92 then [CHR 0x5C, CHR 0x5C]
      else if n = 8 then [CHR 0x5C, CHR ''b'']
      else if n = 12 then [CHR 0x5C, CHR ''f'']
      else if n = 10 then [CHR 0x5C, CHR ''n'']
      else if n = 13 then [CHR 0x5C, CHR ''r'']
      else if n = 9 then [CHR 0x5C, CHR ''t'']
      else if n < 32 then [CHR 0x5C, CHR ''u'', CHR ''0'', CHR ''0'', hex_digit (n div 16), hex_digit (n mod 16)]
      else [c])"

definition json_quote :: "string \<Rightarrow> string" where
  "json_quote s = CHR 0x22 # concat (map esc_char s) @ [CHR 0x22]"

fun json_str :: "json \<Rightarrow> string" where
  "json_str JNull = ''null''"
| "json_str JUndef = ''null''"
| "json_str JNaN = ''null''"
| "json_str (JBool b) = (if b then ''true'' else ''false'')"
| "json_str (JNum n) = show_int n"
| "json_str (JStr s) = json_quote s"
| "json_str (JArr xs) = ''['' @ js_join '','' (map json_str xs) @ '']''"
| "json_str (JObj kvs) =
     ''{'' @ js_join '','' (map (\<lambda>(k, v). json_quote k @ '':'' @ json_str v)
                          (filter (\<lambda>(k, v). v \<noteq> JUndef) kvs)) @ ''}''"

text \<open>\<open>undefined\<close> has no rendering of its own: \<open>JSON.stringify(undefined)\<close> is \<open>undefined\<close>.\<close>

definition json_stringify :: "json \<Rightarrow> string option" where
  "json_stringify v = (if v = JUndef then None else Some (json_str v))"

section \<open>\<open>canonical\<close> of the ledger\<close>

text \<open>
  \<open>canonical\<close> sorts the keys of every object and, unlike \<open>JSON.stringify\<close>, keeps a property
  whose value is \<open>undefined\<close>, rendered as the bare word; \<open>Array.prototype.join\<close> renders an
  \<open>undefined\<close> element as nothing.
\<close>

fun canonical :: "json \<Rightarrow> string option" where
  "canonical (JArr xs) =
     Some (''['' @ js_join '','' (map (\<lambda>x. case canonical x of None \<Rightarrow> [] | Some s \<Rightarrow> s) xs) @ '']'')"
| "canonical (JObj kvs) =
     Some (''{'' @ js_join '','' (map (\<lambda>(k, t). json_quote k @ '':'' @ (case t of None \<Rightarrow> ''undefined'' | Some s \<Rightarrow> s))
                          (sort_key fst (map (\<lambda>(k, v). (k, canonical v)) kvs))) @ ''}'')"
| "canonical v = json_stringify v"

section \<open>\<open>JSON.parse\<close>\<close>

definition json_ws :: "char \<Rightarrow> bool" where
  "json_ws c = ((of_char c :: nat) \<in> {9, 10, 13, 32})"

abbreviation skip_ws :: "string \<Rightarrow> string" where
  "skip_ws s \<equiv> dropWhile json_ws s"

definition hex_val :: "char \<Rightarrow> nat option" where
  "hex_val c =
     (let n = (of_char c :: nat) in
      if 48 \<le> n \<and> n \<le> 57 then Some (n - 48)
      else if 97 \<le> n \<and> n \<le> 102 then Some (n - 87)
      else if 65 \<le> n \<and> n \<le> 70 then Some (n - 55) else None)"

definition unescape :: "char \<Rightarrow> char option" where
  "unescape e =
     (if e = CHR 0x22 then Some (CHR 0x22)
      else if e = CHR 0x5C then Some (CHR 0x5C)
      else if e = CHR ''/'' then Some (CHR ''/'')
      else if e = CHR ''b'' then Some (CHR 0x08)
      else if e = CHR ''f'' then Some (CHR 0x0C)
      else if e = CHR ''n'' then Some (CHR 0x0A)
      else if e = CHR ''r'' then Some (CHR 0x0D)
      else if e = CHR ''t'' then Some (CHR 0x09)
      else None)"

text \<open>The body of a string literal, behind the opening quote: its value and what follows.\<close>

definition hex_pair :: "char \<Rightarrow> char \<Rightarrow> char option" where
  "hex_pair a b =
     (case (hex_val a, hex_val b) of (Some x, Some y) \<Rightarrow> Some (char_of (16 * x + y)) | _ \<Rightarrow> None)"

fun pstr :: "string \<Rightarrow> (string \<times> string) option" where
  "pstr [] = None"
| "pstr (c # r) =
     (if c = CHR 0x22 then Some ([], r)
      else if c = CHR 0x5C then
        (case r of
           e # z1 # z2 # a # b # r' \<Rightarrow>
             (if e = CHR ''u'' then
                (if z1 = CHR ''0'' \<and> z2 = CHR ''0'' then
                   (case hex_pair a b of
                      None \<Rightarrow> None
                    | Some d \<Rightarrow> map_option (\<lambda>(s, t). (d # s, t)) (pstr r'))
                 else None)
              else (case unescape e of
                      None \<Rightarrow> None
                    | Some d \<Rightarrow> map_option (\<lambda>(s, t). (d # s, t)) (pstr (z1 # z2 # a # b # r'))))
         | e # r' \<Rightarrow>
             (case unescape e of
                None \<Rightarrow> None
              | Some d \<Rightarrow> map_option (\<lambda>(s, t). (d # s, t)) (pstr r'))
         | [] \<Rightarrow> None)
      else if (of_char c :: nat) < 32 then None
      else map_option (\<lambda>(s, t). (c # s, t)) (pstr r))"

fun nat_of_digits :: "nat \<Rightarrow> string \<Rightarrow> nat" where
  "nat_of_digits a [] = a"
| "nat_of_digits a (c # s) = nat_of_digits (10 * a + digit_val c) s"

text \<open>An integer literal; a fraction or an exponent is outside the numbers modelled.\<close>

definition pnat :: "string \<Rightarrow> (nat \<times> string) option" where
  "pnat s =
     (let ds = takeWhile is_digit s; r = dropWhile is_digit s in
      if ds = [] \<or> (hd ds = CHR ''0'' \<and> length ds \<noteq> 1) then None
      else (case r of
              [] \<Rightarrow> Some (nat_of_digits 0 ds, [])
            | c # r' \<Rightarrow> if c \<in> {CHR ''.'', CHR ''e'', CHR ''E''} then None
                         else Some (nat_of_digits 0 ds, r)))"

definition pnum :: "string \<Rightarrow> (json \<times> string) option" where
  "pnum s =
     (case s of
        [] \<Rightarrow> None
      | c # r \<Rightarrow>
          if c = CHR ''-'' then map_option (\<lambda>(n, t). (JNum (- int n), t)) (pnat r)
          else map_option (\<lambda>(n, t). (JNum (int n), t)) (pnat s))"

text \<open>
  The recursive descent.  Each call spends one unit of fuel and every nested value consumes at
  least one character, so the length of the text is fuel enough (\<open>json_parse_str\<close> below).
\<close>

fun pval :: "nat \<Rightarrow> string \<Rightarrow> (json \<times> string) option"
  and pelems :: "nat \<Rightarrow> json list \<Rightarrow> string \<Rightarrow> (json \<times> string) option"
  and pmembers :: "nat \<Rightarrow> (string \<times> json) list \<Rightarrow> string \<Rightarrow> (json \<times> string) option" where
  "pval 0 s = None"
| "pval (Suc n) s =
     (case skip_ws s of
        [] \<Rightarrow> None
      | c # r \<Rightarrow>
          if c = CHR 0x22 then map_option (\<lambda>(t, u). (JStr t, u)) (pstr r)
          else if c = CHR ''['' then
            (if starts_with (skip_ws r) '']'' then Some (JArr [], tl (skip_ws r))
             else pelems n [] r)
          else if c = CHR ''{'' then
            (if starts_with (skip_ws r) ''}'' then Some (JObj [], tl (skip_ws r))
             else pmembers n [] r)
          else if starts_with (c # r) ''null'' then Some (JNull, drop 4 (c # r))
          else if starts_with (c # r) ''true'' then Some (JBool True, drop 4 (c # r))
          else if starts_with (c # r) ''false'' then Some (JBool False, drop 5 (c # r))
          else pnum (c # r))"
| "pelems 0 acc s = None"
| "pelems (Suc n) acc s =
     (case pval n s of
        None \<Rightarrow> None
      | Some (v, t) \<Rightarrow>
          (case skip_ws t of
             [] \<Rightarrow> None
           | c # u \<Rightarrow>
               if c = CHR '','' then pelems n (acc @ [v]) u
               else if c = CHR '']'' then Some (JArr (acc @ [v]), u) else None))"
| "pmembers 0 acc s = None"
| "pmembers (Suc n) acc s =
     (case skip_ws s of
        [] \<Rightarrow> None
      | c # r \<Rightarrow>
          if c \<noteq> CHR 0x22 then None
          else (case pstr r of
                  None \<Rightarrow> None
                | Some (k, t) \<Rightarrow>
                    (case skip_ws t of
                       [] \<Rightarrow> None
                     | d # u \<Rightarrow>
                         if d \<noteq> CHR '':'' then None
                         else (case pval n u of
                                 None \<Rightarrow> None
                               | Some (v, w) \<Rightarrow>
                                   (case skip_ws w of
                                      [] \<Rightarrow> None
                                    | e # x \<Rightarrow>
                                        if e = CHR '','' then pmembers n (jset acc k v) x
                                        else if e = CHR ''}'' then Some (JObj (jset acc k v), x)
                                        else None)))))"

definition json_parse :: "string \<Rightarrow> json option" where
  "json_parse s =
     (case pval (Suc (length s)) s of
        None \<Rightarrow> None
      | Some (v, r) \<Rightarrow> if skip_ws r = [] then Some v else None)"

end
