(* ===== verification/Bus.thy ===== *)
theory Bus
  imports Json
begin

text \<open>
  The event bus of src/bus.js and the viewer sockets that src/api/outputs.js bridges to it: one
  topic per output path, and frames dropped, not queued, for a viewer that lags.

  What a socket reports when an event arrives (is it open, how much does it still buffer, does the
  send throw) comes from outside: it is the argument \<open>wire\<close>, by viewer.
\<close>

definition bus_topics :: "string list" where
  "bus_topics = [''frame'', ''observation'', ''agent'', ''agentic'', ''audit'']"

definition topic_by_path :: "(string, string) jsmap" where
  "topic_by_path =
     [(''/v1/out/frames'', ''frame''), (''/v1/out/observations'', ''observation''), (''/v1/out/agents'', ''agent''),
      (''/v1/out/agentic'', ''agentic''), (''/v1/out/audit'', ''audit'')]"

definition output_topic_for :: "string \<Rightarrow> string option" where
  "output_topic_for path = map_of topic_by_path path"

definition max_buffered_for :: "string \<Rightarrow> nat" where
  "max_buffered_for topic =
     (case map_of [(''frame'', 160 * 1024), (''observation'', 512 * 1024), (''agent'', 1024 * 1024),
                   (''agentic'', 512 * 1024), (''audit'', 1024 * 1024)] topic of
        None \<Rightarrow> 512 * 1024
      | Some n \<Rightarrow> n)"

record socket_state =
  so_open :: bool
  so_buffered :: nat
  so_throws :: bool

type_synonym wire = "nat \<Rightarrow> socket_state"

record viewer =
  vw_id :: nat
  vw_topic :: string
  vw_max :: nat
  vw_got :: "string list"
  vw_dropped :: nat

record bus =
  bu_viewers :: "viewer list"
  bu_published :: nat
  bu_next :: nat

definition create_bus :: bus where
  "create_bus = \<lparr>bu_viewers = [], bu_published = 0, bu_next = 0\<rparr>"

definition unknown_topic :: "string \<Rightarrow> string" where
  "unknown_topic topic = ''unknown bus topic \"'' @ topic @ ''\"''"

text \<open>\<open>bridgeSocket\<close>: subscribes the socket; its identity is the unsubscribe function.\<close>

definition bridge_socket :: "string \<Rightarrow> nat option \<Rightarrow> bus \<Rightarrow> (string + nat) \<times> bus" where
  "bridge_socket topic limit b =
     (if topic \<notin> set bus_topics then (Inl (unknown_topic topic), b)
      else
        (Inr (bu_next b),
         b\<lparr>bu_viewers := bu_viewers b @
             [\<lparr>vw_id = bu_next b, vw_topic = topic,
               vw_max = (case limit of None \<Rightarrow> max_buffered_for topic | Some n \<Rightarrow> n), vw_got = [], vw_dropped = 0\<rparr>],
           bu_next := Suc (bu_next b)\<rparr>))"

definition unsubscribe :: "nat \<Rightarrow> bus \<Rightarrow> bus" where
  "unsubscribe i b = b\<lparr>bu_viewers := filter (\<lambda>v. vw_id v \<noteq> i) (bu_viewers b)\<rparr>"

text \<open>The subscriber that the bridge installs.\<close>

definition deliver :: "wire \<Rightarrow> string \<Rightarrow> viewer \<Rightarrow> viewer" where
  "deliver w text v =
     (let s = w (vw_id v) in
      if \<not> so_open s then v
      else if so_buffered s > vw_max v then v\<lparr>vw_dropped := Suc (vw_dropped v)\<rparr>
      else if so_throws s then v
      else v\<lparr>vw_got := vw_got v @ [text]\<rparr>)"

text \<open>\<open>{...base, ...fields}\<close>.\<close>

definition spread_onto :: "(string \<times> json) list \<Rightarrow> (string \<times> json) list \<Rightarrow> (string \<times> json) list" where
  "spread_onto base fs = foldl (\<lambda>m kv. jset m (fst kv) (snd kv)) base fs"

definition enveloped :: "string \<Rightarrow> string \<Rightarrow> (string \<times> json) list \<Rightarrow> (string \<times> json) list" where
  "enveloped topic now event =
     foldl (\<lambda>m kv. jset m (fst kv) (snd kv)) [(''topic'', JStr topic), (''at'', JStr now)] event"

text \<open>What goes over the wire: a precomposed text as it is, or the rendering of the event.\<close>

definition wire_text :: "(string \<times> json) list \<Rightarrow> string" where
  "wire_text event =
     (let p = obj_get (JObj event) ''precomposed'' in
      case p of JStr s \<Rightarrow> s | _ \<Rightarrow> if nullish p then json_str (JObj event) else js_string p)"

definition publish ::
  "wire \<Rightarrow> string \<Rightarrow> string \<Rightarrow> (string \<times> json) list \<Rightarrow> bus \<Rightarrow> (string + (string \<times> json) list) \<times> bus" where
  "publish w now topic event b =
     (if topic \<notin> set bus_topics then (Inl (unknown_topic topic), b)
      else
        (let e = enveloped topic now event in
         (Inr e,
          b\<lparr>bu_published := Suc (bu_published b),
            bu_viewers := map (\<lambda>v. if vw_topic v = topic then deliver w (wire_text e) v else v) (bu_viewers b)\<rparr>)))"

definition subscriber_count :: "string \<Rightarrow> bus \<Rightarrow> nat" where
  "subscriber_count topic b = length (filter (\<lambda>v. vw_topic v = topic) (bu_viewers b))"

section \<open>What a viewer receives\<close>

record publication =
  pb_wire :: wire
  pb_now :: string
  pb_topic :: string
  pb_event :: "(string \<times> json) list"

definition publish_all :: "publication list \<Rightarrow> bus \<Rightarrow> bus" where
  "publish_all ps b = foldl (\<lambda>b p. snd (publish (pb_wire p) (pb_now p) (pb_topic p) (pb_event p) b)) b ps"

definition viewer_of :: "nat \<Rightarrow> bus \<Rightarrow> viewer option" where
  "viewer_of i b = find (\<lambda>v. vw_id v = i) (bu_viewers b)"

definition ids_distinct :: "bus \<Rightarrow> bool" where
  "ids_distinct b = (distinct (map vw_id (bu_viewers b)) \<and> (\<forall>v \<in> set (bu_viewers b). vw_id v < bu_next b))"

text \<open>A publication reaches a viewer: its topic, an open socket that keeps up, a send that works.\<close>

definition reaches :: "viewer \<Rightarrow> publication \<Rightarrow> bool" where
  "reaches v p =
     (pb_topic p = vw_topic v \<and> pb_topic p \<in> set bus_topics \<and> so_open (pb_wire p (vw_id v)) \<and>
      so_buffered (pb_wire p (vw_id v)) \<le> vw_max v \<and> \<not> so_throws (pb_wire p (vw_id v)))"

definition text_of :: "publication \<Rightarrow> string" where
  "text_of p = wire_text (enveloped (pb_topic p) (pb_now p) (pb_event p))"

lemma deliver_fields [simp]:
  "vw_id (deliver w t v) = vw_id v" "vw_topic (deliver w t v) = vw_topic v" "vw_max (deliver w t v) = vw_max v"
  by (simp_all add: deliver_def Let_def)

lemma ids_distinct_create [simp]: "ids_distinct create_bus"
  by (simp add: ids_distinct_def create_bus_def)

lemma ids_distinct_bridge: "ids_distinct b \<Longrightarrow> ids_distinct (snd (bridge_socket topic limit b))"
  by (auto simp: ids_distinct_def bridge_socket_def)

lemma ids_distinct_unsubscribe: "ids_distinct b \<Longrightarrow> ids_distinct (unsubscribe i b)"
  by (auto simp: ids_distinct_def unsubscribe_def distinct_map_filter)

lemma publish_viewers:
  "snd (publish w now topic event b) =
     (if topic \<in> set bus_topics
      then b\<lparr>bu_published := Suc (bu_published b),
             bu_viewers := map (\<lambda>v. if vw_topic v = topic then deliver w (wire_text (enveloped topic now event)) v else v) (bu_viewers b)\<rparr>
      else b)"
  by (simp add: publish_def Let_def)

lemma ids_distinct_publish: "ids_distinct b \<Longrightarrow> ids_distinct (snd (publish w now topic event b))"
proof -
  have "map vw_id (map (\<lambda>v. if vw_topic v = topic then deliver w t v else v) vs) = map vw_id vs" for t vs
    by (induction vs) auto
  then show "ids_distinct b \<Longrightarrow> ?thesis" by (auto simp: ids_distinct_def publish_viewers simp del: map_map)
qed

lemma find_map: "(\<And>x. P (f x) = P x) \<Longrightarrow> find P (map f xs) = map_option f (find P xs)"
  by (induction xs) auto

lemma viewer_of_publish:
  "viewer_of i (snd (publish w now topic event b)) =
     (if topic \<in> set bus_topics
      then map_option (\<lambda>v. if vw_topic v = topic then deliver w (wire_text (enveloped topic now event)) v else v) (viewer_of i b)
      else viewer_of i b)"
  by (simp add: viewer_of_def publish_viewers find_map)

text \<open>A viewer receives exactly the events of its own topic that its socket could take, each
  once and in the order of their publication, whatever the other viewers do and however often their
  sockets throw or lag.\<close>

theorem bus_delivers:
  assumes "viewer_of i b = Some v"
  shows "\<exists>v'. viewer_of i (publish_all ps b) = Some v' \<and> vw_topic v' = vw_topic v \<and>
           vw_got v' = vw_got v @ map text_of (filter (reaches v) ps)"
  using assms
proof (induction ps arbitrary: b v)
  case Nil
  then show ?case by (simp add: publish_all_def)
next
  case (Cons p ps)
  let ?b = "snd (publish (pb_wire p) (pb_now p) (pb_topic p) (pb_event p) b)"
  let ?v = "if pb_topic p \<in> set bus_topics \<and> vw_topic v = pb_topic p then deliver (pb_wire p) (text_of p) v else v"
  have "viewer_of i ?b = Some ?v"
    using Cons.prems by (auto simp: viewer_of_publish text_of_def)
  from Cons.IH [OF this] obtain v' where v': "viewer_of i (publish_all ps ?b) = Some v'" "vw_topic v' = vw_topic ?v"
      "vw_got v' = vw_got ?v @ map text_of (filter (reaches ?v) ps)" by blast
  have "reaches ?v = reaches v" by (auto simp: reaches_def fun_eq_iff)
  moreover have "vw_got ?v = vw_got v @ (if reaches v p then [text_of p] else [])"
    by (auto simp: reaches_def deliver_def Let_def)
  moreover have "publish_all (p # ps) b = publish_all ps ?b" by (simp add: publish_all_def)
  ultimately show ?case using v' by auto
qed

definition demo_bus :: bus where
  "demo_bus = snd (bridge_socket ''agent'' None (snd (bridge_socket ''audit'' None create_bus)))"

definition calm :: wire where
  "calm i = \<lparr>so_open = True, so_buffered = (if i = 0 then 2000000 else 0), so_throws = False\<rparr>"

theorem bus_delivers_witness:
  "\<exists>v'. viewer_of 1 (publish_all [\<lparr>pb_wire = calm, pb_now = ''t'', pb_topic = ''agent'', pb_event = []\<rparr>] demo_bus) = Some v' \<and>
     vw_got v' = [''{\"topic\":\"agent\",\"at\":\"t\"}'']"
proof -
  define v where "v = \<lparr>vw_id = 1, vw_topic = ''agent'', vw_max = 1048576, vw_got = [], vw_dropped = 0\<rparr>"
  have "viewer_of 1 demo_bus = Some v"
    by (simp add: viewer_of_def demo_bus_def bridge_socket_def create_bus_def bus_topics_def max_buffered_for_def v_def)
  from bus_delivers [OF this, of "[\<lparr>pb_wire = calm, pb_now = ''t'', pb_topic = ''agent'', pb_event = []\<rparr>]"]
  show ?thesis
    by (auto simp: reaches_def v_def calm_def bus_topics_def text_of_def wire_text_def enveloped_def Let_def json_quote_def esc_char_def)
qed

end
