(* ===== verification/Js_Regex.thy ===== *)
theory Js_Regex
  imports Prelude
begin

text \<open>
  The regular expressions of ECMAScript that the modelled code uses: character classes,
  sequence, alternation, greedy and lazy bounded repetition, the anchors \<open>^\<close> and \<open>$\<close> and the
  word boundary \<open>\b\<close>.  A position is the pair of the text already passed (reversed) and the
  text ahead; \<open>rx_match\<close> lists the end positions of a match in the order a backtracking matcher
  tries them, so its head is the match the language reports.  \<open>rx_search\<close> is the leftmost match,
  \<open>rx_test\<close>, \<open>rx_replace\<close> and \<open>rx_replace_all\<close> are \<open>RegExp.prototype.test\<close> and the two forms
  of \<open>String.prototype.replace\<close>.
\<close>

datatype rx =
    Sat "char \<Rightarrow> bool"
  | Eps
  | Seq rx rx
  | Alt rx rx
  | Rep bool nat "nat option" rx
  | Bol
  | Eol
  | Wb

type_synonym pos = "string \<times> string"

definition word_char :: "char \<Rightarrow> bool" where
  "word_char c =
     (let n = (of_char c :: nat) in
      (48 \<le> n \<and> n \<le> 57) \<or> (65 \<le> n \<and> n \<le> 90) \<or> (97 \<le> n \<and> n \<le> 122) \<or> n = 95)"

fun head_word :: "string \<Rightarrow> bool" where
  "head_word [] = False"
| "head_word (c # s) = word_char c"

text \<open>
  Repetition.  An iteration that consumes nothing is dropped once the minimum is reached (the
  rule of ECMAScript that makes \<open>(a*)*\<close> terminate).  The fuel bounds the number of iterations;
  \<open>rep_m_fuel\<close> below shows that the fuel \<open>rx_match\<close> passes is always enough.
\<close>

fun rep_m :: "(pos \<Rightarrow> pos list) \<Rightarrow> bool \<Rightarrow> nat \<Rightarrow> nat \<Rightarrow> nat option \<Rightarrow> pos \<Rightarrow> pos list" where
  "rep_m f g 0 lo hi p = []"
| "rep_m f g (Suc n) lo hi p =
     (let more =
        (if hi = Some 0 then []
         else concat (map (\<lambda>q. if lo = 0 \<and> length (snd q) = length (snd p) then []
                               else rep_m f g n (lo - 1) (map_option (\<lambda>h. h - 1) hi) q) (f p)))
      in if 0 < lo then more else if g then more @ [p] else p # more)"

primrec rx_match :: "rx \<Rightarrow> pos \<Rightarrow> pos list" where
  "rx_match (Sat P) p =
     (case snd p of [] \<Rightarrow> [] | c # s \<Rightarrow> if P c then [(c # fst p, s)] else [])"
| "rx_match Eps p = [p]"
| "rx_match (Seq a b) p = concat (map (rx_match b) (rx_match a p))"
| "rx_match (Alt a b) p = rx_match a p @ rx_match b p"
| "rx_match (Rep g lo hi r) p = rep_m (rx_match r) g (Suc (lo + length (snd p))) lo hi p"
| "rx_match Bol p = (if fst p = [] then [p] else [])"
| "rx_match Eol p = (if snd p = [] then [p] else [])"
| "rx_match Wb p = (if head_word (fst p) \<noteq> head_word (snd p) then [p] else [])"

fun rx_search_from :: "rx \<Rightarrow> string \<Rightarrow> string \<Rightarrow> (pos \<times> pos) option" where
  "rx_search_from r pre [] =
     (case rx_match r (pre, []) of q # _ \<Rightarrow> Some ((pre, []), q) | [] \<Rightarrow> None)"
| "rx_search_from r pre (c # s) =
     (case rx_match r (pre, c # s) of
        q # _ \<Rightarrow> Some ((pre, c # s), q)
      | [] \<Rightarrow> rx_search_from r (c # pre) s)"

definition rx_search :: "rx \<Rightarrow> string \<Rightarrow> (pos \<times> pos) option" where
  "rx_search r s = rx_search_from r [] s"

definition rx_test :: "rx \<Rightarrow> string \<Rightarrow> bool" where
  "rx_test r s = (rx_search r s \<noteq> None)"

text \<open>\<open>s.replace(re, w)\<close> without the \<open>g\<close> flag: only the leftmost match is replaced.\<close>

definition rx_replace :: "rx \<Rightarrow> string \<Rightarrow> string \<Rightarrow> string" where
  "rx_replace r s w =
     (case rx_search r s of
        None \<Rightarrow> s
      | Some (p, q) \<Rightarrow> rev (fst p) @ w @ snd q)"

text \<open>
  \<open>s.replace(re, w)\<close> with the \<open>g\<close> flag.  The search goes on behind each match, one unit further
  behind an empty one; the passed text stays available to \<open>^\<close> and \<open>\b\<close>.
\<close>

fun rx_replace_from :: "nat \<Rightarrow> rx \<Rightarrow> string \<Rightarrow> string \<Rightarrow> string \<Rightarrow> string" where
  "rx_replace_from 0 r pre s w = s"
| "rx_replace_from (Suc n) r pre s w =
     (case rx_search_from r pre s of
        None \<Rightarrow> s
      | Some (p, q) \<Rightarrow>
          take (length s - length (snd p)) s @ w @
          (if snd q = snd p
           then (case snd q of [] \<Rightarrow> [] | c # t \<Rightarrow> c # rx_replace_from n r (c # fst q) t w)
           else rx_replace_from n r (fst q) (snd q) w))"

definition rx_replace_all :: "rx \<Rightarrow> string \<Rightarrow> string \<Rightarrow> string" where
  "rx_replace_all r s w = rx_replace_from (Suc (length s)) r [] s w"

subsection \<open>Derived forms\<close>

definition rx_lit :: "string \<Rightarrow> rx" where
  "rx_lit s = foldr (\<lambda>c r. Seq (Sat (\<lambda>d. d = c)) r) s Eps"

text \<open>A literal under the \<open>i\<close> flag (written in lower case).\<close>

definition rx_lit_i :: "string \<Rightarrow> rx" where
  "rx_lit_i s = foldr (\<lambda>c r. Seq (Sat (\<lambda>d. js_lower_char d = c)) r) s Eps"

fun rx_alts :: "rx list \<Rightarrow> rx" where
  "rx_alts [] = Sat (\<lambda>c. False)"
| "rx_alts [r] = r"
| "rx_alts (r # rs) = Alt r (rx_alts rs)"

fun rx_seqs :: "rx list \<Rightarrow> rx" where
  "rx_seqs [] = Eps"
| "rx_seqs [r] = r"
| "rx_seqs (r # rs) = Seq r (rx_seqs rs)"

definition rx_star :: "rx \<Rightarrow> rx" where
  "rx_star r = Rep True 0 None r"

definition rx_plus :: "rx \<Rightarrow> rx" where
  "rx_plus r = Rep True 1 None r"

definition rx_opt :: "rx \<Rightarrow> rx" where
  "rx_opt r = Rep True 0 (Some 1) r"

text \<open>\<open>.\<close>: any unit but a line terminator (LF and CR in the range modelled), \<open>\s\<close> and \<open>\d\<close>.\<close>

definition dot_char :: "char \<Rightarrow> bool" where
  "dot_char c = ((of_char c :: nat) \<noteq> 10 \<and> (of_char c :: nat) \<noteq> 13)"

definition rx_ws :: rx where
  "rx_ws = Sat js_ws"

subsection \<open>The matcher advances, and its fuel is enough\<close>

definition advances :: "pos \<Rightarrow> pos \<Rightarrow> bool" where
  "advances p q = (\<exists>w. fst q = rev w @ fst p \<and> snd p = w @ snd q)"

lemma advances_refl [simp, intro]: "advances p p"
  by (auto simp: advances_def)

lemma advances_trans: "advances p q \<Longrightarrow> advances q r \<Longrightarrow> advances p r"
  unfolding advances_def by (metis append.assoc rev_append)

lemma advances_length: "advances p q \<Longrightarrow> length (snd q) \<le> length (snd p)"
  by (auto simp: advances_def)

lemma rep_m_advances:
  assumes "\<And>p q. q \<in> set (f p) \<Longrightarrow> advances p q"
  shows "q \<in> set (rep_m f g n lo hi p) \<Longrightarrow> advances p q"
proof (induction n arbitrary: lo hi p)
  case 0
  then show ?case by simp
next
  case (Suc n)
  have step: "advances p q"
    if "q' \<in> set (f p)" "q \<in> set (rep_m f g n lo' hi' q')" for q' lo' hi'
    using Suc.IH [OF that(2)] assms [OF that(1)] advances_trans by blast
  show ?case using Suc.prems step
    by (auto simp: Let_def split: if_splits)
qed

lemma rx_match_advances: "q \<in> set (rx_match r p) \<Longrightarrow> advances p q"
proof (induction r arbitrary: p q)
  case (Sat P)
  then show ?case
    by (auto simp: advances_def split: list.splits if_splits intro: exI [of _ "[hd (snd p)]"])
next
  case (Seq a b)
  then obtain m where "m \<in> set (rx_match a p)" "q \<in> set (rx_match b m)" by auto
  with Seq.IH show ?case using advances_trans by blast
next
  case (Rep g lo hi r)
  from Rep.prems have "q \<in> set (rep_m (rx_match r) g (Suc (lo + length (snd p))) lo hi p)"
    by (simp only: rx_match.simps)
  with Rep.IH show ?case by (rule rep_m_advances)
qed (auto split: if_splits)

lemma rep_m_fuel:
  assumes "\<And>p q. q \<in> set (f p) \<Longrightarrow> length (snd q) \<le> length (snd p)"
  shows "lo + length (snd p) < n \<Longrightarrow> lo + length (snd p) < m \<Longrightarrow>
     rep_m f g n lo hi p = rep_m f g m lo hi p"
proof (induction n arbitrary: m lo hi p)
  case 0
  then show ?case by simp
next
  case (Suc n)
  then obtain m' where m: "m = Suc m'" by (cases m) auto
  have step: "rep_m f g n (lo - 1) h q = rep_m f g m' (lo - 1) h q"
    if "q \<in> set (f p)" "\<not> (lo = 0 \<and> length (snd q) = length (snd p))" for q h
  proof (rule Suc.IH)
    have "length (snd q) \<le> length (snd p)" using assms that(1) by blast
    then show "lo - 1 + length (snd q) < n" "lo - 1 + length (snd q) < m'"
      using Suc.prems that(2) m by (cases lo; simp)+
  qed
  have "map (\<lambda>q. if lo = 0 \<and> length (snd q) = length (snd p) then []
                 else rep_m f g n (lo - 1) (map_option (\<lambda>h. h - 1) hi) q) (f p)
      = map (\<lambda>q. if lo = 0 \<and> length (snd q) = length (snd p) then []
                 else rep_m f g m' (lo - 1) (map_option (\<lambda>h. h - 1) hi) q) (f p)"
    using step by (intro map_cong) auto
  then show ?case by (simp only: m rep_m.simps)
qed

text \<open>So \<open>rx_match\<close> of a repetition does not depend on the fuel, once it exceeds the bound.\<close>

lemma rx_match_rep_fuel:
  assumes "lo + length (snd p) < n"
  shows "rx_match (Rep g lo hi r) p = rep_m (rx_match r) g n lo hi p"
proof -
  have "length (snd q') \<le> length (snd p')" if "q' \<in> set (rx_match r p')" for p' q'
    using rx_match_advances [OF that] by (rule advances_length)
  from rep_m_fuel [OF this, where n = "Suc (lo + length (snd p))" and m = n] assms
  show ?thesis by simp
qed

lemma rx_search_from_SomeD:
  "rx_search_from r pre s = Some (p, q) \<Longrightarrow>
     advances (pre, s) p \<and> q \<in> set (rx_match r p)"
proof (induction r pre s rule: rx_search_from.induct)
  case (1 r pre)
  then show ?case by (auto split: list.splits)
next
  case (2 r pre c s)
  show ?case
  proof (cases "rx_match r (pre, c # s)")
    case Nil
    with 2 have "advances (c # pre, s) p" "q \<in> set (rx_match r p)" by auto
    moreover have "advances (pre, c # s) (c # pre, s)"
      by (auto simp: advances_def intro: exI [of _ "[c]"])
    ultimately show ?thesis using advances_trans by blast
  next
    case (Cons a list)
    then show ?thesis using "2.prems" by auto
  qed
qed

lemma rx_search_from_None:
  "rx_search_from r pre s = None \<Longrightarrow> advances (pre, s) p \<Longrightarrow> rx_match r p = []"
proof (induction r pre s rule: rx_search_from.induct)
  case (1 r pre)
  then show ?case
    by (cases p) (auto simp: advances_def split: list.splits)
next
  case (2 r pre c s)
  from "2.prems"(1) have e: "rx_match r (pre, c # s) = []"
    by (auto split: list.splits)
  show ?case
  proof (cases "p = (pre, c # s)")
    case True
    with e show ?thesis by simp
  next
    case False
    with "2.prems"(2) have "advances (c # pre, s) p"
      by (cases p) (fastforce simp: advances_def Cons_eq_append_conv)
    then show ?thesis using 2 e by simp
  qed
qed

text \<open>\<open>rx_test\<close> is exactly "the expression matches somewhere".\<close>

lemma rx_test_iff: "rx_test r s \<longleftrightarrow> (\<exists>p. advances ([], s) p \<and> rx_match r p \<noteq> [])"
proof
  assume "rx_test r s"
  then obtain p q where "rx_search_from r [] s = Some (p, q)"
    by (auto simp: rx_test_def rx_search_def)
  from rx_search_from_SomeD [OF this] show "\<exists>p. advances ([], s) p \<and> rx_match r p \<noteq> []"
    by (metis empty_iff empty_set)
next
  assume "\<exists>p. advances ([], s) p \<and> rx_match r p \<noteq> []"
  then show "rx_test r s"
    using rx_search_from_None [of r "[]" s] unfolding rx_test_def rx_search_def by blast
qed

lemma rx_replace_no_match: "\<not> rx_test r s \<Longrightarrow> rx_replace r s w = s"
  by (simp only: rx_test_def rx_replace_def not_not option.case)

lemma length_rx_replace: "length (rx_replace r s w) \<le> length s + length w"
proof (cases "rx_search r s")
  case None
  then show ?thesis by (simp add: rx_replace_def)
next
  case (Some pq)
  obtain p q where pq: "pq = (p, q)" by (cases pq)
  from Some pq have "advances ([], s) p" "q \<in> set (rx_match r p)"
    using rx_search_from_SomeD by (auto simp: rx_search_def)
  then have "length (fst p) + length (snd p) = length s" "length (snd q) \<le> length (snd p)"
    using advances_length [OF rx_match_advances] by (auto simp: advances_def)
  then show ?thesis using Some pq by (simp add: rx_replace_def)
qed

end
