(* ===== verification/Agentic.thy ===== *)
theory Agentic
  imports Bus Js_Regex
begin

text \<open>
  The narration of src/telemetry/agentic.js: which events it publishes, and how a detail is bounded and its
  secrets are replaced.  \<open>dots\<close> is the ellipsis, a character outside of the range modelled.
\<close>

definition agentic_events :: "string list" where
  "agentic_events =
     [''orchestration.route'', ''agent.message'', ''tool.call'', ''tool.result'', ''api.call'', ''api.result'', ''inference.call'',
      ''inference.result'']"

definition max_detail_chars :: nat where
  "max_detail_chars = 600"

text \<open>\<open>s.replace(re, f)\<close> with the \<open>g\<close> flag: each match is replaced by what \<open>f\<close> makes of it.\<close>

fun rx_rewrite_from :: "nat \<Rightarrow> rx \<Rightarrow> (string \<Rightarrow> string) \<Rightarrow> string \<Rightarrow> string \<Rightarrow> string" where
  "rx_rewrite_from 0 r f pre s = s"
| "rx_rewrite_from (Suc n) r f pre s =
     (case rx_search_from r pre s of
        None \<Rightarrow> s
      | Some (p, q) \<Rightarrow>
          take (length s - length (snd p)) s @ f (take (length (snd p) - length (snd q)) (snd p)) @
          (if snd q = snd p
           then (case snd q of [] \<Rightarrow> [] | c # t \<Rightarrow> c # rx_rewrite_from n r f (c # fst q) t)
           else rx_rewrite_from n r f (fst q) (snd q)))"

definition rx_rewrite :: "rx \<Rightarrow> (string \<Rightarrow> string) \<Rightarrow> string \<Rightarrow> string" where
  "rx_rewrite r f s = rx_rewrite_from (Suc (length s)) r f [] s"

definition quote_char :: char where
  "quote_char = CHR 0x22"

definition authorization_rx :: rx where
  "authorization_rx =
     rx_seqs [Sat (\<lambda>c. c = quote_char), rx_lit_i ''authorization'', Sat (\<lambda>c. c = quote_char), rx_star rx_ws, rx_lit '':'', rx_star rx_ws,
       Sat (\<lambda>c. c = quote_char), rx_star (Sat (\<lambda>c. c \<noteq> quote_char)), Sat (\<lambda>c. c = quote_char)]"

definition alnum :: "char \<Rightarrow> bool" where
  "alnum c = (word_char c \<and> c \<noteq> CHR ''_'')"

definition bearer_rx :: rx where
  "bearer_rx =
     rx_seqs [rx_lit ''Bearer'', rx_plus rx_ws, rx_plus (Sat (\<lambda>c. alnum c \<or> c \<in> set ''._~+/-'')), rx_star (rx_lit ''='')]"

definition data_url_rx :: rx where
  "data_url_rx =
     rx_seqs [rx_lit ''data:'', rx_alts [rx_lit ''image'', rx_lit ''video'', rx_lit ''audio''], rx_lit ''/'',
       rx_plus (Sat (\<lambda>c. (alnum c \<and> js_lower_char c = c) \<or> c \<in> set ''.+-'')), rx_lit '';base64,'',
       rx_plus (Sat (\<lambda>c. alnum c \<or> c \<in> set ''+/=''))]"

text \<open>The captured word of the last pattern has five characters in each of its cases.\<close>

definition strip_secrets :: "string \<Rightarrow> string" where
  "strip_secrets s =
     rx_rewrite data_url_rx (\<lambda>m. ''data:'' @ take 5 (drop 5 m) @ ''/...;base64,[stripped]'')
       (rx_rewrite bearer_rx (\<lambda>m. ''Bearer [stripped]'')
         (rx_rewrite authorization_rx
           (\<lambda>m. [quote_char] @ ''authorization'' @ [quote_char, CHR '':'', quote_char] @ ''[stripped]'' @ [quote_char]) s))"

definition bound_text :: "json \<Rightarrow> string" where
  "bound_text v = (case v of JStr s \<Rightarrow> s | _ \<Rightarrow> json_str (js_coalesce v JNull))"

definition bounded :: "string \<Rightarrow> json \<Rightarrow> nat \<Rightarrow> string" where
  "bounded dots v limit =
     (let s = strip_secrets (bound_text v) in
      if length s > limit then take limit s @ dots @ ''[+'' @ show_nat (length s - limit) @ '' chars]'' else s)"

text \<open>\<open>emit\<close>: \<open>None\<close> is the \<open>null\<close> it returns; \<open>uuid\<close> is for an event without a correlation id.\<close>

definition agentic_event :: "string \<Rightarrow> string \<Rightarrow> (string \<times> json) list \<Rightarrow> (string \<times> json) list" where
  "agentic_event uuid event fs =
     jset (spread_onto [(''event'', JStr event), (''correlationId'', js_coalesce (obj_get (JObj fs) ''correlationId'') (JStr uuid))] fs)
       ''detail'' (if obj_get (JObj fs) ''detail'' = JUndef then JNull else obj_get (JObj fs) ''detail'')"

definition agentic_emit ::
  "wire \<Rightarrow> string \<Rightarrow> string \<Rightarrow> string \<Rightarrow> (string \<times> json) list \<Rightarrow> bus option \<Rightarrow> (string \<times> json) list option \<times> bus option" where
  "agentic_emit w now uuid event fs bus =
     (if event \<notin> set agentic_events then (None, bus)
      else
        (case bus of
           None \<Rightarrow> (None, None)
         | Some b \<Rightarrow>
             (case publish w now ''agentic'' (agentic_event uuid event fs) b of
                (Inl err, b') \<Rightarrow> (None, Some b')
              | (Inr e, b') \<Rightarrow> (Some e, Some b'))))"

text \<open>The methods of the telemetry and of the process-wide sink, which is silent until one is set.\<close>

definition agentic_methods :: "(string, string) jsmap" where
  "agentic_methods =
     [(''route'', ''orchestration.route''), (''message'', ''agent.message''), (''toolCall'', ''tool.call''),
      (''toolResult'', ''tool.result''), (''apiCall'', ''api.call''), (''apiResult'', ''api.result''),
      (''inferenceCall'', ''inference.call''), (''inferenceResult'', ''inference.result'')]"

definition global_emit ::
  "bool \<Rightarrow> wire \<Rightarrow> string \<Rightarrow> string \<Rightarrow> string \<Rightarrow> (string \<times> json) list \<Rightarrow> bus option \<Rightarrow> (string \<times> json) list option \<times> bus option" where
  "global_emit installed w now uuid meth fs bus =
     (case map_of agentic_methods meth of
        None \<Rightarrow> (None, bus)
      | Some event \<Rightarrow> if installed then agentic_emit w now uuid event fs bus else (None, bus))"

section \<open>Narration reaches one topic, in bounded pieces\<close>

lemma methods_declared: "map_of agentic_methods meth = Some event \<Longrightarrow> event \<in> set agentic_events"
  by (auto simp: agentic_methods_def agentic_events_def split: if_splits)

lemma emit_topic:
  "snd (agentic_emit w now uuid event fs (Some b)) =
     (if event \<in> set agentic_events then Some (snd (publish w now ''agentic'' (agentic_event uuid event fs) b)) else Some b)"
  by (auto simp: agentic_emit_def split: prod.split sum.split)

lemma bounded_prefix:
  "\<exists>tail. bounded dots v limit = take limit (strip_secrets (bound_text v)) @ tail \<and>
     length tail \<le> length dots + 9 + length (show_nat (length (strip_secrets (bound_text v)) - limit))"
  by (auto simp: bounded_def Let_def)

text \<open>A token behind a doubled keyword stays in the text: the first match takes the second keyword for the token.\<close>

lemma doubled_bearer_leaks: "bounded [] (JStr ''Bearer Bearer tok'') 600 = ''Bearer [stripped] tok''"
  by code_simp

lemma stripped_examples:
  "bounded [] (JStr ''Bearer tok=='') 600 = ''Bearer [stripped]''"
  "bounded [] (JObj [(''Authorization'', JStr ''k'')]) 600 = ''{\"authorization\":\"[stripped]\"}''"
  "bounded [] (JStr ''see data:audio/ogg;base64,AAAA='') 600 = ''see data:audio/...;base64,[stripped]''"
  by code_simp+

end
