(* ===== verification/Expiring.thy ===== *)
theory Expiring
  imports Prelude
begin

text \<open>
  The replay and duplicate memories of src/api/auth.js and src/api/stream.js: a \<open>Map\<close> from a key
  to the time at which it expires, swept from its oldest key up to the first that has not expired.
\<close>

type_synonym 'k expiry_map = "('k, int) jsmap"

definition sweep :: "int \<Rightarrow> 'k expiry_map \<Rightarrow> 'k expiry_map" where
  "sweep now m = dropWhile (\<lambda>kv. snd kv \<le> now) m"

text \<open>Entries in the order of their expiry, none beyond the window that starts now.\<close>

definition expiry_inv :: "int \<Rightarrow> int \<Rightarrow> 'k expiry_map \<Rightarrow> bool" where
  "expiry_inv ttl now m = (jwf m \<and> sorted (map snd m) \<and> (\<forall>kv \<in> set m. snd kv \<le> now + ttl))"

definition remembers :: "'k expiry_map \<Rightarrow> 'k \<Rightarrow> int \<Rightarrow> bool" where
  "remembers m k now = (case map_of m k of None \<Rightarrow> False | Some e \<Rightarrow> now < e)"

lemma sweep_filter: "sorted (map snd m) \<Longrightarrow> sweep now m = filter (\<lambda>kv. now < snd kv) m"
proof (induction m)
  case (Cons kv m)
  have "now < snd kv \<Longrightarrow> filter (\<lambda>kv. now < snd kv) m = m"
    using Cons.prems by (auto intro!: filter_True)
  with Cons show ?case by (auto simp: sweep_def)
qed (simp add: sweep_def)

lemma map_of_filter_snd: "jwf m \<Longrightarrow> map_of (filter (\<lambda>kv. P (snd kv)) m) k = (case map_of m k of None \<Rightarrow> None | Some v \<Rightarrow> if P v then Some v else None)"
proof (induction m)
  case (Cons kv m)
  have "map_of m (fst kv) = None" using Cons.prems by (simp add: jwf_def map_of_eq_None_iff)
  with Cons show ?case by (auto simp: jwf_def split: option.splits if_splits)
qed simp

text \<open>
  The interface: an entry is found behind a sweep exactly as long as it has not expired, whatever
  else was marked in between.
\<close>

locale expiring =
  fixes found :: "'m \<Rightarrow> 'k \<Rightarrow> bool"
    and clean :: "int \<Rightarrow> 'm \<Rightarrow> 'm"
    and mark :: "'m \<Rightarrow> 'k \<Rightarrow> int \<Rightarrow> 'm"
    and live :: "'m \<Rightarrow> 'k \<Rightarrow> int \<Rightarrow> bool"
    and inv :: "int \<Rightarrow> 'm \<Rightarrow> bool"
    and ttl :: int
  assumes found_clean: "inv t m \<Longrightarrow> t \<le> now \<Longrightarrow> found (clean now m) k \<longleftrightarrow> live m k now"
    and live_clean: "inv t m \<Longrightarrow> now \<le> now' \<Longrightarrow> live (clean now m) k now' \<longleftrightarrow> live m k now'"
    and inv_clean: "inv t m \<Longrightarrow> t \<le> now \<Longrightarrow> inv now (clean now m)"
    and live_mono: "live m k now' \<Longrightarrow> now \<le> now' \<Longrightarrow> live m k now"
    and live_mark: "\<not> found m k \<Longrightarrow> live (mark m k e) k' now \<longleftrightarrow> (if k' = k then now < e else live m k' now)"
    and inv_mark: "inv t m \<Longrightarrow> \<not> found m k \<Longrightarrow> inv t (mark m k (t + ttl))"
begin

text \<open>One use of the memory: clean, and mark the key unless it is there (or there is no room).\<close>

definition offer :: "bool \<Rightarrow> int \<Rightarrow> 'k \<Rightarrow> 'm \<Rightarrow> bool \<times> 'm" where
  "offer room now k m =
     (let m' = clean now m in
      if found m' k then (False, m') else if \<not> room then (False, m') else (True, mark m' k (now + ttl)))"

lemma offer_inv: "inv t m \<Longrightarrow> t \<le> now \<Longrightarrow> inv now (snd (offer room now k m))"
  by (simp add: offer_def Let_def inv_clean inv_mark)

lemma offer_live:
  assumes "inv t m" and "t \<le> now" and "now \<le> later" and "live m k later"
  shows "live (snd (offer room now k' m)) k later"
proof -
  have c: "live (clean now m) k later" using live_clean [OF assms(1,3)] assms(4) by simp
  have f: "found (clean now m) k" using found_clean [OF assms(1,2)] live_mono [OF assms(4,3)] by simp
  show ?thesis
  proof (cases "found (clean now m) k'")
    case False
    with f have "k \<noteq> k'" by auto
    then show ?thesis using live_mark [OF False, of "now + ttl" k later] c by (simp add: offer_def Let_def)
  qed (simp add: offer_def Let_def c)
qed

lemma offer_accepted:
  assumes "fst (offer room now k m)" and "later < now + ttl"
  shows "live (snd (offer room now k m)) k later"
proof -
  have "\<not> found (clean now m) k" "room"
    using assms(1) by (auto simp: offer_def Let_def split: if_splits)
  then show ?thesis using live_mark [of "clean now m" k "now + ttl" k later] assms(2) by (simp add: offer_def Let_def)
qed

lemma offer_refused: "inv t m \<Longrightarrow> t \<le> now \<Longrightarrow> live m k now \<Longrightarrow> \<not> fst (offer room now k m)"
  by (simp add: offer_def Let_def found_clean)

primrec offers :: "(bool \<times> int \<times> 'k) list \<Rightarrow> 'm \<Rightarrow> 'm" where
  "offers [] m = m"
| "offers (u # us) m = offers us (snd (offer (fst u) (fst (snd u)) (snd (snd u)) m))"

lemma offers_live:
  "inv t m \<Longrightarrow> sorted (t # map (\<lambda>u. fst (snd u)) us @ [later]) \<Longrightarrow> live m k later \<Longrightarrow>
     live (offers us m) k later \<and> (\<exists>t'. t' \<le> later \<and> inv t' (offers us m))"
proof (induction us arbitrary: t m)
  case (Cons u us)
  let ?now = "fst (snd u)"
  have "t \<le> ?now" "?now \<le> later" and s: "sorted (?now # map (\<lambda>u. fst (snd u)) us @ [later])"
    using Cons.prems(2) by auto
  then show ?case
    using Cons.IH [OF offer_inv [OF Cons.prems(1)] s] offer_live [OF Cons.prems(1) _ _ Cons.prems(3)] by auto
qed auto

lemma offers_inv:
  "inv t m \<Longrightarrow> sorted (t # map (\<lambda>u. fst (snd u)) us @ [later]) \<Longrightarrow> \<exists>t'. t' \<le> later \<and> inv t' (offers us m)"
proof (induction us arbitrary: t m)
  case (Cons u us)
  from Cons.IH [OF offer_inv [OF Cons.prems(1), of "fst (snd u)" "fst u" "snd (snd u)"]] Cons.prems(2) show ?case by auto
qed auto

text \<open>A key that was accepted is refused until it expires, whatever was offered in between.\<close>

lemma replay_refused:
  assumes "inv t m" and "t \<le> now" and "fst (offer room now k m)" and "later < now + ttl"
    and "sorted (now # map (\<lambda>u. fst (snd u)) us @ [later])"
  shows "\<not> fst (offer room' later k (offers us (snd (offer room now k m))))"
proof -
  let ?m = "snd (offer room now k m)"
  have "inv now ?m" by (rule offer_inv [OF assms(1,2)])
  from offers_live [OF this assms(5) offer_accepted [OF assms(3,4)]] show ?thesis
    using offer_refused by blast
qed

end

section \<open>The maps provide it\<close>

lemma remembers_sweep:
  assumes "expiry_inv ttl t m" and "now \<le> now'"
  shows "remembers (sweep now m) k now' = remembers m k now'"
  using assms map_of_filter_snd [of m "\<lambda>e. now < e" k]
  by (auto simp: expiry_inv_def sweep_filter remembers_def split: option.split)

lemma jhas_sweep: "expiry_inv ttl t m \<Longrightarrow> jhas (sweep now m) k = remembers m k now"
  using map_of_filter_snd [of m "\<lambda>e. now < e" k]
  by (auto simp: expiry_inv_def sweep_filter remembers_def jhas_def split: option.splits if_splits)

lemma expiry_inv_sweep: "expiry_inv ttl t m \<Longrightarrow> t \<le> now \<Longrightarrow> expiry_inv ttl now (sweep now m)"
  by (force simp: expiry_inv_def sweep_filter jwf_def distinct_map_filter sorted_filter)

lemma expiry_inv_mark: "expiry_inv ttl t m \<Longrightarrow> \<not> jhas m k \<Longrightarrow> expiry_inv ttl t (jset m k (t + ttl))"
proof -
  assume i: "expiry_inv ttl t m" and n: "\<not> jhas m k"
  then have "jwf (jset m k (t + ttl))" by (simp add: expiry_inv_def)
  with i n show ?thesis by (auto simp: expiry_inv_def jset_fresh sorted_append)
qed

interpretation expiry: expiring jhas sweep jset remembers "expiry_inv ttl" ttl for ttl
proof
  show "jhas (sweep now m) k = remembers m k now" if "expiry_inv ttl t m" "t \<le> now" for t now :: int and m :: "'a expiry_map" and k
    by (rule jhas_sweep [OF that(1)])
  show "remembers (sweep now m) k now' = remembers m k now'" if "expiry_inv ttl t m" "now \<le> now'"
    for t now now' :: int and m :: "'a expiry_map" and k
    by (rule remembers_sweep [OF that])
  show "expiry_inv ttl now (sweep now m)" if "expiry_inv ttl t m" "t \<le> now" for t now :: int and m :: "'a expiry_map"
    by (rule expiry_inv_sweep [OF that])
  show "remembers m k now" if "remembers m k now'" "now \<le> now'" for m :: "'a expiry_map" and k and now now' :: int
    using that by (auto simp: remembers_def split: option.splits)
  show "remembers (jset m k e) k' now = (if k' = k then now < e else remembers m k' now)"
    if "\<not> jhas m k" for m :: "'a expiry_map" and k k' and e now :: int
    by (auto simp: remembers_def)
  show "expiry_inv ttl t (jset m k (t + ttl))" if "expiry_inv ttl t m" "\<not> jhas m k" for t :: int and m :: "'a expiry_map" and k
    by (rule expiry_inv_mark [OF that])
qed

end
