(* ===== verification/Auth.thy ===== *)
theory Auth
  imports Expiring Json
begin

text \<open>
  API authentication of src/api/auth.js: the token store, the nonce cache, the rate limiter, the
  signature check and the bind check; and the admin portal's basic authentication of
  src/web/admin-auth.js.

  HMAC-SHA256 is the parameter \<open>hmac\<close>; random tokens are arguments of \<open>issue\<close>.  Times are integral
  milliseconds, and a bucket counts thousandths of a token, so that refilling (\<open>elapsed / 1000 *
  refillPerSec\<close>) is exact.  A header is \<open>None\<close> when absent; a time stamp header is read if it is a
  decimal integer.
\<close>

section \<open>Scopes, tokens and errors\<close>

definition scope_propose :: string where "scope_propose = ''intent:propose''"
definition scope_read :: string where "scope_read = ''intent:read''"
definition scope_decide :: string where "scope_decide = ''intent:decide''"
definition scope_ledger :: string where "scope_ledger = ''ledger:read''"
definition scope_halt :: string where "scope_halt = ''control:halt''"

definition signature_window :: int where
  "signature_window = 300000"

record caller =
  cl_id :: string
  cl_token :: string
  cl_secret :: string
  cl_scopes :: "string list"

type_synonym token_store = "(string, caller) jsmap"

definition create_tokens :: "caller list \<Rightarrow> token_store" where
  "create_tokens seed = foldl (\<lambda>m t. jset m (cl_token t) t) [] seed"

definition issue_token :: "string \<Rightarrow> string list \<Rightarrow> string \<Rightarrow> string \<Rightarrow> token_store \<Rightarrow> caller \<times> token_store" where
  "issue_token ident scopes secret random m =
     (let rec = \<lparr>cl_id = ident, cl_token = ''omoda_'' @ random, cl_secret = secret, cl_scopes = scopes\<rparr>
      in (rec, jset m (cl_token rec) rec))"

record auth_error =
  ae_status :: nat
  ae_code :: string
  ae_message :: string

abbreviation auth_err :: "nat \<Rightarrow> string \<Rightarrow> string \<Rightarrow> auth_error" where
  "auth_err status code msg \<equiv> \<lparr>ae_status = status, ae_code = code, ae_message = msg\<rparr>"

section \<open>The nonce cache\<close>

type_synonym nonces = "string expiry_map"

definition nonce_check :: "int \<Rightarrow> nat \<Rightarrow> string \<Rightarrow> int \<Rightarrow> nonces \<Rightarrow> bool \<times> nonces" where
  "nonce_check ttl limit sig now seen =
     (let seen' = sweep now seen in
      if jhas seen' sig then (False, seen')
      else if length seen' \<ge> limit then (False, seen')
      else (True, jset seen' sig (now + ttl)))"

section \<open>The rate limiter\<close>

record bucket =
  bk_tokens :: int
  bk_last :: int

type_synonym buckets = "(string, bucket) jsmap"

definition take_token :: "int \<Rightarrow> int \<Rightarrow> string \<Rightarrow> int \<Rightarrow> buckets \<Rightarrow> bool \<times> buckets" where
  "take_token capacity refill ident now m =
     (let b = (case map_of m ident of None \<Rightarrow> \<lparr>bk_tokens = capacity * 1000, bk_last = now\<rparr> | Some b \<Rightarrow> b);
          filled = min (capacity * 1000) (bk_tokens b + (now - bk_last b) * refill)
      in if filled < 1000 then (False, jset m ident \<lparr>bk_tokens = filled, bk_last = now\<rparr>)
         else (True, jset m ident \<lparr>bk_tokens = filled - 1000, bk_last = now\<rparr>))"

section \<open>Signatures\<close>

definition sign_body :: "(string \<Rightarrow> string \<Rightarrow> string) \<Rightarrow> string \<Rightarrow> int \<Rightarrow> string \<Rightarrow> string" where
  "sign_body hmac secret ts body = ''sha256='' @ hmac secret (show_int ts @ ''.'' @ body)"

text \<open>\<open>Number(header)\<close> on decimal integers; \<open>None\<close> is \<open>NaN\<close>.\<close>

definition header_number :: "string option \<Rightarrow> int option" where
  "header_number h =
     (case h of
        None \<Rightarrow> None
      | Some s \<Rightarrow>
          (let t = js_trim s in
           if t = [] then Some 0
           else if hd t = CHR ''-'' then
             (if tl t \<noteq> [] \<and> list_all is_digit (tl t) then Some (- int (nat_of_digits 0 (tl t))) else None)
           else if list_all is_digit t then Some (int (nat_of_digits 0 t)) else None))"

record headers =
  hd_auth :: "string option"
  hd_timestamp :: "string option"
  hd_signature :: "string option"

definition bearer_of :: "string option \<Rightarrow> string option" where
  "bearer_of auth =
     (let a = (case auth of None \<Rightarrow> [] | Some s \<Rightarrow> s);
          b = (if starts_with a ''Bearer '' then js_trim (drop 7 a) else [])
      in if b = [] then None else Some b)"

definition check_signature ::
  "(string \<Rightarrow> string \<Rightarrow> string) \<Rightarrow> headers \<Rightarrow> string \<Rightarrow> caller \<Rightarrow> int \<Rightarrow> auth_error + unit" where
  "check_signature hmac h body c now =
     (case (header_number (hd_timestamp h), hd_signature h) of
        (Some ts, Some sig) \<Rightarrow>
          if sig = [] then Inl (auth_err 401 ''unsigned'' ''missing signature headers'')
          else if \<bar>now - ts * 1000\<bar> > signature_window
          then Inl (auth_err 401 ''stale'' ''signature timestamp outside the accepted window'')
          else if sig \<noteq> sign_body hmac (cl_secret c) ts body
          then Inl (auth_err 401 ''bad_signature'' ''signature mismatch'') else Inr ()
      | _ \<Rightarrow> Inl (auth_err 401 ''unsigned'' ''missing signature headers''))"

text \<open>
  \<open>authenticate\<close>: the state is the limiter's (\<open>None\<close> when there is no limiter, whose capacity and
  refill are the defaults of the source otherwise).  The scope is checked before the limiter is
  charged, the limiter before the signature.
\<close>

definition authenticate ::
  "(string \<Rightarrow> string \<Rightarrow> string) \<Rightarrow> headers \<Rightarrow> string \<Rightarrow> string option \<Rightarrow> token_store \<Rightarrow> int \<Rightarrow> bool \<Rightarrow>
     buckets option \<Rightarrow> (auth_error + caller \<times> string option) \<times> buckets option" where
  "authenticate hmac h body required tokens now signed limiter =
     (case bearer_of (hd_auth h) of
        None \<Rightarrow> (Inl (auth_err 401 ''no_token'' ''missing bearer token''), limiter)
      | Some bearer \<Rightarrow>
          (case map_of tokens bearer of
             None \<Rightarrow> (Inl (auth_err 401 ''bad_token'' ''unknown token''), limiter)
           | Some c \<Rightarrow>
               (if \<not> (case required of None \<Rightarrow> True | Some s \<Rightarrow> s \<in> set (cl_scopes c))
                then (Inl (auth_err 403 ''scope'' (''token lacks '' @ (case required of None \<Rightarrow> [] | Some s \<Rightarrow> s))), limiter)
                else
                  (let (ok, limiter') = (case limiter of None \<Rightarrow> (True, None)
                                         | Some m \<Rightarrow> (case take_token 60 1 (cl_id c) now m of (ok, m') \<Rightarrow> (ok, Some m')))
                   in if \<not> ok then (Inl (auth_err 429 ''rate_limit'' ''rate limit exceeded''), limiter')
                      else if signed then
                        (case check_signature hmac h body c now of
                           Inl e \<Rightarrow> (Inl e, limiter')
                         | Inr _ \<Rightarrow> (Inr (c, hd_signature h), limiter'))
                      else (Inr (c, hd_signature h), limiter')))))"

definition check_replay :: "string option \<Rightarrow> int \<Rightarrow> nonces option \<Rightarrow> (auth_error + unit) \<times> nonces option" where
  "check_replay sig now nonces =
     (case (sig, nonces) of
        (Some s, Some m) \<Rightarrow>
          if s = [] then (Inr (), nonces)
          else (case nonce_check signature_window 10000 s now m of
                  (fresh, m') \<Rightarrow> (if fresh then Inr () else Inl (auth_err 409 ''replay'' ''signature already used''), Some m'))
      | _ \<Rightarrow> (Inr (), nonces))"

section \<open>Binding\<close>

definition assert_bindable :: "int \<Rightarrow> string \<Rightarrow> string + unit" where
  "assert_bindable port host =
     (if port < 3100 \<or> port > 3199
      then Inl (''refusing to bind '' @ show_int port @ '': outside our block 3100-3199'')
      else if host = ''0.0.0.0'' \<or> host = ''::''
      then Inl (''refusing to bind '' @ host @ '': the control plane of an agent platform is not public'')
      else Inr ())"

section \<open>The admin portal\<close>

text \<open>\<open>b64\<close> decodes base64 (a library function that never throws).\<close>

definition check_admin_auth :: "(string \<Rightarrow> string) \<Rightarrow> string \<Rightarrow> string \<Rightarrow> string option \<Rightarrow> string option" where
  "check_admin_auth b64 user pass auth =
     (let a = (case auth of None \<Rightarrow> [] | Some s \<Rightarrow> s) in
      if \<not> starts_with a ''Basic '' then None
      else
        (let decoded = b64 (js_trim (drop 6 a)) in
         case index_of decoded '':'' of
           None \<Rightarrow> None
         | Some i \<Rightarrow>
             if take i decoded \<noteq> user \<or> drop (Suc i) decoded \<noteq> pass then None else Some (take i decoded)))"

end
