(* ===== verification/Auth_Claims.thy ===== *)
theory Auth_Claims
  imports Auth
begin

text \<open>
  The security controls of the API: what an authenticated request has shown, that a signature is
  accepted once in its window, and the bound the rate limiter enforces.
\<close>

section \<open>Authentication\<close>

lemma check_signature_ok:
  "check_signature hmac h body c now = Inr () \<longleftrightarrow>
     (\<exists>ts sig. header_number (hd_timestamp h) = Some ts \<and> hd_signature h = Some sig \<and> sig \<noteq> [] \<and>
        \<bar>now - ts * 1000\<bar> \<le> signature_window \<and> sig = sign_body hmac (cl_secret c) ts body)"
  by (auto simp: check_signature_def not_less split: option.split)

text \<open>C17. An authenticated request has shown everything the route demands: its bearer token is a known
  caller's, the caller holds the required scope, and, where signatures are required, the signature
  is the caller's own over this body and a time stamp within five minutes.  A request that lacks the
  scope is refused before the limiter is charged.\<close>

theorem authenticate_sound:
  "(fst (authenticate hmac h body required tokens now signed limiter) = Inr (c, sig) \<longrightarrow>
      (\<exists>bearer. bearer_of (hd_auth h) = Some bearer \<and> map_of tokens bearer = Some c) \<and>
      (\<forall>s. required = Some s \<longrightarrow> s \<in> set (cl_scopes c)) \<and>
      (signed \<longrightarrow> (\<exists>ts. header_number (hd_timestamp h) = Some ts \<and> \<bar>now - ts * 1000\<bar> \<le> 300000 \<and>
         sig = Some (''sha256='' @ hmac (cl_secret c) (show_int ts @ ''.'' @ body))))) \<and>
   (\<forall>e. fst (authenticate hmac h body required tokens now signed limiter) = Inl e \<and> ae_status e = 403 \<longrightarrow>
      snd (authenticate hmac h body required tokens now signed limiter) = limiter)"
proof (cases "bearer_of (hd_auth h)")
  case None
  then show ?thesis by (simp add: authenticate_def)
next
  case (Some bearer)
  show ?thesis
  proof (cases "map_of tokens bearer")
    case None
    with Some show ?thesis by (simp add: authenticate_def)
  next
    case c': (Some c')
    show ?thesis
    proof (cases "\<forall>s. required = Some s \<longrightarrow> s \<in> set (cl_scopes c')")
      case False
      then obtain s where "required = Some s" "s \<notin> set (cl_scopes c')" by blast
      with Some c' show ?thesis by (simp add: authenticate_def)
    next
      case True
      then have sc: "(case required of None \<Rightarrow> True | Some s \<Rightarrow> s \<in> set (cl_scopes c'))" by (simp split: option.split)
      obtain ok l where lim: "(case limiter of None \<Rightarrow> (True, None)
          | Some m \<Rightarrow> (case take_token 60 1 (cl_id c') now m of (ok, m') \<Rightarrow> (ok, Some m'))) = (ok, l)" by fastforce
      have eq: "authenticate hmac h body required tokens now signed limiter =
        (if \<not> ok then (Inl (auth_err 429 ''rate_limit'' ''rate limit exceeded''), l)
         else if signed then
           (case check_signature hmac h body c' now of Inl e \<Rightarrow> (Inl e, l) | Inr _ \<Rightarrow> (Inr (c', hd_signature h), l))
         else (Inr (c', hd_signature h), l))"
        using Some c' sc lim by (simp add: authenticate_def)
      have st: "check_signature hmac h body c' now = Inl e \<Longrightarrow> ae_status e = 401" for e
        by (auto simp: check_signature_def split: option.splits if_splits)
      have ok': "check_signature hmac h body c' now = Inr u \<Longrightarrow>
          \<exists>ts. header_number (hd_timestamp h) = Some ts \<and> \<bar>now - ts * 1000\<bar> \<le> 300000 \<and>
            hd_signature h = Some (''sha256='' @ hmac (cl_secret c') (show_int ts @ ''.'' @ body))" for u
        using check_signature_ok [of hmac h body c' now] by (auto simp: signature_window_def sign_body_def)
      show ?thesis unfolding eq using True Some c' ok' st
        by (auto split: sum.splits if_splits)
    qed
  qed
qed

definition ops_caller :: caller where
  "ops_caller = \<lparr>cl_id = ''ops'', cl_token = ''tok'', cl_secret = ''k'', cl_scopes = [''intent:read'']\<rparr>"

theorem authenticate_sound_witness:
  "fst (authenticate (\<lambda>k t. k) \<lparr>hd_auth = Some ''Bearer tok'', hd_timestamp = Some ''7'', hd_signature = Some ''sha256=k''\<rparr> []
      (Some ''intent:read'') (create_tokens [ops_caller]) 7000 True None) = Inr (ops_caller, Some ''sha256=k'') \<and>
   ''intent:read'' \<in> set (cl_scopes ops_caller)"
proof -
  let ?a = "authenticate (\<lambda>k t. k) \<lparr>hd_auth = Some ''Bearer tok'', hd_timestamp = Some ''7'', hd_signature = Some ''sha256=k''\<rparr> []
      (Some ''intent:read'') (create_tokens [ops_caller]) 7000 True None"
  have "header_number (Some ''7'') = Some 7"
    by (simp add: header_number_def js_trim_def js_ws_def is_digit_def digit_val_def)
  then have "fst ?a = Inr (ops_caller, Some ''sha256=k'')"
    by (simp add: authenticate_def bearer_of_def starts_with_def js_trim_def js_ws_def create_tokens_def ops_caller_def
        check_signature_def signature_window_def sign_body_def)
  with authenticate_sound [of "\<lambda>k t. k" "\<lparr>hd_auth = Some ''Bearer tok'', hd_timestamp = Some ''7'', hd_signature = Some ''sha256=k''\<rparr>" "[]"
      "Some ''intent:read''" "create_tokens [ops_caller]" 7000 True None ops_caller "Some ''sha256=k''"]
  show ?thesis by simp
qed

section \<open>Replays\<close>

definition nonce_run :: "int \<Rightarrow> nat \<Rightarrow> (int \<times> string) list \<Rightarrow> nonces \<Rightarrow> nonces" where
  "nonce_run ttl limit uses m = foldl (\<lambda>m u. snd (nonce_check ttl limit (snd u) (fst u) m)) m uses"

lemma nonce_check_offer:
  "nonce_check ttl limit sig now m = expiry.offer ttl (length (sweep now m) < limit) now sig m"
  by (simp add: nonce_check_def expiry.offer_def Let_def)

lemma nonce_run_offers:
  "\<exists>us. map snd us = uses \<and> nonce_run ttl limit uses m = expiry.offers ttl us m"
proof (induction uses arbitrary: m)
  case Nil
  then show ?case by (simp add: nonce_run_def)
next
  case (Cons u uses)
  let ?m = "snd (nonce_check ttl limit (snd u) (fst u) m)"
  obtain us where us: "map snd us = uses" "nonce_run ttl limit uses ?m = expiry.offers ttl us ?m" using Cons by blast
  have "nonce_run ttl limit (u # uses) m = expiry.offers ttl ((length (sweep (fst u) m) < limit, u) # us) m"
    using us(2) by (simp add: nonce_run_def nonce_check_offer)
  with us(1) show ?case by (intro exI [of _ "(length (sweep (fst u) m) < limit, u) # us"]) simp
qed

lemma length_sweep: "length (sweep now m) \<le> length m"
  by (simp add: sweep_def length_dropWhile_le)

lemma nonce_run_bound: "length m \<le> limit \<Longrightarrow> length (nonce_run ttl limit uses m) \<le> limit"
proof (induction uses arbitrary: m)
  case (Cons u uses)
  have "length (snd (nonce_check ttl limit (snd u) (fst u) m)) \<le> limit"
    using length_sweep [of "fst u" m] Cons.prems
    by (auto simp: nonce_check_def Let_def length_jset)
  with Cons.IH show ?case by (simp add: nonce_run_def)
qed (simp add: nonce_run_def)

text \<open>C18. A signature is accepted at most once in its window: once the cache accepted it, every later
  use before its expiry is refused, whatever signatures were checked in between as time went on;
  and the cache never holds more than its maximum.\<close>

theorem nonce_no_replay:
  assumes "fst (nonce_check ttl limit sig t (nonce_run ttl limit before []))"
    and "sorted (map fst before @ t # map fst between @ [later])" and "later < t + ttl"
  shows "\<not> fst (nonce_check ttl limit sig later
           (nonce_run ttl limit between (snd (nonce_check ttl limit sig t (nonce_run ttl limit before [])))))
         \<and> length (nonce_run ttl limit before []) \<le> limit"
proof
  obtain us where us: "map snd us = before" "nonce_run ttl limit before [] = expiry.offers ttl us []"
    using nonce_run_offers by blast
  obtain vs where vs: "map snd vs = between"
    "nonce_run ttl limit between (snd (nonce_check ttl limit sig t (nonce_run ttl limit before []))) =
       expiry.offers ttl vs (snd (nonce_check ttl limit sig t (nonce_run ttl limit before [])))"
    using nonce_run_offers by blast
  have mb: "map fst before = map (\<lambda>u. fst (snd u)) us" "map fst between = map (\<lambda>u. fst (snd u)) vs"
    using us(1) vs(1) by (auto simp: comp_def)
  define t0 where "t0 = (case before of [] \<Rightarrow> t | u # _ \<Rightarrow> fst u)"
  have s: "sorted (t0 # map (\<lambda>u. fst (snd u)) us @ [t])"
    using assms(2) unfolding t0_def mb [symmetric] by (cases before) (auto simp: sorted_append)
  have "expiry_inv ttl t0 ([] :: nonces)" by (simp add: expiry_inv_def)
  from expiry.offers_inv [OF this s] obtain t' where t': "t' \<le> t" "expiry_inv ttl t' (expiry.offers ttl us ([] :: nonces))"
    by blast
  have a: "fst (expiry.offer ttl (length (sweep t (expiry.offers ttl us [])) < limit) t sig (expiry.offers ttl us []))"
    using assms(1) by (simp add: us(2) nonce_check_offer)
  have s2: "sorted (t # map (\<lambda>u. fst (snd u)) vs @ [later])"
    using assms(2) mb(2) by (auto simp: sorted_append)
  show "\<not> fst (nonce_check ttl limit sig later
           (nonce_run ttl limit between (snd (nonce_check ttl limit sig t (nonce_run ttl limit before [])))))"
    unfolding vs(2) unfolding us(2) nonce_check_offer
    by (rule expiry.replay_refused [OF t'(2,1) a assms(3) s2])
  show "length (nonce_run ttl limit before []) \<le> limit" by (rule nonce_run_bound) simp
qed

theorem nonce_no_replay_witness:
  "fst (nonce_check 300 2 ''s'' 10 (nonce_run 300 2 [(5, ''r'')] [])) \<and>
   \<not> fst (nonce_check 300 2 ''s'' 200 (nonce_run 300 2 [(20, ''q'')] (snd (nonce_check 300 2 ''s'' 10 (nonce_run 300 2 [(5, ''r'')] [])))))"
proof -
  have a: "fst (nonce_check 300 2 ''s'' 10 (nonce_run 300 2 [(5, ''r'')] []))"
    by (simp add: nonce_check_def nonce_run_def sweep_def jhas_def)
  from nonce_no_replay [OF a, of "[(20, ''q'')]" 200] a show ?thesis by simp
qed

section \<open>The rate limit\<close>

definition take_run :: "int \<Rightarrow> int \<Rightarrow> string \<Rightarrow> int list \<Rightarrow> buckets \<Rightarrow> nat \<times> buckets" where
  "take_run capacity refill ident ts m =
     foldl (\<lambda>(n, m) t. case take_token capacity refill ident t m of (ok, m') \<Rightarrow> (if ok then Suc n else n, m')) (0, m) ts"

definition level :: "int \<Rightarrow> buckets \<Rightarrow> string \<Rightarrow> int" where
  "level capacity m ident = (case map_of m ident of None \<Rightarrow> capacity * 1000 | Some b \<Rightarrow> bk_tokens b)"

definition last_take :: "buckets \<Rightarrow> string \<Rightarrow> int \<Rightarrow> int" where
  "last_take m ident t = (case map_of m ident of None \<Rightarrow> t | Some b \<Rightarrow> bk_last b)"

lemma take_token_step:
  assumes "take_token capacity refill ident t m = (ok, m')" and "0 \<le> refill" and "0 \<le> capacity"
    and "0 \<le> level capacity m ident" and "last_take m ident t \<le> t"
  shows "level capacity m' ident + (if ok then 1000 else 0) \<le> level capacity m ident + (t - last_take m ident t) * refill \<and>
     (\<forall>t'. last_take m' ident t' = t) \<and> level capacity m' ident + (if ok then 1000 else 0) \<le> capacity * 1000 \<and>
     0 \<le> level capacity m' ident"
proof -
  have "0 \<le> (t - last_take m ident t) * refill" using assms by simp
  then show ?thesis using assms
    by (auto simp: take_token_def Let_def level_def last_take_def min_less_iff_disj split: if_splits option.splits)
qed

lemma take_run_bound:
  assumes "sorted ts" and "0 \<le> refill" and "0 \<le> capacity" and "ts \<noteq> []"
  shows "1000 * int (fst (take_run capacity refill ident ts [])) + level capacity (snd (take_run capacity refill ident ts [])) ident
           \<le> capacity * 1000 + (last ts - hd ts) * refill \<and>
         (\<forall>t. last_take (snd (take_run capacity refill ident ts [])) ident t = last ts) \<and>
         0 \<le> level capacity (snd (take_run capacity refill ident ts [])) ident"
  using assms(1,4)
proof (induction ts rule: rev_induct)
  case (snoc t ts)
  obtain n m where nm: "take_run capacity refill ident ts [] = (n, m)" by fastforce
  obtain ok m' where tk: "take_token capacity refill ident t m = (ok, m')" by fastforce
  have run: "take_run capacity refill ident (ts @ [t]) [] = (if ok then Suc n else n, m')"
    using nm tk by (simp add: take_run_def)
  show ?case
  proof (cases "ts = []")
    case True
    then have z: "n = 0" "m = []" using nm by (simp_all add: take_run_def)
    have "0 \<le> level capacity m ident" "last_take m ident t \<le> t" using z assms by (simp_all add: level_def last_take_def)
    from take_token_step [OF tk assms(2,3) this] z True run show ?thesis by (auto simp: level_def last_take_def)
  next
    case False
    have srt: "sorted ts" "last ts \<le> t" using snoc.prems(1) False by (auto simp: sorted_append)
    have IH: "1000 * int n + level capacity m ident \<le> capacity * 1000 + (last ts - hd ts) * refill"
      "\<forall>t. last_take m ident t = last ts" "0 \<le> level capacity m ident"
      using snoc.IH [OF srt(1) False] nm by simp_all
    have "last_take m ident t \<le> t" using IH(2) srt(2) by simp
    note st = take_token_step [OF tk assms(2,3) IH(3) this]
    have "1000 * int (if ok then Suc n else n) + level capacity m' ident \<le> capacity * 1000 + (last ts - hd ts) * refill + (t - last ts) * refill"
      using st IH by (auto split: if_splits)
    also have "\<dots> = capacity * 1000 + (t - hd ts) * refill" by (simp add: algebra_simps)
    finally show ?thesis using st False by (simp add: run)
  qed
qed simp

text \<open>C19. The rate limit: however a caller spaces its requests, those that are let through between the
  first and the last of them number at most the capacity plus what the elapsed time refills.\<close>

theorem rate_limit_bound:
  assumes "sorted ts" and "0 \<le> refill" and "0 \<le> capacity" and "ts \<noteq> []"
  shows "1000 * int (fst (take_run capacity refill ident ts [])) \<le> capacity * 1000 + (last ts - hd ts) * refill"
  using take_run_bound [OF assms, of ident] by linarith

theorem rate_limit_bound_witness:
  "1000 * int (fst (take_run 1 1 ''ops'' [0, 10, 500, 1000] [])) \<le> 2000 \<and> fst (take_run 1 1 ''ops'' [0, 10, 500, 1000] []) = 2"
  using rate_limit_bound [of "[0, 10, 500, 1000]" 1 1 "''ops''"]
  by (simp add: take_run_def take_token_def)

end
