(* ===== verification/Taxonomy.thy ===== *)
theory Taxonomy
  imports Json
begin

text \<open>
  The danger taxonomy of src/domain/taxonomy.js: the CRUD verb of a call, the declared impact
  domains, the tier the broker assigns, the consent a write needs and the HTTP methods its
  policy fragment may grant.
\<close>

section \<open>Verbs, impacts and tiers\<close>

text \<open>A verb that is none of the four is kept as the value it is; \<open>verb_of\<close> is how a value reads.\<close>

datatype verb = Read | Create | Update | Delete | Other_verb json

datatype impact = Financial | Legal | Reputational

datatype tier = Safe | Contained | Consequential | Undeclared | Prohibited_tier

definition verb_of :: "json \<Rightarrow> verb" where
  "verb_of v =
     (if v = JStr ''read'' then Read else if v = JStr ''create'' then Create
      else if v = JStr ''update'' then Update else if v = JStr ''delete'' then Delete
      else Other_verb v)"

fun verb_value :: "verb \<Rightarrow> json" where
  "verb_value Read = JStr ''read''"
| "verb_value Create = JStr ''create''"
| "verb_value Update = JStr ''update''"
| "verb_value Delete = JStr ''delete''"
| "verb_value (Other_verb v) = v"

fun impact_name :: "impact \<Rightarrow> string" where
  "impact_name Financial = ''financial''"
| "impact_name Legal = ''legal''"
| "impact_name Reputational = ''reputational''"

definition impact_of :: "json \<Rightarrow> impact option" where
  "impact_of v =
     (if v = JStr ''financial'' then Some Financial else if v = JStr ''legal'' then Some Legal
      else if v = JStr ''reputational'' then Some Reputational else None)"

fun tier_name :: "tier \<Rightarrow> string" where
  "tier_name Safe = ''safe''"
| "tier_name Contained = ''contained''"
| "tier_name Consequential = ''consequential''"
| "tier_name Undeclared = ''undeclared''"
| "tier_name Prohibited_tier = ''prohibited''"

text \<open>"Ordered least to most restricted": the rank of a tier in the order of the source.\<close>

fun tier_rank :: "tier \<Rightarrow> nat" where
  "tier_rank Safe = 0"
| "tier_rank Contained = 1"
| "tier_rank Consequential = 2"
| "tier_rank Undeclared = 3"
| "tier_rank Prohibited_tier = 4"

instantiation tier :: linorder
begin

definition less_eq_tier :: "tier \<Rightarrow> tier \<Rightarrow> bool" where
  "less_eq_tier a b = (tier_rank a \<le> tier_rank b)"

definition less_tier :: "tier \<Rightarrow> tier \<Rightarrow> bool" where
  "less_tier a b = (tier_rank a < tier_rank b)"

instance
proof
  fix a b c :: tier
  show "a < b \<longleftrightarrow> a \<le> b \<and> \<not> b \<le> a" by (auto simp: less_tier_def less_eq_tier_def)
  show "a \<le> a" by (simp add: less_eq_tier_def)
  show "a \<le> b \<Longrightarrow> b \<le> c \<Longrightarrow> a \<le> c" by (simp add: less_eq_tier_def)
  show "a \<le> b \<Longrightarrow> b \<le> a \<Longrightarrow> a = b" by (cases a; cases b) (simp_all add: less_eq_tier_def)
  show "a \<le> b \<or> b \<le> a" by (auto simp: less_eq_tier_def)
qed

end

section \<open>Operations\<close>

definition is_write :: "verb \<Rightarrow> bool" where
  "is_write v = (v \<noteq> Read)"

definition requires_inverse :: "verb \<Rightarrow> bool" where
  "requires_inverse v = (v = Update \<or> v = Delete)"

fun keep_impacts :: "impact list \<Rightarrow> json list \<Rightarrow> impact list" where
  "keep_impacts seen [] = seen"
| "keep_impacts seen (i # is) =
     (case impact_of i of
        None \<Rightarrow> keep_impacts seen is
      | Some p \<Rightarrow> keep_impacts (if p \<in> set seen then seen else seen @ [p]) is)"

definition normalize_impact :: "json \<Rightarrow> impact list" where
  "normalize_impact v = (case v of JArr xs \<Rightarrow> keep_impacts [] xs | _ \<Rightarrow> [])"

definition requires_consent :: "verb \<Rightarrow> json \<Rightarrow> bool" where
  "requires_consent v imp = (is_write v \<and> normalize_impact imp \<noteq> [])"

definition impacts_json :: "impact list \<Rightarrow> json" where
  "impacts_json ps = JArr (map (\<lambda>p. JStr (impact_name p)) ps)"

definition consent_kind :: "verb \<Rightarrow> json \<Rightarrow> string option" where
  "consent_kind v impact =
     (let imp = normalize_impact impact in
      if \<not> requires_consent v (impacts_json imp) then None
      else if \<not> (Financial \<in> set imp \<or> Legal \<in> set imp) then Some ''review''
      else Some (if v = Delete then ''two-person'' else ''approval''))"

definition known_verb :: "verb \<Rightarrow> bool" where
  "known_verb v = (v \<in> {Read, Create, Update, Delete})"

definition classify :: "verb \<Rightarrow> json \<Rightarrow> bool \<Rightarrow> bool \<Rightarrow> tier" where
  "classify v impact declared prohibited =
     (if prohibited then Prohibited_tier
      else if \<not> declared then Undeclared
      else if \<not> known_verb v then Undeclared
      else if \<not> is_write v then Safe
      else if requires_consent v impact then Consequential else Contained)"

definition methods_for :: "verb \<Rightarrow> json \<Rightarrow> string list" where
  "methods_for v impact =
     (if \<not> is_write v then [''GET'']
      else if requires_consent v impact then [''GET'']
      else if v = Create then [''POST'']
      else if v = Update then [''POST'', ''PUT'', ''PATCH'']
      else [''DELETE''])"

section \<open>Lemmas\<close>

lemma impact_of_name [simp]: "impact_of (JStr (impact_name p)) = Some p"
  by (cases p) (simp_all add: impact_of_def)

lemma verb_of_value [simp]: "known_verb v \<Longrightarrow> verb_of (verb_value v) = v"
  by (cases v) (auto simp: verb_of_def known_verb_def)

lemma verb_value_of [simp]: "verb_value (verb_of j) = j"
  by (simp add: verb_of_def)

lemma set_keep_impacts: "set (keep_impacts seen is) = set seen \<union> {p. \<exists>i \<in> set is. impact_of i = Some p}"
  by (induction seen "is" rule: keep_impacts.induct) (auto split: option.split)

lemma distinct_keep_impacts: "distinct seen \<Longrightarrow> distinct (keep_impacts seen is)"
  by (induction seen "is" rule: keep_impacts.induct) (auto split: option.split)

lemma set_normalize_impact: "set (normalize_impact (JArr is)) = {p. \<exists>i \<in> set is. impact_of i = Some p}"
  by (simp add: normalize_impact_def set_keep_impacts)

lemma distinct_normalize_impact: "distinct (normalize_impact v)"
  by (simp add: normalize_impact_def distinct_keep_impacts split: json.split)

lemma keep_impacts_names:
  "distinct (seen @ ps) \<Longrightarrow> keep_impacts seen (map (\<lambda>p. JStr (impact_name p)) ps) = seen @ ps"
  by (induction ps arbitrary: seen) auto

lemma normalize_impacts_json [simp]: "distinct ps \<Longrightarrow> normalize_impact (impacts_json ps) = ps"
  by (simp add: normalize_impact_def impacts_json_def keep_impacts_names)

lemma normalize_idem [simp]: "normalize_impact (impacts_json (normalize_impact v)) = normalize_impact v"
  by (simp add: distinct_normalize_impact)

lemma consent_kind_None: "consent_kind v imp = None \<longleftrightarrow> \<not> requires_consent v imp"
  by (simp add: consent_kind_def requires_consent_def Let_def)

lemma methods_for_consent: "requires_consent v imp \<Longrightarrow> methods_for v imp = [''GET'']"
  by (simp add: methods_for_def)

section \<open>Properties\<close>

text \<open>C13. The classification fails closed and agrees with the other two functions of the taxonomy: an
  action gets a permissive tier only if it is declared, not prohibited and of a known verb; it is
  consequential exactly if it additionally needs consent, and then the compiled policy grants
  nothing but \<open>GET\<close>; and adding impact domains never lowers a tier.\<close>

theorem classify_sound:
  "(classify v imp declared prohibited \<in> {Safe, Contained, Consequential} \<longleftrightarrow>
      declared \<and> \<not> prohibited \<and> known_verb v) \<and>
   (classify v imp True False = Consequential \<longleftrightarrow> known_verb v \<and> consent_kind v imp \<noteq> None) \<and>
   (classify v imp declared prohibited = Consequential \<longrightarrow> methods_for v imp = [''GET'']) \<and>
   (set (normalize_impact imp) \<subseteq> set (normalize_impact imp') \<longrightarrow>
      classify v imp declared prohibited \<le> classify v imp' declared prohibited)"
proof -
  have "set (normalize_impact imp) \<subseteq> set (normalize_impact imp') \<Longrightarrow> requires_consent v imp \<Longrightarrow> requires_consent v imp'"
    by (auto simp: requires_consent_def)
  moreover have "requires_consent v imp \<Longrightarrow> is_write v" by (simp add: requires_consent_def)
  ultimately show ?thesis
    by (auto simp: classify_def consent_kind_None methods_for_consent less_eq_tier_def)
qed

theorem classify_sound_witness:
  "classify Create (JArr []) True False \<le> classify Create (JArr [JStr ''legal'']) True False \<and>
   classify Create (JArr [JStr ''legal'']) True False = Consequential"
  using classify_sound [of Create "JArr []" True False "JArr [JStr ''legal'']"]
  by (simp add: classify_def known_verb_def is_write_def requires_consent_def normalize_impact_def impact_of_def)

end
