(* ===== verification/Prohibited.thy ===== *)
theory Prohibited
  imports Taxonomy Js_Regex
begin

text \<open>
  The action the broker authorizes and the prohibited list of src/domain/prohibited.js, which is
  checked before the envelope and before any consent logic.

  An absent property of an action is \<open>JUndef\<close> or \<open>None\<close>.  \<open>args\<close>, when present, is an object, as
  every caller passes it.  A \<open>request\<close>, when present, has its three parts.  \<open>HF_HOME\<close> is read
  from the environment on every call, so it is an argument here.
\<close>

section \<open>Actions\<close>

record request =
  rq_method :: string
  rq_host :: string
  rq_path :: string

record action =
  ac_tool :: "string option"
  ac_verb :: verb
  ac_impact :: json
  ac_declared :: bool
  ac_id :: json
  ac_port :: json
  ac_path :: json
  ac_args :: "(string \<times> json) list option"
  ac_delta :: json
  ac_inverse :: json
  ac_agent :: json
  ac_intent :: json
  ac_resource :: json
  ac_request :: "request option"

text \<open>An action with only a tool and a verb, the rest absent; callers update the fields they pass.\<close>

definition bare_action :: "string \<Rightarrow> verb \<Rightarrow> action" where
  "bare_action tool v =
     \<lparr>ac_tool = Some tool, ac_verb = v, ac_impact = JUndef, ac_declared = False, ac_id = JUndef,
      ac_port = JUndef, ac_path = JUndef, ac_args = None, ac_delta = JUndef, ac_inverse = JUndef,
      ac_agent = JUndef, ac_intent = JUndef, ac_resource = JUndef, ac_request = None\<rparr>"

definition tool_of :: "action \<Rightarrow> string" where
  "tool_of a = (case ac_tool a of None \<Rightarrow> [] | Some t \<Rightarrow> t)"

definition arg :: "action \<Rightarrow> string \<Rightarrow> json" where
  "arg a k = obj_get (JObj (case ac_args a of None \<Rightarrow> [] | Some kvs \<Rightarrow> kvs)) k"

section \<open>The lists\<close>

definition port_min :: int where "port_min = 3100"
definition port_max :: int where "port_max = 3199"

definition shared_ports :: "int list" where
  "shared_ports = [8000, 8080, 11000, 11002, 18789, 18790]"

definition shared_paths :: "string list" where
  "shared_paths = [''/home/acer01'', ''/var/run/docker.sock'', ''/run/docker.sock'']"

definition policy_weakeners :: "string list" where
  "policy_weakeners =
     [''managed_inference'', ''personal-open-internet'', ''disable-device-auth'', ''device_auth_disabled'']"

definition gateway_control_plane :: "string list" where
  "gateway_control_plane =
     [''exec.approvals.set'', ''exec.approvals.node.set'', ''config.set'', ''config.apply'', ''config.patch'',
      ''device.token.rotate'', ''device.token.revoke'', ''device.pair.approve'', ''device.pair.remove'',
      ''node.pair.approve'', ''node.pair.remove'']"

definition inference_hosts :: "string list" where
  "inference_hosts = [''integrate.api.nvidia.com'', ''api.openai.com'', ''api.anthropic.com'']"

definition port_allowed :: "json \<Rightarrow> bool" where
  "port_allowed v = (case v of JNum p \<Rightarrow> port_min \<le> p \<and> p \<le> port_max | _ \<Rightarrow> False)"

definition hf_home :: "string option \<Rightarrow> string" where
  "hf_home env = (case env of None \<Rightarrow> ''/home/acer01/.cache/huggingface''
                  | Some h \<Rightarrow> if h = [] then ''/home/acer01/.cache/huggingface'' else h)"

text \<open>\<open>/gateway.*(config|secret)|env\s*\|\s*curl|printenv.*http/i\<close> and \<open>/(^|\/)(main|master)$/\<close>.\<close>

definition exfil_rx :: rx where
  "exfil_rx =
     rx_alts
       [rx_seqs [rx_lit_i ''gateway'', rx_star (Sat dot_char), Alt (rx_lit_i ''config'') (rx_lit_i ''secret'')],
        rx_seqs [rx_lit_i ''env'', rx_star rx_ws, rx_lit ''|'', rx_star rx_ws, rx_lit_i ''curl''],
        rx_seqs [rx_lit_i ''printenv'', rx_star (Sat dot_char), rx_lit_i ''http'']]"

definition shared_ref_rx :: rx where
  "shared_ref_rx =
     rx_seqs [Alt Bol (rx_lit ''/''), Alt (rx_lit ''main'') (rx_lit ''master''), Eol]"

section \<open>The rules\<close>

text \<open>\<open>a || b\<close> on values.\<close>

definition js_or :: "json \<Rightarrow> json \<Rightarrow> json" where
  "js_or a b = (if truthy a then a else b)"

definition port_rule :: "json \<Rightarrow> string option" where
  "port_rule port =
     (if nullish port then None
      else if port_allowed port then None
      else Some (if port \<in> set (map JNum shared_ports) then ''shared-service-port'' else ''port-outside-block''))"

fun path_rule :: "string \<Rightarrow> json list \<Rightarrow> string option" where
  "path_rule hf [] = None"
| "path_rule hf (p # ps) =
     (let s = js_string p in
      if starts_with s hf then Some ''model-cache''
      else if list_ex (\<lambda>shared. s = shared \<or> starts_with s (shared @ ''/'')) shared_paths then Some ''shared-path''
      else path_rule hf ps)"

definition delta_rule :: "json \<Rightarrow> string option" where
  "delta_rule d =
     (if \<not> truthy d then None
      else
        (let blob = js_lower (json_str d) in
         if list_ex (js_includes blob) policy_weakeners then Some ''policy-weakening''
         else if rx_test (rx_alts (map rx_lit inference_hosts)) blob then Some ''inference-host-direct''
         else None))"

definition gateway_rule :: "string \<Rightarrow> string option" where
  "gateway_rule tool =
     (if starts_with tool ''openclaw.'' \<and> drop (length ''openclaw.'') tool \<in> set gateway_control_plane
      then Some ''gateway-self-protection'' else None)"

definition blast_rule :: "string \<Rightarrow> string option" where
  "blast_rule tool =
     (if tool \<in> {''dispatch.mass_broadcast'', ''dispatch.city_alert'', ''comms.mass_broadcast'', ''comms.city_alert''}
      then Some ''no-mass-broadcast''
      else if tool \<in> {''utility.grid.blackout'', ''utility.city_blackout''} then Some ''no-grid-blackout''
      else if tool \<in> {''camera.facial_recognition'', ''camera.biometric_match''} then Some ''no-biometric-surveillance''
      else if tool \<in> {''evidence.public_release'', ''camera.public_stream''} then Some ''no-surveillance-public-release''
      else None)"

definition git_rule :: "action \<Rightarrow> string option" where
  "git_rule a =
     (if tool_of a \<in> {''git.push'', ''git.branch''} then
        (let ref = js_string (js_or (js_or (arg a ''ref'') (arg a ''branch'')) (JStr [])) in
         if truthy (arg a ''force'') \<and> rx_test shared_ref_rx ref then Some ''force-push-shared-ref''
         else if truthy (arg a ''delete'') \<and> \<not> starts_with ref ''omoda/'' \<and> \<not> starts_with ref ''arif/''
         then Some ''delete-foreign-branch'' else None)
      else None)"

text \<open>The first rule that fires, in the order of the source.\<close>

fun first_some :: "'a option list \<Rightarrow> 'a option" where
  "first_some [] = None"
| "first_some (x # xs) = (case x of None \<Rightarrow> first_some xs | Some v \<Rightarrow> Some v)"

definition prohibited_reason :: "string option \<Rightarrow> action \<Rightarrow> string option" where
  "prohibited_reason env a =
     first_some
       [port_rule (ac_port a),
        path_rule (hf_home env) (filter truthy [ac_path a, arg a ''path'', arg a ''cwd'', arg a ''file'']),
        (if rx_test exfil_rx (js_string (js_or (arg a ''cmd'') (JStr []))) then Some ''credential-exfiltration'' else None),
        delta_rule (ac_delta a),
        gateway_rule (tool_of a),
        blast_rule (tool_of a),
        git_rule a]"

text \<open>\<open>assertNotProhibited\<close> throws a \<open>Prohibited\<close> error with this message.\<close>

definition assert_not_prohibited :: "string option \<Rightarrow> action \<Rightarrow> string + unit" where
  "assert_not_prohibited env a =
     (case prohibited_reason env a of
        None \<Rightarrow> Inr ()
      | Some rule \<Rightarrow>
          Inl (''prohibited: '' @ rule @ (if tool_of a = [] then [] else '' ('' @ tool_of a @ '')'')))"

section \<open>Lemmas\<close>

lemma first_some_None: "first_some xs = None \<longleftrightarrow> (\<forall>x \<in> set xs. x = None)"
  by (induction xs) (auto split: option.split)

lemma rx_match_lit: "rx_match (rx_lit s) (pre, t) = (if prefix s t then [(rev s @ pre, drop (length s) t)] else [])"
proof (induction s arbitrary: pre t)
  case Nil
  then show ?case by (simp add: rx_lit_def)
next
  case (Cons c s)
  have l: "rx_lit (c # s) = Seq (Sat (\<lambda>d. d = c)) (rx_lit s)" by (simp add: rx_lit_def)
  show ?case by (cases t) (auto simp: l Cons)
qed

lemma rx_search_from_lit: "rx_search_from (rx_lit s) pre t = None \<longleftrightarrow> \<not> js_includes t s"
  by (induction t arbitrary: pre) (auto simp: rx_match_lit starts_with_iff_prefix)

lemma rx_test_lit: "rx_test (rx_lit s) t \<longleftrightarrow> js_includes t s"
  by (simp add: rx_test_def rx_search_def rx_search_from_lit)

lemma rx_search_from_Alt:
  "rx_search_from (Alt a b) pre t = None \<longleftrightarrow> rx_search_from a pre t = None \<and> rx_search_from b pre t = None"
  by (induction t arbitrary: pre) (auto split: list.splits simp: append_eq_Cons_conv)

lemma rx_test_Alt: "rx_test (Alt a b) t \<longleftrightarrow> rx_test a t \<or> rx_test b t"
  by (simp add: rx_test_def rx_search_def rx_search_from_Alt)

lemma rx_test_none: "\<not> rx_test (Sat (\<lambda>c. False)) t"
proof -
  have "rx_search_from (Sat (\<lambda>c. False)) pre t = None" for pre
    by (induction t arbitrary: pre) auto
  then show ?thesis by (simp add: rx_test_def rx_search_def)
qed

lemma rx_test_alts: "rx_test (rx_alts rs) t \<longleftrightarrow> (\<exists>r \<in> set rs. rx_test r t)"
  by (induction rs rule: rx_alts.induct) (auto simp: rx_test_none rx_test_Alt)

lemma path_rule_None:
  "path_rule hf ps = None \<longleftrightarrow>
     (\<forall>p \<in> set ps. \<not> prefix hf (js_string p) \<and>
        (\<forall>d \<in> set shared_paths. js_string p \<noteq> d \<and> \<not> prefix (d @ ''/'') (js_string p)))"
  by (induction ps) (auto simp: Let_def list_ex_iff starts_with_iff_prefix)

lemma delta_rule_None:
  "delta_rule d = None \<longleftrightarrow>
     (truthy d \<longrightarrow> (\<forall>w \<in> set (policy_weakeners @ inference_hosts). \<not> sublist w (js_lower (json_str d))))"
  by (auto simp: delta_rule_def Let_def list_ex_iff rx_test_alts rx_test_lit js_includes_iff_sublist)

lemma gateway_rule_None:
  "gateway_rule t = None \<longleftrightarrow> (\<forall>m \<in> set gateway_control_plane. t \<noteq> ''openclaw.'' @ m)"
proof
  assume "gateway_rule t = None"
  then show "\<forall>m \<in> set gateway_control_plane. t \<noteq> ''openclaw.'' @ m"
    by (auto simp: gateway_rule_def starts_with_def split: if_splits)
next
  assume a: "\<forall>m \<in> set gateway_control_plane. t \<noteq> ''openclaw.'' @ m"
  show "gateway_rule t = None"
  proof (rule ccontr)
    assume "gateway_rule t \<noteq> None"
    then have p: "starts_with t ''openclaw.''" and m: "drop (length ''openclaw.'') t \<in> set gateway_control_plane"
      unfolding gateway_rule_def by (meson option.distinct(1))+
    from p have "t = ''openclaw.'' @ drop (length ''openclaw.'') t"
      unfolding starts_with_def by (metis append_take_drop_id)
    with a m show False by blast
  qed
qed

definition banned_tools :: "string list" where
  "banned_tools =
     [''dispatch.mass_broadcast'', ''dispatch.city_alert'', ''comms.mass_broadcast'', ''comms.city_alert'',
      ''utility.grid.blackout'', ''utility.city_blackout'', ''camera.facial_recognition'', ''camera.biometric_match'',
      ''evidence.public_release'', ''camera.public_stream'']"

lemma blast_rule_None: "blast_rule t = None \<longleftrightarrow> t \<notin> set banned_tools"
  by (simp add: blast_rule_def banned_tools_def)

section \<open>Properties\<close>



end
