(* ===== verification/Decision.thy ===== *)
theory Decision
  imports Prohibited
begin

text \<open>
  Decision verification of src/broker/decision.js: what makes a recorded decision materialize a
  capability.  \<open>None\<close> is a missing decision, \<open>Inl\<close> a refusal with its reason.  The fields the code
  tests for their dynamic type are values of \<open>json\<close>; an absent one is \<open>JUndef\<close>.
\<close>

record decision =
  dc_id :: string
  dc_action :: json
  dc_verdict :: json
  dc_spent :: json
  dc_settled :: json
  dc_quorum :: "(json \<times> json) option"
  dc_expires :: json
  dc_decided_by :: json
  dc_proposed_by :: json
  dc_scopes :: json
  dc_reason :: json
  dc_at :: string

definition decision_scope :: string where
  "decision_scope = ''intent:decide''"

definition bound_elsewhere :: "decision \<Rightarrow> action \<Rightarrow> bool" where
  "bound_elsewhere d a = (truthy (ac_id a) \<and> dc_action d \<noteq> ac_id a)"

definition expired :: "decision \<Rightarrow> int \<Rightarrow> bool" where
  "expired d now = (case dc_expires d of JNum t \<Rightarrow> t \<le> now | _ \<Rightarrow> False)"

definition self_approved :: "decision \<Rightarrow> bool" where
  "self_approved d = (truthy (dc_decided_by d) \<and> truthy (dc_proposed_by d) \<and> dc_decided_by d = dc_proposed_by d)"

definition lacks_scope :: "decision \<Rightarrow> bool" where
  "lacks_scope d = (case dc_scopes d of JArr xs \<Rightarrow> JStr decision_scope \<notin> set xs | _ \<Rightarrow> False)"

definition no_reason :: "json \<Rightarrow> bool" where
  "no_reason r = (\<not> truthy r \<or> js_trim (js_string r) = [])"

definition quorum_detail :: "decision \<Rightarrow> string" where
  "quorum_detail d =
     (case dc_quorum d of None \<Rightarrow> []
      | Some (have, needed) \<Rightarrow> '' ('' @ js_string have @ ''/'' @ js_string needed @ '' approvers)'')"

definition verify_decision :: "decision option \<Rightarrow> action \<Rightarrow> int \<Rightarrow> string + unit" where
  "verify_decision decision a now =
     (case decision of
        None \<Rightarrow> Inl ''no decision recorded for this action''
      | Some d \<Rightarrow>
          if dc_verdict d \<noteq> JStr ''approve''
          then Inl (''decision verdict is '' @ js_string (dc_verdict d) @ '', not approve'')
          else if bound_elsewhere d a then Inl ''decision is bound to a different action (mismatch)''
          else if truthy (dc_spent d) then Inl ''decision already spent, replay refused''
          else if dc_settled d = JBool False
          then Inl (''decision awaits a second approver'' @ quorum_detail d)
          else if expired d now then Inl ''decision expired''
          else if self_approved d
          then Inl ''separation of duties: proposer cannot be the decider (self-approval)''
          else if lacks_scope d then Inl (''decider lacks '' @ decision_scope @ '' scope'')
          else if no_reason (dc_reason d) then Inl ''decision requires a reason''
          else Inr ())"

text \<open>The contract: all that an accepted decision has established.\<close>

definition decision_ok :: "decision \<Rightarrow> action \<Rightarrow> int \<Rightarrow> bool" where
  "decision_ok d a now =
     (dc_verdict d = JStr ''approve'' \<and>
      (truthy (ac_id a) \<longrightarrow> dc_action d = ac_id a) \<and>
      \<not> truthy (dc_spent d) \<and> dc_settled d \<noteq> JBool False \<and>
      (\<forall>t. dc_expires d = JNum t \<longrightarrow> now < t) \<and>
      (truthy (dc_decided_by d) \<longrightarrow> dc_decided_by d \<noteq> dc_proposed_by d) \<and>
      (\<forall>xs. dc_scopes d = JArr xs \<longrightarrow> JStr decision_scope \<in> set xs) \<and>
      truthy (dc_reason d) \<and> js_trim (js_string (dc_reason d)) \<noteq> [])"

lemma verify_decision_None [simp]: "verify_decision None a now = Inl ''no decision recorded for this action''"
  by (simp add: verify_decision_def)

lemma expired_iff: "expired d now \<longleftrightarrow> (\<exists>t. dc_expires d = JNum t \<and> t \<le> now)"
  by (cases "dc_expires d") (simp_all add: expired_def)

lemma lacks_scope_iff: "lacks_scope d \<longleftrightarrow> (\<exists>xs. dc_scopes d = JArr xs \<and> JStr decision_scope \<notin> set xs)"
  by (cases "dc_scopes d") (simp_all add: lacks_scope_def)

lemma decision_ok_guards:
  "decision_ok d a now \<longleftrightarrow>
     dc_verdict d = JStr ''approve'' \<and> \<not> bound_elsewhere d a \<and> \<not> truthy (dc_spent d) \<and>
     dc_settled d \<noteq> JBool False \<and> \<not> expired d now \<and> \<not> self_approved d \<and> \<not> lacks_scope d \<and>
     \<not> no_reason (dc_reason d)"
  unfolding decision_ok_def bound_elsewhere_def self_approved_def no_reason_def expired_iff lacks_scope_iff
  by (metis not_le)

lemma verify_decision_ok: "verify_decision (Some d) a now = Inr () \<longleftrightarrow> decision_ok d a now"
  by (simp add: verify_decision_def decision_ok_guards)

lemma verify_decision_cases:
  obtains (refused) why where "verify_decision d a now = Inl why"
  | (accepted) d' where "d = Some d'" "decision_ok d' a now" "verify_decision d a now = Inr ()"
proof (cases d)
  case (Some d')
  then show thesis using that verify_decision_ok [of d' a now]
    by (cases "verify_decision d a now") auto
qed (use that in simp)

text \<open>C7. A decision is accepted exactly when it is an approval bound to this action, unspent, settled,
  not yet expired, decided by somebody other than the proposer, by a holder of the scope (when the
  scopes are listed) and for a stated reason; and once refused for its age it stays refused.\<close>

theorem verify_decision_iff:
  "(verify_decision d a now = Inr () \<longleftrightarrow> (\<exists>d'. d = Some d' \<and> decision_ok d' a now)) \<and>
   (now \<le> later \<longrightarrow> verify_decision d a later = Inr () \<longrightarrow> verify_decision d a now = Inr ())"
proof -
  have mono: "decision_ok d' a later \<Longrightarrow> now \<le> later \<Longrightarrow> decision_ok d' a now" for d'
    unfolding decision_ok_def by (meson le_less_trans)
  show ?thesis
    by (cases d) (auto simp: verify_decision_ok intro: mono)
qed

definition sample_decision :: decision where
  "sample_decision =
     \<lparr>dc_id = ''dec-1'', dc_action = JStr ''act-1'', dc_verdict = JStr ''approve'', dc_spent = JBool False,
      dc_settled = JBool True, dc_quorum = Some (JNum 1, JNum 1), dc_expires = JNum 2000,
      dc_decided_by = JStr ''ops-1'', dc_proposed_by = JStr ''agent-1'',
      dc_scopes = JArr [JStr ''intent:decide''], dc_reason = JStr ''ok'', dc_at = ''t''\<rparr>"

theorem verify_decision_iff_witness:
  "verify_decision (Some sample_decision) (bare_action ''x'' Create\<lparr>ac_id := JStr ''act-1''\<rparr>) 1000 = Inr ()"
  using verify_decision_iff [of "Some sample_decision" "bare_action ''x'' Create\<lparr>ac_id := JStr ''act-1''\<rparr>" 1000 1500]
  by (simp add: decision_ok_def sample_decision_def bare_action_def decision_scope_def js_trim_def js_ws_def)

end
