(* ===== verification/Intents.thy ===== *)
theory Intents
  imports Decision Auth
begin

text \<open>
  The transport envelope of src/transport/envelope.js and the intent store of src/api/intents.js:
  proposing (idempotent per key), updating, awaiting consent and deciding with a quorum.

  An intent object is held by its id; the idempotency index holds that id, since both maps of the
  source hold the same object.  Fresh ids, the clock and the time stamps are arguments.  A refusal
  is \<open>Inl\<close> of its HTTP status and reason.
\<close>

section \<open>The transport envelope\<close>

record transport =
  tr_source :: string
  tr_direction :: string
  tr_modality :: string
  tr_key :: "string option"
  tr_received :: string

definition transport_envelope :: "string \<Rightarrow> string \<Rightarrow> string \<Rightarrow> string option \<Rightarrow> string \<Rightarrow> string + transport" where
  "transport_envelope source direction modality key received =
     (if source \<notin> {''stream'', ''api'', ''telegram''} then Inl (''envelope: unknown source \"'' @ source @ ''\"'')
      else if direction \<notin> {''inbound'', ''outbound-dial''} then Inl (''envelope: unknown direction \"'' @ direction @ ''\"'')
      else if modality \<notin> {''json'', ''text'', ''voice'', ''video''} then Inl (''envelope: unknown modality \"'' @ modality @ ''\"'')
      else Inr \<lparr>tr_source = source, tr_direction = direction, tr_modality = modality, tr_key = key, tr_received = received\<rparr>)"

section \<open>Intents\<close>

datatype intent_state = Proposed | Awaiting_consent | Executed_state | Refused_state | Denied

fun state_name :: "intent_state \<Rightarrow> string" where
  "state_name Proposed = ''proposed''"
| "state_name Awaiting_consent = ''awaiting_consent''"
| "state_name Executed_state = ''executed''"
| "state_name Refused_state = ''refused''"
| "state_name Denied = ''denied''"

record intent_update =
  up_at :: string
  up_by :: string
  up_patch :: "(string \<times> json) list"

record intent =
  in_id :: string
  in_envelope :: "transport option"
  in_state :: intent_state
  in_proposed_by :: string
  in_source :: json
  in_kind :: json
  in_detector :: json
  in_confidence :: json
  in_observed :: json
  in_evidence :: "(string \<times> json) list"
  in_outcome :: json
  in_actions :: "action list"
  in_decisions :: "decision list"
  in_created :: string
  in_updates :: "intent_update list"

record intent_store =
  st_by_id :: "(string, intent) jsmap"
  st_by_key :: "(string, string) jsmap"
  st_final :: "string list"
  st_approvers :: "(string, string list) jsmap"
  st_single :: bool

definition create_intents :: "bool \<Rightarrow> intent_store" where
  "create_intents single = \<lparr>st_by_id = [], st_by_key = [], st_final = [], st_approvers = [], st_single = single\<rparr>"

text \<open>The fields of a request body; \<open>JUndef\<close> is an absent one, evidence is an object or absent.\<close>

record body =
  bd_source :: json
  bd_kind :: json
  bd_detector :: json
  bd_confidence :: json
  bd_observed :: json
  bd_evidence :: "(string \<times> json) list option"
  bd_outcome :: json
  bd_decision :: bool

section \<open>Propose and update\<close>

definition new_intent :: "string \<Rightarrow> string \<Rightarrow> body \<Rightarrow> caller \<Rightarrow> transport option \<Rightarrow> intent" where
  "new_intent uuid at b c env =
     \<lparr>in_id = ''int_'' @ uuid, in_envelope = env, in_state = Proposed, in_proposed_by = cl_id c,
      in_source = js_coalesce (bd_source b) (JStr (cl_id c)), in_kind = js_coalesce (bd_kind b) (JStr ''task''),
      in_detector = js_coalesce (bd_detector b) JNull, in_confidence = js_coalesce (bd_confidence b) JNull,
      in_observed = js_coalesce (bd_observed b) JNull,
      in_evidence = (case bd_evidence b of None \<Rightarrow> [] | Some e \<Rightarrow> e),
      in_outcome = js_coalesce (bd_outcome b) JNull,
      in_actions = [], in_decisions = [], in_created = at, in_updates = []\<rparr>"

text \<open>The result is the id of the intent and whether the call was a duplicate.\<close>

definition propose ::
  "string \<Rightarrow> string \<Rightarrow> string option \<Rightarrow> body \<Rightarrow> caller \<Rightarrow> transport option \<Rightarrow> intent_store \<Rightarrow> (string \<times> bool) \<times> intent_store" where
  "propose uuid at key b c env s =
     (case (case key of None \<Rightarrow> None | Some k \<Rightarrow> if k = [] then None else map_of (st_by_key s) k) of
        Some i \<Rightarrow> ((i, True), s)
      | None \<Rightarrow>
          (let intent = new_intent uuid at b c env in
           ((in_id intent, False),
            s\<lparr>st_by_id := jset (st_by_id s) (in_id intent) intent,
              st_by_key := (case key of None \<Rightarrow> st_by_key s
                            | Some k \<Rightarrow> if k = [] then st_by_key s else jset (st_by_key s) k (in_id intent))\<rparr>)))"

definition update_patch :: "intent \<Rightarrow> body \<Rightarrow> (string \<times> json) list" where
  "update_patch i b =
     (if bd_outcome b = JUndef then [] else [(''requestedOutcome'', bd_outcome b)])
     @ (if bd_confidence b = JUndef then [] else [(''confidence'', bd_confidence b)])
     @ (case bd_evidence b of None \<Rightarrow> []
        | Some e \<Rightarrow> [(''evidence'', JObj (foldl (\<lambda>m kv. jset m (fst kv) (snd kv)) (in_evidence i) e))])"

definition apply_patch :: "intent \<Rightarrow> body \<Rightarrow> intent" where
  "apply_patch i b =
     i\<lparr>in_outcome := (if bd_outcome b = JUndef then in_outcome i else bd_outcome b),
       in_confidence := (if bd_confidence b = JUndef then in_confidence i else bd_confidence b),
       in_evidence := (case bd_evidence b of None \<Rightarrow> in_evidence i
                       | Some e \<Rightarrow> foldl (\<lambda>m kv. jset m (fst kv) (snd kv)) (in_evidence i) e)\<rparr>"

definition update_intent ::
  "string \<Rightarrow> string \<Rightarrow> body \<Rightarrow> caller \<Rightarrow> intent_store \<Rightarrow> ((nat \<times> string) + intent) \<times> intent_store" where
  "update_intent at intent_id b c s =
     (case map_of (st_by_id s) intent_id of
        None \<Rightarrow> (Inl (404, ''unknown intent''), s)
      | Some i \<Rightarrow>
          if cl_id c \<noteq> in_proposed_by i then (Inl (403, ''only the proposer may update its own engagement''), s)
          else if in_state i \<in> {Executed_state, Denied, Refused_state}
          then (Inl (409, ''intent is '' @ state_name (in_state i) @ ''; an update cannot reopen a settled engagement''), s)
          else if bd_decision b then (Inl (422, ''an update cannot carry decisions''), s)
          else if update_patch i b = [] then (Inl (422, ''an update must change something''), s)
          else
            (let i' = (apply_patch i b)\<lparr>in_updates := in_updates i @ [\<lparr>up_at = at, up_by = cl_id c, up_patch = update_patch i b\<rparr>]\<rparr>
             in (Inr i', s\<lparr>st_by_id := jset (st_by_id s) intent_id i'\<rparr>)))"

section \<open>Consent\<close>

definition await_consent :: "string \<Rightarrow> action \<Rightarrow> intent_store \<Rightarrow> intent option \<times> intent_store" where
  "await_consent intent_id a s =
     (case map_of (st_by_id s) intent_id of
        None \<Rightarrow> (None, s)
      | Some i \<Rightarrow>
          (let i' = i\<lparr>in_state := Awaiting_consent, in_actions := in_actions i @ [a]\<rparr>
           in (Some i', s\<lparr>st_by_id := jset (st_by_id s) intent_id i'\<rparr>)))"

definition quorum_for :: "string \<Rightarrow> nat" where
  "quorum_for kind = (if kind = ''two-person'' then 2 else 1)"

definition find_action :: "intent \<Rightarrow> string \<Rightarrow> action option" where
  "find_action i action_id = find (\<lambda>a. ac_id a = JStr action_id) (in_actions i)"

definition action_kind :: "action option \<Rightarrow> string" where
  "action_kind a =
     (case a of None \<Rightarrow> ''approval''
      | Some a \<Rightarrow> (case consent_kind (ac_verb a) (ac_impact a) of None \<Rightarrow> ''approval'' | Some k \<Rightarrow> k))"

text \<open>\<open>mkDecision\<close>: the decision of \<open>c\<close> on an action of the intent \<open>i\<close>.\<close>

definition mk_decision ::
  "string \<Rightarrow> int \<Rightarrow> string \<Rightarrow> string \<Rightarrow> string \<Rightarrow> string \<Rightarrow> caller \<Rightarrow> intent \<Rightarrow> bool \<Rightarrow> nat \<Rightarrow> nat \<Rightarrow> decision" where
  "mk_decision uuid now at action_id verdict reason c i settled needed have =
     \<lparr>dc_id = ''dec_'' @ uuid, dc_action = JStr action_id, dc_verdict = JStr verdict, dc_spent = JBool False,
      dc_settled = JBool settled, dc_quorum = Some (JNum (int have), JNum (int needed)),
      dc_expires = JNum (now + 120000), dc_decided_by = JStr (cl_id c), dc_proposed_by = JStr (in_proposed_by i),
      dc_scopes = JArr (map JStr (cl_scopes c)), dc_reason = JStr reason, dc_at = at\<rparr>"

definition decision_key :: "string \<Rightarrow> string \<Rightarrow> string" where
  "decision_key intent_id action_id = intent_id @ '':'' @ action_id"

definition single_operator_msg :: string where
  "single_operator_msg = ''two-person consent required, but this deployment runs a single operator; a second distinct approver cannot exist. Add a second operator or reclassify the action.''"

text \<open>A denial is final at once; an approval collects approvers until the quorum.\<close>

definition record_denial :: "string \<Rightarrow> string \<Rightarrow> intent \<Rightarrow> decision \<Rightarrow> intent_store \<Rightarrow> intent_store" where
  "record_denial key iid i d s =
     s\<lparr>st_final := st_final s @ [key],
       st_by_id := jset (st_by_id s) iid (i\<lparr>in_decisions := in_decisions i @ [d], in_state := Denied\<rparr>)\<rparr>"

definition record_approval :: "string \<Rightarrow> string \<Rightarrow> intent \<Rightarrow> string list \<Rightarrow> bool \<Rightarrow> decision \<Rightarrow> intent_store \<Rightarrow> intent_store" where
  "record_approval key iid i approvers settled d s =
     s\<lparr>st_approvers := jset (st_approvers s) key approvers,
       st_final := (if settled then st_final s @ [key] else st_final s),
       st_by_id := jset (st_by_id s) iid
         (i\<lparr>in_decisions := in_decisions i @ [d], in_state := (if settled then Proposed else Awaiting_consent)\<rparr>)\<rparr>"

definition approvers_of :: "string \<Rightarrow> intent_store \<Rightarrow> string list" where
  "approvers_of key s = (case map_of (st_approvers s) key of None \<Rightarrow> [] | Some xs \<Rightarrow> xs)"

definition decide ::
  "string \<Rightarrow> int \<Rightarrow> string \<Rightarrow> string \<Rightarrow> string \<Rightarrow> string \<Rightarrow> string \<Rightarrow> caller \<Rightarrow> intent_store \<Rightarrow>
     ((nat \<times> string) + decision) \<times> intent_store" where
  "decide uuid now at intent_id action_id verdict reason c s =
     (case map_of (st_by_id s) intent_id of
        None \<Rightarrow> (Inl (404, ''unknown intent''), s)
      | Some i \<Rightarrow>
          if js_trim reason = [] then (Inl (422, ''a decision requires a reason''), s)
          else if cl_id c = in_proposed_by i then (Inl (403, ''separation of duties: the proposer cannot decide''), s)
          else
            (let key = decision_key intent_id action_id;
                 kind = action_kind (find_action i action_id);
                 needed = quorum_for kind
             in if key \<in> set (st_final s)
                then (Inl (409, ''a decision for this action was already recorded''), s)
                else if verdict \<noteq> ''approve'' then
                  (let d = mk_decision uuid now at action_id verdict reason c i True needed 0
                   in (Inr d, record_denial key intent_id i d s))
                else if kind = ''two-person'' \<and> st_single s then (Inl (409, single_operator_msg), s)
                else if cl_id c \<in> set (approvers_of key s)
                then (Inl (409, ''this approver has already approved this action; a quorum needs distinct people''), s)
                else
                  (let approvers = approvers_of key s @ [cl_id c];
                       settled = (length approvers \<ge> needed);
                       d = mk_decision uuid now at action_id verdict reason c i settled needed (length approvers)
                   in (Inr d, record_approval key intent_id i approvers settled d s))))"

text \<open>\<open>contentKey\<close>.\<close>

definition content_key :: "(string \<Rightarrow> string) \<Rightarrow> json \<Rightarrow> string" where
  "content_key hash payload = take 24 (hash (json_str payload))"

section \<open>Histories\<close>

datatype intent_op =
    Op_propose string string "string option" body caller "transport option"
  | Op_update string string body caller
  | Op_await string action
  | Op_decide string int string string string string string caller

fun intent_step :: "intent_op \<Rightarrow> intent_store \<Rightarrow> intent_store" where
  "intent_step (Op_propose uuid at key b c env) s = snd (propose uuid at key b c env s)"
| "intent_step (Op_update at i b c) s = snd (update_intent at i b c s)"
| "intent_step (Op_await i a) s = snd (await_consent i a s)"
| "intent_step (Op_decide uuid now at i a v r c) s = snd (decide uuid now at i a v r c s)"

end
