(* ===== verification/Json_Roundtrip.thy ===== *)
theory Json_Roundtrip
  imports Json
begin

text \<open>
  What the ledger needs of the JSON conversions: parsing a rendered value gives the value back
  (\<open>json_parse_str\<close>), so rendering is injective on the values a record may hold.
\<close>

section \<open>Values without \<open>undefined\<close>\<close>

fun wf_json :: "json \<Rightarrow> bool" where
  "wf_json JUndef = False"
| "wf_json JNaN = False"
| "wf_json (JArr xs) = list_all wf_json xs"
| "wf_json (JObj kvs) = (distinct (map fst kvs) \<and> list_all (\<lambda>kv. wf_json (snd kv)) kvs)"
| "wf_json v = True"

section \<open>Strings\<close>

lemma hex_val_hex_digit: "d < 16 \<Longrightarrow> hex_val (hex_digit d) = Some d"
  by (auto simp: hex_digit_def hex_val_def Let_def)

lemma hex_pair_hex_digit:
  assumes "n < 256"
  shows "hex_pair (hex_digit (n div 16)) (hex_digit (n mod 16)) = Some (char_of n)"
proof -
  have "n div 16 < 16" "n mod 16 < 16" using assms by auto
  then show ?thesis by (simp add: hex_pair_def hex_val_hex_digit)
qed

lemma esc_char_short:
  assumes "(of_char c :: nat) \<in> {34, 92, 8, 12, 10, 13, 9}"
  shows "\<exists>e. esc_char c = [CHR 0x5C, e] \<and> e \<noteq> CHR ''u'' \<and> unescape e = Some c"
proof -
  have eq: "c = d" if "(of_char c :: nat) = of_char d" for d
    using that by simp
  from assms have "c \<in> {CHR 0x22, CHR 0x5C, CHR 0x08, CHR 0x0C, CHR 0x0A, CHR 0x0D, CHR 0x09}"
    using eq [of "CHR 0x22"] eq [of "CHR 0x5C"] eq [of "CHR 0x08"] eq [of "CHR 0x0C"]
      eq [of "CHR 0x0A"] eq [of "CHR 0x0D"] eq [of "CHR 0x09"] by auto
  then show ?thesis
    by (elim insertE emptyE) (simp_all add: esc_char_def unescape_def)
qed

lemma pstr_short: "e \<noteq> CHR ''u'' \<Longrightarrow> unescape e = Some c \<Longrightarrow>
    pstr (CHR 0x5C # e # t) = map_option (\<lambda>(s, u). (c # s, u)) (pstr t)"
  by (subst pstr.simps) (simp del: pstr.simps split: list.split)

lemma pstr_esc_char: "pstr (esc_char c @ t) = map_option (\<lambda>(s, u). (c # s, u)) (pstr t)"
proof (cases "(of_char c :: nat) \<in> {34, 92, 8, 12, 10, 13, 9}")
  case True
  from esc_char_short [OF this] show ?thesis using pstr_short by auto
next
  case False
  show ?thesis
  proof (cases "(of_char c :: nat) < 32")
    case True
    then have "hex_pair (hex_digit (of_char c div 16)) (hex_digit (of_char c mod 16)) = Some c"
      using hex_pair_hex_digit [of "of_char c"] by simp
    with True False show ?thesis by (simp add: esc_char_def Let_def)
  next
    case big: False
    moreover have "c \<noteq> CHR 0x22" "c \<noteq> CHR 0x5C" using False by auto
    ultimately show ?thesis using False by (simp add: esc_char_def Let_def)
  qed
qed

lemma pstr_quoted: "pstr (concat (map esc_char s) @ CHR 0x22 # r) = Some (s, r)"
  by (induction s) (simp_all add: pstr_esc_char)

section \<open>Integers\<close>

definition num_end :: "string \<Rightarrow> bool" where
  "num_end r = (case r of [] \<Rightarrow> True | c # _ \<Rightarrow> \<not> is_digit c \<and> c \<notin> {CHR ''.'', CHR ''e'', CHR ''E''})"

lemma nat_of_digits_append:
  "nat_of_digits a (s @ [c]) = 10 * nat_of_digits a s + digit_val c"
  by (induction a s rule: nat_of_digits.induct) auto

lemma nat_of_digits_show [simp]: "nat_of_digits 0 (show_nat n) = n"
proof (induction n rule: show_nat.induct)
  case (1 n)
  then show ?case
    by (cases "n < 10")
       (simp_all add: show_nat.simps [of n] digit_val_digit_char nat_of_digits_append)
qed

lemma hd_show_nat: "hd (show_nat n) = CHR ''0'' \<Longrightarrow> length (show_nat n) = 1"
proof (induction n rule: show_nat.induct)
  case (1 n)
  show ?case
  proof (cases "n < 10")
    case True
    then show ?thesis by (simp add: show_nat.simps [of n])
  next
    case False
    with 1 have h: "length (show_nat (n div 10)) = 1" "hd (show_nat (n div 10)) = CHR ''0''"
      by (auto simp: show_nat.simps [of n])
    then have "show_nat (n div 10) = ''0''" by (cases "show_nat (n div 10)") auto
    then have "n div 10 = 0"
      using nat_of_digits_show [of "n div 10"] by (simp add: digit_val_def)
    with False show ?thesis by auto
  qed
qed

lemma take_drop_digits:
  "(\<forall>c \<in> set ds. is_digit c) \<Longrightarrow> num_end r \<Longrightarrow>
     takeWhile is_digit (ds @ r) = ds \<and> dropWhile is_digit (ds @ r) = r"
  by (induction ds) (auto simp: num_end_def split: list.splits)

lemma pnat_show: "num_end r \<Longrightarrow> pnat (show_nat n @ r) = Some (n, r)"
  using take_drop_digits [of "show_nat n" r] show_nat_digits hd_show_nat [of n]
  by (auto simp: pnat_def Let_def num_end_def split: list.splits)

lemma hd_show_nat_digit: "is_digit (hd (show_nat n))"
  by (metis hd_in_set show_nat_digits show_nat_nonempty)

lemma pnum_show: "num_end r \<Longrightarrow> pnum (show_int i @ r) = Some (JNum i, r)"
proof (cases "i < 0")
  case True
  assume "num_end r"
  with True show ?thesis by (simp add: show_int_def pnum_def pnat_show)
next
  case False
  assume r: "num_end r"
  have "hd (show_nat (nat i)) \<noteq> CHR ''-''"
    using hd_show_nat_digit [of "nat i"] by (auto simp: is_digit_def)
  then have "pnum (show_nat (nat i) @ r) = map_option (\<lambda>(n, t). (JNum (int n), t)) (pnat (show_nat (nat i) @ r))"
    by (cases "show_nat (nat i)") (simp_all add: pnum_def)
  with False r show ?thesis by (simp add: show_int_def pnat_show)
qed

section \<open>First characters\<close>

text \<open>The first character of a rendered value is no white space, and tells its kind.\<close>

definition num_head :: "char \<Rightarrow> bool" where
  "num_head c = (is_digit c \<or> c = CHR ''-'')"

lemma show_int_head: "\<exists>c s. show_int i = c # s \<and> num_head c"
proof (cases "i < 0")
  case False
  have "show_nat (nat i) = hd (show_nat (nat i)) # tl (show_nat (nat i))" by simp
  with False hd_show_nat_digit [of "nat i"] show ?thesis
    unfolding show_int_def num_head_def by metis
qed (auto simp: show_int_def num_head_def)

lemma num_head_other:
  "num_head c \<Longrightarrow> c \<notin> {CHR 0x22, CHR ''['', CHR ''{'', CHR ''n'', CHR ''t'', CHR ''f'', CHR ''}'', CHR '']''} \<and> \<not> json_ws c"
  by (auto simp: num_head_def is_digit_def json_ws_def)

lemma json_str_head: "\<exists>c s. json_str v = c # s \<and> \<not> json_ws c \<and> c \<noteq> CHR '']'' \<and> c \<noteq> CHR ''}''"
proof (cases v)
  case (JNum i)
  then show ?thesis using show_int_head [of i] num_head_other by auto
qed (auto simp: json_quote_def json_ws_def)

lemma skip_ws_json_str [simp]: "skip_ws (json_str v @ r) = json_str v @ r"
  using json_str_head [of v] by auto

lemma skip_ws_quote [simp]: "skip_ws (json_quote s @ r) = json_quote s @ r"
  by (simp add: json_quote_def json_ws_def)

lemma json_str_nonempty [simp]: "json_str v \<noteq> []"
  using json_str_head [of v] by auto

section \<open>The round trip\<close>

abbreviation render_member :: "string \<times> json \<Rightarrow> string" where
  "render_member kv \<equiv> json_quote (fst kv) @ '':'' @ json_str (snd kv)"

lemma filter_defined: "list_all (\<lambda>kv. wf_json (snd kv)) kvs \<Longrightarrow> filter (\<lambda>kv. snd kv \<noteq> JUndef) kvs = kvs"
  by (induction kvs) auto

lemma json_str_JObj:
  "list_all (\<lambda>kv. wf_json (snd kv)) kvs \<Longrightarrow>
     json_str (JObj kvs) = ''{'' @ js_join '','' (map render_member kvs) @ ''}''"
  by (simp add: filter_defined case_prod_unfold)

lemma join_Cons: "js_join sep (w # ws) = w @ (if ws = [] then [] else sep @ js_join sep ws)"
  by (cases ws) auto

lemma pval_num: "num_end r \<Longrightarrow> pval (Suc n) (show_int i @ r) = Some (JNum i, r)"
proof -
  assume r: "num_end r"
  obtain c s where cs: "show_int i = c # s" and h: "num_head c" using show_int_head by blast
  from num_head_other [OF h] have "pval (Suc n) (show_int i @ r) = pnum (show_int i @ r)"
    by (auto simp: cs starts_with_def)
  with r show ?thesis by (simp add: pnum_show)
qed

lemma pval_str: "pval (Suc n) (json_quote s @ r) = Some (JStr s, r)"
  by (simp add: json_quote_def json_ws_def pstr_quoted)

lemma num_end_punct [simp]: "num_end (CHR '','' # r)" "num_end (CHR '']'' # r)" "num_end (CHR ''}'' # r)" "num_end []"
  by (simp_all add: num_end_def is_digit_def)

lemma json_ws_punct [simp]:
  "\<not> json_ws (CHR '','')" "\<not> json_ws (CHR '']'')" "\<not> json_ws (CHR ''}'')" "\<not> json_ws (CHR '':'')"
  "\<not> json_ws (CHR ''['')" "\<not> json_ws (CHR ''{'')" "\<not> json_ws (CHR 0x22)"
  by (simp_all add: json_ws_def)

lemma starts_with_singleton [simp]: "starts_with (c # r) [d] \<longleftrightarrow> c = d"
  by (simp add: starts_with_def)

lemma pelems_roundtrip:
  assumes "\<And>v n r. v \<in> set xs \<Longrightarrow> length (json_str v) < n \<Longrightarrow> num_end r \<Longrightarrow>
             pval n (json_str v @ r) = Some (v, r)"
    and "xs \<noteq> []" and "length (js_join '','' (map json_str xs)) + 1 < n"
  shows "pelems n acc (js_join '','' (map json_str xs) @ CHR '']'' # r) = Some (JArr (acc @ xs), r)"
  using assms
proof (induction xs arbitrary: n acc)
  case Nil
  then show ?case by simp
next
  case (Cons v xs)
  from Cons.prems(3) obtain m where n: "n = Suc m" by (cases n) auto
  have lv: "length (json_str v) < m" using Cons.prems(3) n by (auto simp: join_Cons)
  show ?case
  proof (cases "xs = []")
    case True
    with Cons.prems(1) [of v m "CHR '']'' # r"] lv show ?thesis by (simp add: n)
  next
    case False
    let ?rest = "js_join '','' (map json_str xs) @ CHR '']'' # r"
    have "pval m (json_str v @ CHR '','' # ?rest) = Some (v, CHR '','' # ?rest)"
      using Cons.prems(1) lv by simp
    moreover have "pelems m (acc @ [v]) ?rest = Some (JArr ((acc @ [v]) @ xs), r)"
      using Cons.prems False n by (intro Cons.IH) (auto simp: join_Cons)
    ultimately show ?thesis using False by (simp add: n join_Cons)
  qed
qed

lemma pmembers_roundtrip:
  assumes "\<And>kv n r. kv \<in> set kvs \<Longrightarrow> length (json_str (snd kv)) < n \<Longrightarrow> num_end r \<Longrightarrow>
             pval n (json_str (snd kv) @ r) = Some (snd kv, r)"
    and "kvs \<noteq> []" and "distinct (map fst (acc @ kvs))"
    and "length (js_join '','' (map render_member kvs)) + 1 < n"
  shows "pmembers n acc (js_join '','' (map render_member kvs) @ CHR ''}'' # r) = Some (JObj (acc @ kvs), r)"
  using assms
proof (induction kvs arbitrary: n acc)
  case Nil
  then show ?case by simp
next
  case (Cons kv kvs)
  obtain k v where kv: "kv = (k, v)" by (cases kv)
  from Cons.prems(4) obtain m where n: "n = Suc m" by (cases n) auto
  have lv: "length (json_str v) < m" using Cons.prems(4) n by (auto simp: join_Cons kv)
  have "\<not> jhas acc k" using Cons.prems(3) kv by (auto simp: jhas_iff_key)
  then have acc: "jset acc k v = acc @ [kv]" using kv by (simp add: jset_fresh)
  show ?case
  proof (cases "kvs = []")
    case True
    with Cons.prems(1) [of kv m "CHR ''}'' # r"] lv acc show ?thesis
      by (simp add: n kv json_quote_def pstr_quoted json_ws_def)
  next
    case False
    let ?rest = "js_join '','' (map render_member kvs) @ CHR ''}'' # r"
    have "pval m (json_str v @ CHR '','' # ?rest) = Some (v, CHR '','' # ?rest)"
      using Cons.prems(1) [of kv] lv kv by simp
    moreover have "pmembers m (acc @ [kv]) ?rest = Some (JObj ((acc @ [kv]) @ kvs), r)"
      using Cons.prems False n by (intro Cons.IH) (auto simp: join_Cons)
    ultimately show ?thesis using False acc
      by (simp add: n kv join_Cons json_quote_def pstr_quoted json_ws_def)
  qed
qed

lemma pval_JArr:
  "xs \<noteq> [] \<Longrightarrow> pval (Suc n) (CHR ''['' # js_join '','' (map json_str xs) @ CHR '']'' # r)
     = pelems n [] (js_join '','' (map json_str xs) @ CHR '']'' # r)"
  using json_str_head [of "hd xs"]
  by (cases xs) (auto simp: json_ws_def join_Cons starts_with_def)

lemma pval_JObj:
  "kvs \<noteq> [] \<Longrightarrow> pval (Suc n) (CHR ''{'' # js_join '','' (map render_member kvs) @ CHR ''}'' # r)
     = pmembers n [] (js_join '','' (map render_member kvs) @ CHR ''}'' # r)"
  by (cases kvs) (auto simp: json_ws_def join_Cons starts_with_def json_quote_def)

lemma pval_json_str:
  "wf_json v \<Longrightarrow> length (json_str v) < n \<Longrightarrow> num_end r \<Longrightarrow> pval n (json_str v @ r) = Some (v, r)"
proof (induction v arbitrary: n r)
  case (JArr xs)
  then obtain m where n: "n = Suc m" by (cases n) auto
  show ?case
  proof (cases "xs = []")
    case True
    then show ?thesis by (simp add: n json_ws_def)
  next
    case False
    have "pelems m [] (js_join '','' (map json_str xs) @ CHR '']'' # r) = Some (JArr ([] @ xs), r)"
      using JArr False n by (intro pelems_roundtrip) (auto simp: list_all_iff)
    moreover have "json_str (JArr xs) @ r = CHR ''['' # js_join '','' (map json_str xs) @ CHR '']'' # r"
      by simp
    ultimately show ?thesis by (simp only: n pval_JArr [OF False] append.simps)
  qed
next
  case (JObj kvs)
  then obtain m where n: "n = Suc m" by (cases n) auto
  have all: "list_all (\<lambda>kv. wf_json (snd kv)) kvs" using JObj.prems by simp
  show ?case
  proof (cases "kvs = []")
    case True
    then show ?thesis by (simp add: n json_ws_def)
  next
    case False
    have "pmembers m [] (js_join '','' (map render_member kvs) @ CHR ''}'' # r) = Some (JObj ([] @ kvs), r)"
    proof (rule pmembers_roundtrip)
      fix kv n r assume "kv \<in> set kvs" "length (json_str (snd kv)) < n" "num_end r"
      then show "pval n (json_str (snd kv) @ r) = Some (snd kv, r)"
        using JObj.IH [of kv "snd kv"] all by (auto simp: list_all_iff snds.simps)
    qed (use JObj.prems False n all in \<open>auto simp: json_str_JObj simp del: json_str.simps\<close>)
    moreover have "json_str (JObj kvs) @ r = CHR ''{'' # js_join '','' (map render_member kvs) @ CHR ''}'' # r"
      by (simp only: json_str_JObj [OF all]) simp
    ultimately show ?thesis by (simp only: n pval_JObj [OF False] append_Nil)
  qed
next
  case (JStr s)
  then show ?case by (cases n) (auto simp del: pval.simps simp add: pval_str)
next
  case (JNum i)
  then show ?case by (cases n) (auto simp del: pval.simps simp add: pval_num)
next
  case JUndef
  then show ?case by simp
next
  case JNaN
  then show ?case by simp
next
  case JNull
  then show ?case by (cases n) (auto simp: json_ws_def starts_with_def)
next
  case (JBool b)
  then show ?case by (cases n) (auto simp: json_ws_def starts_with_def)
qed

lemma json_parse_str: "wf_json v \<Longrightarrow> json_parse (json_str v) = Some v"
  using pval_json_str [of v "Suc (length (json_str v))" "[]"] by (simp add: json_parse_def)

lemma json_str_inj: "wf_json v \<Longrightarrow> wf_json w \<Longrightarrow> json_str v = json_str w \<Longrightarrow> v = w"
  by (metis json_parse_str option.inject)

end
