(* ===== verification/Ledger.thy ===== *)
theory Ledger
  imports Json_Roundtrip
begin

text \<open>
  The hash-chained, append-only action ledger of src/ledger/ledger.js: the in-memory records, the
  JSONL file behind them, \<open>append\<close> (which is durable before it returns, and throws otherwise),
  the reload at start-up, \<open>verify\<close> and \<open>query\<close>.

  SHA-256 is the parameter \<open>hash\<close>; what the chain needs of it (no collision among the texts that
  were hashed, a hexadecimal digest) is a named hypothesis of the theorems that use it.  The disk
  is a parameter of \<open>append\<close>: either the write and the fsync succeed, or they throw after leaving
  some text behind.
\<close>

section \<open>State and hashing\<close>

record ledger =
  lg_file :: string
  lg_seq :: json
  lg_prev :: json
  lg_mem :: "json list"
  lg_broken :: bool

definition genesis :: string where
  "genesis = replicate 64 (CHR ''0'')"

definition canonical_text :: "json \<Rightarrow> string" where
  "canonical_text v = (case canonical v of None \<Rightarrow> ''undefined'' | Some s \<Rightarrow> s)"

text \<open>
  \<open>hashEntry\<close>: \<open>update(prevHash)\<close> throws when the previous hash is no string, which only a
  corrupted file can cause.
\<close>

definition hash_entry :: "(string \<Rightarrow> string) \<Rightarrow> json \<Rightarrow> json \<Rightarrow> string option" where
  "hash_entry hash prev entry =
     (case prev of JStr p \<Rightarrow> Some (hash (p @ canonical_text entry)) | _ \<Rightarrow> None)"

definition hash_args :: "(string \<Rightarrow> string) \<Rightarrow> json \<Rightarrow> string" where
  "hash_args hash args = take 32 (hash (canonical_text (if nullish args then JObj [] else args)))"

section \<open>Start-up\<close>

text \<open>
  The reload reads the file line by line; a line that does not parse (or parses to \<open>null\<close>, whose
  property \<open>seq\<close> throws) leaves what was read so far and marks the ledger broken.
\<close>

definition empty_ledger :: ledger where
  "empty_ledger = \<lparr>lg_file = [], lg_seq = JNum 0, lg_prev = JStr genesis, lg_mem = [], lg_broken = False\<rparr>"

fun load_lines :: "string list \<Rightarrow> ledger \<Rightarrow> ledger" where
  "load_lines [] l = l"
| "load_lines (line # rest) l =
     (case json_parse line of
        None \<Rightarrow> l\<lparr>lg_broken := True\<rparr>
      | Some r \<Rightarrow>
          (let l1 = l\<lparr>lg_mem := lg_mem l @ [r]\<rparr> in
           if nullish r then l1\<lparr>lg_broken := True\<rparr>
           else load_lines rest (l1\<lparr>lg_seq := obj_get r ''seq'', lg_prev := obj_get r ''hash''\<rparr>)))"

text \<open>\<open>file\<close> is \<open>None\<close> when the ledger file does not exist yet.\<close>

definition create_ledger :: "bool \<Rightarrow> string option \<Rightarrow> ledger" where
  "create_ledger broken file =
     (if broken then empty_ledger\<lparr>lg_broken := True, lg_file := (case file of None \<Rightarrow> [] | Some t \<Rightarrow> t)\<rparr>
      else (case file of
              None \<Rightarrow> empty_ledger
            | Some t \<Rightarrow>
                load_lines (filter (\<lambda>w. w \<noteq> []) (js_split (CHR 0x0A) t)) (empty_ledger\<lparr>lg_file := t\<rparr>)))"

section \<open>Append\<close>

datatype disk = Disk_ok | Disk_fails string string

text \<open>\<open>seq + 1\<close>, with the conversions of the operator \<open>+\<close>.\<close>

fun js_succ :: "json \<Rightarrow> json" where
  "js_succ (JNum n) = JNum (n + 1)"
| "js_succ (JBool b) = JNum ((if b then 1 else 0) + 1)"
| "js_succ JNull = JNum 1"
| "js_succ JUndef = JNaN"
| "js_succ JNaN = JNaN"
| "js_succ v = JStr (js_string v @ ''1'')"

definition entry_body :: "ledger \<Rightarrow> string \<Rightarrow> (string \<times> json) list \<Rightarrow> (string \<times> json) list" where
  "entry_body l now entry =
     (let at = obj_get (JObj entry) ''at'' in
      jset (jset (jset entry ''seq'' (js_succ (lg_seq l))) ''prevHash'' (lg_prev l))
        ''at'' (if nullish at then JStr now else at))"

definition ledger_append ::
  "(string \<Rightarrow> string) \<Rightarrow> disk \<Rightarrow> string \<Rightarrow> (string \<times> json) list \<Rightarrow> ledger \<Rightarrow> (string + json) \<times> ledger" where
  "ledger_append hash disk now entry l =
     (if lg_broken l then (Inl ''ledger write failed: ledger unavailable'', l)
      else
        (let body = entry_body l now entry in
         case hash_entry hash (lg_prev l) (JObj body) of
           None \<Rightarrow> (Inl ''The \"data\" argument must be of type string'', l)
         | Some h \<Rightarrow>
             (let rec = JObj (jset body ''hash'' (JStr h)) in
              case disk of
                Disk_fails msg partial \<Rightarrow>
                  (Inl (''ledger write failed: '' @ msg), l\<lparr>lg_file := lg_file l @ partial\<rparr>)
              | Disk_ok \<Rightarrow>
                  (Inr rec,
                   l\<lparr>lg_file := lg_file l @ json_str rec @ [CHR 0x0A],
                     lg_seq := obj_get rec ''seq'',
                     lg_prev := obj_get rec ''hash'',
                     lg_mem := lg_mem l @ [rec]\<rparr>))))"

section \<open>Verification of the chain\<close>

datatype chain = Chain_ok nat | Chain_broken json string

fun obj_fields :: "json \<Rightarrow> (string \<times> json) list" where
  "obj_fields (JObj kvs) = kvs"
| "obj_fields v = []"

definition rec_body :: "json \<Rightarrow> json" where
  "rec_body r = JObj (jdel (obj_fields r) ''hash'')"

fun verify_from :: "(string \<Rightarrow> string) \<Rightarrow> json \<Rightarrow> json list \<Rightarrow> (json \<times> string) option" where
  "verify_from hash prev [] = None"
| "verify_from hash prev (r # rs) =
     (if obj_get (rec_body r) ''prevHash'' \<noteq> prev then Some (obj_get r ''seq'', ''chain'')
      else if map_option JStr (hash_entry hash prev (rec_body r)) \<noteq> Some (obj_get r ''hash'')
      then Some (obj_get r ''seq'', ''content'')
      else verify_from hash (obj_get r ''hash'') rs)"

definition ledger_verify :: "(string \<Rightarrow> string) \<Rightarrow> ledger \<Rightarrow> chain" where
  "ledger_verify hash l =
     (case verify_from hash (JStr genesis) (lg_mem l) of
        None \<Rightarrow> Chain_ok (length (lg_mem l))
      | Some (seq, why) \<Rightarrow> Chain_broken seq why)"

section \<open>Query\<close>

record query =
  q_since :: json
  q_tier :: json
  q_agent :: json
  q_verb :: json
  q_impact :: json
  q_intent :: json
  q_outcome :: json
  q_kind :: json
  q_limit :: nat

definition field_filter :: "string \<Rightarrow> json \<Rightarrow> json list \<Rightarrow> json list" where
  "field_filter k want rs = filter (\<lambda>r. if truthy want then obj_get r k = want else True) rs"

text \<open>\<open>(r.impact ?? []).includes(impact)\<close>; \<open>impact\<close> is recorded as an array.\<close>

fun includes_item :: "json \<Rightarrow> json \<Rightarrow> bool" where
  "includes_item (JArr xs) v = (v \<in> set xs)"
| "includes_item (JStr s) (JStr p) = js_includes s p"
| "includes_item u v = False"

text \<open>\<open>r.at >= since\<close>: both are ISO time strings, which JavaScript compares by code units.\<close>

fun str_ge :: "json \<Rightarrow> json \<Rightarrow> bool" where
  "str_ge (JStr a) (JStr b) = (b \<le> a)"
| "str_ge a b = False"

definition ledger_query :: "query \<Rightarrow> ledger \<Rightarrow> json list" where
  "ledger_query q l =
     js_last_n (q_limit q)
       (field_filter ''kind'' (q_kind q)
       (field_filter ''outcome'' (q_outcome q)
       (field_filter ''intentId'' (q_intent q)
       (filter (\<lambda>r. if truthy (q_impact q) then includes_item (obj_get r ''impact'') (q_impact q) else True)
       (field_filter ''verb'' (q_verb q)
       (field_filter ''agent'' (q_agent q)
       (field_filter ''tier'' (q_tier q)
       (filter (\<lambda>r. if truthy (q_since q) then str_ge (obj_get r ''at'') (q_since q) else True)
         (lg_mem l)))))))))"

end
