(* ===== verification/Ledger_Durable.thy ===== *)
theory Ledger_Durable
  imports Ledger_Chain
begin

text \<open>
  Durability and tamper evidence of the ledger: what a restart reads back, what the head hash
  commits to, and what \<open>verify\<close> cannot see.
\<close>

section \<open>The file\<close>

abbreviation newline :: char where
  "newline \<equiv> CHR 0x0A"

definition file_of :: "json list \<Rightarrow> string" where
  "file_of rs = concat (map (\<lambda>r. json_str r @ [newline]) rs)"

lemma set_js_join: "set (js_join sep ws) \<subseteq> set sep \<union> \<Union> (set ` set ws)"
  by (induction sep ws rule: js_join.induct) auto

lemma hex_digit_newline: "d < 16 \<Longrightarrow> hex_digit d \<noteq> newline"
proof
  assume "d < 16" "hex_digit d = newline"
  then have "hex_val newline = Some d" using hex_val_hex_digit by force
  then show False by (simp add: hex_val_def)
qed

lemma esc_char_newline: "newline \<notin> set (esc_char c)"
proof (cases "(of_char c :: nat) < 32")
  case True
  then have "hex_digit (of_char c div 16) \<noteq> newline" "hex_digit (of_char c mod 16) \<noteq> newline"
    by (intro hex_digit_newline; simp)+
  then show ?thesis by (auto simp: esc_char_def Let_def)
next
  case False
  then show ?thesis by (auto simp: esc_char_def Let_def)
qed

lemma json_quote_newline: "newline \<notin> set (json_quote s)"
  using esc_char_newline by (auto simp: json_quote_def)

lemma show_int_newline: "newline \<notin> set (show_int i)"
  using show_nat_digits by (auto simp: show_int_def is_digit_def dest!: show_nat_digits)

lemma json_str_newline: "newline \<notin> set (json_str v)"
proof (induction v)
  case (JArr xs)
  then show ?case using set_js_join [of "'',''" "map json_str xs"] by auto
next
  case (JObj kvs)
  then show ?case
    using set_js_join [of "'',''" "map (\<lambda>(k, v). json_quote k @ '':'' @ json_str v) (filter (\<lambda>(k, v). v \<noteq> JUndef) kvs)"]
    by (fastforce simp: json_quote_newline snds.simps)
qed (simp_all add: json_quote_newline show_int_newline)

lemma split_file_of: "js_split newline (file_of rs) = map json_str rs @ [[]]"
  by (induction rs) (simp_all add: file_of_def js_split_append json_str_newline)

lemma lines_file_of: "filter (\<lambda>w. w \<noteq> []) (js_split newline (file_of rs)) = map json_str rs"
  by (simp add: split_file_of filter_id_conv comp_def)

section \<open>Restart\<close>

definition recorded :: "json \<Rightarrow> bool" where
  "recorded r = (wf_json r \<and> (\<exists>kvs. r = JObj kvs))"

definition last_seq :: "json list \<Rightarrow> json" where
  "last_seq rs = (if rs = [] then JNum 0 else obj_get (last rs) ''seq'')"

definition durable_inv :: "ledger \<Rightarrow> bool" where
  "durable_inv l =
     (lg_file l = file_of (lg_mem l) \<and> list_all recorded (lg_mem l) \<and> \<not> lg_broken l \<and>
      lg_seq l = last_seq (lg_mem l) \<and> lg_prev l = head_hash (lg_mem l) \<and>
      (\<exists>n. last_seq (lg_mem l) = JNum n) \<and> (\<exists>p. head_hash (lg_mem l) = JStr p))"

lemma load_lines_recorded:
  "list_all recorded rs \<Longrightarrow>
     load_lines (map json_str rs) l =
       l\<lparr>lg_mem := lg_mem l @ rs,
         lg_seq := (if rs = [] then lg_seq l else obj_get (last rs) ''seq''),
         lg_prev := (if rs = [] then lg_prev l else obj_get (last rs) ''hash'')\<rparr>"
proof (induction rs arbitrary: l)
  case Nil
  then show ?case by simp
next
  case (Cons r rs)
  then obtain kvs where r: "r = JObj kvs" "wf_json r" by (auto simp: recorded_def)
  from r(2) have "json_parse (json_str r) = Some r" by (rule json_parse_str)
  with Cons r(1) show ?case
    by (auto simp: Let_def simp del: obj_get.simps json_str.simps)
qed

lemma restart_durable: "durable_inv l \<Longrightarrow> create_ledger False (Some (lg_file l)) = l"
  by (cases l) (auto simp: durable_inv_def create_ledger_def lines_file_of load_lines_recorded
      empty_ledger_def last_seq_def head_hash_def simp del: obj_get.simps)

text \<open>Entries whose every property has a value \<open>JSON\<close> can express.\<close>

definition defined_entry :: "(string \<times> json) list \<Rightarrow> bool" where
  "defined_entry e = (plain_entry e \<and> list_all (\<lambda>kv. wf_json (snd kv)) e)"

definition clean_disk :: "disk \<Rightarrow> bool" where
  "clean_disk d = (case d of Disk_ok \<Rightarrow> True | Disk_fails msg partial \<Rightarrow> partial = [])"

lemma list_all_jset: "list_all P m \<Longrightarrow> P (k, v) \<Longrightarrow> list_all P (jset m k v)"
  using set_jset_subset [of m k v] by (auto simp: list_all_iff)

lemma wf_map_of: "list_all (\<lambda>kv. wf_json (snd kv)) m \<Longrightarrow> map_of m k = Some v \<Longrightarrow> wf_json v"
  by (auto simp: list_all_iff dest!: map_of_SomeD)

lemma wf_entry_body:
  assumes "defined_entry e" and "lg_seq l = JNum n" and "lg_prev l = JStr p"
  shows "jwf (entry_body l now e) \<and> list_all (\<lambda>kv. wf_json (snd kv)) (entry_body l now e)"
proof -
  have "wf_json (if nullish (obj_get (JObj e) ''at'') then JStr now else obj_get (JObj e) ''at'')"
    using assms(1) wf_map_of by (fastforce simp: defined_entry_def split: option.splits)
  with assms show ?thesis
    by (auto simp: entry_body_def Let_def defined_entry_def plain_entry_def intro!: list_all_jset jwf_jset
        simp del: obj_get.simps)
qed

lemma durable_inv_append:
  assumes "durable_inv l" and "defined_entry e" and "clean_disk d"
  shows "durable_inv (snd (ledger_append hash d now e l))"
proof (cases "ledger_append hash d now e l")
  case (Pair res l')
  obtain n p where np: "lg_seq l = JNum n" "lg_prev l = JStr p"
    using assms(1) unfolding durable_inv_def by metis
  show ?thesis
  proof (cases res)
    case (Inl m)
    with Pair have a: "ledger_append hash d now e l = (Inl m, l')" by simp
    have "lg_file l' = lg_file l"
      using a assms np by (auto simp: ledger_append_def Let_def clean_disk_def hash_entry_def
          split: if_splits disk.splits)
    with ledger_append_Inl [OF a] assms(1) show ?thesis
      by (simp add: Pair durable_inv_def)
  next
    case (Inr r)
    with Pair have a: "ledger_append hash d now e l = (Inr r, l')" by simp
    from ledger_append_Inr [OF a] obtain h where
      r: "r = JObj (jset (entry_body l now e) ''hash'' (JStr h))" and
      l': "l' = l\<lparr>lg_file := lg_file l @ json_str r @ [newline], lg_seq := js_succ (lg_seq l),
             lg_prev := JStr h, lg_mem := lg_mem l @ [r]\<rparr>" by auto
    have "recorded r"
      using wf_entry_body [OF assms(2) np, of now]
      by (auto simp: recorded_def r jwf_def [symmetric] intro!: list_all_jset)
    moreover have "file_of (lg_mem l @ [r]) = file_of (lg_mem l) @ json_str r @ [newline]"
      by (simp add: file_of_def)
    ultimately show ?thesis
      using assms(1) np unfolding Pair snd_conv durable_inv_def
      by (auto simp: l' last_seq_def head_hash_def r entry_body_get)
  qed
qed

section \<open>What the head hash commits to\<close>

definition hashed_text :: "json \<Rightarrow> string" where
  "hashed_text r =
     (case obj_get (rec_body r) ''prevHash'' of
        JStr p \<Rightarrow> p @ canonical_text (rec_body r)
      | _ \<Rightarrow> canonical_text (rec_body r))"

text \<open>No collision among the texts of the given records, and digests in hexadecimal.\<close>

definition no_collision :: "(string \<Rightarrow> string) \<Rightarrow> json list \<Rightarrow> bool" where
  "no_collision hash rs =
     (inj_on hash (hashed_text ` set rs) \<and>
      (\<forall>r \<in> set rs. CHR ''{'' \<notin> set (hash (hashed_text r)) \<and> hash (hashed_text r) \<noteq> genesis))"

lemma canonical_text_obj: "\<exists>t. canonical_text (JObj kvs) = CHR ''{'' # t"
  by (simp add: canonical_text_def)

lemma hash_entry_link:
  assumes "link_ok hash (JStr p) r"
  shows "hashed_text r = p @ canonical_text (rec_body r) \<and> obj_get r ''hash'' = JStr (hash (hashed_text r))"
  using assms by (auto simp: link_ok_def hash_entry_def hashed_text_def)

lemma head_hash_text:
  assumes "verify_from hash (JStr genesis) rs = None"
  shows "\<exists>p. head_hash rs = JStr p \<and> (p = genesis \<or> (\<exists>r \<in> set rs. p = hash (hashed_text r)))"
  using assms
proof (induction rs rule: rev_induct)
  case Nil
  then show ?case by (simp add: head_hash_def)
next
  case (snoc r rs)
  then obtain p where "head_hash rs = JStr p" and "link_ok hash (head_hash rs) r"
    by (auto simp: verify_from_snoc head_hash_def)
  then have "obj_get r ''hash'' = JStr (hash (hashed_text r))"
    using hash_entry_link by metis
  then show ?case by (auto simp: head_hash_def)
qed

lemma split_at_brace:
  "p @ CHR ''{'' # s = q @ CHR ''{'' # t \<Longrightarrow> CHR ''{'' \<notin> set p \<Longrightarrow> CHR ''{'' \<notin> set q \<Longrightarrow> p = q \<and> s = t"
proof -
  assume e: "p @ CHR ''{'' # s = q @ CHR ''{'' # t" and n: "CHR ''{'' \<notin> set p" "CHR ''{'' \<notin> set q"
  have "takeWhile (\<lambda>c. c \<noteq> CHR ''{'') (p @ CHR ''{'' # s) = p"
    "takeWhile (\<lambda>c. c \<noteq> CHR ''{'') (q @ CHR ''{'' # t) = q"
    using n by (auto simp: takeWhile_append)
  with e have "p = q" by simp
  with e show ?thesis by simp
qed

lemma genesis_no_brace: "CHR ''{'' \<notin> set genesis"
  by (simp add: genesis_def)

lemma link_commits:
  assumes l: "link_ok hash (JStr p) r" and l': "link_ok hash (JStr q) r'"
    and eq: "obj_get r ''hash'' = obj_get r' ''hash''"
    and nc: "no_collision hash rs" "r \<in> set rs" "r' \<in> set rs"
    and pq: "CHR ''{'' \<notin> set p" "CHR ''{'' \<notin> set q"
    and wf: "wf_json (rec_body r)" "wf_json (rec_body r')"
  shows "p = q \<and> jsort (rec_body r) = jsort (rec_body r')"
proof -
  from hash_entry_link [OF l] hash_entry_link [OF l'] eq
  have "hash (hashed_text r) = hash (hashed_text r')" by simp
  then have "hashed_text r = hashed_text r'"
    using nc by (auto simp: no_collision_def dest: inj_onD)
  then have t: "p @ canonical_text (rec_body r) = q @ canonical_text (rec_body r')"
    using hash_entry_link [OF l] hash_entry_link [OF l'] by simp
  obtain s where s: "canonical_text (rec_body r) = CHR ''{'' # s"
    using canonical_text_obj rec_body_def by metis
  obtain s' where s': "canonical_text (rec_body r') = CHR ''{'' # s'"
    using canonical_text_obj rec_body_def by metis
  from t have "p = q \<and> s = s'"
    unfolding s s' using pq by (intro split_at_brace)
  moreover from this have "canonical_text (rec_body r) = canonical_text (rec_body r')"
    by (simp add: s s')
  ultimately show ?thesis
    using canonical_inj [OF wf] wf by (simp add: canonical_text_def canonical_jsort)
qed


lemma last_link:
  assumes "verify_from hash (JStr genesis) (rs @ [r]) = None"
  obtains p where "head_hash rs = JStr p" "p = genesis \<or> (\<exists>x \<in> set rs. p = hash (hashed_text x))"
    "link_ok hash (JStr p) r" "obj_get r ''hash'' = JStr (hash (hashed_text r))"
    "verify_from hash (JStr genesis) rs = None"
proof -
  have v: "verify_from hash (JStr genesis) rs = None" and l: "link_ok hash (head_hash rs) r"
    using assms by (simp_all add: verify_from_snoc head_hash_def)
  obtain p where "head_hash rs = JStr p" "p = genesis \<or> (\<exists>x \<in> set rs. p = hash (hashed_text x))"
    using head_hash_text [OF v] by blast
  with v l show thesis using that hash_entry_link by metis
qed

lemma chain_commits:
  assumes "verify_from hash (JStr genesis) rs = None" and "verify_from hash (JStr genesis) ss = None"
    and "head_hash rs = head_hash ss"
    and "no_collision hash all" and "set rs \<subseteq> set all" and "set ss \<subseteq> set all"
    and "\<forall>r \<in> set all. wf_json (rec_body r)"
  shows "map (\<lambda>r. jsort (rec_body r)) rs = map (\<lambda>r. jsort (rec_body r)) ss"
  using assms
proof (induction rs arbitrary: ss rule: rev_induct)
  case Nil
  show ?case
  proof (cases ss rule: rev_cases)
    case (snoc ss' r)
    with Nil have "obj_get r ''hash'' = JStr (hash (hashed_text r))" using last_link by blast
    with Nil snoc show ?thesis by (auto simp: head_hash_def no_collision_def)
  qed simp
next
  case (snoc r rs)
  obtain p where p: "head_hash rs = JStr p" "p = genesis \<or> (\<exists>x \<in> set rs. p = hash (hashed_text x))"
    and lr: "link_ok hash (JStr p) r" and hr: "obj_get r ''hash'' = JStr (hash (hashed_text r))"
    and vr: "verify_from hash (JStr genesis) rs = None"
    using last_link [OF snoc.prems(1)] .
  show ?case
  proof (cases ss rule: rev_cases)
    case Nil
    then show ?thesis
      using snoc.prems hr by (auto simp: head_hash_def no_collision_def)
  next
    case ss: (snoc ss' r')
    obtain q where q: "head_hash ss' = JStr q" "q = genesis \<or> (\<exists>x \<in> set ss'. q = hash (hashed_text x))"
      and lr': "link_ok hash (JStr q) r'" and vs: "verify_from hash (JStr genesis) ss' = None"
      using last_link [OF snoc.prems(2) [unfolded ss]] .
    have mem: "r \<in> set all" "r' \<in> set all" "set rs \<subseteq> set all" "set ss' \<subseteq> set all"
      using snoc.prems ss by auto
    have braces: "CHR ''{'' \<notin> set p" "CHR ''{'' \<notin> set q"
      using p(2) q(2) mem snoc.prems(4) genesis_no_brace by (auto simp: no_collision_def)
    have "obj_get r ''hash'' = obj_get r' ''hash''"
      using snoc.prems(3) ss by (simp add: head_hash_def)
    then have c: "p = q \<and> jsort (rec_body r) = jsort (rec_body r')"
      using link_commits [OF lr lr' _ snoc.prems(4) mem(1,2) braces] mem snoc.prems(7) by blast
    have "map (\<lambda>r. jsort (rec_body r)) rs = map (\<lambda>r. jsort (rec_body r)) ss'"
      using snoc.IH [of ss'] vr vs p q c snoc.prems(4,7) mem by auto
    with c ss show ?thesis by simp
  qed
qed

end
