(* ===== verification/Ledger_Claims.thy ===== *)
theory Ledger_Claims
  imports Ledger_Durable
begin

text \<open>
  The properties of the ledger, over runs of appends: each step is one \<open>append\<close> call with what
  the disk did to it, the time stamp and the entry.
\<close>

definition ledger_run :: "(string \<Rightarrow> string) \<Rightarrow> (disk \<times> string \<times> (string \<times> json) list) list \<Rightarrow> ledger \<Rightarrow> ledger" where
  "ledger_run hash ops l = fold (\<lambda>(d, now, e) l. snd (ledger_append hash d now e l)) ops l"

text \<open>The record of \<open>PUT /v1/intents/:id\<close> (src/api/server.js): \<open>refused\<close> is the reason of a refusal.\<close>

definition update_entry :: "string \<Rightarrow> string option \<Rightarrow> string \<Rightarrow> (string \<times> json) list" where
  "update_entry caller refused intent =
     [(''kind'', JStr ''api''), (''agent'', JStr caller), (''tool'', JStr ''intents.update''), (''verb'', JStr ''update''),
      (''outcome'', JStr (if refused = None then ''updated'' else ''refused'')),
      (''reason'', (case refused of None \<Rightarrow> JUndef | Some why \<Rightarrow> JStr why)),
      (''intentId'', JStr intent)]"

lemma ledger_run_Nil [simp]: "ledger_run hash [] l = l"
  by (simp add: ledger_run_def)

lemma ledger_run_Cons [simp]:
  "ledger_run hash ((d, now, e) # ops) l = ledger_run hash ops (snd (ledger_append hash d now e l))"
  by (simp add: ledger_run_def)

lemma chain_inv_run:
  "chain_inv hash l \<Longrightarrow> list_all (\<lambda>(d, now, e). plain_entry e) ops \<Longrightarrow> chain_inv hash (ledger_run hash ops l)"
proof (induction ops arbitrary: l)
  case (Cons op ops)
  obtain d now e where op: "op = (d, now, e)" by (cases op)
  have "chain_inv hash (snd (ledger_append hash d now e l))"
    using Cons.prems op by (intro chain_inv_append) auto
  then show ?case using Cons.IH Cons.prems op by simp
qed simp

lemma durable_inv_run:
  "durable_inv l \<Longrightarrow> list_all (\<lambda>(d, now, e). defined_entry e \<and> clean_disk d) ops \<Longrightarrow>
     durable_inv (ledger_run hash ops l)"
proof (induction ops arbitrary: l)
  case (Cons op ops)
  obtain d now e where op: "op = (d, now, e)" by (cases op)
  have "durable_inv (snd (ledger_append hash d now e l))"
    using Cons.prems op by (intro durable_inv_append) auto
  then show ?case using Cons.IH Cons.prems op by simp
qed simp

lemma durable_inv_empty: "durable_inv empty_ledger"
  by (simp add: durable_inv_def empty_ledger_def file_of_def last_seq_def head_hash_def)

lemma chain_inv_verify: "chain_inv hash l \<Longrightarrow> ledger_verify hash l = Chain_ok (length (lg_mem l))"
  by (simp add: chain_inv_def ledger_verify_def)

lemma rec_body_wf:
  assumes "recorded r"
  shows "wf_json (rec_body r)"
proof -
  obtain kvs where r: "r = JObj kvs" "distinct (map fst kvs)" "list_all (\<lambda>kv. wf_json (snd kv)) kvs"
    using assms by (auto simp: recorded_def)
  then show ?thesis
    by (auto simp: rec_body_def jdel_def list_all_iff distinct_map_filter)
qed

section \<open>Properties\<close>

text \<open>C11. Whatever the disk does to each write, the in-memory trail that a run of appends leaves
  verifies, and it holds exactly one record per successful append: a failed append is refused
  and records nothing.\<close>

theorem ledger_run_verifies:
  assumes "list_all (\<lambda>(d, now, e). plain_entry e) ops"
  shows "ledger_verify hash (ledger_run hash ops empty_ledger) =
           Chain_ok (length (filter (\<lambda>(d, now, e). d = Disk_ok) ops))"
proof -
  have len: "length (lg_mem (ledger_run hash ops l)) = length (lg_mem l) + length (filter (\<lambda>(d, now, e). d = Disk_ok) ops)
      \<and> \<not> lg_broken (ledger_run hash ops l)"
    if "chain_inv hash l" "\<not> lg_broken l" "\<exists>p. lg_prev l = JStr p" for l
    using that assms
  proof (induction ops arbitrary: l)
    case Nil
    then show ?case by simp
  next
    case (Cons op ops)
    obtain d now e where op: "op = (d, now, e)" by (cases op)
    obtain p where p: "lg_prev l = JStr p" using Cons.prems by blast
    let ?l = "snd (ledger_append hash d now e l)"
    have "length (lg_mem ?l) = length (lg_mem l) + (if d = Disk_ok then 1 else 0)"
      "\<not> lg_broken ?l" "\<exists>p. lg_prev ?l = JStr p"
      using Cons.prems(2) p by (auto simp: ledger_append_def Let_def hash_entry_def split: disk.split)
    moreover have "chain_inv hash ?l" using Cons.prems op by (auto intro: chain_inv_append)
    ultimately show ?case using Cons.IH [of ?l] Cons.prems op by simp
  qed
  have "chain_inv hash (ledger_run hash ops empty_ledger)"
    by (rule chain_inv_run [OF chain_inv_empty assms])
  then show ?thesis
    using len [OF chain_inv_empty] by (simp add: chain_inv_verify empty_ledger_def)
qed

theorem ledger_run_verifies_witness:
  "list_all (\<lambda>(d, now, e). plain_entry e)
      [(Disk_ok, ''t1'', [(''tool'', JStr ''a'')]), (Disk_fails ''EIO'' [], ''t2'', [(''tool'', JStr ''b'')])] \<and>
   ledger_verify (\<lambda>s. s)
     (ledger_run (\<lambda>s. s) [(Disk_ok, ''t1'', [(''tool'', JStr ''a'')]), (Disk_fails ''EIO'' [], ''t2'', [(''tool'', JStr ''b'')])]
        empty_ledger) = Chain_ok 1"
proof -
  have h: "list_all (\<lambda>(d, now, e). plain_entry e)
      [(Disk_ok, ''t1'', [(''tool'', JStr ''a'')]), (Disk_fails ''EIO'' [], ''t2'', [(''tool'', JStr ''b'')])]"
    by (simp add: plain_entry_def jwf_def jhas_def)
  show ?thesis using ledger_run_verifies [OF h, of "\<lambda>s. s"] h by simp
qed



text \<open>C9. Tamper evidence: two verifying ledgers whose last records carry the same hash hold the
  same records, body by body and up to key order, unless the hash function collides on them.  So
  no record can be changed, removed, inserted or reordered under a head hash that is known.\<close>

theorem ledger_head_commits:
  assumes "ledger_verify hash l = Chain_ok n" and "ledger_verify hash l' = Chain_ok m"
    and "head_hash (lg_mem l) = head_hash (lg_mem l')"
    and "no_collision hash (lg_mem l @ lg_mem l')"
    and "list_all recorded (lg_mem l)" and "list_all recorded (lg_mem l')"
  shows "map (\<lambda>r. jsort (rec_body r)) (lg_mem l) = map (\<lambda>r. jsort (rec_body r)) (lg_mem l')"
proof (rule chain_commits [where hash = hash and all = "lg_mem l @ lg_mem l'"])
  show "verify_from hash (JStr genesis) (lg_mem l) = None"
    "verify_from hash (JStr genesis) (lg_mem l') = None"
    using assms(1,2) by (auto simp: ledger_verify_def split: option.splits)
  show "\<forall>r \<in> set (lg_mem l @ lg_mem l'). wf_json (rec_body r)"
    using assms(5,6) by (auto simp: list_all_iff rec_body_wf)
qed (use assms(3,4) in auto)

definition hex_text :: "string \<Rightarrow> string" where
  "hex_text s = CHR ''f'' # concat (map (\<lambda>c. [hex_digit (of_char c div 16), hex_digit (of_char c mod 16)]) s)"

lemma hex_digit_no_brace: "d < 16 \<Longrightarrow> hex_digit d \<noteq> CHR ''{''"
proof
  assume "d < 16" "hex_digit d = CHR ''{''"
  then have "hex_val (CHR ''{'') = Some d" using hex_val_hex_digit by force
  then show False by (simp add: hex_val_def)
qed

lemma hex_text_no_brace: "CHR ''{'' \<notin> set (hex_text s)"
proof -
  have x: "hex_digit (of_char c div 16) \<noteq> CHR ''{''" "hex_digit (of_char c mod 16) \<noteq> CHR ''{''" for c :: char
  proof -
    have "(of_char c :: nat) < 256" by simp
    then have "of_char c div 16 < (16 :: nat)" using less_mult_imp_div_less [of "of_char c" 16 16] by simp
    then show "hex_digit (of_char c div 16) \<noteq> CHR ''{''" by (rule hex_digit_no_brace)
    show "hex_digit (of_char c mod 16) \<noteq> CHR ''{''" by (rule hex_digit_no_brace) simp
  qed
  show ?thesis unfolding hex_text_def using x [symmetric] by auto
qed

lemma hex_text_genesis: "hex_text s \<noteq> genesis"
  by (simp add: hex_text_def genesis_def Cons_replicate_eq)

lemma append_reordered:
  assumes "set e = set e'" and "plain_entry e" and "plain_entry e'" and "lg_prev l = JStr p"
    and "\<forall>k \<in> {''seq'', ''prevHash'', ''at''}. \<not> jhas e k" and "\<not> lg_broken l"
  shows "\<exists>r r'. lg_mem (snd (ledger_append hash Disk_ok now e l)) = lg_mem l @ [r] \<and>
           lg_mem (snd (ledger_append hash Disk_ok now e' l)) = lg_mem l @ [r'] \<and>
           obj_get r ''hash'' = obj_get r' ''hash'' \<and> hashed_text r = hashed_text r'"
proof -
  have k: "\<forall>k \<in> {''seq'', ''prevHash'', ''at''}. \<not> jhas e' k"
    using assms(1,5) by (auto simp: jhas_iff_key)
  have b: "entry_body l now x = x @ [(''seq'', js_succ (lg_seq l)), (''prevHash'', lg_prev l), (''at'', JStr now)]"
    if "\<forall>k \<in> {''seq'', ''prevHash'', ''at''}. \<not> jhas x k" for x
    using that by (simp add: entry_body_def Let_def jset_fresh jhas_def)
  have w: "jwf (entry_body l now e)" "jwf (entry_body l now e')"
    using assms(2,3) by (auto simp: entry_body_def Let_def plain_entry_def)
  have c: "canonical (JObj (entry_body l now e)) = canonical (JObj (entry_body l now e'))"
    using w by (intro canonical_key_order) (simp_all add: b [OF assms(5)] b [OF k] assms(1) jwf_def)
  have t: "hashed_text (JObj (jset (entry_body l now x) ''hash'' h)) = p @ canonical_text (JObj (entry_body l now x))"
    if "plain_entry x" for x h
    using that assms(4) by (simp add: hashed_text_def rec_body_def jdel_jset_fresh plain_entry_def jhas_def entry_body_get)
  show ?thesis using t [OF assms(2)] t [OF assms(3)] c assms(4,6)
    by (simp add: ledger_append_def Let_def hash_entry_def canonical_text_def del: canonical.simps)
qed

theorem ledger_head_commits_witness:
  "\<exists>l l'. lg_mem l \<noteq> lg_mem l' \<and> ledger_verify hex_text l = Chain_ok 1 \<and> ledger_verify hex_text l' = Chain_ok 1 \<and>
     head_hash (lg_mem l) = head_hash (lg_mem l') \<and> no_collision hex_text (lg_mem l @ lg_mem l') \<and>
     map (\<lambda>r. jsort (rec_body r)) (lg_mem l) = map (\<lambda>r. jsort (rec_body r)) (lg_mem l')"
proof -
  let ?e = "[(''tool'', JStr ''a''), (''verb'', JStr ''b'')]" and ?f = "[(''verb'', JStr ''b''), (''tool'', JStr ''a'')]"
  define l where "l = snd (ledger_append hex_text Disk_ok ''t1'' ?e empty_ledger)"
  define l' where "l' = snd (ledger_append hex_text Disk_ok ''t1'' ?f empty_ledger)"
  have e: "defined_entry ?e" "defined_entry ?f"
    by (simp_all add: defined_entry_def plain_entry_def jwf_def jhas_def)
  have c: "chain_inv hex_text l" "chain_inv hex_text l'" unfolding l_def l'_def
    using e by (intro chain_inv_append chain_inv_empty; simp add: defined_entry_def)+
  have d: "durable_inv l" "durable_inv l'" unfolding l_def l'_def
    using e by (intro durable_inv_append durable_inv_empty; simp add: clean_disk_def)+
  obtain r where m: "lg_mem l = [r]" "hd (obj_fields r) = (''tool'', JStr ''a'')"
    by (simp add: l_def ledger_append_def empty_ledger_def Let_def hash_entry_def entry_body_def)
  obtain r' where m': "lg_mem l' = [r']" "hd (obj_fields r') = (''verb'', JStr ''b'')"
    by (simp add: l'_def ledger_append_def empty_ledger_def Let_def hash_entry_def entry_body_def)
  have v: "ledger_verify hex_text l = Chain_ok 1" "ledger_verify hex_text l' = Chain_ok 1"
    using chain_inv_verify [OF c(1)] chain_inv_verify [OF c(2)] m m' by simp_all
  have "\<exists>x y. lg_mem l = lg_mem empty_ledger @ [x] \<and> lg_mem l' = lg_mem empty_ledger @ [y] \<and>
      obj_get x ''hash'' = obj_get y ''hash'' \<and> hashed_text x = hashed_text y"
    unfolding l_def l'_def
    by (rule append_reordered [where p = genesis])
      (auto simp: plain_entry_def jwf_def jhas_def empty_ledger_def)
  then have h: "head_hash (lg_mem l) = head_hash (lg_mem l')" and hx: "hashed_text r = hashed_text r'"
    using m m' by (auto simp: empty_ledger_def head_hash_def)
  have n: "no_collision hex_text (lg_mem l @ lg_mem l')"
    by (simp add: m m' hx no_collision_def hex_text_no_brace hex_text_genesis)
  have w: "list_all recorded (lg_mem l)" "list_all recorded (lg_mem l')"
    using d by (simp_all add: durable_inv_def)
  have ne: "lg_mem l \<noteq> lg_mem l'" using m m' by auto
  from ledger_head_commits [OF v h n w] ne v n h show ?thesis by blast
qed

text \<open>What \<open>verify\<close> cannot see: cutting any number of records off the end of a trail
  that verifies leaves a trail that verifies.\<close>

theorem ledger_truncation_undetected:
  assumes "ledger_verify hash l = Chain_ok n" and "k \<le> n"
  shows "ledger_verify hash (l\<lparr>lg_mem := take k (lg_mem l)\<rparr>) = Chain_ok k"
proof -
  have "verify_from hash (JStr genesis) (lg_mem l) = None" and n: "n = length (lg_mem l)"
    using assms(1) by (auto simp: ledger_verify_def split: option.splits)
  then have "verify_from hash (JStr genesis) (take k (lg_mem l)) = None"
    using verify_from_append [of hash _ "take k (lg_mem l)" "drop k (lg_mem l)"] by simp
  then show ?thesis using assms(2) n by (simp add: ledger_verify_def)
qed

theorem ledger_truncation_undetected_witness:
  "ledger_verify (\<lambda>s. s) ((ledger_run (\<lambda>s. s) [(Disk_ok, ''t1'', []), (Disk_ok, ''t2'', [])] empty_ledger)
     \<lparr>lg_mem := take 1 (lg_mem (ledger_run (\<lambda>s. s) [(Disk_ok, ''t1'', []), (Disk_ok, ''t2'', [])] empty_ledger))\<rparr>) = Chain_ok 1"
proof -
  let ?l = "ledger_run (\<lambda>s. s) [(Disk_ok, ''t1'', []), (Disk_ok, ''t2'', [])] empty_ledger"
  have c: "chain_inv (\<lambda>s. s) ?l"
    by (rule chain_inv_run [OF chain_inv_empty]) (simp add: plain_entry_def jhas_def)
  have "length (lg_mem ?l) = 2"
    by (simp add: ledger_append_def Let_def hash_entry_def empty_ledger_def)
  then have "ledger_verify (\<lambda>s. s) ?l = Chain_ok 2" using chain_inv_verify [OF c] by simp
  from ledger_truncation_undetected [OF this, of 1] show ?thesis by simp
qed

text \<open>An entry that holds a property whose value is \<open>undefined\<close> verifies in memory and no longer
  verifies after a restart: \<open>canonical\<close> hashes the property and \<open>JSON.stringify\<close> drops it.  The
  entry is the one src/api/server.js records for every accepted \<open>PUT /v1/intents/:id\<close>; the hash
  is any function that tells the two texts apart.\<close>

theorem ledger_undefined_breaks_restart:
  assumes "inj hash"
  shows "let l = snd (ledger_append hash Disk_ok now (update_entry agent None intent) empty_ledger);
             l' = create_ledger False (Some (lg_file l))
         in ledger_verify hash l = Chain_ok 1 \<and> ledger_verify hash l' = Chain_broken (JNum 1) ''content''"
proof -
  let ?old = "[(''kind'', JStr ''api''), (''agent'', JStr agent), (''tool'', JStr ''intents.update''), (''verb'', JStr ''update''),
    (''outcome'', JStr ''updated'')]"
  let ?new = "[(''intentId'', JStr intent), (''seq'', JNum 1), (''prevHash'', JStr genesis), (''at'', JStr now)]"
  define l where "l = snd (ledger_append hash Disk_ok now (update_entry agent None intent) empty_ledger)"
  define h where "h = hash (genesis @ canonical_text (JObj (?old @ (''reason'', JUndef) # ?new)))"
  define r where "r = JObj (?old @ ?new @ [(''hash'', JStr h)])"
  have c: "chain_inv hash l" unfolding l_def
    by (intro chain_inv_append chain_inv_empty) (simp add: update_entry_def plain_entry_def jwf_def jhas_def)
  have m: "length (lg_mem l) = 1" and f: "lg_file l = json_str r @ [newline]"
    by (simp_all add: l_def ledger_append_def update_entry_def empty_ledger_def entry_body_def Let_def
        hash_entry_def h_def r_def del: canonical.simps)
  have rec: "list_all recorded [r]" by (simp add: recorded_def r_def)
  have "lg_file l = file_of [r]" by (simp add: file_of_def f)
  then have "create_ledger False (Some (lg_file l)) = load_lines (map json_str [r]) (empty_ledger\<lparr>lg_file := file_of [r]\<rparr>)"
    by (simp only: create_ledger_def lines_file_of option.case if_False)
  then have e: "lg_mem (create_ledger False (Some (lg_file l))) = [r]"
    unfolding load_lines_recorded [OF rec] by (simp add: empty_ledger_def)
  have "canonical_text (JObj (?old @ (''reason'', JUndef) # ?new)) \<noteq> canonical_text (JObj (?old @ ?new))"
    by (simp add: canonical_text_def json_stringify_def)
  then have "hash (genesis @ canonical_text (JObj (?old @ ?new))) \<noteq> h"
    using assms by (simp add: h_def inj_eq)
  then have "ledger_verify hash (create_ledger False (Some (lg_file l))) = Chain_broken (JNum 1) ''content''"
    unfolding ledger_verify_def e by (simp add: r_def rec_body_def jdel_def hash_entry_def del: canonical.simps)
  with c m show ?thesis by (simp add: Let_def l_def [symmetric] chain_inv_verify)
qed

theorem ledger_undefined_breaks_restart_witness:
  "inj (\<lambda>s::string. s) \<and> ledger_verify (\<lambda>s. s) (create_ledger False (Some (lg_file (snd
      (ledger_append (\<lambda>s. s) Disk_ok ''t'' (update_entry ''ops'' None ''i1'') empty_ledger)))))
     = Chain_broken (JNum 1) ''content''"
  using ledger_undefined_breaks_restart [of "\<lambda>s. s" "''t''" "''ops''" "''i1''"] by (simp add: Let_def)

end
