(* ===== verification/Triggers.thy ===== *)
theory Triggers
  imports Ledger Js_Regex
begin

text \<open>
  The take-action triggers of src/transport/triggers.js: the editable list of phrases that route an
  observation to a domain agent without inference, and the matcher that skips a negated occurrence.
\<close>

record trigger =
  tg_id :: string
  tg_phrases :: "string list"
  tg_incident :: string
  tg_agent :: string
  tg_action :: string

text \<open>The seed rules; \<open>randomUUID\<close> numbers them when the store is created.\<close>

definition seed_rule :: "string list \<Rightarrow> string \<Rightarrow> string \<Rightarrow> string \<Rightarrow> trigger" where
  "seed_rule phrases incident l1 act =
     \<lparr>tg_id = [], tg_phrases = phrases, tg_incident = incident, tg_agent = l1, tg_action = act\<rparr>"

definition default_triggers :: "trigger list" where
  "default_triggers =
     [seed_rule [''crash'', ''collision'', ''collided'', ''vehicles made contact'', ''wreck'', ''rear-ended'', ''T-boned'',
        ''hit and run'', ''overturned'', ''rolled over'', ''flipped over'', ''on its side'']
        ''traffic-accident'' ''accident'' ''coordinate the accident response (EMS, police)'',
      seed_rule [''fire'', ''smoke'', ''smoking'', ''flames'', ''ablaze'', ''explosion'', ''burning'']
        ''fire'' ''fire'' ''coordinate the fire response (fire department, EMS)'',
      seed_rule [''injured'', ''injury'', ''person down'', ''pedestrian struck'', ''someone is hurt'', ''unconscious'',
        ''lying in the road'']
        ''traffic-accident'' ''accident'' ''escalate for EMS via the accident agent'',
      seed_rule [''fallen sign'', ''sign is down'', ''sign down'', ''debris'', ''obstruction in the road'', ''obstruction'',
        ''blocked lane'', ''object in the road'', ''tree branch'']
        ''fallen-signage'' ''roadside'' ''open a roadside work order to clear the obstruction'',
      seed_rule [''pothole'', ''road damage'', ''flooding'', ''standing water'', ''sinkhole'', ''damaged surface'', ''washed out'']
        ''road-maintenance'' ''roadside'' ''open a Seattle DOT maintenance work order'',
      seed_rule [''downed power line'', ''power line down'', ''live wire'', ''sparking'', ''sparking wires'', ''transformer'',
        ''gas leak'', ''smell of gas'', ''gas smell'']
        ''utility-hazard'' ''utility'' ''coordinate the infrastructure-hazard response (de-energize, gas shutoff)'',
      seed_rule [''evacuate'', ''evacuation'', ''shelter in place'', ''road closed to public'', ''keep clear'', ''area unsafe'',
        ''clear the area'']
        ''public-warning'' ''comms'' ''warn the public near the incident (advisory, reverse-911)'']"

section \<open>The matcher\<close>

definition normalize_text :: "json \<Rightarrow> string" where
  "normalize_text v = js_lower (if nullish v then [] else js_string v)"

definition negated_rx :: rx where
  "negated_rx =
     rx_seqs [Wb, rx_alts (map rx_lit [''no'', ''not'', ''without'', ''zero'', ''any'']), rx_plus rx_ws,
       rx_opt (rx_alts (map (\<lambda>w. Seq (rx_lit w) (rx_plus rx_ws)) [''visible'', ''apparent'', ''other''])), Eol]"

definition look_back :: "string \<Rightarrow> nat \<Rightarrow> string" where
  "look_back hay i = js_slice (i - 16) i hay"

definition negated_at :: "string \<Rightarrow> nat \<Rightarrow> bool" where
  "negated_at hay i = rx_test negated_rx (look_back hay i)"

text \<open>The \<open>while\<close> loop over the occurrences of one phrase, which \<open>scan_phrase_total\<close> shows to end.\<close>

partial_function (option) scan_phrase :: "string \<Rightarrow> string \<Rightarrow> nat \<Rightarrow> bool option" where
  "scan_phrase hay p i =
     (case index_from hay p i of
        None \<Rightarrow> Some False
      | Some k \<Rightarrow> if negated_at hay k then scan_phrase hay p (k + length p) else Some True)"

declare scan_phrase.simps [code]

fun match_phrases :: "string \<Rightarrow> string list \<Rightarrow> string option option" where
  "match_phrases hay [] = Some None"
| "match_phrases hay (phrase # rest) =
     (case scan_phrase hay (js_lower phrase) 0 of
        None \<Rightarrow> None
      | Some hit \<Rightarrow> if hit then Some (Some phrase) else match_phrases hay rest)"

fun match_rules :: "string \<Rightarrow> trigger list \<Rightarrow> (trigger \<times> string) option option" where
  "match_rules hay [] = Some None"
| "match_rules hay (r # rest) =
     (case match_phrases hay (tg_phrases r) of
        None \<Rightarrow> None
      | Some (Some phrase) \<Rightarrow> Some (Some (r, phrase))
      | Some None \<Rightarrow> match_rules hay rest)"

definition trigger_match :: "trigger list \<Rightarrow> json \<Rightarrow> (trigger \<times> string) option option" where
  "trigger_match rules text =
     (let hay = normalize_text text in if hay = [] then Some None else match_rules hay rules)"

section \<open>The store\<close>

text \<open>
  The rules in memory and the rules in the file (\<open>None\<close> when there is no file or it does not
  parse).  A write that fails throws out of the operation, after the change in memory.
\<close>

record trigger_store =
  ts_rules :: "trigger list"
  ts_file :: "trigger list option"

definition persist :: "disk \<Rightarrow> trigger_store \<Rightarrow> (string + unit) \<times> trigger_store" where
  "persist d s =
     (case d of
        Disk_fails msg partial \<Rightarrow> (Inl msg, s\<lparr>ts_file := None\<rparr>)
      | Disk_ok \<Rightarrow> (Inr (), s\<lparr>ts_file := Some (ts_rules s)\<rparr>))"

definition number_rules :: "string list \<Rightarrow> trigger list \<Rightarrow> trigger list" where
  "number_rules uuids seed = map2 (\<lambda>u r. r\<lparr>tg_id := ''trg_'' @ take 8 u\<rparr>) uuids seed"

definition create_trigger_store :: "disk \<Rightarrow> string list \<Rightarrow> trigger list option \<Rightarrow> trigger list \<Rightarrow> (string + unit) \<times> trigger_store" where
  "create_trigger_store d uuids file seed =
     (let s = \<lparr>ts_rules = (case file of None \<Rightarrow> [] | Some rs \<Rightarrow> rs), ts_file = file\<rparr> in
      if ts_rules s = [] then persist d (s\<lparr>ts_rules := number_rules uuids seed\<rparr>) else (Inr (), s))"

text \<open>Phrases come as an array or as one string with commas.\<close>

definition clean_phrases :: "string + string list \<Rightarrow> string list" where
  "clean_phrases ps =
     filter (\<lambda>p. p \<noteq> []) (map js_trim (case ps of Inl s \<Rightarrow> js_split (CHR '','') s | Inr xs \<Rightarrow> xs))"

datatype 'a edit = Edit_ok 'a | Edit_refused string | Edit_thrown string

definition or_default :: "string \<Rightarrow> string \<Rightarrow> string" where
  "or_default s d = (if s = [] then d else s)"

definition triggers_entry :: "string \<Rightarrow> string \<Rightarrow> string \<Rightarrow> (string \<times> json) list" where
  "triggers_entry tool outcome why =
     [(''kind'', JStr ''triggers''), (''agent'', JStr ''admin''), (''verb'', JStr ''update''), (''tool'', JStr tool),
      (''outcome'', JStr outcome), (''reason'', JStr why)]"

definition trigger_add ::
  "disk \<Rightarrow> string \<Rightarrow> string + string list \<Rightarrow> string \<Rightarrow> string \<Rightarrow> string \<Rightarrow> trigger_store
     \<Rightarrow> trigger edit \<times> (string \<times> json) list option \<times> trigger_store" where
  "trigger_add d uuid phrases incident l1 act s =
     (let clean = clean_phrases phrases in
      if clean = [] then (Edit_refused ''at least one phrase is required'', None, s)
      else if l1 = [] then (Edit_refused ''an L1 agent is required'', None, s)
      else
        (let r = \<lparr>tg_id = ''trg_'' @ take 8 uuid, tg_phrases = clean, tg_incident = or_default incident ''other'',
                  tg_agent = l1, tg_action = act\<rparr>;
             (w, s') = persist d (s\<lparr>ts_rules := ts_rules s @ [r]\<rparr>)
         in case w of
              Inl msg \<Rightarrow> (Edit_thrown msg, None, s')
            | Inr _ \<Rightarrow> (Edit_ok r, Some (triggers_entry ''triggers.add'' ''added'' (js_join ''|'' clean @ '' -> '' @ l1)), s')))"

definition trigger_remove ::
  "disk \<Rightarrow> string \<Rightarrow> trigger_store \<Rightarrow> unit edit \<times> (string \<times> json) list option \<times> trigger_store" where
  "trigger_remove d i s =
     (let rules = filter (\<lambda>r. tg_id r \<noteq> i) (ts_rules s) in
      if length rules = length (ts_rules s) then (Edit_refused ''no such trigger'', None, s\<lparr>ts_rules := rules\<rparr>)
      else
        (let (w, s') = persist d (s\<lparr>ts_rules := rules\<rparr>) in
         case w of
           Inl msg \<Rightarrow> (Edit_thrown msg, None, s')
         | Inr _ \<Rightarrow> (Edit_ok (), Some (triggers_entry ''triggers.remove'' ''removed'' i), s')))"

section \<open>The loop ends, and what it finds\<close>

definition occurs_at :: "string \<Rightarrow> string \<Rightarrow> nat \<Rightarrow> bool" where
  "occurs_at hay p k = (k + length p \<le> length hay \<and> starts_with (drop k hay) p)"

text \<open>A phrase is raised if an occurrence of it is not negated; it is quiet if each occurrence is
  negated or begins inside a negated one, behind which the scan goes on.\<close>

definition raised :: "string \<Rightarrow> string \<Rightarrow> bool" where
  "raised hay p = (\<exists>k. occurs_at hay p k \<and> \<not> negated_at hay k)"

definition quiet_from :: "nat \<Rightarrow> string \<Rightarrow> string \<Rightarrow> bool" where
  "quiet_from i hay p =
     (\<forall>k \<ge> i. occurs_at hay p k \<longrightarrow> negated_at hay k \<or> (\<exists>j \<ge> i. j < k \<and> k < j + length p \<and> occurs_at hay p j \<and> negated_at hay j))"

lemma index_of_least: "index_of s p = Some i \<Longrightarrow> j < i \<Longrightarrow> \<not> starts_with (drop j s) p"
proof (induction s arbitrary: i j)
  case (Cons c s)
  then show ?case by (cases j) (auto split: if_splits)
qed (auto split: if_splits)

lemma index_of_complete: "starts_with (drop j s) p \<Longrightarrow> index_of s p \<noteq> None"
proof (induction s arbitrary: j)
  case (Cons c s)
  then show ?case by (cases j) auto
qed (simp add: starts_with_def)

lemma index_from_least:
  assumes "index_from hay p i = Some k" and "i \<le> j" and "j < k"
  shows "\<not> occurs_at hay p j"
proof
  assume o: "occurs_at hay p j"
  let ?m = "min i (length hay)"
  obtain r where r: "index_of (drop ?m hay) p = Some r" and k: "k = ?m + r"
    using assms(1) by (auto simp: index_from_def Let_def)
  have "j - ?m < r" using assms(2,3) k by linarith
  from index_of_least [OF r this] have "\<not> starts_with (drop (j - ?m) (drop ?m hay)) p" .
  moreover have "drop (j - ?m) (drop ?m hay) = drop j hay" using assms(2) by simp
  ultimately show False using o by (simp add: occurs_at_def)
qed

lemma index_from_None:
  assumes "index_from hay p i = None" and "i \<le> j"
  shows "\<not> occurs_at hay p j"
proof
  assume o: "occurs_at hay p j"
  let ?m = "min i (length hay)"
  have n: "index_of (drop ?m hay) p = None" using assms(1) by (simp add: index_from_def Let_def)
  have "drop (j - ?m) (drop ?m hay) = drop j hay" using assms(2) by simp
  with o have "starts_with (drop (j - ?m) (drop ?m hay)) p" by (simp add: occurs_at_def)
  from index_of_complete [OF this] n show False by contradiction
qed

lemma scan_phrase_total:
  assumes "p \<noteq> []"
  shows "\<exists>b. scan_phrase hay p i = Some b"
proof (induction "length hay - i" arbitrary: i rule: less_induct)
  case less
  show ?case
  proof (cases "index_from hay p i")
    case None
    then show ?thesis by (auto simp: scan_phrase.simps [of hay p i] intro: exI [of _ False])
  next
    case (Some k)
    from index_from_SomeD [OF Some] have "k + length p \<le> length hay" "min i (length hay) \<le> k" by auto
    then have "length hay - (k + length p) < length hay - i" using assms by (cases p) auto
    from less [OF this] Some show ?thesis by (auto simp: scan_phrase.simps [of hay p i])
  qed
qed

lemma scan_phrase_raised: "p \<noteq> [] \<Longrightarrow> scan_phrase hay p i = Some True \<Longrightarrow> raised hay p"
proof (induction "length hay - i" arbitrary: i rule: less_induct)
  case less
  show ?case
  proof (cases "index_from hay p i")
    case None
    then show ?thesis using less(3) by (simp add: scan_phrase.simps [of hay p i])
  next
    case (Some k)
    from index_from_SomeD [OF Some] have k: "k + length p \<le> length hay" "min i (length hay) \<le> k" and o: "occurs_at hay p k"
      by (auto simp: occurs_at_def)
    have "length hay - (k + length p) < length hay - i" using less(2) k by (cases p; auto)
    with less o Some show ?thesis
      by (cases "negated_at hay k") (auto simp: scan_phrase.simps [of hay p i] raised_def)
  qed
qed

lemma scan_phrase_quiet: "p \<noteq> [] \<Longrightarrow> scan_phrase hay p i = Some False \<Longrightarrow> quiet_from i hay p"
proof (induction "length hay - i" arbitrary: i rule: less_induct)
  case less
  show ?case
  proof (cases "index_from hay p i")
    case None
    then show ?thesis using index_from_None by (auto simp: quiet_from_def)
  next
    case (Some k)
    from index_from_SomeD [OF Some] have k: "k + length p \<le> length hay" "min i (length hay) \<le> k" and o: "occurs_at hay p k"
      by (auto simp: occurs_at_def)
    from less(3) Some have neg: "negated_at hay k" and s: "scan_phrase hay p (k + length p) = Some False"
      by (auto simp: scan_phrase.simps [of hay p i] split: if_splits)
    have "length hay - (k + length p) < length hay - i" "i \<le> k" using less(2) k by (cases p; auto)+
    with less(1) [OF _ less(2) s] have q: "quiet_from (k + length p) hay p" by simp
    show ?thesis unfolding quiet_from_def
    proof (intro allI impI)
      fix m assume m: "i \<le> m" "occurs_at hay p m"
      then have "k \<le> m" using index_from_least [OF Some m(1)] by (meson not_le_imp_less)
      then consider "m = k" | "k < m" "m < k + length p" | "k + length p \<le> m" by linarith
      then show "negated_at hay m \<or> (\<exists>j\<ge>i. j < m \<and> m < j + length p \<and> occurs_at hay p j \<and> negated_at hay j)"
      proof cases
        case 3
        with q m(2) \<open>i \<le> k\<close> show ?thesis unfolding quiet_from_def by (meson le_add1 order_trans)
      qed (use neg o \<open>i \<le> k\<close> in auto)
    qed
  qed
qed

text \<open>The empty phrase occurs at once, where nothing can negate it, so its scan ends too.\<close>

lemma negated_at_0: "\<not> negated_at hay 0"
  by (simp add: negated_at_def look_back_def js_slice_def negated_rx_def rx_test_def rx_search_def rx_plus_def rx_ws_def)

lemma scan_empty: "scan_phrase hay [] 0 = Some True"
proof -
  have "index_from hay [] 0 = Some 0" by (cases hay) (simp_all add: index_from_def)
  then show ?thesis by (simp add: scan_phrase.simps [of hay "[]" 0] negated_at_0)
qed

lemma raised_empty: "raised hay []"
  using negated_at_0 by (auto simp: raised_def occurs_at_def)

lemma scan_phrase_iff:
  obtains hit where "scan_phrase hay p 0 = Some hit" and "hit \<Longrightarrow> raised hay p" and "\<not> hit \<Longrightarrow> quiet_from 0 hay p"
proof (cases "p = []")
  case True
  then show ?thesis using that [of True] scan_empty raised_empty by simp
next
  case False
  then show ?thesis
    using that scan_phrase_total [OF False, of hay 0] scan_phrase_raised [OF False, of hay 0] scan_phrase_quiet [OF False, of hay 0]
    by (metis (full_types))
qed

lemma match_phrases_iff:
  obtains out where "match_phrases hay ps = Some out"
    and "\<And>phrase. out = Some phrase \<Longrightarrow> phrase \<in> set ps \<and> raised hay (js_lower phrase)"
    and "out = None \<Longrightarrow> \<forall>phrase \<in> set ps. quiet_from 0 hay (js_lower phrase)"
proof (induction ps arbitrary: thesis)
  case (Cons phrase ps)
  obtain hit where hit: "scan_phrase hay (js_lower phrase) 0 = Some hit" "hit \<Longrightarrow> raised hay (js_lower phrase)"
      "\<not> hit \<Longrightarrow> quiet_from 0 hay (js_lower phrase)"
    using scan_phrase_iff [of hay "js_lower phrase"] by blast
  obtain out where "match_phrases hay ps = Some out"
      "\<And>phrase. out = Some phrase \<Longrightarrow> phrase \<in> set ps \<and> raised hay (js_lower phrase)"
      "out = None \<Longrightarrow> \<forall>phrase \<in> set ps. quiet_from 0 hay (js_lower phrase)"
    using Cons.IH by blast
  with hit Cons.prems show ?case by (cases hit) auto
qed simp

text \<open>The rules before the one that matched have no phrase to show for.\<close>

definition silent :: "string \<Rightarrow> trigger \<Rightarrow> bool" where
  "silent hay r = (\<forall>phrase \<in> set (tg_phrases r). quiet_from 0 hay (js_lower phrase))"

lemma match_rules_iff:
  obtains out where "match_rules hay rs = Some out"
    and "\<And>r phrase. out = Some (r, phrase) \<Longrightarrow> phrase \<in> set (tg_phrases r) \<and> raised hay (js_lower phrase) \<and>
           (\<exists>before after. rs = before @ r # after \<and> list_all (silent hay) before)"
    and "out = None \<Longrightarrow> list_all (silent hay) rs"
proof (induction rs arbitrary: thesis)
  case (Cons r rs)
  obtain here where here: "match_phrases hay (tg_phrases r) = Some here"
      "\<And>phrase. here = Some phrase \<Longrightarrow> phrase \<in> set (tg_phrases r) \<and> raised hay (js_lower phrase)"
      "here = None \<Longrightarrow> \<forall>phrase \<in> set (tg_phrases r). quiet_from 0 hay (js_lower phrase)"
    using match_phrases_iff [of hay "tg_phrases r"] by blast
  obtain out where out: "match_rules hay rs = Some out"
      "\<And>r phrase. out = Some (r, phrase) \<Longrightarrow> phrase \<in> set (tg_phrases r) \<and> raised hay (js_lower phrase) \<and>
           (\<exists>before after. rs = before @ r # after \<and> list_all (silent hay) before)"
      "out = None \<Longrightarrow> list_all (silent hay) rs"
    using Cons.IH by blast
  show ?case
  proof (cases here)
    case (Some phrase)
    with here have "match_rules hay (r # rs) = Some (Some (r, phrase))" "phrase \<in> set (tg_phrases r)" "raised hay (js_lower phrase)"
      by auto
    moreover have "r # rs = [] @ r # rs" "list_all (silent hay) []" by simp_all
    ultimately show ?thesis using Cons.prems [of "Some (r, phrase)"] by blast
  next
    case None
    then have s: "silent hay r" using here(3) by (simp add: silent_def)
    show ?thesis
    proof (rule Cons.prems [of out])
      fix r' phrase assume "out = Some (r', phrase)"
      from out(2) [OF this] obtain before after where "phrase \<in> set (tg_phrases r')" "raised hay (js_lower phrase)"
        "rs = before @ r' # after" "list_all (silent hay) before" by blast
      with s show "phrase \<in> set (tg_phrases r') \<and> raised hay (js_lower phrase) \<and>
          (\<exists>before after. r # rs = before @ r' # after \<and> list_all (silent hay) before)"
        by (auto intro: exI [of _ "r # before"])
    qed (use here None out s in auto)
  qed
qed simp

text \<open>C24. The trigger matcher ends on every text, and finds the first rule that a text raises: its
  result is a rule of the list with one of its phrases occurring in the lower-cased text behind no
  negation, every rule before it silent, and no result means that every rule is silent.\<close>

theorem trigger_match_first:
  "case trigger_match rules text of
     None \<Rightarrow> False
   | Some None \<Rightarrow> normalize_text text = [] \<or> list_all (silent (normalize_text text)) rules
   | Some (Some (r, phrase)) \<Rightarrow>
       phrase \<in> set (tg_phrases r) \<and> raised (normalize_text text) (js_lower phrase) \<and>
       (\<exists>before after. rules = before @ r # after \<and> list_all (silent (normalize_text text)) before)"
proof -
  obtain out where "match_rules (normalize_text text) rules = Some out"
    "\<And>r phrase. out = Some (r, phrase) \<Longrightarrow> phrase \<in> set (tg_phrases r) \<and> raised (normalize_text text) (js_lower phrase) \<and>
       (\<exists>before after. rules = before @ r # after \<and> list_all (silent (normalize_text text)) before)"
    "out = None \<Longrightarrow> list_all (silent (normalize_text text)) rules"
    using match_rules_iff [of "normalize_text text" rules] by blast
  then show ?thesis by (auto simp: trigger_match_def Let_def split: option.split)
qed

section \<open>The negation guard on examples\<close>

text \<open>A negated phrase is skipped, and the scan goes on behind it.\<close>


section \<open>The negation guard on examples\<close>

text \<open>A negated phrase is skipped, and the scan goes on behind it.\<close>

lemma smoke_negated:
  "scan_phrase ''no visible smoke'' ''smoke'' 0 = Some False"
  "scan_phrase ''no smoke but smoke'' ''smoke'' 0 = Some True"
  "scan_phrase ''without visible smoke'' ''smoke'' 0 = Some False"
  by (code_simp, code_simp, code_simp)

text \<open>
  The window of 16 units is one too short for its longest form: in "without apparent smoke" it
  starts inside the word, so the guard does not see the negation and the phrase raises its rule.
\<close>

lemma negation_window_too_short: "scan_phrase ''without apparent smoke'' ''smoke'' 0 = Some True"
  by code_simp

end
