(* ===== verification/Knowledge.thy ===== *)
theory Knowledge
  imports Complex_Main Ledger Js_Regex
begin

text \<open>
  The retrieval store of src/knowledge/store.js: chunking, the lexical score, the documents and the
  retrieval of the best chunks.

  The embedder is a parameter: a name, the embedding of a list of texts (or the message of its
  failure), and \<open>cos\<close>, the similarity of two vectors.  A lexical score is the exact quotient; the
  numbers of tokens are far below the range in which the division of doubles would round two of
  them together.
\<close>

section \<open>Chunks\<close>

definition lf :: char where
  "lf = CHR 0x0A"

text \<open>\<open>s.split(re)\<close> for an expression that matches no empty text; the fuel bounds the matches.\<close>

fun rx_split_from :: "nat \<Rightarrow> rx \<Rightarrow> string \<Rightarrow> string \<Rightarrow> string list" where
  "rx_split_from 0 r pre s = [s]"
| "rx_split_from (Suc n) r pre s =
     (case rx_search_from r pre s of
        None \<Rightarrow> [s]
      | Some (p, q) \<Rightarrow> take (length s - length (snd p)) s # rx_split_from n r (fst q) (snd q))"

definition rx_split :: "rx \<Rightarrow> string \<Rightarrow> string list" where
  "rx_split r s = rx_split_from (length s) r [] s"

definition blank_line :: rx where
  "blank_line = rx_seqs [rx_lit [lf], rx_star rx_ws, rx_lit [lf]]"

definition paragraphs :: "string \<Rightarrow> string list" where
  "paragraphs text = filter (\<lambda>p. p \<noteq> []) (map js_trim (rx_split blank_line text))"

text \<open>The inner loop, which does not end for a limit of zero.\<close>

partial_function (option) cut_long :: "nat \<Rightarrow> string \<Rightarrow> (string list \<times> string) option" where
  "cut_long n cur =
     (if length cur > n
      then Option.bind (cut_long n (drop n cur)) (\<lambda>r. Some (take n cur # fst r, snd r))
      else Some ([], cur))"

declare cut_long.simps [code]

fun pack :: "nat \<Rightarrow> string list \<Rightarrow> string list \<Rightarrow> string \<Rightarrow> string list option" where
  "pack n [] chunks cur = Some (if cur = [] then chunks else chunks @ [cur])"
| "pack n (p # ps) chunks cur =
     (let full = (cur \<noteq> [] \<and> length cur + length p + 2 > n);
          chunks1 = (if full then chunks @ [cur] else chunks);
          cur1 = (if full then [] else cur) in
      case cut_long n (if cur1 = [] then p else cur1 @ [lf, lf] @ p) of
        None \<Rightarrow> None
      | Some (cs, rest) \<Rightarrow> pack n ps (chunks1 @ cs) rest)"

definition chunk_text :: "string \<Rightarrow> nat \<Rightarrow> string list option" where
  "chunk_text text n = pack n (paragraphs text) [] []"

section \<open>The lexical score\<close>

definition token_char :: "char \<Rightarrow> bool" where
  "token_char c = (let n = (of_char c :: nat) in (48 \<le> n \<and> n \<le> 57) \<or> (97 \<le> n \<and> n \<le> 122))"

text \<open>\<open>match(/[a-z0-9]{2,}/g)\<close>: the maximal runs of at least two units.\<close>

fun runs :: "string \<Rightarrow> string \<Rightarrow> string list" where
  "runs acc [] = (if length acc \<ge> 2 then [rev acc] else [])"
| "runs acc (c # s) =
     (if token_char c then runs (c # acc) s
      else (if length acc \<ge> 2 then rev acc # runs [] s else runs [] s))"

definition tokenize :: "string \<Rightarrow> string list" where
  "tokenize s = runs [] (js_lower s)"

definition lexical_score :: "string \<Rightarrow> string \<Rightarrow> rat" where
  "lexical_score query chunk =
     (let q = remdups (tokenize query) in
      if q = [] then 0
      else of_nat (length (filter (\<lambda>t. t \<in> set q) (remdups (tokenize chunk)))) / of_nat (length q))"

section \<open>The store\<close>

record 'v chunk =
  ck_text :: string
  ck_vector :: "'v option"

record 'v document =
  kd_id :: string
  kd_name :: string
  kd_at :: string
  kd_by :: string
  kd_backend :: string
  kd_chunks :: "'v chunk list"

type_synonym 'v documents = "(string, 'v document) jsmap"

record 'v embedder =
  em_name :: string
  em_passages :: "string list \<Rightarrow> string + 'v list"
  em_query :: "string \<Rightarrow> string + 'v"
  em_cos :: "'v \<Rightarrow> 'v \<Rightarrow> rat"

text \<open>The reload: a file that is not JSON by name is passed over, one that does not parse is skipped.\<close>

definition create_knowledge :: "(string \<times> 'v document option) list \<Rightarrow> 'v documents" where
  "create_knowledge files =
     foldl (\<lambda>m f. if \<not> ends_with (fst f) ''.json'' then m
                   else (case snd f of None \<Rightarrow> m | Some d \<Rightarrow> jset m (kd_id d) d)) [] files"

record add_result =
  ad_id :: string
  ad_duplicate :: bool
  ad_chunks :: nat

definition document_id :: "(string \<Rightarrow> string) \<Rightarrow> string \<Rightarrow> string" where
  "document_id hash text = take 16 (hash text)"

definition knowledge_entry :: "string \<Rightarrow> string \<Rightarrow> nat \<Rightarrow> string \<Rightarrow> (string \<times> json) list" where
  "knowledge_entry who name n backend =
     [(''kind'', JStr ''knowledge''), (''agent'', JStr who), (''tool'', JStr ''knowledge.add''), (''verb'', JStr ''create''),
      (''outcome'', JStr ''stored''), (''reason'', JStr (name @ '': '' @ show_nat n @ '' chunk(s) via '' @ backend))]"

text \<open>A vector list shorter than the chunks leaves the rest without one.\<close>

definition attach_vectors :: "string list \<Rightarrow> 'v list \<Rightarrow> 'v chunk list" where
  "attach_vectors texts vs =
     map (\<lambda>i. \<lparr>ck_text = texts ! i, ck_vector = (if i < length vs then Some (vs ! i) else None)\<rparr>) [0..<length texts]"

text \<open>\<open>addDocument\<close>: \<open>None\<close> is the loop that does not end; a thrown error is \<open>Inl\<close>.  A failed write
  throws after the document is in memory.\<close>

definition add_document ::
  "(string \<Rightarrow> string) \<Rightarrow> 'v embedder option \<Rightarrow> disk \<Rightarrow> string \<Rightarrow> nat \<Rightarrow> string \<Rightarrow> string \<Rightarrow> string \<Rightarrow> 'v documents
     \<Rightarrow> ((string + add_result) \<times> (string \<times> json) list option \<times> 'v documents) option" where
  "add_document hash em d stamp n name text who docs =
     (let i = document_id hash text in
      case map_of docs i of
        Some doc \<Rightarrow> Some (Inr \<lparr>ad_id = i, ad_duplicate = True, ad_chunks = length (kd_chunks doc)\<rparr>, None, docs)
      | None \<Rightarrow>
          (case chunk_text text n of
             None \<Rightarrow> None
           | Some texts \<Rightarrow>
               (case (case em of
                        None \<Rightarrow> Inr (''lexical'', map (\<lambda>t. \<lparr>ck_text = t, ck_vector = None\<rparr>) texts)
                      | Some e \<Rightarrow> map_sum id (\<lambda>vs. (em_name e, attach_vectors texts vs)) (em_passages e texts)) of
                  Inl msg \<Rightarrow> Some (Inl msg, None, docs)
                | Inr (backend, chunks) \<Rightarrow>
                    (let docs' = jset docs i \<lparr>kd_id = i, kd_name = name, kd_at = stamp, kd_by = who, kd_backend = backend, kd_chunks = chunks\<rparr> in
                     case d of
                       Disk_fails msg partial \<Rightarrow> Some (Inl msg, None, docs')
                     | Disk_ok \<Rightarrow>
                         Some (Inr \<lparr>ad_id = i, ad_duplicate = False, ad_chunks = length chunks\<rparr>,
                               Some (knowledge_entry who name (length chunks) backend), docs')))))"

section \<open>Retrieval\<close>

record hit =
  ht_doc :: string
  ht_id :: string
  ht_text :: string
  ht_score :: rat

definition score_chunk :: "'v embedder option \<Rightarrow> 'v option \<Rightarrow> string \<Rightarrow> 'v chunk \<Rightarrow> rat" where
  "score_chunk em qv query c =
     (case (em, qv, ck_vector c) of
        (Some e, Some q, Some v) \<Rightarrow> em_cos e q v
      | _ \<Rightarrow> lexical_score query (ck_text c))"

definition scored_chunks :: "'v embedder option \<Rightarrow> 'v option \<Rightarrow> string \<Rightarrow> 'v documents \<Rightarrow> hit list" where
  "scored_chunks em qv query docs =
     concat (map (\<lambda>kd. map (\<lambda>c. \<lparr>ht_doc = kd_name (snd kd), ht_id = kd_id (snd kd), ht_text = ck_text c,
                                ht_score = score_chunk em qv query c\<rparr>) (kd_chunks (snd kd))) docs)"

text \<open>\<open>sort\<close> is stable; the best come first.\<close>

definition best_hits :: "nat \<Rightarrow> hit list \<Rightarrow> hit list" where
  "best_hits k scored = filter (\<lambda>h. ht_score h > 0) (take k (sort_key (\<lambda>h. - ht_score h) scored))"

definition query_vector :: "'v embedder option \<Rightarrow> string \<Rightarrow> string \<times> 'v option" where
  "query_vector em query =
     (case em of
        None \<Rightarrow> (''lexical'', None)
      | Some e \<Rightarrow>
          (case em_query e query of
             Inl msg \<Rightarrow> (''lexical (embedder unreachable)'', None)
           | Inr v \<Rightarrow> (em_name e, Some v)))"

definition retrieve :: "'v embedder option \<Rightarrow> string \<Rightarrow> nat \<Rightarrow> 'v documents \<Rightarrow> string \<times> hit list \<times> (string \<times> json) list" where
  "retrieve em query k docs =
     (let (backend, qv) = query_vector em query;
          hits = best_hits k (scored_chunks em qv query docs)
      in (backend, hits,
          [(''kind'', JStr ''knowledge''), (''verb'', JStr ''read''), (''tool'', JStr ''knowledge.retrieve''),
           (''outcome'', JStr ''served''), (''reason'', JStr (show_nat (length hits) @ '' hit(s) via '' @ backend))]))"

definition context_block :: "hit list \<Rightarrow> string" where
  "context_block hits =
     (if hits = [] then []
      else js_join [lf] (''Pertinent knowledge (retrieved, untrusted reference material):'' #
             map2 (\<lambda>i h. ''['' @ show_nat (Suc i) @ ''] ('' @ ht_doc h @ '') '' @ ht_text h) [0..<length hits] hits))"

section \<open>Chunking loses nothing\<close>

definition ink :: "string \<Rightarrow> string" where
  "ink s = filter (\<lambda>c. c \<noteq> lf) s"

lemma ink_append [simp]: "ink (s @ t) = ink s @ ink t"
  by (simp add: ink_def)

lemma ink_simps [simp]: "ink [] = []" "ink (lf # s) = ink s"
  by (simp_all add: ink_def)

lemma cut_long_total:
  assumes "0 < n"
  obtains cs rest where "cut_long n cur = Some (cs, rest)" and "concat cs @ rest = cur"
    and "length rest \<le> n" and "\<forall>c \<in> set cs. c \<noteq> [] \<and> length c \<le> n"
proof (induction "length cur" arbitrary: cur thesis rule: less_induct)
  case less
  show ?case
  proof (cases "length cur > n")
    case True
    then have "length (drop n cur) < length cur" using assms by simp
    from less.hyps [OF this] obtain cs rest where r: "cut_long n (drop n cur) = Some (cs, rest)"
        "concat cs @ rest = drop n cur" "length rest \<le> n" "\<forall>c \<in> set cs. c \<noteq> [] \<and> length c \<le> n" by blast
    show ?thesis
    proof (rule less.prems [of "take n cur # cs" rest])
      show "cut_long n cur = Some (take n cur # cs, rest)" using True r(1) by (subst cut_long.simps) simp
      show "concat (take n cur # cs) @ rest = cur" using r(2) by simp
      show "\<forall>c \<in> set (take n cur # cs). c \<noteq> [] \<and> length c \<le> n" using r(4) True assms by auto
    qed (rule r(3))
  next
    case False
    show ?thesis by (rule less.prems [of "[]" cur]) (use False in \<open>auto simp: cut_long.simps [of n cur]\<close>)
  qed
qed

lemma pack_chunks:
  assumes "0 < n"
  shows "length cur \<le> n \<Longrightarrow> \<forall>c \<in> set chunks. c \<noteq> [] \<and> length c \<le> n \<Longrightarrow>
    \<exists>cs. pack n ps chunks cur = Some cs \<and> (\<forall>c \<in> set cs. c \<noteq> [] \<and> length c \<le> n) \<and>
         ink (concat cs) = ink (concat chunks) @ ink cur @ ink (concat ps)"
proof (induction ps arbitrary: chunks cur)
  case Nil
  then show ?case by auto
next
  case (Cons p ps)
  let ?full = "cur \<noteq> [] \<and> length cur + length p + 2 > n"
  let ?chunks = "if ?full then chunks @ [cur] else chunks"
  let ?cur = "if ?full then [] else cur"
  let ?next = "if ?cur = [] then p else ?cur @ [lf, lf] @ p"
  obtain cs rest where c: "cut_long n ?next = Some (cs, rest)" "concat cs @ rest = ?next" "length rest \<le> n"
      "\<forall>c \<in> set cs. c \<noteq> [] \<and> length c \<le> n"
    using cut_long_total [OF assms] by blast
  have ok: "\<forall>c \<in> set (?chunks @ cs). c \<noteq> [] \<and> length c \<le> n" using Cons.prems c(4) by auto
  from Cons.IH [OF c(3) ok] obtain out where out: "pack n ps (?chunks @ cs) rest = Some out"
      "\<forall>c \<in> set out. c \<noteq> [] \<and> length c \<le> n"
      "ink (concat out) = ink (concat (?chunks @ cs)) @ ink rest @ ink (concat ps)" by blast
  have "ink (concat cs @ rest) = ink ?next" by (simp only: c(2))
  then have m: "ink (concat cs) @ ink rest = ink ?cur @ ink p" by (simp split: if_splits)
  have "ink (concat out) = ink (concat ?chunks) @ (ink (concat cs) @ ink rest) @ ink (concat ps)"
    by (simp only: out(3) concat_append ink_append append.assoc)
  also have "\<dots> = (ink (concat ?chunks) @ ink ?cur) @ ink p @ ink (concat ps)" by (simp only: m append.assoc)
  also have "\<dots> = ink (concat chunks) @ ink cur @ ink (concat (p # ps))" by simp
  finally have "ink (concat out) = \<dots>" .
  moreover have "pack n (p # ps) chunks cur = pack n ps (?chunks @ cs) rest"
    by (simp only: pack.simps Let_def c(1) option.case prod.case)
  ultimately show ?case using out by auto
qed

text \<open>Chunking ends, within its limit, and loses no text: for a positive limit every chunk is a
  text of at most that length, and the chunks put together are the paragraphs of the document in
  their order, but for line breaks between them.\<close>

theorem chunk_text_lossless:
  assumes "0 < n"
  shows "\<exists>cs. chunk_text text n = Some cs \<and> (\<forall>c \<in> set cs. c \<noteq> [] \<and> length c \<le> n) \<and>
           ink (concat cs) = ink (concat (paragraphs text))"
  using pack_chunks [OF assms, of "[]" "[]" "paragraphs text"] by (simp add: chunk_text_def)

theorem chunk_text_lossless_witness:
  "chunk_text (''ab'' @ [lf, lf] @ ''cd ef'') 4 = Some [''ab'', ''cd e'', ''f''] \<and>
   (\<exists>cs. chunk_text (''ab'' @ [lf, lf] @ ''cd ef'') 4 = Some cs \<and> (\<forall>c \<in> set cs. c \<noteq> [] \<and> length c \<le> 4))"
proof
  show "chunk_text (''ab'' @ [lf, lf] @ ''cd ef'') 4 = Some [''ab'', ''cd e'', ''f'']" by code_simp
  show "\<exists>cs. chunk_text (''ab'' @ [lf, lf] @ ''cd ef'') 4 = Some cs \<and> (\<forall>c \<in> set cs. c \<noteq> [] \<and> length c \<le> 4)"
    using chunk_text_lossless [of 4 "''ab'' @ [lf, lf] @ ''cd ef''"] by auto
qed

section \<open>Retrieval finds the best\<close>

lemma best_hits_spec:
  "length (best_hits k scored) \<le> k \<and> set (best_hits k scored) \<subseteq> set scored \<and>
   (\<forall>h \<in> set (best_hits k scored). ht_score h > 0) \<and> sorted_wrt (\<lambda>a b. ht_score a \<ge> ht_score b) (best_hits k scored)"
proof -
  let ?s = "sort_key (\<lambda>h. - ht_score h) scored"
  have "sorted_wrt (\<lambda>a b. ht_score a \<ge> ht_score b) ?s"
    using sorted_sort_key [of "\<lambda>h. - ht_score h" scored] by (simp add: sorted_map)
  then have "sorted_wrt (\<lambda>a b. ht_score a \<ge> ht_score b) (take k ?s)" by (rule sorted_wrt_take)
  then have "sorted_wrt (\<lambda>a b. ht_score a \<ge> ht_score b) (best_hits k scored)"
    by (simp add: best_hits_def sorted_wrt_filter)
  moreover have "length (best_hits k scored) \<le> k"
    unfolding best_hits_def by (rule order_trans [OF length_filter_le]) simp
  moreover have "set (best_hits k scored) \<subseteq> set scored"
    using set_take_subset [of k ?s] by (auto simp: best_hits_def)
  ultimately show ?thesis by (simp add: best_hits_def)
qed

text \<open>What is left out has no score or no better one than any hit, and then the hits number \<open>k\<close>.\<close>

lemma best_hits_complete:
  assumes "h \<in> set scored" and "h \<notin> set (best_hits k scored)" and "ht_score h > 0"
  shows "length (best_hits k scored) = k \<and> (\<forall>g \<in> set (best_hits k scored). ht_score g \<ge> ht_score h)"
proof -
  let ?s = "sort_key (\<lambda>h. - ht_score h) scored"
  have s: "sorted_wrt (\<lambda>a b. ht_score a \<ge> ht_score b) (take k ?s @ drop k ?s)"
    using sorted_sort_key [of "\<lambda>h. - ht_score h" scored] by (simp add: sorted_map)
  have "h \<notin> set (take k ?s)" using assms(2,3) by (auto simp: best_hits_def)
  moreover have "h \<in> set (take k ?s @ drop k ?s)" unfolding append_take_drop_id using assms(1) by simp
  ultimately have d: "h \<in> set (drop k ?s)" by (simp only: set_append Un_iff) blast
  from s have "\<forall>g \<in> set (take k ?s). \<forall>x \<in> set (drop k ?s). ht_score g \<ge> ht_score x"
    by (simp only: sorted_wrt_append) blast
  with d have ge: "\<forall>g \<in> set (take k ?s). ht_score g \<ge> ht_score h" by blast
  with assms(3) have all: "best_hits k scored = take k ?s" unfolding best_hits_def by (intro filter_True) force
  from d have "k < length ?s" by (metis drop_all empty_iff empty_set leI)
  then have "length (take k ?s) = k" by simp
  with all ge show ?thesis by simp
qed

end
