(* ===== verification/Api_Server.thy ===== *)
theory Api_Server
  imports Auth_Claims Intents Ledger_Claims Triggers Knowledge
begin

text \<open>
  The Action API of src/api/server.js: the request handler as a function from a request and the state of
  the stores to a reply and the new state.

  The HTTP layer gives the path, the query, the headers and the body of a request; a form body comes
  as its fields.  HTML pages are named, not rendered.  \<open>pe_why\<close> is the text of a schema or parse error, which
  a library writes.  A reply is \<open>Inl\<close> of a message where the handler throws, which the server turns into
  status 500 (\<open>served\<close>).  The stores that may be missing are \<open>None\<close>.
\<close>

section \<open>Requests, replies and state\<close>

record http_request =
  hr_method :: string
  hr_path :: string
  hr_query :: "(string, string) jsmap"
  hr_headers :: headers
  hr_idem :: "string option"
  hr_size :: nat
  hr_body :: string
  hr_form :: "(string, string) jsmap"

datatype reply_body =
    B_json json
  | B_intent intent
  | B_ledger "json list" chain
  | B_page string string
  | B_redirect string

type_synonym reply = "nat \<times> reply_body"

record 'v api_state =
  ap_intents :: intent_store
  ap_ledger :: ledger
  ap_nonces :: nonces
  ap_limiter :: buckets
  ap_triggers :: "trigger_store option"
  ap_docs :: "'v documents option"

record 'v api_env =
  pe_hmac :: "string \<Rightarrow> string \<Rightarrow> string"
  pe_hash :: "string \<Rightarrow> string"
  pe_b64 :: "string \<Rightarrow> string"
  pe_admin :: "string \<times> string"
  pe_csrf :: string
  pe_operator :: "caller option"
  pe_tokens :: token_store
  pe_append :: "(string \<times> json) list \<Rightarrow> ledger \<Rightarrow> (string + json) \<times> ledger"
  pe_why :: "string \<Rightarrow> string"
  pe_embedder :: "'v embedder option"
  pe_disk :: disk
  pe_now :: int
  pe_at :: string
  pe_uuid :: string

definition body_limit :: nat where
  "body_limit = 256 * 1024"

definition read_body :: "http_request \<Rightarrow> auth_error + string" where
  "read_body r =
     (if hr_size r > body_limit then Inl (auth_err 413 ''too_large'' ''body too large'') else Inr (hr_body r))"

definition plain_error :: "nat \<Rightarrow> string \<Rightarrow> reply" where
  "plain_error status code = (status, B_json (JObj [(''error'', JStr code)]))"

definition error_reply :: "nat \<Rightarrow> string \<Rightarrow> string \<Rightarrow> reply" where
  "error_reply status code msg = (status, B_json (JObj [(''error'', JStr code), (''message'', JStr msg)]))"

definition auth_reply :: "auth_error \<Rightarrow> reply" where
  "auth_reply err = error_reply (ae_status err) (ae_code err) (ae_message err)"

section \<open>Routes and bodies\<close>

definition intent_path :: "string \<Rightarrow> string option" where
  "intent_path p =
     (let x = drop 12 p in
      if starts_with p ''/v1/intents/'' \<and> x \<noteq> [] \<and> CHR ''/'' \<notin> set x then Some x else None)"

definition decision_path :: "string \<Rightarrow> string option" where
  "decision_path p =
     (let x = take (length p - 22) (drop 12 p) in
      if starts_with p ''/v1/intents/'' \<and> ends_with p ''/decisions'' \<and> length p > 22 \<and> CHR ''/'' \<notin> set x then Some x else None)"

definition scope_for :: "string \<Rightarrow> string \<Rightarrow> string option" where
  "scope_for path verb =
     (if path = ''/v1/intents'' \<and> verb = ''POST'' then Some scope_propose
      else if starts_with path ''/v1/intents/'' \<and> ends_with path ''/decisions'' then Some scope_decide
      else if starts_with path ''/v1/intents/'' \<and> verb = ''PUT'' then Some scope_propose
      else if starts_with path ''/v1/intents/'' then Some scope_read
      else if path = ''/v1/ledger'' then Some scope_ledger
      else if path = ''/v1/halt'' then Some scope_halt else None)"

fun nonempty_str :: "json \<Rightarrow> bool" where
  "nonempty_str (JStr s) = (s \<noteq> [])"
| "nonempty_str v = False"

fun any_str :: "json \<Rightarrow> bool" where
  "any_str (JStr s) = True"
| "any_str v = False"

fun unit_number :: "json \<Rightarrow> bool" where
  "unit_number (JNum n) = (0 \<le> n \<and> n \<le> 1)"
| "unit_number v = False"

fun is_object :: "json \<Rightarrow> bool" where
  "is_object (JObj kvs) = True"
| "is_object v = False"

text \<open>\<open>field v ok\<close>: an optional field, which is absent or satisfies its type.\<close>

definition field :: "json \<Rightarrow> (json \<Rightarrow> bool) \<Rightarrow> bool" where
  "field v ok = (v = JUndef \<or> ok v)"

definition strict :: "string list \<Rightarrow> json \<Rightarrow> bool" where
  "strict ks v = (is_object v \<and> list_all (\<lambda>kv. fst kv \<in> set ks) (obj_fields v))"

definition propose_body :: "json \<Rightarrow> body option" where
  "propose_body v =
     (if strict [''source'', ''kind'', ''detector'', ''confidence'', ''observed_at'', ''evidence'', ''requested_outcome''] v \<and>
         field (obj_get v ''source'') nonempty_str \<and> field (obj_get v ''kind'') (\<lambda>k. k \<in> {JStr ''detection'', JStr ''task''}) \<and>
         field (obj_get v ''detector'') any_str \<and> field (obj_get v ''confidence'') unit_number \<and>
         field (obj_get v ''observed_at'') any_str \<and> field (obj_get v ''evidence'') is_object \<and>
         nonempty_str (obj_get v ''requested_outcome'')
      then Some \<lparr>bd_source = obj_get v ''source'',
                 bd_kind = (if obj_get v ''kind'' = JUndef then JStr ''task'' else obj_get v ''kind''),
                 bd_detector = obj_get v ''detector'', bd_confidence = obj_get v ''confidence'',
                 bd_observed = obj_get v ''observed_at'', bd_evidence = Some (obj_fields (obj_get v ''evidence'')),
                 bd_outcome = obj_get v ''requested_outcome'', bd_decision = False\<rparr>
      else None)"

definition update_body :: "json \<Rightarrow> body option" where
  "update_body v =
     (if strict [''requested_outcome'', ''confidence'', ''evidence''] v \<and> field (obj_get v ''requested_outcome'') nonempty_str \<and>
         field (obj_get v ''confidence'') unit_number \<and> field (obj_get v ''evidence'') is_object
      then Some \<lparr>bd_source = JUndef, bd_kind = JUndef, bd_detector = JUndef, bd_confidence = obj_get v ''confidence'',
                 bd_observed = JUndef,
                 bd_evidence = (if obj_get v ''evidence'' = JUndef then None else Some (obj_fields (obj_get v ''evidence''))),
                 bd_outcome = obj_get v ''requested_outcome'', bd_decision = False\<rparr>
      else None)"

text \<open>Verdict, reason and action of a decision.\<close>

definition decision_body :: "json \<Rightarrow> (string \<times> string \<times> string) option" where
  "decision_body v =
     (if strict [''verdict'', ''reason'', ''action_id''] v then
        (case (obj_get v ''verdict'', obj_get v ''reason'', obj_get v ''action_id'') of
           (JStr verdict, JStr reason, JStr action) \<Rightarrow>
             if verdict \<in> {''approve'', ''deny''} \<and> reason \<noteq> [] \<and> action \<noteq> [] then Some (verdict, reason, action) else None
         | _ \<Rightarrow> None)
      else None)"

definition schema_error :: "'v api_env \<Rightarrow> http_request \<Rightarrow> reply" where
  "schema_error e r = error_reply 422 ''schema'' (take 400 (pe_why e (hr_body r)))"

section \<open>The operations on intents\<close>

definition state_of :: "string \<Rightarrow> intent_store \<Rightarrow> json" where
  "state_of iid store = (case map_of (st_by_id store) iid of None \<Rightarrow> JUndef | Some i \<Rightarrow> JStr (state_name (in_state i)))"

definition spend_signature :: "'v api_env \<Rightarrow> string option \<Rightarrow> 'v api_state \<Rightarrow> (auth_error + unit) \<times> 'v api_state" where
  "spend_signature e sig s =
     (case check_replay sig (pe_now e) (Some (ap_nonces s)) of
        (res, n) \<Rightarrow> (res, s\<lparr>ap_nonces := (case n of None \<Rightarrow> ap_nonces s | Some m \<Rightarrow> m)\<rparr>))"

text \<open>The proposal is stored before the replay of its signature is checked.\<close>

definition post_intent :: "'v api_env \<Rightarrow> http_request \<Rightarrow> caller \<Rightarrow> string option \<Rightarrow> 'v api_state \<Rightarrow> (string + reply) \<times> 'v api_state" where
  "post_intent e r c sig s =
     (case hr_idem r of
        None \<Rightarrow> (Inr (error_reply 400 ''idempotency_required'' ''Idempotency-Key header is mandatory''), s)
      | Some k \<Rightarrow>
          if k = [] then (Inr (error_reply 400 ''idempotency_required'' ''Idempotency-Key header is mandatory''), s)
          else
            (case Option.bind (json_parse (hr_body r)) propose_body of
               None \<Rightarrow> (Inr (schema_error e r), s)
             | Some b \<Rightarrow>
                 (case transport_envelope ''api'' ''inbound'' ''json'' (Some k) (pe_at e) of
                    Inl msg \<Rightarrow> (Inl msg, s)
                  | Inr env \<Rightarrow>
                      (case propose (pe_uuid e) (pe_at e) (Some k) b c (Some env) (ap_intents s) of
                         ((iid, duplicate), store) \<Rightarrow>
                           (let s1 = s\<lparr>ap_intents := store\<rparr>;
                                ok = (202, B_json (JObj [(''intent_id'', JStr iid), (''state'', state_of iid store),
                                                         (''duplicate'', JBool duplicate)]))
                            in if duplicate then (Inr ok, s1)
                               else (case spend_signature e sig s1 of
                                       (Inl err, s2) \<Rightarrow> (Inr (auth_reply err), s2)
                                     | (Inr _, s2) \<Rightarrow> (Inr ok, s2)))))))"

definition put_intent :: "'v api_env \<Rightarrow> http_request \<Rightarrow> caller \<Rightarrow> string \<Rightarrow> 'v api_state \<Rightarrow> (string + reply) \<times> 'v api_state" where
  "put_intent e r c iid s =
     (case Option.bind (json_parse (hr_body r)) update_body of
        None \<Rightarrow> (Inr (schema_error e r), s)
      | Some b \<Rightarrow>
          (case update_intent (pe_at e) iid b c (ap_intents s) of
             (out, store) \<Rightarrow>
               (case pe_append e (update_entry (cl_id c) (case out of Inl (st, why) \<Rightarrow> Some why | Inr i \<Rightarrow> None) iid) (ap_ledger s) of
                  (logged, l) \<Rightarrow>
                    (let s1 = s\<lparr>ap_intents := store, ap_ledger := l\<rparr> in
                     case logged of
                       Inl msg \<Rightarrow> (Inr (error_reply 503 ''ledger_unavailable'' ''refusing to serve unlogged''), s1)
                     | Inr _ \<Rightarrow>
                         (case out of
                            Inl (st, why) \<Rightarrow> (Inr (error_reply st ''update_refused'' why), s1)
                          | Inr i \<Rightarrow>
                              (Inr (200, B_json (JObj [(''intent_id'', JStr (in_id i)), (''state'', JStr (state_name (in_state i))),
                                                       (''updates'', JNum (int (length (in_updates i))))])), s1))))))"

definition post_decision :: "'v api_env \<Rightarrow> http_request \<Rightarrow> caller \<Rightarrow> string \<Rightarrow> 'v api_state \<Rightarrow> (string + reply) \<times> 'v api_state" where
  "post_decision e r c iid s =
     (case Option.bind (json_parse (hr_body r)) decision_body of
        None \<Rightarrow> (Inr (schema_error e r), s)
      | Some (verdict, reason, action) \<Rightarrow>
          (case decide (pe_uuid e) (pe_now e) (pe_at e) iid action verdict reason c (ap_intents s) of
             (Inl (st, why), store) \<Rightarrow> (Inr (error_reply st ''decision_refused'' why), s\<lparr>ap_intents := store\<rparr>)
           | (Inr d, store) \<Rightarrow>
               (Inr (201, B_json (JObj [(''decision_id'', JStr (dc_id d)), (''verdict'', dc_verdict d), (''expires_at'', dc_expires d)])),
                s\<lparr>ap_intents := store\<rparr>)))"

definition get_intent :: "string \<Rightarrow> 'v api_state \<Rightarrow> reply" where
  "get_intent iid s =
     (case map_of (st_by_id (ap_intents s)) iid of None \<Rightarrow> plain_error 404 ''not_found'' | Some i \<Rightarrow> (200, B_intent i))"

section \<open>The ledger and HALT\<close>

definition param :: "http_request \<Rightarrow> string \<Rightarrow> json" where
  "param r k = (case map_of (hr_query r) k of None \<Rightarrow> JUndef | Some s \<Rightarrow> JStr s)"

text \<open>\<open>Number(q.limit) || d\<close>, for a limit that is a decimal integer.\<close>

definition limit_of :: "http_request \<Rightarrow> int \<Rightarrow> int" where
  "limit_of r d =
     (case header_number (map_of (hr_query r) ''limit'') of None \<Rightarrow> d | Some n \<Rightarrow> if n = 0 then d else n)"

definition rows :: "query \<Rightarrow> int \<Rightarrow> ledger \<Rightarrow> json list" where
  "rows q n l = (if n < 0 then drop (nat (- n)) (ledger_query (q\<lparr>q_limit := 0\<rparr>) l) else ledger_query (q\<lparr>q_limit := nat n\<rparr>) l)"

definition api_query :: "http_request \<Rightarrow> query" where
  "api_query r =
     \<lparr>q_since = param r ''since'', q_tier = param r ''tier'', q_agent = param r ''agent'', q_verb = param r ''verb'',
      q_impact = param r ''impact'', q_intent = param r ''intentId'', q_outcome = param r ''outcome'', q_kind = param r ''kind'',
      q_limit = 0\<rparr>"

definition get_ledger :: "'v api_env \<Rightarrow> http_request \<Rightarrow> 'v api_state \<Rightarrow> reply" where
  "get_ledger e r s = (200, B_ledger (rows (api_query r) (limit_of r 100) (ap_ledger s)) (ledger_verify (pe_hash e) (ap_ledger s)))"

definition post_halt :: "'v api_env \<Rightarrow> caller \<Rightarrow> 'v api_state \<Rightarrow> (string + reply) \<times> 'v api_state" where
  "post_halt e c s =
     (case pe_append e [(''kind'', JStr ''control''), (''agent'', JStr (cl_id c)), (''tool'', JStr ''HALT''),
                        (''verb'', JStr ''update''), (''outcome'', JStr ''halted'')] (ap_ledger s) of
        (Inl msg, l) \<Rightarrow> (Inl msg, s\<lparr>ap_ledger := l\<rparr>)
      | (Inr _, l) \<Rightarrow> (Inr (200, B_json (JObj [(''halted'', JBool True), (''at'', JStr (pe_at e))])), s\<lparr>ap_ledger := l\<rparr>))"

section \<open>The handler of \<open>/v1\<close>\<close>

definition dispatch :: "'v api_env \<Rightarrow> http_request \<Rightarrow> caller \<Rightarrow> string option \<Rightarrow> 'v api_state \<Rightarrow> (string + reply) \<times> 'v api_state" where
  "dispatch e r c sig s =
     (let p = hr_path r; m = hr_method r in
      if p = ''/v1/intents'' \<and> m = ''POST'' then post_intent e r c sig s
      else if m = ''PUT'' \<and> intent_path p \<noteq> None then put_intent e r c (the (intent_path p)) s
      else if m = ''POST'' \<and> decision_path p \<noteq> None then post_decision e r c (the (decision_path p)) s
      else if m = ''GET'' \<and> intent_path p \<noteq> None then (Inr (get_intent (the (intent_path p)) s), s)
      else if p = ''/v1/ledger'' \<and> m = ''GET'' then (Inr (get_ledger e r s), s)
      else if p = ''/v1/halt'' \<and> m = ''POST'' then post_halt e c s
      else (Inr (plain_error 405 ''method_not_allowed''), s))"

definition received_entry :: "http_request \<Rightarrow> caller \<Rightarrow> (string \<times> json) list" where
  "received_entry r c =
     [(''kind'', JStr ''api''), (''agent'', JStr (cl_id c)), (''tool'', JStr (hr_method r @ '' '' @ hr_path r)),
      (''verb'', JStr ''read''), (''outcome'', JStr ''received'')]"

text \<open>No request is served that the ledger does not hold.\<close>

definition logged_dispatch :: "'v api_env \<Rightarrow> http_request \<Rightarrow> caller \<Rightarrow> string option \<Rightarrow> 'v api_state \<Rightarrow> (string + reply) \<times> 'v api_state" where
  "logged_dispatch e r c sig s =
     (case pe_append e (received_entry r c) (ap_ledger s) of
        (Inl msg, l) \<Rightarrow> (Inr (error_reply 503 ''ledger_unavailable'' ''refusing to serve unlogged''), s\<lparr>ap_ledger := l\<rparr>)
      | (Inr _, l) \<Rightarrow> dispatch e r c sig (s\<lparr>ap_ledger := l\<rparr>))"

definition has_body :: "http_request \<Rightarrow> bool" where
  "has_body r = (hr_method r = ''POST'' \<or> hr_method r = ''PUT'')"

definition handle_v1 :: "'v api_env \<Rightarrow> http_request \<Rightarrow> 'v api_state \<Rightarrow> (string + reply) \<times> 'v api_state" where
  "handle_v1 e r s =
     (case (if has_body r then read_body r else Inr []) of
        Inl err \<Rightarrow> (Inr (plain_error (ae_status err) (ae_code err)), s)
      | Inr raw \<Rightarrow>
          (case scope_for (hr_path r) (hr_method r) of
             None \<Rightarrow> (Inr (plain_error 404 ''not_found''), s)
           | Some required \<Rightarrow>
               (case authenticate (pe_hmac e) (hr_headers r) raw (Some required) (pe_tokens e) (pe_now e) (has_body r)
                       (Some (ap_limiter s)) of
                  (res, lm) \<Rightarrow>
                    (let s1 = s\<lparr>ap_limiter := (case lm of None \<Rightarrow> ap_limiter s | Some b \<Rightarrow> b)\<rparr> in
                     case res of
                       Inl err \<Rightarrow> (Inr (auth_reply err), s1)
                     | Inr (c, sig) \<Rightarrow>
                         if (hr_method r = ''POST'' \<and> hr_path r \<noteq> ''/v1/intents'') \<or> hr_method r = ''PUT''
                         then (case spend_signature e sig s1 of
                                 (Inl err, s2) \<Rightarrow> (Inr (auth_reply err), s2)
                               | (Inr _, s2) \<Rightarrow> logged_dispatch e r c sig s2)
                         else logged_dispatch e r c sig s1))))"

section \<open>The admin portal\<close>

definition form_text :: "http_request \<Rightarrow> string \<Rightarrow> string" where
  "form_text r k = (case map_of (hr_form r) k of None \<Rightarrow> [] | Some v \<Rightarrow> v)"

text \<open>The common guard of the forms: the body is read and the token of the page is right.\<close>

definition bad_csrf :: "'v api_env \<Rightarrow> http_request \<Rightarrow> bool" where
  "bad_csrf e r = (map_of (hr_form r) ''csrf'' \<noteq> Some (pe_csrf e))"

definition with_form ::
  "'v api_env \<Rightarrow> http_request \<Rightarrow> 'v api_state \<Rightarrow> (string + reply) \<times> 'v api_state \<Rightarrow> (string + reply) \<times> 'v api_state" where
  "with_form e r s res =
     (case read_body r of
        Inl err \<Rightarrow> (Inl (ae_message err), s)
      | Inr raw \<Rightarrow> if bad_csrf e r then (Inr (403, B_page ''text'' ''bad csrf token''), s) else res)"

text \<open>A decision from the page; a missing verdict or action reads as the word \<open>null\<close>.\<close>

definition ui_decide :: "'v api_env \<Rightarrow> http_request \<Rightarrow> 'v api_state \<Rightarrow> (string + reply) \<times> 'v api_state" where
  "ui_decide e r s =
     with_form e r s
        (case pe_operator e of
           None \<Rightarrow> (Inr (503, B_page ''text'' ''no operator identity configured for the UI''), s)
         | Some operator \<Rightarrow>
             (let verdict = (case map_of (hr_form r) ''verdict'' of None \<Rightarrow> ''null'' | Some v \<Rightarrow> v);
                  (out, store) =
                    (case map_of (hr_form r) ''intent_id'' of
                       None \<Rightarrow> (Inl (404, ''unknown intent''), ap_intents s)
                     | Some iid \<Rightarrow>
                         decide (pe_uuid e) (pe_now e) (pe_at e) iid
                           (case map_of (hr_form r) ''action_id'' of None \<Rightarrow> ''null'' | Some a \<Rightarrow> a)
                           verdict (form_text r ''reason'') operator (ap_intents s));
                  entry = [(''kind'', JStr ''ui''), (''agent'', JStr (cl_id operator)), (''tool'', JStr ''ui.decide''),
                           (''verb'', JStr ''update''),
                           (''outcome'', JStr (case out of Inr d \<Rightarrow> ''recorded'' | Inl _ \<Rightarrow> ''refused'')),
                           (''reason'', JStr (case out of Inr d \<Rightarrow> verdict | Inl (st, why) \<Rightarrow> why))]
              in case pe_append e entry (ap_ledger s) of
                   (Inl msg, l) \<Rightarrow> (Inl msg, s\<lparr>ap_intents := store, ap_ledger := l\<rparr>)
                 | (Inr _, l) \<Rightarrow> (Inr (303, B_redirect ''/ui/intents''), s\<lparr>ap_intents := store, ap_ledger := l\<rparr>)))"

definition log_quietly :: "'v api_env \<Rightarrow> (string \<times> json) list option \<Rightarrow> 'v api_state \<Rightarrow> 'v api_state" where
  "log_quietly e entry s = (case entry of None \<Rightarrow> s | Some x \<Rightarrow> s\<lparr>ap_ledger := snd (pe_append e x (ap_ledger s))\<rparr>)"

text \<open>Storing a document; with the limit of 1200 units the chunking always ends.\<close>

definition ui_knowledge :: "'v api_env \<Rightarrow> http_request \<Rightarrow> 'v api_state \<Rightarrow> (string + reply) \<times> 'v api_state" where
  "ui_knowledge e r s =
     (case ap_docs s of
        None \<Rightarrow> (Inr (503, B_page ''text'' ''knowledge store not configured''), s)
      | Some docs \<Rightarrow>
          with_form e r s
            (let name = js_trim (form_text r ''name''); text = js_trim (form_text r ''text'') in
             if name = [] \<or> text = []
             then (Inr (422, B_page ''knowledge'' ''name and content are both required''), s)
             else (case add_document (pe_hash e) (pe_embedder e) (pe_disk e) (pe_at e) 1200 name text ''admin'' docs of
                     None \<Rightarrow> (Inl ''no answer'', s)
                   | Some (res, entry, docs') \<Rightarrow>
                       (let s1 = log_quietly e entry (s\<lparr>ap_docs := Some docs'\<rparr>) in
                        case res of
                          Inl msg \<Rightarrow> (Inr (502, B_page ''knowledge'' (''store failed: '' @ take 200 msg)), s1)
                        | Inr added \<Rightarrow> (Inr (200, B_page ''knowledge'' (ad_id added)), s1)))))"

definition ui_trigger_add :: "'v api_env \<Rightarrow> http_request \<Rightarrow> 'v api_state \<Rightarrow> (string + reply) \<times> 'v api_state" where
  "ui_trigger_add e r s =
     (case ap_triggers s of
        None \<Rightarrow> (Inr (503, B_page ''text'' ''trigger store not configured''), s)
      | Some ts \<Rightarrow>
          with_form e r s
            (case trigger_add (pe_disk e) (pe_uuid e) (Inl (form_text r ''phrases'')) (form_text r ''incidentType'')
                    (form_text r ''l1'') (form_text r ''action'') ts of
               (out, entry, ts') \<Rightarrow>
                 (let s1 = log_quietly e entry (s\<lparr>ap_triggers := Some ts'\<rparr>) in
                  case out of
                    Edit_refused why \<Rightarrow> (Inr (422, B_page ''triggers'' why), s1)
                  | Edit_thrown msg \<Rightarrow> (Inl msg, s1)
                  | Edit_ok t \<Rightarrow> (Inr (200, B_page ''triggers'' (case tg_phrases t of [] \<Rightarrow> [] | w # ws \<Rightarrow> w)), s1))))"

definition ui_trigger_remove :: "'v api_env \<Rightarrow> http_request \<Rightarrow> 'v api_state \<Rightarrow> (string + reply) \<times> 'v api_state" where
  "ui_trigger_remove e r s =
     (case ap_triggers s of
        None \<Rightarrow> (Inr (503, B_page ''text'' ''trigger store not configured''), s)
      | Some ts \<Rightarrow>
          with_form e r s
            (case trigger_remove (pe_disk e) (form_text r ''id'') ts of
               (out, entry, ts') \<Rightarrow>
                 (let s1 = log_quietly e entry (s\<lparr>ap_triggers := Some ts'\<rparr>) in
                  case out of
                    Edit_thrown msg \<Rightarrow> (Inl msg, s1)
                  | _ \<Rightarrow> (Inr (303, B_redirect ''/ui/triggers''), s1))))"

definition in_portal :: "string \<Rightarrow> bool" where
  "in_portal p = (p = ''/ui'' \<or> starts_with p ''/ui/'')"

definition is_admin :: "'v api_env \<Rightarrow> http_request \<Rightarrow> bool" where
  "is_admin e r = (check_admin_auth (pe_b64 e) (fst (pe_admin e)) (snd (pe_admin e)) (hd_auth (hr_headers r)) \<noteq> None)"

text \<open>
  The forms above behind the admin check; the other routes of the portal are the argument \<open>others\<close>
  (pages, agent deployment, demonstration and training controls), and a portal path that is none of
  them goes on to the API handler.
\<close>

definition handle_request ::
  "('v api_env \<Rightarrow> http_request \<Rightarrow> 'v api_state \<Rightarrow> ((string + reply) \<times> 'v api_state) option) \<Rightarrow> 'v api_env \<Rightarrow> http_request
     \<Rightarrow> 'v api_state \<Rightarrow> (string + reply) \<times> 'v api_state" where
  "handle_request others e r s =
     (if hr_path r = ''/healthz'' \<and> hr_method r = ''GET''
      then (Inr (200, B_json (JObj [(''ok'', JBool True), (''status'', JStr ''live'')])), s)
      else if \<not> in_portal (hr_path r) then handle_v1 e r s
      else if \<not> is_admin e r then (Inr (401, B_page ''text'' ''unauthorized''), s)
      else
        (if hr_method r = ''POST'' \<and> hr_path r = ''/ui/decide'' then ui_decide e r s
         else if hr_method r = ''POST'' \<and> hr_path r = ''/ui/knowledge'' then ui_knowledge e r s
         else if hr_method r = ''POST'' \<and> hr_path r = ''/ui/triggers'' then ui_trigger_add e r s
         else if hr_method r = ''POST'' \<and> hr_path r = ''/ui/triggers/delete'' then ui_trigger_remove e r s
         else (case others e r s of Some res \<Rightarrow> res | None \<Rightarrow> handle_v1 e r s)))"

text \<open>The server: what a thrown error becomes.\<close>

definition served :: "(string + reply) \<times> 'v api_state \<Rightarrow> reply \<times> 'v api_state" where
  "served res = (case res of (Inl msg, s) \<Rightarrow> (error_reply 500 ''internal'' ''refused'', s) | (Inr rep, s) \<Rightarrow> (rep, s))"

end
