(* ===== verification/Api_Claims.thy ===== *)
theory Api_Claims
  imports Api_Server
begin

text \<open>
  What the Action API guarantees: an intent changes only for an authenticated, scoped, signed and logged
  request, by the store operation its scope stands for; and where the replay check comes too late.
\<close>

section \<open>Frames\<close>

lemma spend_signature_frame [simp]:
  "ap_intents (snd (spend_signature e sig s)) = ap_intents s" "ap_ledger (snd (spend_signature e sig s)) = ap_ledger s"
  by (auto simp: spend_signature_def split: prod.split)

lemma post_intent_store:
  "ap_intents (snd (post_intent e r c sig s)) = ap_intents s \<or>
   (\<exists>k b env. ap_intents (snd (post_intent e r c sig s)) =
      snd (propose (pe_uuid e) (pe_at e) (Some k) b c (Some env) (ap_intents s)))"
proof (cases "hr_idem r")
  case (Some k)
  show ?thesis
  proof (cases "k = [] \<or> Option.bind (json_parse (hr_body r)) propose_body = None")
    case False
    then obtain b where b: "k \<noteq> []" "Option.bind (json_parse (hr_body r)) propose_body = Some b" by blast
    obtain env where env: "transport_envelope ''api'' ''inbound'' ''json'' (Some k) (pe_at e) = Inr env"
      by (simp add: transport_envelope_def)
    obtain iid dup store where p: "propose (pe_uuid e) (pe_at e) (Some k) b c (Some env) (ap_intents s) = ((iid, dup), store)"
      by (metis surj_pair)
    obtain res s2 where sp: "spend_signature e sig (s\<lparr>ap_intents := store\<rparr>) = (res, s2)" by fastforce
    with spend_signature_frame(1) [of e sig "s\<lparr>ap_intents := store\<rparr>"] have "ap_intents s2 = store" by simp
    then have "ap_intents (snd (post_intent e r c sig s)) = store"
      by (cases res) (simp_all add: post_intent_def Some b env p Let_def sp)
    then show ?thesis using p by (metis snd_conv)
  qed (auto simp: post_intent_def Some)
qed (simp add: post_intent_def)

lemma put_intent_store:
  "ap_intents (snd (put_intent e r c iid s)) = ap_intents s \<or>
   (\<exists>b. ap_intents (snd (put_intent e r c iid s)) = snd (update_intent (pe_at e) iid b c (ap_intents s)))"
proof (cases "Option.bind (json_parse (hr_body r)) update_body")
  case (Some b)
  obtain out store where u: "update_intent (pe_at e) iid b c (ap_intents s) = (out, store)" by fastforce
  have "ap_intents (snd (put_intent e r c iid s)) = store"
    by (auto simp: put_intent_def Some u Let_def split: prod.split sum.split)
  with u show ?thesis by (metis snd_conv)
qed (simp add: put_intent_def)

lemma post_decision_store:
  "ap_intents (snd (post_decision e r c iid s)) = ap_intents s \<or>
   (\<exists>x verdict why. ap_intents (snd (post_decision e r c iid s)) =
      snd (decide (pe_uuid e) (pe_now e) (pe_at e) iid x verdict why c (ap_intents s)))"
proof (cases "Option.bind (json_parse (hr_body r)) decision_body")
  case (Some b)
  obtain verdict why x where b: "b = (verdict, why, x)" by (cases b) auto
  obtain out store where d: "decide (pe_uuid e) (pe_now e) (pe_at e) iid x verdict why c (ap_intents s) = (out, store)" by fastforce
  have "ap_intents (snd (post_decision e r c iid s)) = store"
    by (auto simp: post_decision_def Some b d split: sum.split)
  with d show ?thesis by (metis snd_conv)
qed (simp add: post_decision_def)

lemma post_halt_store [simp]: "ap_intents (snd (post_halt e c s)) = ap_intents s"
  by (auto simp: post_halt_def split: prod.split sum.split)

section \<open>Which operation a request performs\<close>

text \<open>The operation that the scope of a request stands for, carried out for the caller.  (An update of an
  intent called \<open>decisions\<close> would ask for the other scope; ids begin with \<open>int_\<close>.)\<close>

definition store_op :: "'v api_env \<Rightarrow> string \<Rightarrow> caller \<Rightarrow> intent_store \<Rightarrow> intent_store \<Rightarrow> bool" where
  "store_op e required c store store' =
     ((required = scope_propose \<and>
         (\<exists>k b env. store' = snd (propose (pe_uuid e) (pe_at e) (Some k) b c (Some env) store))) \<or>
      (required \<in> {scope_propose, scope_decide} \<and> (\<exists>iid b. store' = snd (update_intent (pe_at e) iid b c store))) \<or>
      (required = scope_decide \<and>
         (\<exists>iid x verdict why. store' = snd (decide (pe_uuid e) (pe_now e) (pe_at e) iid x verdict why c store))))"

lemma store_op_decide:
  "store_op e scope_decide c store (snd (decide (pe_uuid e) (pe_now e) (pe_at e) iid x verdict why c store))"
  unfolding store_op_def by blast

lemma intent_path_prefix: "intent_path p \<noteq> None \<Longrightarrow> starts_with p ''/v1/intents/''"
  by (simp add: intent_path_def Let_def split: if_splits)

lemma decision_path_shape: "decision_path p \<noteq> None \<Longrightarrow> starts_with p ''/v1/intents/'' \<and> ends_with p ''/decisions''"
  by (simp add: decision_path_def Let_def split: if_splits)

lemma not_collection: "starts_with p ''/v1/intents/'' \<Longrightarrow> p \<noteq> ''/v1/intents''"
  by (auto simp: starts_with_def)

lemma dispatch_store:
  assumes "scope_for (hr_path r) (hr_method r) = Some required"
    and "ap_intents (snd (dispatch e r c sig s)) \<noteq> ap_intents s"
  shows "store_op e required c (ap_intents s) (ap_intents (snd (dispatch e r c sig s)))"
proof -
  let ?p = "hr_path r" and ?m = "hr_method r"
  consider (post) "?p = ''/v1/intents''" "?m = ''POST''"
    | (put) "?m = ''PUT''" "intent_path ?p \<noteq> None" | (decide) "?m = ''POST''" "decision_path ?p \<noteq> None"
    | (rest) "\<not> (?p = ''/v1/intents'' \<and> ?m = ''POST'')" "\<not> (?m = ''PUT'' \<and> intent_path ?p \<noteq> None)"
        "\<not> (?m = ''POST'' \<and> decision_path ?p \<noteq> None)" by blast
  then show ?thesis
  proof cases
    case post
    then have "dispatch e r c sig s = post_intent e r c sig s" "required = scope_propose"
      using assms(1) by (simp_all add: dispatch_def scope_for_def)
    then show ?thesis using post_intent_store [of e r c sig s] assms(2) by (auto simp: store_op_def)
  next
    case put
    note p = intent_path_prefix [OF put(2)]
    have "dispatch e r c sig s = put_intent e r c (the (intent_path ?p)) s" using put by (simp add: dispatch_def)
    moreover have "required \<in> {scope_propose, scope_decide}"
      using assms(1) put(1) p not_collection [OF p] by (auto simp: scope_for_def split: if_splits)
    ultimately show ?thesis using put_intent_store [of e r c "the (intent_path ?p)" s] assms(2) by (auto simp: store_op_def)
  next
    case decide
    note p = decision_path_shape [OF decide(2)]
    have "dispatch e r c sig s = post_decision e r c (the (decision_path ?p)) s"
      using decide p not_collection by (auto simp: dispatch_def)
    moreover have "required = scope_decide"
      using assms(1) p not_collection by (auto simp: scope_for_def)
    ultimately show ?thesis using post_decision_store [of e r c "the (decision_path ?p)" s] assms(2) store_op_decide
      by (metis (no_types, lifting))
  next
    case rest
    then have "ap_intents (snd (dispatch e r c sig s)) = ap_intents s" by (auto simp: dispatch_def Let_def)
    with assms(2) show ?thesis by simp
  qed
qed

lemma logged_dispatch_store:
  assumes "scope_for (hr_path r) (hr_method r) = Some required"
    and "ap_intents (snd (logged_dispatch e r c sig s)) \<noteq> ap_intents s"
  shows "(\<exists>x. fst (pe_append e (received_entry r c) (ap_ledger s)) = Inr x) \<and>
    store_op e required c (ap_intents s) (ap_intents (snd (logged_dispatch e r c sig s)))"
proof -
  obtain res l where a: "pe_append e (received_entry r c) (ap_ledger s) = (res, l)" by fastforce
  from assms(2) obtain x where res: "res = Inr x" by (cases res) (auto simp: logged_dispatch_def a)
  have "logged_dispatch e r c sig s = dispatch e r c sig (s\<lparr>ap_ledger := l\<rparr>)" by (simp add: logged_dispatch_def a res)
  with dispatch_store [OF assms(1), of e c sig "s\<lparr>ap_ledger := l\<rparr>"] assms(2) show ?thesis by (simp add: a res)
qed

section \<open>Changes are authorised\<close>

definition signed_request :: "'v api_env \<Rightarrow> http_request \<Rightarrow> caller \<Rightarrow> bool" where
  "signed_request e r c =
     (\<exists>ts. header_number (hd_timestamp (hr_headers r)) = Some ts \<and> \<bar>pe_now e - ts * 1000\<bar> \<le> 300000 \<and>
        hd_signature (hr_headers r) = Some (''sha256='' @ pe_hmac e (cl_secret c) (show_int ts @ ''.'' @ hr_body r)))"

lemma authenticated_signed:
  assumes "fst (authenticate hmac h body required tokens now True limiter) = Inr (c, sig)"
  shows "sig = hd_signature h \<and> (\<exists>bearer. bearer_of (hd_auth h) = Some bearer \<and> map_of tokens bearer = Some c) \<and>
    (\<forall>s. required = Some s \<longrightarrow> s \<in> set (cl_scopes c)) \<and>
    (\<exists>ts. header_number (hd_timestamp h) = Some ts \<and> \<bar>now - ts * 1000\<bar> \<le> 300000 \<and>
       hd_signature h = Some (sign_body hmac (cl_secret c) ts body))"
  using assms
  by (auto simp: authenticate_def check_signature_def signature_window_def Let_def
      split: option.splits if_splits prod.splits sum.splits)

lemma logged_reader:
  assumes "\<not> has_body r"
  shows "ap_intents (snd (logged_dispatch e r c sig s)) = ap_intents s"
  using assms by (auto simp: logged_dispatch_def dispatch_def has_body_def Let_def split: prod.split sum.split)

text \<open>C27. Every change of an intent through the API is authorised and on record: if a request changes the
  intent store, then its bearer token is known and carries the scope of the route, its signature is
  the caller's over exactly this body inside the window, the ledger has just recorded the request with
  the caller's identity, and the change is the one store operation that the scope stands for, done in
  the caller's name: a proposal needs the scope to propose, a decision the scope to decide.\<close>

theorem api_changes_authorized:
  assumes "handle_v1 e r s = (out, s')" and "ap_intents s' \<noteq> ap_intents s"
  shows "\<exists>c required bearer l. bearer_of (hd_auth (hr_headers r)) = Some bearer \<and> map_of (pe_tokens e) bearer = Some c \<and>
    scope_for (hr_path r) (hr_method r) = Some required \<and> required \<in> set (cl_scopes c) \<and>
    signed_request e r c \<and> hr_size r \<le> body_limit \<and>
    (\<exists>x. fst (pe_append e (received_entry r c) l) = Inr x) \<and> l = ap_ledger s \<and>
    store_op e required c (ap_intents s) (ap_intents s')"
proof -
  obtain raw where raw: "(if has_body r then read_body r else Inr []) = Inr raw"
    using assms by (cases "if has_body r then read_body r else Inr []") (auto simp: handle_v1_def)
  obtain required where scope: "scope_for (hr_path r) (hr_method r) = Some required"
    using assms raw by (cases "scope_for (hr_path r) (hr_method r)") (auto simp: handle_v1_def)
  obtain res lm where auth: "authenticate (pe_hmac e) (hr_headers r) raw (Some required) (pe_tokens e) (pe_now e) (has_body r)
      (Some (ap_limiter s)) = (res, lm)" by fastforce
  obtain c sig where res: "res = Inr (c, sig)"
    using assms raw scope auth by (cases res) (auto simp: handle_v1_def)
  let ?s1 = "s\<lparr>ap_limiter := (case lm of None \<Rightarrow> ap_limiter s | Some b \<Rightarrow> b)\<rparr>"
  have "\<exists>s2. ap_intents s2 = ap_intents s \<and> ap_ledger s2 = ap_ledger s \<and>
      ap_intents s' = ap_intents (snd (logged_dispatch e r c sig s2))"
  proof (cases "(hr_method r = ''POST'' \<and> hr_path r \<noteq> ''/v1/intents'') \<or> hr_method r = ''PUT''")
    case True
    obtain sp s2 where sp: "spend_signature e sig ?s1 = (sp, s2)" by fastforce
    have f: "ap_intents s2 = ap_intents s" "ap_ledger s2 = ap_ledger s"
      using spend_signature_frame [of e sig ?s1] sp by simp_all
    have "(out, s') = (case sp of Inl err \<Rightarrow> (Inr (auth_reply err), s2) | Inr _ \<Rightarrow> logged_dispatch e r c sig s2)"
      using assms(1) True sp by (simp add: handle_v1_def raw scope auth res Let_def)
    then show ?thesis using f assms(2) by (cases sp) (auto intro: exI [of _ s2] simp: prod_eq_iff)
  next
    case False
    then have "(out, s') = logged_dispatch e r c sig ?s1"
      using assms(1) by (auto simp: handle_v1_def raw scope auth res Let_def)
    then show ?thesis by (intro exI [of _ ?s1]) (auto simp: prod_eq_iff)
  qed
  then obtain s2 where s2: "ap_intents s2 = ap_intents s" "ap_ledger s2 = ap_ledger s"
      "ap_intents s' = ap_intents (snd (logged_dispatch e r c sig s2))" by blast
  have b: "has_body r" using logged_reader [of r e c sig s2] s2 assms(2) by auto
  then have size: "hr_size r \<le> body_limit" "raw = hr_body r" using raw by (auto simp: read_body_def split: if_splits)
  have a: "fst (authenticate (pe_hmac e) (hr_headers r) (hr_body r) (Some required) (pe_tokens e) (pe_now e) True
      (Some (ap_limiter s))) = Inr (c, sig)" using auth res b size(2) by simp
  from authenticated_signed [OF a] obtain bearer ts where
    "bearer_of (hd_auth (hr_headers r)) = Some bearer" "map_of (pe_tokens e) bearer = Some c" "required \<in> set (cl_scopes c)"
    "signed_request e r c" by (auto simp: signed_request_def sign_body_def)
  with logged_dispatch_store [OF scope, of e c sig s2] s2 assms(2) scope size(1) show ?thesis
    by (intro exI [of _ c] exI [of _ required] exI [of _ bearer] exI [of _ "ap_ledger s"]) auto
qed

definition demo_api_env :: "unit api_env" where
  "demo_api_env =
     \<lparr>pe_hmac = (\<lambda>k t. k), pe_hash = (\<lambda>s. s), pe_b64 = (\<lambda>s. s), pe_admin = ([], []), pe_csrf = ''x'', pe_operator = None,
      pe_tokens = create_tokens [\<lparr>cl_id = ''cam'', cl_token = ''tok'', cl_secret = ''k'', cl_scopes = [''intent:propose'']\<rparr>],
      pe_append = (\<lambda>entry l. (Inr JNull, l)), pe_why = (\<lambda>s. s), pe_embedder = None, pe_disk = Disk_ok, pe_now = 7000,
      pe_at = ''t'', pe_uuid = ''1''\<rparr>"

definition demo_post :: http_request where
  "demo_post =
     \<lparr>hr_method = ''POST'', hr_path = ''/v1/intents'', hr_query = [],
      hr_headers = \<lparr>hd_auth = Some ''Bearer tok'', hd_timestamp = Some ''7'', hd_signature = Some ''sha256=k''\<rparr>,
      hr_idem = Some ''k1'', hr_size = 27, hr_body = ''{\"requested_outcome\":\"help\"}'', hr_form = []\<rparr>"

definition demo_api :: "unit api_state" where
  "demo_api =
     \<lparr>ap_intents = create_intents True, ap_ledger = empty_ledger, ap_nonces = [], ap_limiter = [], ap_triggers = None, ap_docs = None\<rparr>"

definition demo_caller :: caller where
  "demo_caller = \<lparr>cl_id = ''cam'', cl_token = ''tok'', cl_secret = ''k'', cl_scopes = [''intent:propose'']\<rparr>"

lemma demo_post_body:
  "\<exists>b. Option.bind (json_parse (hr_body demo_post)) propose_body = Some b"
proof -
  have "json_parse (hr_body demo_post) = Some (JObj [(''requested_outcome'', JStr ''help'')])" by code_simp
  moreover have "propose_body (JObj [(''requested_outcome'', JStr ''help'')]) \<noteq> None" by code_simp
  ultimately show ?thesis by auto
qed

lemma demo_post_auth:
  "\<exists>lm. authenticate (pe_hmac demo_api_env) (hr_headers demo_post) (hr_body demo_post) (Some scope_propose) (pe_tokens demo_api_env)
     7000 True (Some []) = (Inr (demo_caller, Some ''sha256=k''), lm)"
proof -
  have "fst (authenticate (pe_hmac demo_api_env) (hr_headers demo_post) (hr_body demo_post) (Some scope_propose)
      (pe_tokens demo_api_env) 7000 True (Some [])) = Inr (demo_caller, Some ''sha256=k'')" by code_simp
  then show ?thesis by (metis prod.collapse)
qed

lemma demo_posted:
  "map_sum id fst (fst (handle_v1 demo_api_env demo_post demo_api)) = Inr 202 \<and>
   map fst (st_by_id (ap_intents (snd (handle_v1 demo_api_env demo_post demo_api)))) = [''int_1'']"
proof -
  obtain b where b: "Option.bind (json_parse (hr_body demo_post)) propose_body = Some b" using demo_post_body by blast
  obtain lm where auth: "authenticate (pe_hmac demo_api_env) (hr_headers demo_post) (hr_body demo_post) (Some scope_propose)
     (pe_tokens demo_api_env) 7000 True (Some []) = (Inr (demo_caller, Some ''sha256=k''), lm)" using demo_post_auth by blast
  let ?s = "demo_api\<lparr>ap_limiter := (case lm of None \<Rightarrow> ap_limiter demo_api | Some b \<Rightarrow> b)\<rparr>"
  have scope: "scope_for ''/v1/intents'' ''POST'' = Some scope_propose" and w: "has_body demo_post"
    by code_simp+
  have r: "read_body demo_post = Inr (hr_body demo_post)" by (simp add: read_body_def body_limit_def demo_post_def)
  have f: "hr_method demo_post = ''POST''" "hr_path demo_post = ''/v1/intents''" "hr_idem demo_post = Some ''k1''"
    "pe_now demo_api_env = 7000" "pe_uuid demo_api_env = ''1''" "pe_at demo_api_env = ''t''"
    "ap_limiter demo_api = []" "ap_nonces demo_api = []" "ap_intents demo_api = create_intents True"
    by (simp_all add: demo_post_def demo_api_env_def demo_api_def)
  have l: "logged_dispatch demo_api_env demo_post demo_caller (Some ''sha256=k'') ?s =
      post_intent demo_api_env demo_post demo_caller (Some ''sha256=k'') ?s"
    by (simp add: logged_dispatch_def dispatch_def f demo_api_env_def)
  have h: "handle_v1 demo_api_env demo_post demo_api = post_intent demo_api_env demo_post demo_caller (Some ''sha256=k'') ?s"
    using auth by (simp add: handle_v1_def scope w r f Let_def l)
  show ?thesis unfolding h
    by (simp add: post_intent_def b f transport_envelope_def propose_def create_intents_def new_intent_def spend_signature_def
        check_replay_def nonce_check_def sweep_def jhas_def Let_def)
qed

theorem api_changes_authorized_witness:
  "map_sum id fst (fst (handle_v1 demo_api_env demo_post demo_api)) = Inr 202 \<and>
   (\<exists>c. map_of (pe_tokens demo_api_env) ''tok'' = Some c \<and> signed_request demo_api_env demo_post c \<and>
      store_op demo_api_env ''intent:propose'' c (create_intents True) (ap_intents (snd (handle_v1 demo_api_env demo_post demo_api))))"
proof -
  obtain out s' where h: "handle_v1 demo_api_env demo_post demo_api = (out, s')" by fastforce
  have "ap_intents s' \<noteq> ap_intents demo_api"
    using demo_posted h by (auto simp: demo_api_def create_intents_def)
  from api_changes_authorized [OF h this] obtain c required bearer where
    c: "bearer_of (hd_auth (hr_headers demo_post)) = Some bearer" "map_of (pe_tokens demo_api_env) bearer = Some c"
      "scope_for (hr_path demo_post) (hr_method demo_post) = Some required" "signed_request demo_api_env demo_post c"
      "store_op demo_api_env required c (ap_intents demo_api) (ap_intents s')" by blast
  moreover have "bearer_of (hd_auth (hr_headers demo_post)) = Some ''tok''"
    "scope_for (hr_path demo_post) (hr_method demo_post) = Some ''intent:propose''" by code_simp+
  ultimately show ?thesis using demo_posted h by (auto simp: demo_api_def)
qed

section \<open>A replayed proposal is stored\<close>

text \<open>
  The signature covers the body, not the idempotency key.  A captured request sent again with another
  key is answered 409, but the second intent is in the store by then.
\<close>

lemma replayed_proposal_is_stored:
  assumes "hr_idem r = Some k" and "k \<noteq> []" and "Option.bind (json_parse (hr_body r)) propose_body = Some b"
    and "map_of (st_by_key (ap_intents s)) k = None"
    and "fst (spend_signature e sig (s\<lparr>ap_intents := st\<rparr>)) = Inl err"
    and "st = snd (propose (pe_uuid e) (pe_at e) (Some k) b c (Some \<lparr>tr_source = ''api'', tr_direction = ''inbound'',
           tr_modality = ''json'', tr_key = Some k, tr_received = pe_at e\<rparr>) (ap_intents s))"
  shows "fst (post_intent e r c sig s) = Inr (auth_reply err) \<and>
    jhas (st_by_id (ap_intents (snd (post_intent e r c sig s)))) (''int_'' @ pe_uuid e)"
proof -
  obtain s2 where sp: "spend_signature e sig (s\<lparr>ap_intents := st\<rparr>) = (Inl err, s2)"
    using assms(5) by (metis prod.collapse)
  have "ap_intents s2 = st" using spend_signature_frame(1) [of e sig "s\<lparr>ap_intents := st\<rparr>"] sp by simp
  with assms sp show ?thesis
    by (simp add: post_intent_def transport_envelope_def propose_def new_intent_def Let_def)
qed

end
