(* ===== verification/Screen.thy ===== *)
theory Screen
  imports Json Js_Regex
begin

text \<open>
  The screening of untrusted text in src/models/screen.js: instruction-shaped content is redacted
  and flagged, and text that could change a command or a path is refused.
\<close>

definition rx_upto :: "nat \<Rightarrow> rx" where
  "rx_upto n = Rep True 0 (Some n) (Sat dot_char)"

definition rx_word_i :: "string list \<Rightarrow> rx" where
  "rx_word_i ws = rx_seqs [Wb, rx_alts (map rx_lit_i ws), Wb]"

definition injection_patterns :: "rx list" where
  "injection_patterns =
     [rx_seqs [rx_lit_i ''ignore '', rx_opt (rx_lit_i ''all ''), rx_alts (map rx_lit_i [''previous'', ''prior'', ''above'']),
        rx_lit_i '' instructions''],
      rx_seqs [rx_lit_i ''disregard '', rx_opt (rx_lit_i ''the ''), rx_alts (map rx_lit_i [''system'', ''previous'']),
        rx_lit_i '' prompt''],
      rx_seqs [rx_lit_i ''you are now '', rx_alts (map rx_lit_i [''a'', ''an'', ''in'']), rx_lit_i '' ''],
      rx_seqs [Wb, rx_lit_i ''system'', rx_star rx_ws, rx_lit_i '':'', rx_star rx_ws],
      rx_seqs [rx_lit_i ''<|'', rx_alts (map rx_lit_i [''im_start'', ''im_end'', ''system'']), rx_lit_i ''|>''],
      rx_seqs [rx_word_i [''approve''], rx_upto 40, rx_word_i [''this'', ''the''], rx_upto 20,
        rx_word_i [''action'', ''intent'', ''request'']],
      rx_seqs [rx_word_i [''grant''], rx_upto 30, rx_word_i [''access'', ''permission'', ''scope'']]]"

definition redaction :: string where
  "redaction = ''[redacted: instruction-shaped content]''"

text \<open>The loop over the patterns; each rewrites the leftmost match of what the earlier ones left.\<close>

fun screen_with :: "rx list \<Rightarrow> string \<times> string list \<Rightarrow> string \<times> string list" where
  "screen_with [] st = st"
| "screen_with (re # res) (clean, flags) =
     screen_with res
       (if rx_test re clean then (rx_replace re clean redaction, flags @ [''instruction-shaped'']) else (clean, flags))"

definition screen_text :: "json \<Rightarrow> nat \<Rightarrow> string \<times> string list" where
  "screen_text input maxlen =
     (let raw = (if nullish input then [] else js_string input) in
      screen_with injection_patterns (take maxlen raw, if length raw > maxlen then [''truncated''] else []))"

section \<open>Evidence objects\<close>

text \<open>A JavaScript \<open>Set\<close> of strings keeps its insertion order.\<close>

definition set_add :: "'a list \<Rightarrow> 'a \<Rightarrow> 'a list" where
  "set_add xs x = (if x \<in> set xs then xs else xs @ [x])"

definition set_adds :: "'a list \<Rightarrow> 'a list \<Rightarrow> 'a list" where
  "set_adds xs ys = foldl set_add xs ys"

text \<open>
  The screened value of each property with the flags it adds.  An array is walked as an object with
  its indices as names, and comes out as one.
\<close>

fun screen_value :: "json \<Rightarrow> json \<times> string list" where
  "screen_value (JStr s) = (let (c, f) = screen_text (JStr s) 4000 in (JStr c, map (\<lambda>x. '':'' @ x) f))"
| "screen_value (JObj kvs) =
     (let rs = map (\<lambda>(k, v). (k, screen_value v)) kvs in
      (JObj (map (\<lambda>(k, r). (k, fst r)) rs),
       map (\<lambda>x. ''.'' @ x) (foldl (\<lambda>fs (k, r). set_adds fs (map (\<lambda>x. k @ x) (snd r))) [] rs)))"
| "screen_value (JArr xs) =
     (let rs = map2 (\<lambda>i r. (show_nat i, r)) [0..<length xs] (map screen_value xs) in
      (JObj (map (\<lambda>(k, r). (k, fst r)) rs),
       map (\<lambda>x. ''.'' @ x) (foldl (\<lambda>fs (k, r). set_adds fs (map (\<lambda>x. k @ x) (snd r))) [] rs)))"
| "screen_value v = (v, [])"

definition screen_evidence :: "(string \<times> json) list \<Rightarrow> json \<times> string list" where
  "screen_evidence kvs = (let (v, f) = screen_value (JObj kvs) in (v, map (drop 1) f))"

section \<open>No interpolation\<close>

definition shell_metachar :: "char \<Rightarrow> bool" where
  "shell_metachar c = (c \<in> set ('';&|`$<>(){}'' @ [CHR 0x5C, CHR 0x0A, CHR 0x0D]))"

definition assert_not_interpolated :: "json \<Rightarrow> string \<Rightarrow> string + bool" where
  "assert_not_interpolated value field =
     (let s = (if nullish value then [] else js_string value) in
      if list_ex shell_metachar s then Inl (field @ '' contains shell metacharacters and must not be interpolated'')
      else if js_includes s ''..'' then Inl (field @ '' contains a path traversal and must not be interpolated'')
      else Inr True)"

section \<open>What screening guarantees\<close>

lemma screen_with_flags: "\<exists>more. snd (screen_with res st) = snd st @ more"
proof (induction res arbitrary: st)
  case (Cons re res)
  obtain clean flags where st: "st = (clean, flags)" by fastforce
  show ?case
  proof (cases "rx_test re clean")
    case True
    from Cons [of "(rx_replace re clean redaction, flags @ [''instruction-shaped''])"] True st show ?thesis by auto
  qed (use Cons st in auto)
qed simp

lemma screen_with_quiet:
  "snd (screen_with res (clean, flags)) = flags \<longleftrightarrow> list_all (\<lambda>re. \<not> rx_test re clean) res"
proof (induction res arbitrary: clean flags)
  case (Cons re res)
  show ?case
  proof (cases "rx_test re clean")
    case True
    obtain more where "snd (screen_with res (rx_replace re clean redaction, flags @ [''instruction-shaped''])) =
        (flags @ [''instruction-shaped'']) @ more"
      using screen_with_flags [of res "(rx_replace re clean redaction, flags @ [''instruction-shaped''])"] by auto
    then show ?thesis using True by simp
  qed (use Cons in simp)
qed simp

lemma screen_with_id: "list_all (\<lambda>re. \<not> rx_test re clean) res \<Longrightarrow> fst (screen_with res (clean, flags)) = clean"
  by (induction res) auto

lemma screen_with_length:
  "length (fst (screen_with res (clean, flags))) \<le> length clean + length res * length redaction"
proof (induction res arbitrary: clean flags)
  case (Cons re res)
  show ?case
  proof (cases "rx_test re clean")
    case True
    have "length (rx_replace re clean redaction) \<le> length clean + length redaction" by (rule length_rx_replace)
    with Cons [of "rx_replace re clean redaction" "flags @ [''instruction-shaped'']"] True show ?thesis by simp
  next
    case False
    with Cons [of clean flags] show ?thesis by simp
  qed
qed simp

text \<open>Screening flags every text it changes and every text with instruction-shaped content: a
  text comes back without a flag exactly if it fits the limit and matches none of the injection
  patterns, it then comes back unchanged, and a screened text is never longer than the limit and
  one redaction per pattern.\<close>

theorem screen_text_flags:
  fixes input :: json
  defines "raw \<equiv> if nullish input then [] else js_string input"
  shows "(snd (screen_text input n) = [] \<longleftrightarrow> length raw \<le> n \<and> list_all (\<lambda>re. \<not> rx_test re raw) injection_patterns) \<and>
     (snd (screen_text input n) = [] \<longrightarrow> fst (screen_text input n) = raw) \<and>
     length (fst (screen_text input n)) \<le> n + 7 * length redaction"
proof (intro conjI impI)
  show iff: "snd (screen_text input n) = [] \<longleftrightarrow> length raw \<le> n \<and> list_all (\<lambda>re. \<not> rx_test re raw) injection_patterns"
  proof (cases "length raw > n")
    case True
    obtain more where "snd (screen_with injection_patterns (take n raw, [''truncated''])) = [''truncated''] @ more"
      using screen_with_flags [of injection_patterns "(take n raw, [''truncated''])"] by auto
    then show ?thesis using True by (simp add: screen_text_def raw_def [symmetric] Let_def)
  next
    case False
    then show ?thesis using screen_with_quiet [of injection_patterns raw "[]"]
      by (simp add: screen_text_def raw_def [symmetric] Let_def)
  qed
  show "fst (screen_text input n) = raw" if "snd (screen_text input n) = []"
    using that iff screen_with_id [of raw injection_patterns "[]"] by (simp add: screen_text_def raw_def [symmetric] Let_def)
  have "length injection_patterns = 7" by (simp add: injection_patterns_def)
  then show "length (fst (screen_text input n)) \<le> n + 7 * length redaction"
    using screen_with_length [of injection_patterns "take n raw" "if length raw > n then [''truncated''] else []"]
    by (simp add: screen_text_def raw_def [symmetric] Let_def)
qed

theorem screen_text_flags_witness: "screen_text (JStr ''ok'') 4000 = (''ok'', [])"
proof -
  have "list_all (\<lambda>re. \<not> rx_test re ''ok'') injection_patterns"
    by code_simp
  then have f: "snd (screen_text (JStr ''ok'') 4000) = []"
    using screen_text_flags [of "JStr ''ok''" 4000] by simp
  with screen_text_flags [of "JStr ''ok''" 4000] show ?thesis by (simp add: prod_eq_iff)
qed

text \<open>Only the leftmost match of a pattern is redacted; a second one stays in the text.\<close>

lemma screen_text_second_stays:
  "screen_with [injection_patterns ! 3] (''system:a system:b'', []) =
     (''[redacted: instruction-shaped content]a system:b'', [''instruction-shaped''])"
  by code_simp

lemma not_interpolated_iff:
  "assert_not_interpolated value field = Inr True \<longleftrightarrow>
     (let s = (if nullish value then [] else js_string value) in (\<forall>c \<in> set s. \<not> shell_metachar c) \<and> \<not> sublist ''..'' s)"
  by (auto simp: assert_not_interpolated_def Let_def list_ex_iff js_includes_iff_sublist)

end
