(* ===== verification/Manifest.thy ===== *)
theory Manifest
  imports Taxonomy
begin

text \<open>
  The skill manifest of src/schema/manifest.js: its data, the field checks and the rules on the
  levels of the organization.  A manifest here is the typed object behind the schema's defaults, so
  the strictness on unknown fields and the type of each field are the record itself; what remains
  of the schema are the checks below.  \<open>Inl\<close> lists the issues of a rejected manifest.
\<close>

record egress =
  eg_host :: string
  eg_port :: int
  eg_path :: string

record capability =
  cp_tool :: string
  cp_verb :: verb
  cp_resource :: "string option"
  cp_impact :: "impact list"
  cp_egress :: "egress option"

record manifest =
  mf_skill :: string
  mf_agent :: string
  mf_description :: "string option"
  mf_level :: int
  mf_inference :: bool
  mf_capabilities :: "capability list"
  mf_read :: "string list"
  mf_write :: "string list"
  mf_binaries :: "string list"

section \<open>Field checks\<close>

definition lower_alnum :: "char \<Rightarrow> bool" where
  "lower_alnum c = (let n = (of_char c :: nat) in (48 \<le> n \<and> n \<le> 57) \<or> (97 \<le> n \<and> n \<le> 122))"

definition absolute_path :: "string \<Rightarrow> bool" where
  "absolute_path p = (p \<noteq> [] \<and> starts_with p ''/'' \<and> \<not> js_includes p ''..'')"

text \<open>\<open>/^[a-z0-9.*-]+$/i\<close> and \<open>/^[a-z0-9-]+$/\<close>.\<close>

definition hostname_ish :: "string \<Rightarrow> bool" where
  "hostname_ish h = (h \<noteq> [] \<and> list_all (\<lambda>c. lower_alnum (js_lower_char c) \<or> c \<in> {CHR ''.'', CHR ''*'', CHR ''-''}) h)"

definition kebab :: "string \<Rightarrow> bool" where
  "kebab s = (s \<noteq> [] \<and> list_all (\<lambda>c. lower_alnum c \<or> c = CHR ''-'') s)"

definition egress_ok :: "egress \<Rightarrow> bool" where
  "egress_ok e = (hostname_ish (eg_host e) \<and> 1 \<le> eg_port e \<and> eg_port e \<le> 65535 \<and> starts_with (eg_path e) ''/'')"

definition capability_ok :: "capability \<Rightarrow> bool" where
  "capability_ok c =
     (cp_tool c \<noteq> [] \<and> known_verb (cp_verb c) \<and>
      (case cp_resource c of None \<Rightarrow> True | Some r \<Rightarrow> r \<noteq> []) \<and>
      (case cp_egress c of None \<Rightarrow> True | Some e \<Rightarrow> egress_ok e))"

definition fields_ok :: "manifest \<Rightarrow> bool" where
  "fields_ok m =
     (kebab (mf_skill m) \<and> kebab (mf_agent m) \<and> 0 \<le> mf_level m \<and> mf_level m \<le> 3 \<and>
      list_all capability_ok (mf_capabilities m) \<and>
      list_all absolute_path (mf_read m) \<and> list_all absolute_path (mf_write m) \<and> list_all absolute_path (mf_binaries m))"

section \<open>The level rules\<close>

definition level_issues :: "manifest \<Rightarrow> string list" where
  "level_issues m =
     (if mf_inference m \<and> mf_level m \<ge> 2
      then [''level '' @ show_int (mf_level m) @ '' may not hold an inference grant: an L2 that can call a model can be talked into calling it, which is the failure the level exists to remove''] else [])
   @ (if mf_level m \<le> 1 \<and> mf_capabilities m \<noteq> []
      then [''level '' @ show_int (mf_level m) @ '' declares '' @ show_nat (length (mf_capabilities m)) @ '' capability(ies): L0 and L1 direct work, they do not execute tools''] else [])
   @ (if mf_level m \<ge> 2 \<and> mf_capabilities m = []
      then [''level '' @ show_int (mf_level m) @ '' declares no capabilities: a worker or tool specialist with no tools does nothing''] else [])
   @ (if mf_level m = 3 then
        map (\<lambda>c. ''level 3 capability \"'' @ cp_tool c @ ''\" has no egress: an L3 is pure tool connectivity, local work belongs to an L2'')
          (filter (\<lambda>c. cp_egress c = None) (mf_capabilities m))
        @ (if mf_write m \<noteq> [] then [''level 3 declares filesystem writes: an L3 is pure tool connectivity, nothing beyond it''] else [])
      else [])"

definition parse_manifest :: "manifest \<Rightarrow> string list + manifest" where
  "parse_manifest m =
     (if \<not> fields_ok m then Inl [''schema'']
      else if level_issues m \<noteq> [] then Inl (level_issues m) else Inr m)"

lemma parse_manifest_Inr: "parse_manifest m = Inr m' \<longleftrightarrow> m' = m \<and> fields_ok m \<and> level_issues m = []"
  by (auto simp: parse_manifest_def)

text \<open>What an agent of a level is handed (src/skills/load.js).\<close>

record grants =
  gr_level :: int
  gr_inference :: bool
  gr_retrieval :: bool
  gr_tools :: string
  gr_task_context :: bool

definition grants_for :: "int \<Rightarrow> grants" where
  "grants_for level =
     \<lparr>gr_level = level, gr_inference = (level \<le> 1), gr_retrieval = (level = 1),
      gr_tools = (if level \<le> 1 then ''none'' else if level = 2 then ''consent-none'' else ''all-declared''),
      gr_task_context = (level \<le> 2)\<rparr>"

text \<open>C14. The separation of the levels: an accepted manifest never combines inference with tools.  An
  agent that declares a capability gets no inference client and holds no inference grant; an agent
  without capabilities gets no tools; and a level 3 agent only reaches out, writes no file and is
  given no task context.\<close>

theorem level_separation:
  assumes "parse_manifest m = Inr m'"
  shows "(mf_capabilities m' \<noteq> [] \<longleftrightarrow> mf_level m' \<ge> 2) \<and>
     (mf_capabilities m' \<noteq> [] \<longrightarrow> \<not> mf_inference m' \<and> \<not> gr_inference (grants_for (mf_level m'))) \<and>
     (mf_capabilities m' = [] \<longrightarrow> gr_tools (grants_for (mf_level m')) = ''none'') \<and>
     (mf_level m' = 3 \<longrightarrow> (\<forall>c \<in> set (mf_capabilities m'). cp_egress c \<noteq> None) \<and> mf_write m' = [] \<and>
        \<not> gr_task_context (grants_for (mf_level m')))"
proof -
  have m: "m' = m" "level_issues m = []" using assms by (auto simp: parse_manifest_Inr)
  then show ?thesis
    by (auto simp: level_issues_def grants_for_def filter_empty_conv split: if_splits)
qed

definition sample_manifest :: manifest where
  "sample_manifest =
     \<lparr>mf_skill = ''emergency-dispatch'', mf_agent = ''dispatch'', mf_description = None, mf_level = 3, mf_inference = False,
      mf_capabilities =
        [\<lparr>cp_tool = ''dispatch.ems'', cp_verb = Create, cp_resource = Some ''unit'', cp_impact = [Financial, Legal],
          cp_egress = Some \<lparr>eg_host = ''city-1'', eg_port = 443, eg_path = ''/ems/**''\<rparr>\<rparr>,
         \<lparr>cp_tool = ''dispatch.read'', cp_verb = Read, cp_resource = None, cp_impact = [],
          cp_egress = Some \<lparr>eg_host = ''city-1'', eg_port = 443, eg_path = ''/**''\<rparr>\<rparr>],
      mf_read = [], mf_write = [], mf_binaries = [''/usr/local/bin/node'']\<rparr>"

lemma sample_manifest_ok: "parse_manifest sample_manifest = Inr sample_manifest"
  unfolding parse_manifest_Inr
  by (simp add: sample_manifest_def fields_ok_def capability_ok_def egress_ok_def kebab_def hostname_ish_def
      absolute_path_def lower_alnum_def js_lower_char_def starts_with_def level_issues_def known_verb_def)

theorem level_separation_witness:
  "parse_manifest sample_manifest = Inr sample_manifest \<and> \<not> mf_inference sample_manifest \<and> mf_write sample_manifest = []"
  using level_separation [OF sample_manifest_ok] sample_manifest_ok by (simp add: sample_manifest_def)

end
