(* ===== verification/Envelope.thy ===== *)
theory Envelope
  imports Prohibited
begin

text \<open>
  The compiled envelope of src/policy/envelope.js: the glob matcher, the request check the way the
  L7 proxy evaluates it, the tagged deltas that a recorded decision adds and removes, and the
  in-process policy port built on them.
\<close>

section \<open>Policies\<close>

record rule =
  ru_method :: string
  ru_path :: string
  ru_delta :: "string option"

record endpoint =
  ep_host :: string
  ep_port :: int
  ep_protocol :: string
  ep_enforcement :: string
  ep_rules :: "rule list"

record group =
  gp_name :: string
  gp_endpoints :: "endpoint list"
  gp_binaries :: "string list"

type_synonym policies = "(string, group) jsmap"

section \<open>The glob matcher\<close>

text \<open>
  \<open>pathMatches\<close> builds a regular expression from the pattern: \<open>**\<close> becomes \<open>.*\<close>, \<open>*\<close> becomes
  \<open>[^/]*\<close>, the special characters are escaped except \<open>?\<close>, which therefore keeps its meaning of a
  quantifier (behind a character: optional; behind a star: lazy), and a NUL character, the
  placeholder, reads as \<open>**\<close>.  A pattern that is no expression throws: \<open>None\<close>.
\<close>

datatype glob_token = G_any | G_seg | G_quest | G_lit char

fun glob_tokens :: "string \<Rightarrow> glob_token list" where
  "glob_tokens [] = []"
| "glob_tokens [c] =
     [if c = CHR ''*'' then G_seg else if c = CHR 0x00 then G_any else if c = CHR ''?'' then G_quest else G_lit c]"
| "glob_tokens (c # d # s) =
     (if c = CHR ''*'' \<and> d = CHR ''*'' then G_any # glob_tokens s
      else (if c = CHR ''*'' then G_seg else if c = CHR 0x00 then G_any else if c = CHR ''?'' then G_quest else G_lit c)
             # glob_tokens (d # s))"

fun count_quests :: "glob_token list \<Rightarrow> nat" where
  "count_quests (G_quest # ts) = Suc (count_quests ts)"
| "count_quests ts = 0"

fun glob_rx :: "glob_token list \<Rightarrow> rx option" where
  "glob_rx [] = Some Eps"
| "glob_rx (G_quest # ts) = None"
| "glob_rx (G_any # ts) =
     (if count_quests ts = 0 then map_option (Seq (rx_star (Sat dot_char))) (glob_rx ts)
      else if count_quests ts = 1 then map_option (Seq (Rep False 0 None (Sat dot_char))) (glob_rx (tl ts))
      else None)"
| "glob_rx (G_seg # ts) =
     (if count_quests ts = 0 then map_option (Seq (rx_star (Sat (\<lambda>c. c \<noteq> CHR ''/'')))) (glob_rx ts)
      else if count_quests ts = 1 then map_option (Seq (Rep False 0 None (Sat (\<lambda>c. c \<noteq> CHR ''/'')))) (glob_rx (tl ts))
      else None)"
| "glob_rx (G_lit c # ts) =
     (if count_quests ts = 0 then map_option (Seq (Sat (\<lambda>d. d = c))) (glob_rx ts)
      else if count_quests ts = 1 then map_option (Seq (rx_opt (Sat (\<lambda>d. d = c)))) (glob_rx (tl ts))
      else if count_quests ts = 2 then map_option (Seq (Rep False 0 (Some 1) (Sat (\<lambda>d. d = c)))) (glob_rx (tl (tl ts)))
      else None)"

definition path_matches :: "string \<Rightarrow> string \<Rightarrow> bool option" where
  "path_matches pattern path =
     map_option (\<lambda>r. rx_test (Seq Bol (Seq r Eol)) path) (glob_rx (glob_tokens pattern))"

section \<open>The envelope\<close>

record envelope =
  en_policies :: policies
  en_deltas :: "(string, string \<times> string \<times> string) jsmap"

definition create_envelope :: "policies \<Rightarrow> envelope" where
  "create_envelope pols = \<lparr>en_policies = pols, en_deltas = []\<rparr>"

definition endpoints_for :: "policies \<Rightarrow> string \<Rightarrow> endpoint list" where
  "endpoints_for pols host = filter (\<lambda>ep. ep_host ep = host) (concat (map (gp_endpoints \<circ> snd) pols))"

record verdict =
  vd_allowed :: bool
  vd_status :: nat
  vd_reason :: string

abbreviation allow :: "string \<Rightarrow> verdict" where
  "allow why \<equiv> \<lparr>vd_allowed = True, vd_status = 200, vd_reason = why\<rparr>"

abbreviation deny :: "string \<Rightarrow> verdict" where
  "deny why \<equiv> \<lparr>vd_allowed = False, vd_status = 403, vd_reason = why\<rparr>"

text \<open>The first rule of an endpoint that allows the request; a rule whose path is no glob throws.\<close>

fun check_rules :: "string \<Rightarrow> string \<Rightarrow> rule list \<Rightarrow> string + verdict option" where
  "check_rules method path [] = Inr None"
| "check_rules method path (r # rs) =
     (if ru_method r = method then
        (case path_matches (ru_path r) path of
           None \<Rightarrow> Inl ''Invalid regular expression: nothing to repeat''
         | Some True \<Rightarrow> Inr (Some (allow (''allowed by '' @ ru_method r @ '' '' @ ru_path r)))
         | Some False \<Rightarrow> check_rules method path rs)
      else check_rules method path rs)"

fun check_endpoints :: "string \<Rightarrow> string \<Rightarrow> endpoint list \<Rightarrow> string + verdict option" where
  "check_endpoints method path [] = Inr None"
| "check_endpoints method path (ep # eps) =
     (if ep_protocol ep \<noteq> ''rest'' then Inr (Some (allow ''L4 tunnel, unfiltered''))
      else (case check_rules method path (ep_rules ep) of
              Inr None \<Rightarrow> check_endpoints method path eps
            | res \<Rightarrow> res))"

definition check_policies :: "policies \<Rightarrow> request \<Rightarrow> string + verdict" where
  "check_policies pols rq =
     (let eps = endpoints_for pols (rq_host rq) in
      if eps = [] then Inr (deny (''no policy entry for host '' @ rq_host rq))
      else (case check_endpoints (rq_method rq) (rq_path rq) eps of
              Inl msg \<Rightarrow> Inl msg
            | Inr (Some v) \<Rightarrow> Inr v
            | Inr None \<Rightarrow>
                Inr (deny (''method '' @ rq_method rq @ '' is not granted on '' @ rq_host rq @ rq_path rq
                           @ ''; the capability is absent''))))"

definition envelope_check :: "envelope \<Rightarrow> request \<Rightarrow> string + verdict" where
  "envelope_check e rq = check_policies (en_policies e) rq"

text \<open>\<open>eps[0].rules.push(...)\<close>: the first endpoint of the host, over all groups.\<close>

fun push_endpoint :: "string \<Rightarrow> rule \<Rightarrow> endpoint list \<Rightarrow> endpoint list" where
  "push_endpoint host r [] = []"
| "push_endpoint host r (ep # eps) =
     (if ep_host ep = host then ep\<lparr>ep_rules := ep_rules ep @ [r]\<rparr> # eps else ep # push_endpoint host r eps)"

fun push_rule :: "string \<Rightarrow> rule \<Rightarrow> policies \<Rightarrow> policies" where
  "push_rule host r [] = []"
| "push_rule host r ((k, g) # gs) =
     (if \<exists>ep \<in> set (gp_endpoints g). ep_host ep = host
      then (k, g\<lparr>gp_endpoints := push_endpoint host r (gp_endpoints g)\<rparr>) # gs
      else (k, g) # push_rule host r gs)"

definition map_rules :: "(rule list \<Rightarrow> rule list) \<Rightarrow> policies \<Rightarrow> policies" where
  "map_rules f pols =
     map (\<lambda>(k, g). (k, g\<lparr>gp_endpoints := map (\<lambda>ep. ep\<lparr>ep_rules := f (ep_rules ep)\<rparr>) (gp_endpoints g)\<rparr>)) pols"

definition drop_delta :: "string \<Rightarrow> policies \<Rightarrow> policies" where
  "drop_delta i = map_rules (filter (\<lambda>r. ru_delta r \<noteq> Some i))"

definition envelope_apply :: "string \<Rightarrow> request \<Rightarrow> envelope \<Rightarrow> (string + string) \<times> envelope" where
  "envelope_apply i rq e =
     (if endpoints_for (en_policies e) (rq_host rq) = []
      then (Inl (''cannot widen an unknown host '' @ rq_host rq), e)
      else (Inr i,
            e\<lparr>en_policies := push_rule (rq_host rq) \<lparr>ru_method = rq_method rq, ru_path = rq_path rq, ru_delta = Some i\<rparr> (en_policies e),
              en_deltas := jset (en_deltas e) i (rq_host rq, rq_method rq, rq_path rq)\<rparr>))"

definition all_rules :: "policies \<Rightarrow> rule list" where
  "all_rules pols = concat (map ep_rules (concat (map (gp_endpoints \<circ> snd) pols)))"

definition envelope_revert :: "string \<Rightarrow> envelope \<Rightarrow> nat \<times> envelope" where
  "envelope_revert i e =
     (length (all_rules (en_policies e)) - length (all_rules (drop_delta i (en_policies e))),
      e\<lparr>en_policies := drop_delta i (en_policies e), en_deltas := jdel (en_deltas e) i\<rparr>)"

section \<open>The simulated policy port\<close>

record sim_policy =
  sm_env :: envelope
  sm_counter :: nat
  sm_applied :: "(json, string) jsmap"

definition create_sim :: "policies \<Rightarrow> sim_policy" where
  "create_sim pols = \<lparr>sm_env = create_envelope pols, sm_counter = 0, sm_applied = []\<rparr>"

definition delta_id :: "nat \<Rightarrow> string" where
  "delta_id n = ''delta-'' @ show_nat n"

text \<open>
  The counter moves before the request is read, and the id is recorded before the envelope may
  refuse, so a failed application leaves both behind.
\<close>

definition sim_apply :: "action \<Rightarrow> sim_policy \<Rightarrow> (string + unit) \<times> sim_policy" where
  "sim_apply a p =
     (let n = Suc (sm_counter p); i = delta_id n in
      case ac_request a of
        None \<Rightarrow> (Inl ''Cannot destructure property 'host' of 'action.request' as it is undefined.'', p\<lparr>sm_counter := n\<rparr>)
      | Some rq \<Rightarrow>
          (case envelope_apply i rq (sm_env p) of
             (res, e) \<Rightarrow>
               (case res of Inl m \<Rightarrow> Inl m | Inr _ \<Rightarrow> Inr (),
                \<lparr>sm_env = e, sm_counter = n, sm_applied = jset (sm_applied p) (js_coalesce (ac_id a) (JStr i)) i\<rparr>)))"

definition sim_revert :: "action \<Rightarrow> sim_policy \<Rightarrow> (string + unit) \<times> sim_policy" where
  "sim_revert a p =
     (let k = js_coalesce (ac_id a) (JStr []);
          i = (case map_of (sm_applied p) k of None \<Rightarrow> delta_id (sm_counter p) | Some i \<Rightarrow> i)
      in (Inr (), p\<lparr>sm_env := snd (envelope_revert i (sm_env p)), sm_applied := jdel (sm_applied p) k\<rparr>))"

end
