(* ===== verification/Compile.thy ===== *)
theory Compile
  imports Manifest Envelope
begin

text \<open>
  The policy compiler of src/policy/compile.js and the skill loading of src/skills/load.js: from an
  accepted manifest the OpenShell fragment, the consent plan and the capability registry; from all
  skills the capability index and the merged policy.

  \<open>localeCompare\<close> is the collation of the host, so the order it gives the rules is the parameter
  \<open>collate\<close>; what the theorems need of it is that it permutes the list.
\<close>

section \<open>Fragments\<close>

record fragment =
  fr_name :: string
  fr_description :: string
  fr_policies :: policies
  fr_read :: "string list"
  fr_write :: "string list"

definition endpoint_key :: "egress \<Rightarrow> string" where
  "endpoint_key e = eg_host e @ '':'' @ show_int (eg_port e)"

type_synonym endpoint_group = "string \<times> int \<times> capability list"

fun group_by_endpoint :: "(string, endpoint_group) jsmap \<Rightarrow> capability list \<Rightarrow> (string, endpoint_group) jsmap" where
  "group_by_endpoint m [] = m"
| "group_by_endpoint m (c # cs) =
     (case cp_egress c of
        None \<Rightarrow> group_by_endpoint m cs
      | Some e \<Rightarrow>
          (let k = endpoint_key e;
               g = (case map_of m k of None \<Rightarrow> (eg_host e, eg_port e, []) | Some g \<Rightarrow> g)
           in group_by_endpoint (jset m k (fst g, fst (snd g), snd (snd g) @ [c])) cs))"

text \<open>The rules of one endpoint: every method of every capability once, first occurrence first.\<close>

definition cap_methods :: "capability \<Rightarrow> string list" where
  "cap_methods c = methods_for (cp_verb c) (impacts_json (cp_impact c))"

fun add_rules :: "string list \<Rightarrow> (string \<times> string) list \<Rightarrow> rule list" where
  "add_rules seen [] = []"
| "add_rules seen ((method, path) # rest) =
     (let sig = method @ '' '' @ path in
      if sig \<in> set seen then add_rules seen rest
      else \<lparr>ru_method = method, ru_path = path, ru_delta = None\<rparr> # add_rules (seen @ [sig]) rest)"

definition cap_grants :: "capability list \<Rightarrow> (string \<times> string) list" where
  "cap_grants caps =
     concat (map (\<lambda>c. case cp_egress c of None \<Rightarrow> [] | Some e \<Rightarrow> map (\<lambda>m. (m, eg_path e)) (cap_methods c)) caps)"

text \<open>\<open>host.replace(/[^a-z0-9]+/gi, "_").toLowerCase()\<close>.\<close>

fun squash :: "bool \<Rightarrow> string \<Rightarrow> string" where
  "squash b [] = []"
| "squash b (c # s) =
     (if lower_alnum (js_lower_char c) then c # squash False s
      else (if b then [] else [CHR ''_'']) @ squash True s)"

definition policy_key :: "string \<Rightarrow> string" where
  "policy_key host = js_lower (squash False host)"

definition compile_group :: "(rule list \<Rightarrow> rule list) \<Rightarrow> string list \<Rightarrow> endpoint_group \<Rightarrow> group" where
  "compile_group collate binaries g =
     (case g of (host, port, caps) \<Rightarrow>
       \<lparr>gp_name = policy_key host,
        gp_endpoints = [\<lparr>ep_host = host, ep_port = port, ep_protocol = ''rest'', ep_enforcement = ''enforce'',
                         ep_rules = collate (add_rules [] (cap_grants caps))\<rparr>],
        gp_binaries = binaries\<rparr>)"

definition compile_policies :: "(rule list \<Rightarrow> rule list) \<Rightarrow> manifest \<Rightarrow> policies" where
  "compile_policies collate m =
     foldl (\<lambda>pols kg. jset pols (policy_key (fst (snd kg))) (compile_group collate (mf_binaries m) (snd kg)))
       [] (group_by_endpoint [] (mf_capabilities m))"

definition compile_fragment :: "(rule list \<Rightarrow> rule list) \<Rightarrow> manifest \<Rightarrow> string list + fragment" where
  "compile_fragment collate manifest =
     (case parse_manifest manifest of
        Inl issues \<Rightarrow> Inl issues
      | Inr m \<Rightarrow>
          Inr \<lparr>fr_name = ''omoda-'' @ mf_skill m,
               fr_description = (case mf_description m of None \<Rightarrow> ''OMODA compiled envelope for skill '' @ mf_skill m | Some d \<Rightarrow> d),
               fr_policies = compile_policies collate m,
               fr_read = sort (mf_read m), fr_write = sort (mf_write m)\<rparr>)"

section \<open>Consent plan and registry\<close>

record consent_row =
  cr_tool :: string
  cr_verb :: verb
  cr_impact :: "impact list"
  cr_stage :: "string option"
  cr_inverse :: bool

definition cap_gated :: "capability \<Rightarrow> bool" where
  "cap_gated c = requires_consent (cp_verb c) (impacts_json (cp_impact c))"

definition compile_consent :: "manifest \<Rightarrow> consent_row list" where
  "compile_consent m =
     map (\<lambda>c. \<lparr>cr_tool = cp_tool c, cr_verb = cp_verb c, cr_impact = cp_impact c,
               cr_stage = consent_kind (cp_verb c) (impacts_json (cp_impact c)), cr_inverse = requires_inverse (cp_verb c)\<rparr>)
       (filter cap_gated (mf_capabilities m))"

record registry_row =
  rg_agent :: string
  rg_skill :: string
  rg_tool :: string
  rg_verb :: verb
  rg_impact :: "impact list"
  rg_grant :: string
  rg_consent :: string
  rg_inverse :: bool
  rg_egress :: "egress option"

definition grant_text :: "capability \<Rightarrow> string" where
  "grant_text c =
     (case cp_egress c of
        Some e \<Rightarrow> js_join '','' (cap_methods c) @ '' '' @ eg_host e @ eg_path e
                  @ (if cap_gated c then '' (read-only until consented)'' else [])
      | None \<Rightarrow> if is_write (cp_verb c) then ''local filesystem only'' else ''local read only'')"

definition registry_of :: "manifest \<Rightarrow> capability \<Rightarrow> registry_row" where
  "registry_of m c =
     \<lparr>rg_agent = mf_agent m, rg_skill = mf_skill m, rg_tool = cp_tool c, rg_verb = cp_verb c, rg_impact = cp_impact c,
      rg_grant = grant_text c,
      rg_consent = (case consent_kind (cp_verb c) (impacts_json (cp_impact c)) of
                      Some k \<Rightarrow> if cap_gated c then k else ''none'' | None \<Rightarrow> ''none''),
      rg_inverse = requires_inverse (cp_verb c), rg_egress = cp_egress c\<rparr>"

definition compile_registry :: "manifest \<Rightarrow> registry_row list" where
  "compile_registry m = map (registry_of m) (mf_capabilities m)"

section \<open>Skills\<close>

record skill =
  sk_path :: string
  sk_manifest :: manifest
  sk_level :: int
  sk_grants :: grants
  sk_instructions :: "string option"
  sk_fragment :: fragment
  sk_consent :: "consent_row list"
  sk_registry :: "registry_row list"

text \<open>
  \<open>parseSkillMarkdown\<close>: \<open>/^---\r?\n([\s\S]*?)\r?\n---\r?\n?([\s\S]*)$/\<close>, the front matter up to the
  first line that starts with three dashes, and the rest.
\<close>

definition opt_char :: "char \<Rightarrow> string \<Rightarrow> string" where
  "opt_char c s = (if starts_with s [c] then tl s else s)"

fun front_body :: "string \<Rightarrow> (string \<times> string) option" where
  "front_body [] = None"
| "front_body (c # s) =
     (if starts_with (c # s) [CHR 0x0D, CHR 0x0A, CHR ''-'', CHR ''-'', CHR ''-''] then Some ([], drop 5 (c # s))
      else if starts_with (c # s) [CHR 0x0A, CHR ''-'', CHR ''-'', CHR ''-''] then Some ([], drop 4 (c # s))
      else map_option (\<lambda>(f, r). (c # f, r)) (front_body s))"

definition parse_skill_markdown :: "string \<Rightarrow> (string \<times> string option) option" where
  "parse_skill_markdown text =
     (if \<not> starts_with text ''---'' then None
      else
        (let r = opt_char (CHR 0x0D) (drop 3 text) in
         if \<not> starts_with r [CHR 0x0A] then None
         else (case front_body (tl r) of
                 None \<Rightarrow> None
               | Some (front, rest) \<Rightarrow>
                   (let body = js_trim (opt_char (CHR 0x0A) (opt_char (CHR 0x0D) rest)) in
                    Some (front, if body = [] then None else Some body)))))"

text \<open>
  \<open>loadSkills\<close> over the files found: \<open>yaml\<close> is the YAML parser (external code, which throws with a
  message) and \<open>zod\<close> the rendering of a schema error as its message.  A file that does not compile is reported and never enabled.
\<close>

definition load_skill ::
  "(rule list \<Rightarrow> rule list) \<Rightarrow> (string list \<Rightarrow> string) \<Rightarrow> (string \<Rightarrow> string + manifest) \<Rightarrow> string \<times> string \<Rightarrow> (string \<times> string) + skill" where
  "load_skill collate zod yaml file =
     (case file of (path, raw) \<Rightarrow>
        (case (if ends_with path ''.md''
               then (case parse_skill_markdown raw of
                       None \<Rightarrow> Inl ''omoda.skill.md must start with a YAML front matter block''
                     | Some (front, body) \<Rightarrow> map_sum id (\<lambda>m. (m, body)) (yaml front))
               else map_sum id (\<lambda>m. (m, None)) (yaml raw)) of
           Inl msg \<Rightarrow> Inl (path, msg)
         | Inr (m, body) \<Rightarrow>
             (case compile_fragment collate m of
                Inl issues \<Rightarrow> Inl (path, zod issues)
              | Inr fr \<Rightarrow>
                  Inr \<lparr>sk_path = path, sk_manifest = m, sk_level = mf_level m, sk_grants = grants_for (mf_level m),
                       sk_instructions = body, sk_fragment = fr, sk_consent = compile_consent m,
                       sk_registry = compile_registry m\<rparr>)))"

fun load_skills ::
  "(rule list \<Rightarrow> rule list) \<Rightarrow> (string list \<Rightarrow> string) \<Rightarrow> (string \<Rightarrow> string + manifest) \<Rightarrow> (string \<times> string) list \<Rightarrow> skill list \<times> (string \<times> string) list" where
  "load_skills collate zod yaml [] = ([], [])"
| "load_skills collate zod yaml (f # fs) =
     (case (load_skill collate zod yaml f, load_skills collate zod yaml fs) of
        (Inl e, (skills, errors)) \<Rightarrow> (skills, e # errors)
      | (Inr s, (skills, errors)) \<Rightarrow> (s # skills, errors))"

text \<open>The capability index: the last skill that declares a tool holds it.\<close>

definition capability_index :: "skill list \<Rightarrow> (string, registry_row \<times> string) jsmap" where
  "capability_index skills =
     foldl (\<lambda>m sr. jset m (rg_tool (snd sr)) (snd sr, mf_skill (sk_manifest (fst sr)))) []
       (concat (map (\<lambda>s. map (\<lambda>r. (s, r)) (sk_registry s)) skills))"

definition lookup_tool :: "(string, registry_row \<times> string) jsmap \<Rightarrow> string \<Rightarrow> (registry_row \<times> string) option" where
  "lookup_tool index tool = map_of index tool"

text \<open>
  \<open>mergeFragments\<close>: a group whose key is taken adds its rules to the first endpoint that is there,
  unless one with the same method and path exists.
\<close>

fun union_rules :: "rule list \<Rightarrow> rule list \<Rightarrow> rule list" where
  "union_rules target [] = target"
| "union_rules target (r # rs) =
     union_rules (if list_ex (\<lambda>t. ru_method t = ru_method r \<and> ru_path t = ru_path r) target then target else target @ [r]) rs"

definition merge_group :: "policies \<Rightarrow> string \<times> group \<Rightarrow> policies" where
  "merge_group pols kg =
     (case map_of pols (fst kg) of
        None \<Rightarrow> jset pols (fst kg) (snd kg)
      | Some g \<Rightarrow>
          (case gp_endpoints g of
             [] \<Rightarrow> pols
           | t # ts \<Rightarrow>
               jset pols (fst kg)
                 (g\<lparr>gp_endpoints := t\<lparr>ep_rules := union_rules (ep_rules t) (concat (map ep_rules (gp_endpoints (snd kg))))\<rparr> # ts\<rparr>)))"

definition merge_policies :: "fragment list \<Rightarrow> policies" where
  "merge_policies frs = foldl merge_group [] (concat (map fr_policies frs))"

definition merge_fragments :: "skill list \<Rightarrow> fragment" where
  "merge_fragments skills =
     (let frs = map sk_fragment skills in
      \<lparr>fr_name = ''omoda-merged'', fr_description = ''All enabled OMODA skills'',
       fr_policies = merge_policies frs,
       fr_read = sort (remdups (concat (map fr_read frs))),
       fr_write = sort (remdups (concat (map fr_write frs)))\<rparr>)"

end
