(* ===== verification/Router.thy ===== *)
theory Router
  imports Json Js_Regex
begin

text \<open>
  Model routing (src/models/router.js): which model serves a task, on the box or hosted, or a
  refusal.  \<open>local\<close> is the local endpoint, which the environment may override.
\<close>

definition planner_model :: string where
  "planner_model = ''nvidia/nemotron-3.5-lightning-30b-a3b''"

definition omni_model :: string where
  "omni_model = ''nvidia/Nemotron-3-Nano-Omni-30B-A3B-Reasoning-NVFP4''"

definition hosted_endpoint :: string where
  "hosted_endpoint = ''https://integrate.api.nvidia.com/v1/chat/completions''"

definition local_endpoint :: "string option \<Rightarrow> string" where
  "local_endpoint env = (case env of None \<Rightarrow> ''http://host.openshell.internal:8000/v1/chat/completions'' | Some e \<Rightarrow> e)"

datatype task = Plan_task | Classify_task | Perceive_task

definition in_ranges :: "(nat \<times> nat) list \<Rightarrow> string \<Rightarrow> char \<Rightarrow> bool" where
  "in_ranges rs cs c = (list_ex (\<lambda>(a, b). a \<le> of_char c \<and> of_char c \<le> b) rs \<or> c \<in> set cs)"

abbreviation "upper_range \<equiv> (65::nat, 90::nat)"
abbreviation "lower_range \<equiv> (97::nat, 122::nat)"
abbreviation "digit_range \<equiv> (48::nat, 57::nat)"

definition rx_times :: "nat \<Rightarrow> rx \<Rightarrow> rx" where
  "rx_times n r = Rep True n (Some n) r"

definition rx_least :: "nat \<Rightarrow> rx \<Rightarrow> rx" where
  "rx_least n r = Rep True n None r"

definition sensitive_patterns :: "rx list" where
  "sensitive_patterns =
     [rx_seqs [rx_lit ''-----BEGIN '', rx_star (Sat (in_ranges [upper_range] '' '')), rx_lit ''PRIVATE KEY-----''],
      rx_seqs [Wb, rx_alts (map rx_lit [''sk'', ''omoda'', ''ghp'', ''gho'']), rx_lit ''_'',
        rx_least 16 (Sat (in_ranges [upper_range, lower_range, digit_range] ''_-''))],
      rx_seqs [Wb, rx_lit_i ''bearer'', rx_plus rx_ws,
        rx_least 20 (Sat (in_ranges [upper_range, lower_range, digit_range] ''._-''))],
      rx_seqs [Wb, rx_times 20 (Sat (in_ranges [upper_range, digit_range] [])), rx_lit '':'',
        rx_times 40 (Sat (in_ranges [upper_range, lower_range, digit_range] ''/+='')), Wb],
      rx_seqs [rx_lit ''/home/'', rx_alts (map rx_lit [''arif'', ''acer01'']), rx_lit ''/''],
      rx_seqs [Wb, rx_times 3 (Sat (in_ranges [digit_range] [])), rx_lit ''-'', rx_times 2 (Sat (in_ranges [digit_range] [])),
        rx_lit ''-'', rx_times 4 (Sat (in_ranges [digit_range] [])), Wb]]"

definition payload_blob :: "json \<Rightarrow> string" where
  "payload_blob p = (case p of JStr s \<Rightarrow> s | _ \<Rightarrow> json_str (js_coalesce p (JStr [])))"

definition is_sensitive :: "json \<Rightarrow> bool \<Rightarrow> bool" where
  "is_sensitive payload declared =
     (if declared then True else list_ex (\<lambda>re. rx_test re (payload_blob payload)) sensitive_patterns)"

datatype egress_kind = Egress_local | Egress_hosted | Egress_none

record routing =
  rt_model :: "string option"
  rt_endpoint :: "string option"
  rt_egress :: egress_kind
  rt_degraded :: bool
  rt_reason :: string

record route_request =
  rq_task :: task
  rq_payload :: json
  rq_multimodal :: bool
  rq_hosted :: bool
  rq_local :: bool
  rq_declared :: bool

definition local_route :: "string option \<Rightarrow> bool \<Rightarrow> string \<Rightarrow> routing" where
  "local_route env degraded why =
     \<lparr>rt_model = Some omni_model, rt_endpoint = Some (local_endpoint env), rt_egress = Egress_local,
      rt_degraded = degraded, rt_reason = why\<rparr>"

definition route :: "string option \<Rightarrow> route_request \<Rightarrow> string + routing" where
  "route env q =
     (let sensitive = is_sensitive (rq_payload q) (rq_declared q) in
      if rq_multimodal q \<or> rq_task q = Perceive_task
      then (if \<not> rq_local q then Inl ''perception requires the local model; refusing to send media off-box''
            else Inr (local_route env False ''multimodal or perception''))
      else if sensitive
      then (if \<not> rq_local q
            then Inl ''sensitive payload and the local model is unavailable; refusing to route it off-box''
            else Inr (local_route env False ''sensitive payload, local only''))
      else if rq_task q = Classify_task
      then (if \<not> rq_local q
            then Inr \<lparr>rt_model = None, rt_endpoint = None, rt_egress = Egress_none, rt_degraded = True,
                      rt_reason = ''local model unavailable; Broker uses static rules only and escalates when inconclusive''\<rparr>
            else Inr (local_route env False ''classifier stays on the gate's hot path''))
      else if \<not> rq_hosted q
      then (if \<not> rq_local q then Inl ''neither the hosted planner nor the local model is available''
            else Inr (local_route env True ''hosted unavailable, quality caveat recorded''))
      else Inr \<lparr>rt_model = Some planner_model, rt_endpoint = Some hosted_endpoint, rt_egress = Egress_hosted,
                rt_degraded = False, rt_reason = ''planning and tool selection''\<rparr>)"

definition assert_may_leave_box :: "json \<Rightarrow> bool \<Rightarrow> string + bool" where
  "assert_may_leave_box payload declared =
     (if is_sensitive payload declared then Inl ''refusing to send a sensitive payload to a hosted endpoint'' else Inr True)"

section \<open>What leaves the box\<close>

lemmas route_cases = route_def local_route_def Let_def

text \<open>A payload leaves the box only if it may: a hosted route is taken exactly for planning tasks
  without media whose payload is not sensitive, while the hosted planner is up, and then the guard
  for hosted endpoints passes too; a refusal means that a local model was needed and is down; and
  every other request is served by the local model or, for classification without it, by none.\<close>

theorem route_egress:
  "((\<exists>r. route env q = Inr r \<and> rt_egress r = Egress_hosted) \<longleftrightarrow>
      rq_task q = Plan_task \<and> \<not> rq_multimodal q \<and> assert_may_leave_box (rq_payload q) (rq_declared q) = Inr True \<and> rq_hosted q) \<and>
   ((\<exists>e. route env q = Inl e) \<longleftrightarrow>
      \<not> rq_local q \<and> (rq_multimodal q \<or> rq_task q = Perceive_task \<or> is_sensitive (rq_payload q) (rq_declared q) \<or>
        (rq_task q = Plan_task \<and> \<not> rq_hosted q))) \<and>
   (case route env q of Inl e \<Rightarrow> True
    | Inr r \<Rightarrow>
        (case rt_egress r of
           Egress_hosted \<Rightarrow> rt_endpoint r = Some hosted_endpoint \<and> rt_model r = Some planner_model
         | Egress_local \<Rightarrow> rq_local q \<and> rt_endpoint r = Some (local_endpoint env) \<and> rt_model r = Some omni_model
         | Egress_none \<Rightarrow> \<not> rq_local q \<and> rq_task q = Classify_task \<and> rt_endpoint r = None \<and> rt_model r = None))"
  by (intro conjI; cases "rq_task q"; auto simp: route_cases assert_may_leave_box_def split: if_splits)

text \<open>The guard recognises what it is for.\<close>

lemma sensitive_examples:
  "is_sensitive (JStr ''see /home/arif/notes'') False"
  "is_sensitive (JStr ''ssn 123-45-6789.'') False"
  "\<not> is_sensitive (JStr ''fire at main st'') False"
  by (code_simp, code_simp, code_simp)

end
