(* ===== verification/Inference.thy ===== *)
theory Inference
  imports Json_Roundtrip Js_Regex Router
begin

text \<open>
  The inference client of src/models/client.js: one completion as the outcome of one HTTP call, and
  the extraction of a JSON object from what a reasoning model writes around it.
\<close>

section \<open>One completion\<close>

datatype infer_error =
    Routing_refused string
  | Inference_error string "nat option" "string option"

text \<open>What the fetch of the endpoint does: a response with its parsed body (or an error status with
  its text), an abort by the timer, or an error of the transport.\<close>

datatype http_reply = Http_ok json | Http_status nat string | Http_aborted | Http_failed string

record completion =
  co_text :: json
  co_model :: json
  co_endpoint :: string
  co_latency :: int
  co_usage :: json
  co_finish :: json

record completion_request =
  cr_model :: "string option"
  cr_endpoint :: "string option"
  cr_messages :: json
  cr_max_tokens :: int
  cr_schema :: "(string \<times> json) option"

fun arr_first :: "json \<Rightarrow> json" where
  "arr_first (JArr (x # xs)) = x"
| "arr_first v = JUndef"

definition request_body :: "completion_request \<Rightarrow> json" where
  "request_body q =
     JObj ([(''model'', case cr_model q of None \<Rightarrow> JNull | Some s \<Rightarrow> JStr s), (''messages'', cr_messages q),
            (''max_tokens'', JNum (cr_max_tokens q)), (''temperature'', JNum 0)] @
           (case cr_schema q of
              None \<Rightarrow> []
            | Some (name, schema) \<Rightarrow>
                [(''response_format'', JObj [(''type'', JStr ''json_schema''),
                    (''json_schema'', JObj [(''name'', JStr name), (''schema'', schema)])])]))"

definition request_headers :: "string option \<Rightarrow> (string \<times> string) list" where
  "request_headers key =
     (''content-type'', ''application/json'') #
     (case key of None \<Rightarrow> [] | Some k \<Rightarrow> if k = [] then [] else [(''authorization'', ''Bearer '' @ k)])"

text \<open>\<open>fetch\<close> maps endpoint, headers and body to the reply; \<open>latency\<close> is the time it took.\<close>

definition complete ::
  "(string \<Rightarrow> (string \<times> string) list \<Rightarrow> string \<Rightarrow> http_reply) \<Rightarrow> int \<Rightarrow> int \<Rightarrow> string option \<Rightarrow> completion_request
     \<Rightarrow> infer_error + completion" where
  "complete fetch timeout latency key q =
     (case (cr_model q, cr_endpoint q) of
        (Some m, Some e) \<Rightarrow>
          if m = [] \<or> e = [] then Inl (Routing_refused ''refusing to infer without a routed model and endpoint'')
          else
            (case fetch e (request_headers key) (json_str (request_body q)) of
               Http_status st detail \<Rightarrow>
                 Inl (Inference_error (''inference failed: HTTP '' @ show_nat st @ '' '' @ take 200 detail) (Some st) (Some m))
             | Http_aborted \<Rightarrow> Inl (Inference_error (''inference timed out after '' @ show_int timeout @ ''ms'') None (Some m))
             | Http_failed msg \<Rightarrow> Inl (Inference_error (''inference unreachable: '' @ msg) None (Some m))
             | Http_ok body \<Rightarrow>
                 (let choice = arr_first (obj_get body ''choices'') in
                  Inr \<lparr>co_text = js_coalesce (obj_get (obj_get choice ''message'') ''content'') (JStr []),
                       co_model = js_coalesce (obj_get body ''model'') (JStr m),
                       co_endpoint = e, co_latency = latency,
                       co_usage = js_coalesce (obj_get body ''usage'') JNull,
                       co_finish = js_coalesce (obj_get choice ''finish_reason'') JNull\<rparr>))
      | _ \<Rightarrow> Inl (Routing_refused ''refusing to infer without a routed model and endpoint''))"

text \<open>A completion never goes anywhere but to the endpoint that was routed.\<close>

lemma complete_endpoint: "complete fetch t l key q = Inr c \<Longrightarrow> cr_endpoint q = Some (co_endpoint c) \<and> cr_model q \<noteq> None"
  by (auto simp: complete_def Let_def split: option.splits if_splits http_reply.splits)

section \<open>The JSON object in a reply\<close>

definition think_rx :: rx where
  "think_rx = rx_seqs [rx_lit_i ''<think>'', Rep False 0 None (Sat (\<lambda>c. True)), rx_lit_i ''</think>'']"

definition fence_rx :: rx where
  "fence_rx = Seq (rx_lit ''```'') (rx_opt (rx_lit_i ''json''))"

definition strip_reasoning :: "json \<Rightarrow> string" where
  "strip_reasoning text = js_trim (rx_replace_all think_rx (if nullish text then [] else js_string text) [])"

text \<open>The walk to the matching brace: the number of units before the one that closes the object.\<close>

fun brace_end :: "int \<Rightarrow> bool \<Rightarrow> bool \<Rightarrow> string \<Rightarrow> nat option" where
  "brace_end depth instr esc [] = None"
| "brace_end depth instr esc (c # s) =
     (if esc then map_option Suc (brace_end depth instr False s)
      else if c = CHR 0x5C then map_option Suc (brace_end depth instr True s)
      else if c = CHR 0x22 then map_option Suc (brace_end depth (\<not> instr) False s)
      else if instr then map_option Suc (brace_end depth instr False s)
      else if c = CHR ''{'' then map_option Suc (brace_end (depth + 1) instr False s)
      else if c = CHR ''}'' then (if depth = 1 then Some 0 else map_option Suc (brace_end (depth - 1) instr False s))
      else map_option Suc (brace_end depth instr False s))"

definition extract_json :: "json \<Rightarrow> json option" where
  "extract_json text =
     (let clean = rx_replace_all fence_rx (strip_reasoning text) [] in
      case index_of clean ''{'' of
        None \<Rightarrow> None
      | Some start \<Rightarrow>
          (case brace_end 0 False False (drop start clean) of
             None \<Rightarrow> None
           | Some n \<Rightarrow> json_parse (js_slice start (start + n + 1) clean)))"

section \<open>Rendered values are balanced\<close>

text \<open>A text is balanced if the walk passes over it at every positive depth.\<close>

definition balanced :: "string \<Rightarrow> bool" where
  "balanced w = (\<forall>d s. d \<ge> 1 \<longrightarrow> brace_end d False False (w @ s) = map_option (\<lambda>n. length w + n) (brace_end d False False s))"

lemma balanced_Nil [simp]: "balanced []"
  by (simp add: balanced_def option.map_ident)

lemma balanced_append: "balanced v \<Longrightarrow> balanced w \<Longrightarrow> balanced (v @ w)"
  by (simp add: balanced_def option.map_comp comp_def add.assoc)

definition plain_char :: "char \<Rightarrow> bool" where
  "plain_char c = (c \<notin> {CHR 0x5C, CHR 0x22, CHR ''{'', CHR ''}''})"

lemma balanced_plain: "list_all plain_char w \<Longrightarrow> balanced w"
  by (induction w) (auto simp: balanced_def plain_char_def option.map_comp comp_def option.map_ident)

lemma plain_digit: "is_digit c \<Longrightarrow> plain_char c"
  by (auto simp: is_digit_def plain_char_def)

lemma plain_show_nat: "list_all plain_char (show_nat n)"
  using show_nat_digits plain_digit by (auto simp: list_all_iff)

lemma plain_show_int: "list_all plain_char (show_int i)"
  using plain_show_nat by (simp add: show_int_def plain_char_def)

lemma hex_digit_plain: "hex_digit d \<noteq> CHR 0x5C \<and> hex_digit d \<noteq> CHR 0x22" if "d < 16"
proof -
  have "hex_val (hex_digit d) = Some d" by (rule hex_val_hex_digit [OF that])
  then show ?thesis by (auto simp: hex_val_def)
qed

text \<open>Inside a string literal the walk passes over every escaped unit.\<close>

lemma in_string_esc: "brace_end d True False (esc_char c @ s) = map_option (\<lambda>n. length (esc_char c) + n) (brace_end d True False s)"
proof (cases "(of_char c :: nat) \<in> {34, 92, 8, 12, 10, 13, 9}")
  case True
  from esc_char_short [OF True] obtain e where "esc_char c = [CHR 0x5C, e]" by blast
  then show ?thesis by (simp add: option.map_comp comp_def)
next
  case False
  show ?thesis
  proof (cases "(of_char c :: nat) < 32")
    case True
    then have "(of_char c :: nat) div 16 < 16" "(of_char c :: nat) mod 16 < 16" by auto
    with hex_digit_plain have "hex_digit (of_char c div 16) \<noteq> CHR 0x5C" "hex_digit (of_char c div 16) \<noteq> CHR 0x22"
      "hex_digit (of_char c mod 16) \<noteq> CHR 0x5C" "hex_digit (of_char c mod 16) \<noteq> CHR 0x22" by auto
    with False True show ?thesis by (simp add: esc_char_def Let_def option.map_comp comp_def)
  next
    case high: False
    have "c \<noteq> CHR 0x5C" "c \<noteq> CHR 0x22" using False by auto
    with False high show ?thesis by (simp add: esc_char_def Let_def)
  qed
qed

lemma in_string_body: "brace_end d True False (concat (map esc_char t) @ s) =
    map_option (\<lambda>n. length (concat (map esc_char t)) + n) (brace_end d True False s)"
  by (induction t) (simp_all add: in_string_esc option.map_comp comp_def add.assoc option.map_ident)

lemma balanced_quote: "balanced (json_quote t)"
  by (simp add: balanced_def json_quote_def in_string_body option.map_comp comp_def)

lemma balanced_join: "(\<And>w. w \<in> set ws \<Longrightarrow> balanced w) \<Longrightarrow> balanced (js_join '','' ws)"
proof (induction ws)
  case (Cons w ws)
  have "balanced '',''" by (rule balanced_plain) (simp add: plain_char_def)
  then have "balanced ('','' @ js_join '','' ws)" using Cons by (intro balanced_append) auto
  moreover have "balanced w" using Cons.prems by simp
  ultimately show ?case using balanced_append [of w "'','' @ js_join '','' ws"] by (cases ws) auto
qed simp

lemma brace_inner:
  "balanced w \<Longrightarrow> d \<ge> 0 \<Longrightarrow> brace_end d False False (CHR ''{'' # w @ CHR ''}'' # s) =
     (if d = 0 then Some (length w + 1) else map_option (\<lambda>n. length w + 2 + n) (brace_end d False False s))"
  by (auto simp: balanced_def option.map_comp comp_def)

lemma balanced_braces:
  assumes "balanced w"
  shows "balanced (CHR ''{'' # w @ ''}'')"
proof -
  have "brace_end d False False ((CHR ''{'' # w @ ''}'') @ s) =
      map_option (\<lambda>n. length (CHR ''{'' # w @ ''}'') + n) (brace_end d False False s)" if "d \<ge> 1" for d s
    using brace_inner [OF assms, of d s] that by (cases "brace_end d False False s") (simp_all del: brace_end.simps)
  then show ?thesis by (simp add: balanced_def del: brace_end.simps)
qed

lemma balanced_members:
  assumes "\<And>k v. (k, v) \<in> set kvs \<Longrightarrow> balanced (json_str v)"
  shows "balanced (js_join '','' (map (\<lambda>(k, v). json_quote k @ '':'' @ json_str v) (filter (\<lambda>(k, v). v \<noteq> JUndef) kvs)))"
proof (rule balanced_join)
  have c: "balanced '':''" by (rule balanced_plain) (simp add: plain_char_def)
  fix w assume "w \<in> set (map (\<lambda>(k, v). json_quote k @ '':'' @ json_str v) (filter (\<lambda>(k, v). v \<noteq> JUndef) kvs))"
  then obtain k v where kv: "(k, v) \<in> set kvs" "w = json_quote k @ '':'' @ json_str v" by auto
  then show "balanced w" by (simp only:) (intro balanced_append balanced_quote c assms)
qed

lemma balanced_json: "balanced (json_str v)"
proof (induction v)
  case (JBool b)
  then show ?case by (cases b) (auto intro!: balanced_plain simp: plain_char_def)
next
  case (JNum n)
  then show ?case by (simp add: balanced_plain plain_show_int)
next
  case (JStr s)
  then show ?case by (simp add: balanced_quote)
next
  case (JArr xs)
  then have "balanced (js_join '','' (map json_str xs))" by (intro balanced_join) auto
  moreover have "balanced ''[''" "balanced '']''" by (auto intro!: balanced_plain simp: plain_char_def)
  ultimately have "balanced (''['' @ js_join '','' (map json_str xs) @ '']'')" by (intro balanced_append)
  then show ?case by simp
next
  case (JObj kvs)
  have "balanced (js_join '','' (map (\<lambda>(k, v). json_quote k @ '':'' @ json_str v) (filter (\<lambda>(k, v). v \<noteq> JUndef) kvs)))"
    using JObj by (intro balanced_members) auto
  from balanced_braces [OF this] show ?case by simp
qed (auto intro!: balanced_plain simp: plain_char_def)

section \<open>What is extracted\<close>

definition clean_reply :: "json \<Rightarrow> string" where
  "clean_reply text = rx_replace_all fence_rx (strip_reasoning text) []"

lemma index_of_first: "c \<notin> set pre \<Longrightarrow> index_of (pre @ c # s) [c] = Some (length pre)"
  by (induction pre) (auto simp: starts_with_def)

lemma json_str_object: "\<exists>w. json_str (JObj kvs) = CHR ''{'' # w @ ''}'' \<and> balanced w"
  using balanced_members [OF balanced_json, of kvs] by auto

text \<open>The extraction reads back the object a model wrote, whatever prose surrounds it: if what
  is left of a reply without its thinking and its fences is text without a brace, the rendering of
  an object, and any further text, the result is that object, nested objects and braces inside its
  strings included.\<close>

theorem extract_json_roundtrip:
  assumes "clean_reply text = pre @ json_str (JObj kvs) @ post" and "CHR ''{'' \<notin> set pre" and "wf_json (JObj kvs)"
  shows "extract_json text = Some (JObj kvs)"
proof -
  obtain w where w: "json_str (JObj kvs) = CHR ''{'' # w @ ''}''" "balanced w" using json_str_object by blast
  then have c: "clean_reply text = pre @ CHR ''{'' # w @ CHR ''}'' # post" using assms(1) by simp
  have i: "index_of (clean_reply text) ''{'' = Some (length pre)" unfolding c by (rule index_of_first [OF assms(2)])
  have "brace_end 0 False False (drop (length pre) (clean_reply text)) = Some (length w + 1)"
    using brace_inner [OF w(2), of 0 post] by (simp add: c del: brace_end.simps)
  moreover have "js_slice (length pre) (length pre + (length w + 1) + 1) (clean_reply text) = json_str (JObj kvs)"
    by (simp add: js_slice_def c w(1) del: json_str.simps)
  ultimately show ?thesis
    using i json_parse_str [OF assms(3)] by (simp add: extract_json_def clean_reply_def Let_def del: brace_end.simps json_str.simps)
qed

definition demo_reply :: json where
  "demo_reply = JStr ''<think>{no}</think>Sure: {\"tool\":\"a}b\",\"x\":{}} ok''"

theorem extract_json_roundtrip_witness:
  "extract_json demo_reply = Some (JObj [(''tool'', JStr ''a}b''), (''x'', JObj [])])"
proof (rule extract_json_roundtrip [of _ "''Sure: ''" _ "'' ok''"])
  show "clean_reply demo_reply = ''Sure: '' @ json_str (JObj [(''tool'', JStr ''a}b''), (''x'', JObj [])]) @ '' ok''"
    by code_simp
qed simp_all

end
