(* ===== verification/Modality.thy ===== *)
theory Modality
  imports Screen Planning
begin

text \<open>
  The modality transform of src/channels/modality.js: a voice note or a video of the operator is
  downloaded to the box, transcribed by the local model and screened.

  Outside the program: the Telegram transport, the HTTP download, the inference client (its model is
  \<open>complete\<close> of theory Inference), SHA-256 and the clock.  They are the fields of \<open>modality_env\<close>.  The bytes
  of a file are a list of \<open>char\<close>.  A thrown error is \<open>Inl\<close> of its message.
\<close>

section \<open>What kind of message\<close>

record detected =
  dt_modality :: string
  dt_file :: json
  dt_mime :: json
  dt_duration :: json

definition pick_media :: "json \<Rightarrow> string \<Rightarrow> detected" where
  "pick_media m kind =
     \<lparr>dt_modality = kind, dt_file = obj_get m ''file_id'', dt_mime = js_coalesce (obj_get m ''mime_type'') JNull,
      dt_duration = js_coalesce (obj_get m ''duration'') JNull\<rparr>"

definition bare_modality :: "string \<Rightarrow> detected" where
  "bare_modality kind = \<lparr>dt_modality = kind, dt_file = JUndef, dt_mime = JUndef, dt_duration = JUndef\<rparr>"

fun is_str :: "json \<Rightarrow> bool" where
  "is_str (JStr s) = True"
| "is_str v = False"

definition detect_modality :: "json \<Rightarrow> detected" where
  "detect_modality msg =
     (if is_str (obj_get msg ''text'') then bare_modality ''text''
      else if truthy (obj_get msg ''voice'') then pick_media (obj_get msg ''voice'') ''voice''
      else if truthy (obj_get msg ''audio'') then pick_media (obj_get msg ''audio'') ''voice''
      else if truthy (obj_get msg ''video_note'') then pick_media (obj_get msg ''video_note'') ''video''
      else if truthy (obj_get msg ''video'') then pick_media (obj_get msg ''video'') ''video''
      else bare_modality ''unsupported'')"

section \<open>Base64\<close>

definition b64_char :: "nat \<Rightarrow> char" where
  "b64_char n =
     (if n < 26 then char_of (65 + n) else if n < 52 then char_of (71 + n) else if n < 62 then char_of (n - 4)
      else if n = 62 then CHR ''+'' else CHR ''/'')"

fun base64 :: "string \<Rightarrow> string" where
  "base64 [] = []"
| "base64 [a] =
     (let x = (of_char a :: nat) in [b64_char (x div 4), b64_char (x mod 4 * 16), CHR ''='', CHR ''=''])"
| "base64 [a, b] =
     (let x = (of_char a :: nat); y = (of_char b :: nat) in
      [b64_char (x div 4), b64_char (x mod 4 * 16 + y div 16), b64_char (y mod 16 * 4), CHR ''=''])"
| "base64 (a # b # c # s) =
     (let x = (of_char a :: nat); y = (of_char b :: nat); z = (of_char c :: nat) in
      b64_char (x div 4) # b64_char (x mod 4 * 16 + y div 16) # b64_char (y mod 16 * 4 + z div 64) # b64_char (z mod 64) # base64 s)"

section \<open>Download and transcription\<close>

datatype file_reply = File_ok string | File_status nat | File_failed string

record modality_env =
  me_transport :: "string \<Rightarrow> json \<Rightarrow> string + json"
  me_fetch :: "string \<Rightarrow> file_reply"
  me_infer :: "completion_request \<Rightarrow> infer_error + completion"
  me_hash :: "string \<Rightarrow> string"
  me_token :: string
  me_base :: string
  me_local :: bool
  me_endpoint :: "string option"
  me_max :: nat
  me_latency :: int

definition max_bytes :: nat where
  "max_bytes = 20 * 1024 * 1024"

definition download :: "modality_env \<Rightarrow> json \<Rightarrow> string + string" where
  "download e file_id =
     (case me_transport e ''getFile'' (JObj [(''file_id'', file_id)]) of
        Inl msg \<Rightarrow> Inl msg
      | Inr meta \<Rightarrow>
          (let path = obj_get (obj_get meta ''result'') ''file_path'' in
           if \<not> truthy path then Inl ''telegram getFile returned no file path''
           else (case me_fetch e (me_base e @ ''/file/bot'' @ me_token e @ ''/'' @ js_string path) of
                   File_failed msg \<Rightarrow> Inl msg
                 | File_status st \<Rightarrow> Inl (''file download failed: HTTP '' @ show_nat st)
                 | File_ok bytes \<Rightarrow>
                     if length bytes > me_max e then Inl (''file too large: '' @ show_nat (length bytes) @ '' bytes'')
                     else Inr bytes)))"

record transcript =
  tx_modality :: string
  tx_text :: string
  tx_flags :: "string list"
  tx_screened :: bool
  tx_model :: json
  tx_endpoint :: string
  tx_egress :: egress_kind
  tx_bytes :: nat
  tx_content :: string
  tx_latency :: int

text \<open>A parameter default applies to \<open>undefined\<close> only.\<close>

definition with_default :: "json \<Rightarrow> string \<Rightarrow> json" where
  "with_default v d = (if v = JUndef then JStr d else v)"

definition media_message :: "string \<Rightarrow> json \<Rightarrow> string \<Rightarrow> string \<Rightarrow> json" where
  "media_message kind mime bytes ask =
     JArr [JObj [(''role'', JStr ''user''),
       (''content'', JArr
          [JObj [(''type'', JStr kind),
                 (kind, JObj [(''url'', JStr (''data:'' @ js_string mime @ '';base64,'' @ base64 bytes))])],
           JObj [(''type'', JStr ''text''), (''text'', JStr ask)]])]]"

definition perceive_request :: route_request where
  "perceive_request =
     \<lparr>rq_task = Perceive_task, rq_payload = JStr [], rq_multimodal = True, rq_hosted = True, rq_local = False, rq_declared = False\<rparr>"

text \<open>
  \<open>transcribe\<close> and \<open>describeVideo\<close> have one shape: route, download, infer, screen.  They differ in the
  content part, its default type, the instruction, the token limit and the message for an empty answer.
\<close>

definition perceive :: "string \<Rightarrow> string \<Rightarrow> string \<Rightarrow> int \<Rightarrow> string \<Rightarrow> modality_env \<Rightarrow> detected \<Rightarrow> string + transcript" where
  "perceive kind mime ask limit blank e d =
     (case route (me_endpoint e) (perceive_request\<lparr>rq_local := me_local e\<rparr>) of
        Inl msg \<Rightarrow> Inl msg
      | Inr decision \<Rightarrow>
          (case download e (dt_file d) of
             Inl msg \<Rightarrow> Inl msg
           | Inr bytes \<Rightarrow>
               (case me_infer e \<lparr>cr_model = rt_model decision, cr_endpoint = rt_endpoint decision,
                                 cr_messages = media_message kind (with_default (dt_mime d) mime) bytes ask,
                                 cr_max_tokens = limit, cr_schema = None\<rparr> of
                  Inl err \<Rightarrow> Inl (error_text err)
                | Inr out \<Rightarrow>
                    (let raw = js_trim (strip_reasoning (co_text out)) in
                     if raw = [] then Inl blank
                     else (let (clean, flags) = screen_text (JStr raw) 4000 in
                           Inr \<lparr>tx_modality = dt_modality d, tx_text = clean, tx_flags = flags, tx_screened = (flags \<noteq> []),
                                tx_model = co_model out, tx_endpoint = co_endpoint out, tx_egress = rt_egress decision,
                                tx_bytes = length bytes, tx_content = take 24 (me_hash e bytes), tx_latency = me_latency e\<rparr>)))))"

definition transcribe :: "modality_env \<Rightarrow> detected \<Rightarrow> string + transcript" where
  "transcribe = perceive ''audio_url'' ''audio/ogg''
     ''Transcribe this voice message verbatim. Reply with only the transcript, nothing else.'' 500
     ''the model returned an empty transcript''"

definition describe_video :: "modality_env \<Rightarrow> detected \<Rightarrow> string + transcript" where
  "describe_video = perceive ''video_url'' ''video/mp4''
     ''Describe what happens in this video in two sentences, then transcribe any speech verbatim. If there is no speech, say so.'' 2500
     ''the model returned an empty description''"

definition transform_media :: "modality_env \<Rightarrow> detected \<Rightarrow> string + transcript" where
  "transform_media e d =
     (if dt_modality d = ''voice'' then transcribe e d
      else if dt_modality d = ''video'' then describe_video e d
      else Inl ''unsupported modality; send text, a voice note, or video'')"

section \<open>Media stays on the box\<close>

text \<open>The inference client as a firewall sees it that lets only the local endpoint through.\<close>

definition local_only :: "modality_env \<Rightarrow> modality_env" where
  "local_only e =
     e\<lparr>me_infer := (\<lambda>q. if cr_endpoint q = Some (local_endpoint (me_endpoint e)) then me_infer e q
                         else Inl (Routing_refused ''blocked''))\<rparr>"

lemma perceive_route:
  "route env (perceive_request\<lparr>rq_local := l\<rparr>) =
     (if l then Inr (local_route env False ''multimodal or perception'')
      else Inl ''perception requires the local model; refusing to send media off-box'')"
  by (simp add: route_def perceive_request_def)

lemma local_only_fields [simp]:
  "me_local (local_only e) = me_local e" "me_endpoint (local_only e) = me_endpoint e"
  "me_hash (local_only e) = me_hash e" "me_latency (local_only e) = me_latency e"
  "download (local_only e) = download e"
  by (simp_all add: local_only_def download_def fun_eq_iff Let_def cong: sum.case_cong file_reply.case_cong if_cong)

lemma local_infer:
  "cr_endpoint q = Some (local_endpoint (me_endpoint e)) \<Longrightarrow> me_infer (local_only e) q = me_infer e q"
  by (simp add: local_only_def)

lemma perceive_local_only: "perceive k m q l b (local_only e) d = perceive k m q l b e d"
  by (cases "me_local e"; cases "download e (dt_file d)")
    (auto simp: perceive_def perceive_route local_route_def local_infer Let_def split: sum.split)

lemma perceive_egress:
  "perceive k m q l b e d = Inr t \<Longrightarrow> me_local e \<and> tx_egress t = Egress_local \<and> tx_modality t = dt_modality d"
  by (auto simp: perceive_def perceive_route local_route_def Let_def split: if_splits sum.splits prod.splits)

lemma perceive_refused: "\<not> me_local e \<Longrightarrow> perceive k m q l b e d = Inl ''perception requires the local model; refusing to send media off-box''"
  by (simp add: perceive_def perceive_route)

lemma download_bounded: "download e f = Inr bytes \<Longrightarrow> length bytes \<le> me_max e"
  by (auto simp: download_def Let_def split: sum.splits if_splits file_reply.splits)

text \<open>C30. Media never leaves the box: the transform gives the same answer when every inference
  endpoint but the local one is blocked, so no other is consulted; an answer means that the local
  model was up and is marked as local egress; and while the local model is down a voice note or a
  video is refused whatever the transport, the download and the inference client would do.\<close>

theorem media_stays_local:
  "transform_media (local_only e) d = transform_media e d \<and>
   (case transform_media e d of Inl _ \<Rightarrow> True | Inr t \<Rightarrow> me_local e \<and> tx_egress t = Egress_local) \<and>
   (if me_local e then True
    else if dt_modality d \<in> {''voice'', ''video''}
    then transform_media e d = Inl ''perception requires the local model; refusing to send media off-box'' else True)"
proof -
  have "transform_media (local_only e) d = transform_media e d"
    by (simp add: transform_media_def transcribe_def describe_video_def perceive_local_only)
  moreover have "case transform_media e d of Inl _ \<Rightarrow> True | Inr t \<Rightarrow> me_local e \<and> tx_egress t = Egress_local"
    by (auto simp: transform_media_def transcribe_def describe_video_def dest!: perceive_egress split: sum.split)
  moreover have "\<not> me_local e \<Longrightarrow> dt_modality d \<in> {''voice'', ''video''} \<Longrightarrow>
      transform_media e d = Inl ''perception requires the local model; refusing to send media off-box''"
    by (auto simp: transform_media_def transcribe_def describe_video_def perceive_refused)
  ultimately show ?thesis by auto
qed

text \<open>
  The loop passes \<open>null\<close> for a missing type, to which the default does not apply: the model is then
  handed a \<open>data:null\<close> URL.
\<close>

lemma null_mime_url:
  "media_message ''video_url'' (with_default (dt_mime (pick_media (JObj [(''file_id'', f)]) ''video'')) ''video/mp4'') ''abc'' [] =
     media_message ''video_url'' (JStr ''null'') ''abc'' []"
  by (simp add: media_message_def with_default_def pick_media_def js_coalesce_def)

lemma base64_demo: "base64 ''Man'' = ''TWFu'' \<and> base64 ''Ma'' = ''TWE='' \<and> base64 ''M'' = ''TQ==''"
  by code_simp

text \<open>Four units for every three bytes begun, so the URL has four thirds of the size of the file.\<close>

lemma length_base64: "length (base64 s) = 4 * ((length s + 2) div 3)"
proof (induction s rule: base64.induct)
  case (4 a b c s)
  have "(length s + 5) div 3 = Suc ((length s + 2) div 3)" by presburger
  with 4 show ?case by (simp add: Let_def add.commute)
qed (simp_all add: Let_def)

end
