(* ===== verification/Telegram.thy ===== *)
theory Telegram
  imports Modality Intents
begin

text \<open>
  The Telegram client of src/channels/telegram.js: the methods it may call, the messages it sends, the
  commands it reads from updates and the audit reply.

  The transport is outside the program: \<open>wire\<close> gives the reply to the last of the calls made so far (or the
  message of the error it throws), and a client operation returns the list of calls extended by its own.
\<close>

section \<open>Calls\<close>

definition allowed_methods :: "string list" where
  "allowed_methods =
     [''getUpdates'', ''sendMessage'', ''answerCallbackQuery'', ''editMessageText'', ''editMessageReplyMarkup'', ''getMe'', ''getFile'']"

type_synonym tg_calls = "(string \<times> json) list"

type_synonym tg_wire = "tg_calls \<Rightarrow> string + json"

record tg_client =
  tc_allowed :: "string list"
  tc_mode :: string

definition create_client :: "json list \<Rightarrow> string \<Rightarrow> tg_client" where
  "create_client ids mode = \<lparr>tc_allowed = map js_string ids, tc_mode = mode\<rparr>"

definition tg_call :: "tg_wire \<Rightarrow> string \<Rightarrow> json \<Rightarrow> tg_calls \<Rightarrow> (string + json) \<times> tg_calls" where
  "tg_call wire name params calls =
     (if name \<notin> set allowed_methods
      then (Inl (''refusing telegram method '' @ name @ '': outside the hardened policy''), calls)
      else (wire (calls @ [(name, params)]), calls @ [(name, params)]))"

definition is_operator :: "tg_client \<Rightarrow> json \<Rightarrow> bool" where
  "is_operator c ident = (tc_allowed c \<noteq> [] \<and> js_string ident \<in> set (tc_allowed c))"

section \<open>Messages\<close>

definition lines :: "string list \<Rightarrow> string" where
  "lines ws = js_join [CHR 0x0A] ws"

definition impact_text :: "json \<Rightarrow> string option" where
  "impact_text v =
     (case js_coalesce v (JArr []) of
        JArr xs \<Rightarrow>
          (let s = js_join '', '' (map (\<lambda>x. if nullish x then [] else js_string x) xs)
           in Some (if s = [] then ''none'' else s))
      | _ \<Rightarrow> None)"

definition tool_text :: "action \<Rightarrow> string" where
  "tool_text a = (case ac_tool a of None \<Rightarrow> ''undefined'' | Some t \<Rightarrow> t)"

text \<open>\<open>filter(Boolean)\<close> also drops the empty lines that separate the parts.\<close>

definition escalation_text :: "intent \<Rightarrow> action \<Rightarrow> string option" where
  "escalation_text i a =
     map_option (\<lambda>impact.
       lines (filter (\<lambda>w. w \<noteq> [])
         [''*Consent required*'', [], ''`'' @ tool_text a @ ''`'',
          ''verb: *'' @ js_string (verb_value (ac_verb a)) @ ''*   impact: *'' @ impact @ ''*'', [],
          ''intent: `'' @ in_id i @ ''`'',
          (if truthy (in_detector i) then ''detector: '' @ js_string (in_detector i) else []),
          (if truthy (in_outcome i) then ''outcome: '' @ js_string (in_outcome i) else []), [],
          ''The write method is absent from policy until you decide.'']))
       (impact_text (ac_impact a))"

definition message_params :: "tg_client \<Rightarrow> json \<Rightarrow> string \<Rightarrow> (string \<times> json) list" where
  "message_params c chat text = [(''chat_id'', chat), (''text'', JStr text), (''parse_mode'', JStr (tc_mode c))]"

definition button :: "string \<Rightarrow> string \<Rightarrow> intent \<Rightarrow> action \<Rightarrow> json" where
  "button label verdict i a =
     JObj [(''text'', JStr label), (''callback_data'', JStr (verdict @ '':'' @ in_id i @ '':'' @ js_string (ac_id a)))]"

definition tg_escalate :: "tg_wire \<Rightarrow> tg_client \<Rightarrow> json \<Rightarrow> intent \<Rightarrow> action \<Rightarrow> tg_calls \<Rightarrow> (string + json) \<times> tg_calls" where
  "tg_escalate wire c chat i a calls =
     (case escalation_text i a of
        None \<Rightarrow> (Inl ''(action.impact ?? []).join is not a function'', calls)
      | Some text \<Rightarrow>
          tg_call wire ''sendMessage''
            (JObj (message_params c chat text @
               [(''reply_markup'', JObj [(''inline_keyboard'',
                  JArr [JArr [button ''Approve'' ''approve'' i a, button ''Deny'' ''deny'' i a]])])])) calls)"

definition tg_notify_undo :: "tg_wire \<Rightarrow> tg_client \<Rightarrow> json \<Rightarrow> action \<Rightarrow> string \<Rightarrow> tg_calls \<Rightarrow> (string + json) \<times> tg_calls" where
  "tg_notify_undo wire c chat a token =
     tg_call wire ''sendMessage''
       (JObj (message_params c chat
          (''Ran `'' @ tool_text a @ ''` ('' @ js_string (verb_value (ac_verb a)) @ '', contained).'' @ [CHR 0x0A] @
           ''Undo: `UNDO '' @ token @ ''`'')))"

definition tg_settle :: "tg_wire \<Rightarrow> tg_client \<Rightarrow> json \<Rightarrow> json \<Rightarrow> string \<Rightarrow> string \<Rightarrow> tg_calls \<Rightarrow> (string + json) \<times> tg_calls" where
  "tg_settle wire c chat mid verdict who calls =
     (case tg_call wire ''editMessageReplyMarkup''
             (JObj [(''chat_id'', chat), (''message_id'', mid), (''reply_markup'', JObj [(''inline_keyboard'', JArr [])])]) calls of
        (Inl msg, calls') \<Rightarrow> (Inl msg, calls')
      | (Inr r, calls') \<Rightarrow>
          tg_call wire ''editMessageText''
            (JObj [(''chat_id'', chat), (''message_id'', mid), (''parse_mode'', JStr (tc_mode c)),
                   (''text'', JStr (''*'' @ (if verdict = ''approve'' then ''Approved'' else ''Denied'') @ ''* by '' @ who @ ''.''))]) calls')"

definition tg_acknowledge :: "tg_wire \<Rightarrow> json \<Rightarrow> string \<Rightarrow> tg_calls \<Rightarrow> (string + json) \<times> tg_calls" where
  "tg_acknowledge wire query text =
     tg_call wire ''answerCallbackQuery'' (JObj [(''callback_query_id'', query), (''text'', JStr text)])"

definition tg_send :: "tg_wire \<Rightarrow> tg_client \<Rightarrow> json \<Rightarrow> string \<Rightarrow> tg_calls \<Rightarrow> (string + json) \<times> tg_calls" where
  "tg_send wire c chat text = tg_call wire ''sendMessage'' (JObj (message_params c chat text))"

definition tg_health :: "tg_wire \<Rightarrow> tg_calls \<Rightarrow> (string + bool \<times> json) \<times> tg_calls" where
  "tg_health wire calls =
     (case tg_call wire ''getMe'' (JObj []) calls of
        (Inl msg, calls') \<Rightarrow> (Inl msg, calls')
      | (Inr me, calls') \<Rightarrow>
          (Inr (truthy (js_coalesce (obj_get me ''ok'') (obj_get me ''result'')),
                js_coalesce (obj_get (obj_get me ''result'') ''username'') JNull), calls'))"

section \<open>Commands\<close>

datatype command =
    Ignored string json
  | Decide string json json json json json json
  | Media detected json json
  | Halt_cmd json json
  | Resume_cmd json json
  | Undo_cmd string json json
  | Audit_cmd string json json
  | Unknown_cmd string json json

definition ignored_sender :: "json \<Rightarrow> command" where
  "ignored_sender from = Ignored ''not the registered operator'' from"

definition part :: "string list \<Rightarrow> nat \<Rightarrow> json" where
  "part ws n = (if n < length ws then JStr (ws ! n) else JUndef)"

definition parse_callback :: "tg_client \<Rightarrow> json \<Rightarrow> command" where
  "parse_callback c q =
     (let from = obj_get (obj_get q ''from'') ''id'';
          ws = js_split (CHR '':'') (js_string (js_coalesce (obj_get q ''data'') (JStr [])))
      in if \<not> is_operator c from then ignored_sender from
         else if hd ws \<noteq> ''approve'' \<and> hd ws \<noteq> ''deny'' then Ignored ''unknown callback'' JUndef
         else Decide (hd ws) (part ws 1) (part ws 2) (obj_get q ''id'')
                (obj_get (obj_get (obj_get q ''message'') ''chat'') ''id'') (obj_get (obj_get q ''message'') ''message_id'') from)"

text \<open>The patterns \<open>^UNDO\s+(\S+)$\<close> and \<open>^AUDIT(?:\s+(.* ))?$\<close>, ignoring case: what they capture.\<close>

definition undo_token_of :: "string \<Rightarrow> string option" where
  "undo_token_of s =
     (let r = drop 4 s; t = dropWhile js_ws r in
      if js_lower (take 4 s) = ''undo'' \<and> t \<noteq> r \<and> t \<noteq> [] \<and> \<not> list_ex js_ws t then Some t else None)"

definition audit_query_of :: "string \<Rightarrow> string option" where
  "audit_query_of s =
     (let r = drop 5 s; t = dropWhile js_ws r in
      if js_lower (take 5 s) \<noteq> ''audit'' then None
      else if r = [] then Some []
      else if t \<noteq> r \<and> list_all dot_char t then Some (js_trim t) else None)"

definition parse_text :: "string \<Rightarrow> json \<Rightarrow> json \<Rightarrow> command" where
  "parse_text raw chat from =
     (let text = js_trim raw in
      if js_lower text = ''halt'' then Halt_cmd chat from
      else if js_lower text = ''resume'' then Resume_cmd chat from
      else (case undo_token_of text of
              Some t \<Rightarrow> Undo_cmd t chat from
            | None \<Rightarrow> (case audit_query_of text of
                         Some q \<Rightarrow> Audit_cmd q chat from
                       | None \<Rightarrow> Unknown_cmd text chat from)))"

definition media_of :: "json \<Rightarrow> json" where
  "media_of msg =
     js_coalesce (obj_get msg ''voice'') (js_coalesce (obj_get msg ''audio'') (js_coalesce (obj_get msg ''video_note'') (obj_get msg ''video'')))"

definition parse_message :: "tg_client \<Rightarrow> json \<Rightarrow> string + command option" where
  "parse_message c msg =
     (let from = obj_get (obj_get msg ''from'') ''id''; chat = obj_get (obj_get msg ''chat'') ''id'' in
      if \<not> truthy (obj_get msg ''text'') then
        (if \<not> truthy (media_of msg) then Inr None
         else if \<not> is_operator c from then Inr (Some (ignored_sender from))
         else Inr (Some (Media (pick_media (media_of msg)
                (if truthy (obj_get msg ''voice'') \<or> truthy (obj_get msg ''audio'') then ''voice'' else ''video'')) chat from)))
      else if \<not> is_operator c from then Inr (Some (ignored_sender from))
      else (case obj_get msg ''text'' of
              JStr s \<Rightarrow> Inr (Some (parse_text s chat from))
            | _ \<Rightarrow> Inl ''msg.text.trim is not a function''))"

definition parse_update :: "tg_client \<Rightarrow> json \<Rightarrow> string + command option" where
  "parse_update c u =
     (if truthy (obj_get u ''callback_query'') then Inr (Some (parse_callback c (obj_get u ''callback_query'')))
      else if \<not> truthy (obj_get u ''message'') then Inr None
      else parse_message c (obj_get u ''message''))"

section \<open>The audit reply\<close>

definition pad_start :: "nat \<Rightarrow> string \<Rightarrow> string" where
  "pad_start n s = replicate (n - length s) (CHR '' '') @ s"

definition audit_line :: "json \<Rightarrow> string" where
  "audit_line e =
     (let auth = js_coalesce (obj_get e ''authority'') (JStr ''-'');
          shown = (if starts_with (js_string auth) ''decision:'' then ''consented'' else js_string auth);
          dot = [CHR '' '', CHR 0xB7, CHR '' '']
      in ''`'' @ pad_start 3 (js_string (obj_get e ''seq'')) @ ''` '' @
         js_string (js_coalesce (obj_get e ''tool'') (JStr ''-'')) @ dot @
         js_string (js_coalesce (obj_get e ''tier'') (js_coalesce (obj_get e ''kind'') (JStr ''-''))) @ dot @ shown)"

definition format_audit :: "json list \<Rightarrow> string" where
  "format_audit entries =
     (if entries = [] then ''No actions recorded in that window.''
      else lines (''*Recent actions*'' # map audit_line (js_last_n 20 entries)))"

section \<open>The live transport\<close>

text \<open>\<open>fetch\<close> maps the URL and the body to the parsed reply.\<close>

definition http_transport :: "(string \<Rightarrow> string \<Rightarrow> string + json) \<Rightarrow> string \<Rightarrow> string \<Rightarrow> string + (string \<Rightarrow> json \<Rightarrow> string + json)" where
  "http_transport fetch base token =
     (if token = [] then Inl ''no telegram bot token configured''
      else Inr (\<lambda>name params. fetch (base @ ''/bot'' @ token @ ''/'' @ name) (json_str params)))"

section \<open>Lemmas\<close>

definition hardened :: "tg_calls \<Rightarrow> bool" where
  "hardened calls = (\<forall>c \<in> set calls. fst c \<in> set allowed_methods)"

named_theorems tg_ops \<open>the operations of the client\<close>

lemmas [tg_ops] = tg_send_def tg_acknowledge_def tg_settle_def tg_escalate_def tg_notify_undo_def tg_health_def

text \<open>A call keeps the calls made and adds at most itself, and only a listed one.\<close>

lemma tg_call_calls: "\<exists>more. snd (tg_call wire name params calls) = calls @ more \<and> hardened more"
  by (auto simp: tg_call_def hardened_def)

lemma hardened_call: "hardened calls \<Longrightarrow> hardened (snd (tg_call wire name params calls))"
  by (auto simp: tg_call_def hardened_def)

lemma hardened_settle: "hardened calls \<Longrightarrow> hardened (snd (tg_settle wire c chat mid v who calls))"
  by (auto simp: tg_settle_def tg_call_def hardened_def allowed_methods_def split: sum.split)

lemma undo_token_word: "undo_token_of s = Some t \<Longrightarrow> t \<noteq> [] \<and> \<not> list_ex js_ws t"
  by (auto simp: undo_token_of_def Let_def split: if_splits)

text \<open>The tap on a button of an escalation is read back as the decision it names.\<close>

lemma part_split3:
  assumes "CHR '':'' \<notin> set u" and "CHR '':'' \<notin> set v" and "CHR '':'' \<notin> set w"
  shows "js_split (CHR '':'') (u @ '':'' @ v @ '':'' @ w) = [u, v, w]"
  using assms by (simp add: js_split_append js_split_no_sep)

lemma button_read_back:
  assumes "is_operator c from" and "verdict \<in> {''approve'', ''deny''}"
    and "CHR '':'' \<notin> set (in_id i)" and "ac_id a = JStr x" and "CHR '':'' \<notin> set x"
    and "obj_get (obj_get q ''from'') ''id'' = from" and "obj_get q ''data'' = obj_get (button label verdict i a) ''callback_data''"
  shows "\<exists>cb chat mid. parse_callback c q = Decide verdict (JStr (in_id i)) (JStr x) cb chat mid from"
proof -
  have "CHR '':'' \<notin> set verdict" using assms(2) by auto
  from part_split3 [OF this assms(3) assms(5)] assms show ?thesis
    by (auto simp: parse_callback_def button_def js_coalesce_def part_def Let_def)
qed

text \<open>Whoever is not on the allow list is at most ignored.\<close>

lemma parse_stranger:
  assumes "parse_update c u = Inr (Some cmd)"
    and "\<not> is_operator c (obj_get (obj_get (obj_get u ''callback_query'') ''from'') ''id'')"
    and "\<not> is_operator c (obj_get (obj_get (obj_get u ''message'') ''from'') ''id'')"
  shows "\<exists>from. cmd = ignored_sender from"
  using assms
  by (auto simp: parse_update_def parse_callback_def parse_message_def Let_def split: if_splits)

lemma empty_list_trusts_nobody: "tc_allowed c = [] \<Longrightarrow> \<not> is_operator c ident"
  by (simp add: is_operator_def)

end
