(* ===== verification/Undo.thy ===== *)
theory Undo
  imports Ledger_Chain Taxonomy
begin

text \<open>
  The undo registry of src/broker/undo.js.  A reversal runs at most once per registration: the
  record is spent before the replay starts, and given back only if the replay throws.  \<open>run\<close> is
  split where the code awaits the replay: \<open>undo_begin\<close> is the part before, \<open>undo_finish\<close> the part
  after, so that other calls may come in between; \<open>undo_run\<close> is the uninterrupted call.

  \<open>'r\<close> is the type of a registered replay.  The ledger append is the parameter \<open>app\<close> (one entry at
  a time, its clock and disk fixed by the caller).
\<close>

record 'r undo_rec =
  ur_tool :: "string option"
  ur_inverse :: json
  ur_replay :: "'r option"
  ur_spent :: bool
  ur_at :: int

type_synonym 'r undo_store = "(string, 'r undo_rec) jsmap"

definition undo_register ::
  "int \<Rightarrow> string \<Rightarrow> string option \<Rightarrow> json \<Rightarrow> 'r option \<Rightarrow> 'r undo_store \<Rightarrow> 'r undo_store" where
  "undo_register now token tool reversal replay m =
     (if token = [] then m
      else jset m token \<lparr>ur_tool = tool, ur_inverse = reversal, ur_replay = replay, ur_spent = False, ur_at = now\<rparr>)"

definition undo_has :: "string \<Rightarrow> 'r undo_store \<Rightarrow> bool" where
  "undo_has token m = jhas m token"

definition undo_begin :: "string \<Rightarrow> 'r undo_store \<Rightarrow> (string + 'r undo_rec) \<times> 'r undo_store" where
  "undo_begin token m =
     (case map_of m token of
        None \<Rightarrow> (Inl (''no reversible action for token '' @ token), m)
      | Some rec \<Rightarrow>
          if ur_spent rec then (Inl (''undo for '' @ token @ '' was already run''), m)
          else (Inr rec, jset m token (rec\<lparr>ur_spent := True\<rparr>)))"

definition undo_tool :: "'r undo_rec \<Rightarrow> string \<Rightarrow> string" where
  "undo_tool rec dflt = (case ur_tool rec of None \<Rightarrow> dflt | Some t \<Rightarrow> t)"

definition undo_failed_entry :: "string \<Rightarrow> string \<Rightarrow> 'r undo_rec \<Rightarrow> string \<Rightarrow> (string \<times> json) list" where
  "undo_failed_entry operator token rec msg =
     [(''kind'', JStr ''undo''), (''agent'', JStr operator), (''tool'', JStr (undo_tool rec ''unknown'')),
      (''verb'', JStr ''delete''), (''outcome'', JStr ''undo-failed''), (''reason'', JStr (take 160 msg)),
      (''undoToken'', JStr token)]"

definition undone_entry :: "string \<Rightarrow> string \<Rightarrow> 'r undo_rec \<Rightarrow> (string \<times> json) list" where
  "undone_entry operator token rec =
     [(''kind'', JStr ''undo''), (''agent'', JStr operator), (''tool'', JStr (undo_tool rec ''unknown'')),
      (''verb'', JStr ''delete''), (''outcome'', JStr ''undone''),
      (''reason'', JStr (''reversed '' @ undo_tool rec ''action'')), (''undoToken'', JStr token)]"

text \<open>
  Behind the await: \<open>res\<close> is what the replay did.  A thrown replay frees the record (whichever
  record the map holds under the token now is not touched unless it is the same one; a record
  registered again in between is a new one, which the argument \<open>same\<close> tells).
\<close>

definition undo_finish ::
  "((string \<times> json) list \<Rightarrow> ledger \<Rightarrow> (string + json) \<times> ledger) \<Rightarrow> string \<Rightarrow> string \<Rightarrow> bool \<Rightarrow> 'r undo_rec \<Rightarrow>
     string + json \<Rightarrow> 'r undo_store \<times> ledger \<Rightarrow> (string + json) \<times> 'r undo_store \<times> ledger" where
  "undo_finish app operator token same rec res s =
     (let m = fst s; l = snd s in
      case res of
        Inl msg \<Rightarrow>
          (Inl (''reversal failed: '' @ msg),
           (if same then jset m token (rec\<lparr>ur_spent := False\<rparr>) else m),
           snd (app (undo_failed_entry operator token rec msg) l))
      | Inr result \<Rightarrow>
          (case app (undone_entry operator token rec) l of
             (Inl msg, l') \<Rightarrow> (Inl (''reversal ran but could not be logged: '' @ msg), m, l')
           | (Inr r, l') \<Rightarrow> (Inr result, m, l')))"

text \<open>The result of a record without a replay.\<close>

definition default_replay :: "'r undo_rec \<Rightarrow> json" where
  "default_replay rec = JObj [(''replayed'', ur_inverse rec)]"

definition undo_run ::
  "((string \<times> json) list \<Rightarrow> ledger \<Rightarrow> (string + json) \<times> ledger) \<Rightarrow> ('r \<Rightarrow> 'r undo_rec \<Rightarrow> 'w \<Rightarrow> (string + json) \<times> 'w) \<Rightarrow>
     string \<Rightarrow> string \<Rightarrow> 'r undo_store \<times> ledger \<Rightarrow> 'w \<Rightarrow> (string + json) \<times> ('r undo_store \<times> ledger) \<times> 'w" where
  "undo_run app replay operator token s w =
     (case undo_begin token (fst s) of
        (Inl why, m) \<Rightarrow> (Inl why, (m, snd s), w)
      | (Inr rec, m) \<Rightarrow>
          (let (res, w') = (case ur_replay rec of
                              None \<Rightarrow> (Inr (default_replay rec), w)
                            | Some f \<Rightarrow> replay f rec w);
               (out, m', l') = undo_finish app operator token True rec res (m, snd s)
           in (out, (m', l'), w')))"

section \<open>Lemmas\<close>

definition spent_in :: "'r undo_store \<Rightarrow> string \<Rightarrow> bool" where
  "spent_in m t = (case map_of m t of None \<Rightarrow> False | Some r \<Rightarrow> ur_spent r)"

lemma undo_begin_Inr:
  "undo_begin t m = (Inr rec, m') \<Longrightarrow>
     map_of m t = Some rec \<and> \<not> ur_spent rec \<and> m' = jset m t (rec\<lparr>ur_spent := True\<rparr>)"
  by (auto simp: undo_begin_def split: option.splits if_splits)

lemma undo_begin_spent: "spent_in m t \<Longrightarrow> \<exists>why. undo_begin t m = (Inl why, m)"
  by (auto simp: undo_begin_def spent_in_def split: option.splits)

lemma undo_begin_frame: "t' \<noteq> t \<Longrightarrow> map_of (snd (undo_begin t m)) t' = map_of m t'"
  by (auto simp: undo_begin_def split: option.split)

lemma undo_finish_store:
  "fst (snd (undo_finish app operator t same rec res (m, l))) =
     (case res of Inl msg \<Rightarrow> if same then jset m t (rec\<lparr>ur_spent := False\<rparr>) else m | Inr _ \<Rightarrow> m)"
  by (auto simp: undo_finish_def Let_def split: sum.split prod.split)

section \<open>Interleaved runs\<close>

text \<open>
  The calls on one token, interleaved in any way: a run begins, or a run in flight ends with its
  replay ndone or thrown.  The state holds the map, the number of runs in flight and the number of
  replays that completed.
\<close>

datatype undo_step = Begin_run | Replay_done | Replay_threw

definition undo_step :: "string \<Rightarrow> undo_step \<Rightarrow> 'r undo_store \<times> 'r undo_rec list \<times> nat \<Rightarrow> 'r undo_store \<times> 'r undo_rec list \<times> nat" where
  "undo_step t st s =
     (case s of (m, pending, ndone) \<Rightarrow>
       (case st of
          Begin_run \<Rightarrow>
            (case undo_begin t m of (Inl why, m') \<Rightarrow> (m', pending, ndone) | (Inr rec, m') \<Rightarrow> (m', rec # pending, ndone))
        | Replay_done \<Rightarrow>
            (case pending of [] \<Rightarrow> s
             | rec # rest \<Rightarrow>
                 (fst (snd (undo_finish (\<lambda>e l. (Inr JNull, l)) [] t True rec (Inr JNull) (m, empty_ledger))), rest, Suc ndone))
        | Replay_threw \<Rightarrow>
            (case pending of [] \<Rightarrow> s
             | rec # rest \<Rightarrow>
                 (fst (snd (undo_finish (\<lambda>e l. (Inr JNull, l)) [] t True rec (Inl []) (m, empty_ledger))), rest, ndone))))"

definition once_inv :: "string \<Rightarrow> 'r undo_store \<times> 'r undo_rec list \<times> nat \<Rightarrow> bool" where
  "once_inv t s =
     (case s of (m, pending, ndone) \<Rightarrow>
        length pending + ndone \<le> 1 \<and> (length pending + ndone = 1 \<longrightarrow> spent_in m t))"

lemma once_inv_step: "once_inv t s \<Longrightarrow> once_inv t (undo_step t st s)"
proof (cases s)
  case (fields m pending ndone)
  assume inv: "once_inv t s"
  show ?thesis
  proof (cases st)
    case Begin_run
    show ?thesis
    proof (cases "spent_in m t")
      case True
      with inv fields Begin_run undo_begin_spent [OF True] show ?thesis
        by (auto simp: once_inv_def undo_step_def)
    next
      case False
      with inv fields have "length pending + ndone \<le> 1" "length pending + ndone \<noteq> 1"
        by (auto simp: once_inv_def)
      then have "length pending + ndone = 0" by linarith
      then have e: "pending = []" "ndone = 0" by simp_all
      show ?thesis
      proof (cases "undo_begin t m")
        case (Pair res m')
        then show ?thesis
          by (cases res) (auto simp: once_inv_def undo_step_def fields Begin_run e spent_in_def
              dest!: undo_begin_Inr)
      qed
    qed
  qed (use inv fields in \<open>auto simp: once_inv_def undo_step_def undo_finish_store spent_in_def split: list.splits\<close>)
qed

text \<open>C12. A registered reversal completes at most once, however the runs of its token interleave with
  each other, and while one is in flight every other run is refused.\<close>

theorem undo_at_most_once:
  assumes "\<not> spent_in m t"
  shows "case fold (undo_step t) steps (m, [], 0) of (m', pending, ndone) \<Rightarrow>
     ndone + length pending \<le> 1 \<and> (ndone + length pending = 1 \<longrightarrow> (\<exists>why. undo_begin t m' = (Inl why, m')))"
proof -
  have "once_inv t (fold (undo_step t) steps s)" if "once_inv t s" for s :: "'a undo_store \<times> 'a undo_rec list \<times> nat"
    by (rule fold_invariant [where Q = "\<lambda>_. True"]) (simp_all add: that once_inv_step)
  from this [of "(m, [], 0)"] show ?thesis
    by (auto simp: once_inv_def undo_begin_spent add.commute split: prod.splits)
qed

theorem undo_at_most_once_witness:
  "let m = undo_register 0 ''t'' (Some ''x'') JNull None ([] :: unit undo_store);
       s = fold (undo_step ''t'') [Begin_run, Begin_run, Replay_threw, Begin_run, Replay_done, Begin_run] (m, [], 0)
   in \<not> spent_in m ''t'' \<and> snd s = ([], 1)"
proof -
  let ?m = "undo_register 0 ''t'' (Some ''x'') JNull None ([] :: unit undo_store)"
  have n: "\<not> spent_in ?m ''t''" by (simp add: undo_register_def spent_in_def)
  have "snd (fold (undo_step ''t'') [Begin_run, Begin_run, Replay_threw, Begin_run, Replay_done, Begin_run] (?m, [], 0)) = ([], 1)"
    by (simp add: undo_step_def undo_begin_def undo_finish_store undo_register_def)
  with n undo_at_most_once [OF n, of "[Begin_run, Begin_run, Replay_threw, Begin_run, Replay_done, Begin_run]"]
  show ?thesis by (simp add: Let_def)
qed

end
