(* ===== verification/Response_Plan.thy ===== *)
theory Response_Plan
  imports Prelude
begin

text \<open>
  The response plans of src/domain/response-plan.js: for each incident type the domain expert that
  owns it and the hops down the organisation chart, of which the dangerous ones need consent.
\<close>

record hop =
  hop_from :: string
  hop_to :: string
  hop_doing :: string
  hop_dangerous :: bool

record response_plan =
  rp_l1 :: string
  rp_chain :: "hop list"

definition hop :: "string \<Rightarrow> string \<Rightarrow> string \<Rightarrow> hop" where
  "hop a b what = \<lparr>hop_from = a, hop_to = b, hop_doing = what, hop_dangerous = False\<rparr>"

definition danger_hop :: "string \<Rightarrow> string \<Rightarrow> string \<Rightarrow> hop" where
  "danger_hop a b what = \<lparr>hop_from = a, hop_to = b, hop_doing = what, hop_dangerous = True\<rparr>"

definition response_plans :: "(string, response_plan) jsmap" where
  "response_plans =
     [(''traffic-accident'', \<lparr>rp_l1 = ''accident'', rp_chain =
         [hop ''accident'' ''ambulatory'' ''assess whether anyone needs EMS'',
          danger_hop ''ambulatory'' ''emergency-dispatch'' ''request an ambulance'',
          hop ''accident'' ''police'' ''decide whether police must be notified'',
          danger_hop ''police'' ''emergency-dispatch'' ''place the call to police'',
          hop ''accident'' ''procurement'' ''line up a crane if heavy recovery is needed'',
          danger_hop ''procurement'' ''procurement-gateway'' ''authorize the crane callout (public spend)'',
          hop ''accident'' ''evidence-desk'' ''keep a camera on the scene'',
          danger_hop ''evidence-desk'' ''surveillance-ops'' ''export the collision footage as evidence'']\<rparr>),
      (''fire'', \<lparr>rp_l1 = ''fire'', rp_chain =
         [hop ''fire'' ''fire-department'' ''request a fire response'',
          danger_hop ''fire-department'' ''emergency-dispatch'' ''place the fire-dispatch call'',
          hop ''fire'' ''ambulatory'' ''assess whether anyone needs EMS'',
          danger_hop ''ambulatory'' ''emergency-dispatch'' ''request an ambulance'',
          hop ''fire'' ''procurement'' ''line up a private hazmat contractor if the load is unknown'',
          danger_hop ''procurement'' ''procurement-gateway'' ''authorize the hazmat vendor callout (public spend)'']\<rparr>),
      (''utility-hazard'', \<lparr>rp_l1 = ''utility'', rp_chain =
         [hop ''utility'' ''utility-ops'' ''read the affected grid segment'',
          danger_hop ''utility'' ''utility-control'' ''cut power to the block'',
          danger_hop ''utility'' ''utility-control'' ''shut off gas to the block'',
          hop ''utility'' ''utility-ops'' ''restore power once the hazard is cleared'']\<rparr>),
      (''public-warning'', \<lparr>rp_l1 = ''comms'', rp_chain =
         [hop ''comms'' ''public-info'' ''size the audience for the affected area'',
          danger_hop ''comms'' ''notify-gateway'' ''post a neighborhood advisory'',
          danger_hop ''comms'' ''notify-gateway'' ''send a reverse-911 to residents'']\<rparr>),
      (''fallen-signage'', \<lparr>rp_l1 = ''roadside'', rp_chain =
         [hop ''roadside'' ''roadside'' ''open a work order to clear the obstruction'']\<rparr>),
      (''road-maintenance'', \<lparr>rp_l1 = ''roadside'', rp_chain =
         [hop ''roadside'' ''roadside'' ''open a Seattle DOT work order'']\<rparr>)]"

text \<open>The names an object literal inherits, for which a lookup by key finds a function.\<close>

definition object_proto :: "string list" where
  "object_proto =
     [''constructor'', ''__defineGetter__'', ''__defineSetter__'', ''hasOwnProperty'', ''__lookupGetter__'',
      ''__lookupSetter__'', ''isPrototypeOf'', ''propertyIsEnumerable'', ''toString'', ''valueOf'', ''__proto__'',
      ''toLocaleString'']"

text \<open>\<open>planFor\<close>; \<open>None\<close> is an inherited function, which has no chain.\<close>

definition plan_for :: "string option \<Rightarrow> response_plan option" where
  "plan_for incident =
     (let k = (case incident of None \<Rightarrow> ''undefined'' | Some i \<Rightarrow> i) in
      case map_of response_plans k of
        Some p \<Rightarrow> Some p
      | None \<Rightarrow> if k \<in> set object_proto then None else map_of response_plans ''road-maintenance'')"

section \<open>The plans hang together\<close>

text \<open>Each hop starts from an agent that the incident has already reached.\<close>

fun connected :: "string list \<Rightarrow> hop list \<Rightarrow> bool" where
  "connected known [] = True"
| "connected known (h # hs) = (hop_from h \<in> set known \<and> connected (hop_to h # known) hs)"

lemma plans_connected: "list_all (\<lambda>(i, p). connected [rp_l1 p] (rp_chain p)) response_plans"
  by (simp add: response_plans_def hop_def danger_hop_def)

text \<open>A dangerous hop never hands on: what it reaches starts no hop of its plan.\<close>

definition terminal_dangers :: "response_plan \<Rightarrow> bool" where
  "terminal_dangers p =
     list_all (\<lambda>h. hop_dangerous h \<longrightarrow> \<not> list_ex (\<lambda>k. hop_from k = hop_to h) (rp_chain p)) (rp_chain p)"

lemma plans_terminal: "list_all (\<lambda>(i, p). terminal_dangers p) response_plans"
  by (simp add: response_plans_def terminal_dangers_def hop_def danger_hop_def)

lemma map_of_list_all: "list_all (\<lambda>(k, v). P v) m \<Longrightarrow> map_of m k = Some v \<Longrightarrow> P v"
  by (induction m) (auto split: if_splits)

lemma plan_for_SomeD:
  assumes "plan_for i = Some p"
  obtains k where "map_of response_plans k = Some p"
  using assms by (auto simp: plan_for_def Let_def split: option.splits if_splits)

lemma plan_for_connected: "plan_for i = Some p \<Longrightarrow> connected [rp_l1 p] (rp_chain p) \<and> terminal_dangers p"
  using plan_for_SomeD map_of_list_all [OF plans_connected] map_of_list_all [OF plans_terminal] by metis

end
