(* ===== verification/Narrate.thy ===== *)
theory Narrate
  imports Response_Plan Json Js_Regex
begin

text \<open>
  The level of an agent in the organisation chart (src/telemetry/display.js) and the phrases and
  hand-offs of the action stream (src/telemetry/narrate.js).  An agent name is a string or absent;
  a ledger entry is a JSON value.
\<close>

section \<open>Levels\<close>

datatype level = Lv nat | Lv_operator | Lv_input | Lv_none | Lv_inherited

type_synonym level_map = "(string, nat) jsmap"

definition special_levels :: "(string, nat) jsmap" where
  "special_levels = [(''l0'', 0), (''omoda:judge'', 0), (''omoda:integration'', 3)]"

text \<open>\<open>agent in SPECIAL_LEVELS\<close> also holds of the inherited names, whose value is a function.\<close>

definition level_for :: "string option \<Rightarrow> level_map \<Rightarrow> level" where
  "level_for agent levels =
     (case agent of
        None \<Rightarrow> Lv_none
      | Some a \<Rightarrow>
          if a = [] then Lv_none
          else if starts_with a ''operator'' then Lv_operator
          else if starts_with a ''coco'' then Lv_input
          else if starts_with a ''telegram'' then Lv_input
          else if starts_with a ''stream:'' \<or> starts_with a ''see:'' then Lv_input
          else (case map_of special_levels a of
                  Some n \<Rightarrow> Lv n
                | None \<Rightarrow>
                    if a \<in> set object_proto then Lv_inherited
                    else (case map_of levels a of None \<Rightarrow> Lv_none | Some n \<Rightarrow> Lv n)))"

definition skill_level_map :: "(string \<times> nat option) list \<Rightarrow> level_map" where
  "skill_level_map skills =
     foldl (\<lambda>m s. if fst s = [] then m else jset m (fst s) (case snd s of None \<Rightarrow> 2 | Some n \<Rightarrow> n)) [] skills"

fun level_json :: "level \<Rightarrow> json" where
  "level_json (Lv n) = JNum (int n)"
| "level_json Lv_operator = JStr ''operator''"
| "level_json Lv_input = JStr ''input''"
| "level_json Lv_none = JNull"
| "level_json Lv_inherited = JUndef"

text \<open>\<open>entry.agent\<close> as a name; the recorded agents are strings.\<close>

definition name_of :: "json \<Rightarrow> string option" where
  "name_of v = (case v of JStr s \<Rightarrow> Some s | _ \<Rightarrow> None)"

definition to_agent_display :: "json \<Rightarrow> level_map \<Rightarrow> (string \<times> json) list" where
  "to_agent_display e levels =
     (let verb = (if truthy (obj_get e ''verb'') then js_string (obj_get e ''verb'') @ '' '' else []) in
      [(''seq'', obj_get e ''seq''),
       (''name'', js_coalesce (obj_get e ''agent'') (JStr ''unknown'')),
       (''level'', level_json (level_for (name_of (obj_get e ''agent'')) levels)),
       (''action'', JStr (js_trim (verb @ js_string (js_coalesce (obj_get e ''tool'') (JStr ''-''))))),
       (''instruction'', js_coalesce (obj_get e ''reason'') JNull),
       (''outcome'', js_coalesce (obj_get e ''outcome'') JNull),
       (''tier'', js_coalesce (obj_get e ''tier'') (js_coalesce (obj_get e ''kind'') JNull))])"

section \<open>Names and phrases\<close>

definition role_name :: "nat \<Rightarrow> string option" where
  "role_name n = map_of [(0, ''orchestrator''), (1, ''domain expert''), (2, ''worker''), (3, ''tool specialist'')] n"

definition speaker_rx :: rx where
  "speaker_rx = rx_seqs [Bol, rx_alts (map rx_lit [''coco'', ''telegram'', ''stream'', ''see'']), rx_lit '':'']"

definition replace_chars :: "string \<Rightarrow> string \<Rightarrow> string" where
  "replace_chars cs s = map (\<lambda>c. if c \<in> set cs then CHR '' '' else c) s"

definition pretty :: "string option \<Rightarrow> string" where
  "pretty name =
     replace_chars ''-_'' (rx_replace speaker_rx (case name of None \<Rightarrow> ''agent'' | Some n \<Rightarrow> n) [])"

definition agent_name :: "string option \<Rightarrow> string" where
  "agent_name name =
     (if name = Some ''l0'' then ''OMODA''
      else if starts_with (case name of None \<Rightarrow> ''undefined'' | Some n \<Rightarrow> n) ''operator'' then ''the operator''
      else replace_chars '':'' (pretty name))"

definition blocked_rx :: rx where
  "blocked_rx = rx_alts (map rx_lit [''prohibited'', ''self-protection'', ''mass-broadcast''])"

text \<open>The phrase is a text, or the reason or tool of the entry as they are.\<close>

definition action_phrase :: "json \<Rightarrow> json" where
  "action_phrase e =
     (let tool = js_coalesce (obj_get e ''tool'') (js_coalesce (obj_get e ''kind'') (JStr ''an action''));
          t = js_string tool;
          why = js_coalesce (obj_get e ''reason'') JNull;
          out = obj_get e ''outcome'' in
      if obj_get e ''tier'' = JStr ''prohibited'' \<or> (out = JStr ''refused'' \<and> rx_test blocked_rx (js_string why))
      then JStr (''blocked from '' @ t)
      else if out = JStr ''escalated'' \<or> truthy (obj_get e ''consentNeeded'') then JStr (''awaiting approval to run '' @ t)
      else if out = JStr ''refused'' then JStr (''refused '' @ t)
      else if out = JStr ''executed'' then JStr (''ran '' @ t)
      else if out = JStr ''admitted'' then JStr (''running '' @ t)
      else if obj_get e ''tool'' = JStr ''telegram.decide''
      then JStr (if why = JStr ''approve'' then ''approved the pending action'' else ''decided on the pending action'')
      else if obj_get e ''tool'' = JStr ''telegram.undo'' \<or> out = JStr ''undone'' then JStr (''reversed '' @ t)
      else if obj_get e ''kind'' = JStr ''coco'' \<or> obj_get e ''kind'' = JStr ''coco-live''
      then (if truthy why then why else JStr (''handled '' @ t))
      else if truthy why then why else tool)"

record agent_card =
  card_name :: "string option"
  card_level :: level
  card_role :: "string option"
  card_phrase :: string

definition describe_agent :: "string option \<Rightarrow> level_map \<Rightarrow> agent_card" where
  "describe_agent name levels =
     (let lv = level_for name levels;
          who = ''the '' @ pretty name in
      if name = Some ''l0''
      then \<lparr>card_name = name, card_level = lv, card_role = Some ''orchestrator'', card_phrase = ''OMODA''\<rparr>
      else
        (case lv of
           Lv_operator \<Rightarrow> \<lparr>card_name = name, card_level = lv, card_role = Some ''operator'', card_phrase = ''the operator''\<rparr>
         | Lv n \<Rightarrow>
             \<lparr>card_name = name, card_level = lv, card_role = role_name n,
              card_phrase = who @ '' '' @ (case role_name n of None \<Rightarrow> ''undefined'' | Some r \<Rightarrow> r) @ '' (L'' @ show_nat n @ '')''\<rparr>
         | Lv_input \<Rightarrow> \<lparr>card_name = name, card_level = lv, card_role = Some ''input'', card_phrase = who @ '' feed''\<rparr>
         | Lv_none \<Rightarrow> \<lparr>card_name = name, card_level = lv, card_role = None, card_phrase = who\<rparr>
         | Lv_inherited \<Rightarrow> \<lparr>card_name = name, card_level = lv, card_role = None, card_phrase = who\<rparr>))"

text \<open>\<open>s[0].toUpperCase()\<close> on the units modelled (sharp s and micro sign map outside of them).\<close>

definition js_upper_char :: "char \<Rightarrow> char" where
  "js_upper_char c =
     (let n = (of_char c :: nat) in
      if (97 \<le> n \<and> n \<le> 122) \<or> (224 \<le> n \<and> n \<le> 254 \<and> n \<noteq> 247) then char_of (n - 32) else c)"

definition cap :: "string \<Rightarrow> string" where
  "cap s = (case s of [] \<Rightarrow> [] | c # t \<Rightarrow> js_upper_char c # t)"

section \<open>Hand-offs\<close>

record handoff =
  ho_headline :: string
  ho_agent :: agent_card
  ho_relies :: "agent_card option"
  ho_doing :: string
  ho_dangerous :: bool
  ho_intent :: json

definition narrate_handoff :: "hop \<Rightarrow> json \<Rightarrow> level_map \<Rightarrow> handoff" where
  "narrate_handoff h intent levels =
     (let a = describe_agent (Some (hop_from h)) levels;
          b = describe_agent (Some (hop_to h)) levels;
          self = (hop_from h = hop_to h) in
      \<lparr>ho_headline =
         (if self then cap (card_phrase a) @ '' will '' @ hop_doing h @ ''.''
          else cap (card_phrase a) @ '' handed off to '' @ card_phrase b @ '' to '' @ hop_doing h @ ''.'' @
               (if hop_dangerous h then '' This is a dangerous action, so it is held for human approval.'' else [])),
       ho_agent = a, ho_relies = (if self then None else Some b), ho_doing = hop_doing h,
       ho_dangerous = hop_dangerous h, ho_intent = intent\<rparr>)"

definition narrate_entry :: "json \<Rightarrow> (string \<times> json) list" where
  "narrate_entry e =
     [(''seq'', js_coalesce (obj_get e ''seq'') JNull), (''agent'', JStr (agent_name (name_of (obj_get e ''agent'')))),
      (''action'', action_phrase e)]"

definition handoff_activity :: "handoff \<Rightarrow> (string \<times> json) list" where
  "handoff_activity ev =
     [(''seq'', JNull), (''agent'', JStr (agent_name (card_name (ho_agent ev)))),
      (''action'', JStr (if ho_dangerous ev then ho_doing ev @ '' (awaiting approval)'' else ho_doing ev))]"

text \<open>The flow of an incident: the hand-off from L0 to the expert, then the plan.  \<open>None\<close>: the
  incident type is an inherited name, and iterating over its missing chain throws.\<close>

definition narrate_response :: "string option \<Rightarrow> string option \<Rightarrow> json \<Rightarrow> level_map \<Rightarrow> handoff list option" where
  "narrate_response incident l1 intent levels =
     (case plan_for incident of
        None \<Rightarrow> None
      | Some p \<Rightarrow>
          Some (narrate_handoff
                  (hop ''l0'' (case l1 of None \<Rightarrow> rp_l1 p | Some a \<Rightarrow> a)
                    (''take the '' @ pretty incident @ '' and coordinate the response'')) intent levels
                # map (\<lambda>h. narrate_handoff h intent levels) (rp_chain p)))"

section \<open>Lemmas\<close>

lemma narrate_handoff_dangerous [simp]: "ho_dangerous (narrate_handoff h i lv) = hop_dangerous h"
  by (simp add: narrate_handoff_def Let_def)

lemma describe_agent_name [simp]: "card_name (describe_agent name lv) = name"
  by (simp add: describe_agent_def Let_def split: level.split)

text \<open>Every level of a skill agent is the one of its manifest, unless its name is reserved.\<close>

definition reserved_name :: "string \<Rightarrow> bool" where
  "reserved_name a =
     (a = [] \<or> list_ex (starts_with a) [''operator'', ''coco'', ''telegram'', ''stream:'', ''see:''] \<or>
      jhas special_levels a \<or> a \<in> set object_proto)"

lemma level_for_skill: "\<not> reserved_name a \<Longrightarrow> map_of levels a = Some n \<Longrightarrow> level_for (Some a) levels = Lv n"
  by (auto simp: level_for_def reserved_name_def jhas_def)

text \<open>The narration of an incident says of every dangerous hop that it is held, and of no other.\<close>

lemma narrate_response_dangerous:
  assumes "narrate_response incident l1 intent levels = Some (first # rest)"
  obtains p where "plan_for incident = Some p" and "\<not> ho_dangerous first"
    and "map ho_dangerous rest = map hop_dangerous (rp_chain p)"
  using assms by (auto simp: narrate_response_def hop_def split: option.splits)

end
