(* ===== verification/Audit_Stream.thy ===== *)
theory Audit_Stream
  imports Narrate
begin

text \<open>
  The audit stream of src/telemetry/audit.js: which ledger records belong to the response to a
  trigger, and their projection (with that of the hand-offs) into the record the dashboard shows.
\<close>

definition non_audit_kinds :: "string list" where
  "non_audit_kinds =
     [''coco'', ''coco-live'', ''frame'', ''observation'', ''knowledge'', ''triggers'', ''api'', ''control'', ''telegram'', ''judge'']"

definition is_audit_worthy :: "json \<Rightarrow> bool" where
  "is_audit_worthy e =
     (if \<not> truthy e then False
      else if (case obj_get e ''kind'' of JStr k \<Rightarrow> k \<in> set non_audit_kinds | _ \<Rightarrow> False) then False
      else if obj_get e ''outcome'' = JStr ''admitted'' \<and>
              (obj_get e ''tier'' = JStr ''safe'' \<or> obj_get e ''tier'' = JStr ''contained'') then False
      else True)"

definition noun_for :: "json \<Rightarrow> json" where
  "noun_for e =
     (if truthy (obj_get e ''resource'') then JStr (js_string (obj_get e ''resource''))
      else
        (let tool = js_string (js_coalesce (obj_get e ''tool'') (JStr []));
             parts = js_split (CHR ''.'') tool in
         if length parts \<ge> 2 then JStr (parts ! (length parts - 2))
         else if tool = [] then JNull else JStr tool))"

definition arrow :: string where
  "arrow = '' -> ''"

text \<open>\<open>s.split(" -> ")[0]\<close>.\<close>

definition before_arrow :: "string \<Rightarrow> string" where
  "before_arrow s = (case index_of s arrow of None \<Rightarrow> s | Some i \<Rightarrow> take i s)"

definition phrase_for :: "json \<Rightarrow> json" where
  "phrase_for e =
     (if truthy (obj_get e ''triggerPhrase'') then JStr (js_string (obj_get e ''triggerPhrase''))
      else
        (case obj_get e ''reason'' of
           JStr r \<Rightarrow>
             if obj_get e ''kind'' = JStr ''orchestrator'' \<and> js_includes r arrow then JStr (js_trim (before_arrow r)) else JNull
         | _ \<Rightarrow> JNull))"

text \<open>The authority of a record is a string or absent.\<close>

definition authority_for :: "json \<Rightarrow> (string \<times> json) list" where
  "authority_for e =
     (case obj_get e ''authority'' of
        JStr a \<Rightarrow>
          if a = [] then [(''kind'', JStr ''none''), (''who'', JNull)]
          else if starts_with a ''decision:''
          then [(''kind'', JStr ''operator''), (''who'', js_coalesce (obj_get e ''decidedBy'') JNull), (''ref'', JStr (drop 9 a))]
          else if starts_with a ''operator''
          then [(''kind'', JStr ''operator''),
                (''who'', if CHR '':'' \<in> set a then JStr (js_join '':'' (tl (js_split (CHR '':'') a))) else JNull)]
          else if a = ''envelope'' then [(''kind'', JStr ''envelope''), (''who'', JNull)]
          else if a = ''pending'' then [(''kind'', JStr ''pending''), (''who'', JNull)]
          else [(''kind'', JStr a), (''who'', JNull)]
      | _ \<Rightarrow> [(''kind'', JStr ''none''), (''who'', JNull)])"

definition opt_str :: "string option \<Rightarrow> json" where
  "opt_str v = (case v of None \<Rightarrow> JNull | Some s \<Rightarrow> JStr s)"

definition tier_for :: "string option \<Rightarrow> level_map \<Rightarrow> json" where
  "tier_for name levels =
     (let card = describe_agent name levels;
          label = (case card_level card of
                     Lv n \<Rightarrow> JStr (''L'' @ show_nat n)
                   | Lv_none \<Rightarrow> JStr ''unknown''
                   | l \<Rightarrow> level_json l)
      in JObj [(''level'', level_json (card_level card)), (''label'', label), (''role'', opt_str (card_role card))])"

definition kind_of_authority :: "(string \<times> json) list \<Rightarrow> json" where
  "kind_of_authority a = obj_get (JObj a) ''kind''"

definition ledger_to_audit :: "json \<Rightarrow> level_map \<Rightarrow> (string \<times> json) list" where
  "ledger_to_audit e levels =
     (let who = describe_agent (name_of (obj_get e ''agent'')) levels;
          authority = authority_for e;
          outcome = (if obj_get e ''outcome'' = JStr ''admitted'' \<and> kind_of_authority authority = JStr ''pending''
                     then JStr ''awaiting-approval'' else js_coalesce (obj_get e ''outcome'') JNull)
      in [(''time'', js_coalesce (obj_get e ''at'') JNull),
          (''agent'', JObj [(''name'', obj_get e ''agent''), (''display'', JStr (card_phrase who))]),
          (''tool'', js_coalesce (obj_get e ''tool'') JNull),
          (''trigger'', JObj [(''verb'', js_coalesce (obj_get e ''verb'') JNull), (''noun'', noun_for e), (''phrase'', phrase_for e)]),
          (''tier'', tier_for (name_of (obj_get e ''agent'')) levels),
          (''authority'', JObj authority),
          (''outcome'', outcome),
          (''intent'', JObj [(''id'', js_coalesce (obj_get e ''intentId'') JNull), (''why'', js_coalesce (obj_get e ''reason'') JNull)]),
          (''source'', JStr ''ledger''),
          (''seq'', js_coalesce (obj_get e ''seq'') JNull),
          (''hash'', js_coalesce (obj_get e ''hash'') JNull)])"

definition handoff_to_audit :: "handoff \<Rightarrow> level_map \<Rightarrow> (string \<times> json) list" where
  "handoff_to_audit ev levels =
     (let name = card_name (ho_agent ev) in
      [(''time'', JNull),
       (''agent'', JObj [(''name'', opt_str name), (''display'', JStr (card_phrase (describe_agent name levels)))]),
       (''tool'', JNull),
       (''trigger'', JObj [(''verb'', JStr ''delegate''),
          (''noun'', case ho_relies ev of None \<Rightarrow> JNull | Some b \<Rightarrow> opt_str (card_name b)), (''phrase'', JNull)]),
       (''tier'', tier_for name levels),
       (''authority'', JObj [(''kind'', JStr (if ho_dangerous ev then ''pending'' else ''envelope'')), (''who'', JNull)]),
       (''outcome'', JStr (if ho_dangerous ev then ''awaiting-approval'' else ''handed-off'')),
       (''intent'', JObj [(''id'', js_coalesce (ho_intent ev) JNull), (''why'', JStr (ho_doing ev))]),
       (''relies_on'', case ho_relies ev of None \<Rightarrow> JNull
          | Some b \<Rightarrow> JObj [(''name'', opt_str (card_name b)), (''tier'', tier_for (card_name b) levels)]),
       (''source'', JStr ''engagement''),
       (''seq'', JNull),
       (''hash'', JNull)])"

section \<open>Lemmas\<close>

lemma before_arrow_append: "CHR '' '' \<notin> set s \<Longrightarrow> before_arrow (s @ arrow @ t) = s"
proof (induction s)
  case Nil
  show ?case by (cases t) (simp_all add: before_arrow_def arrow_def starts_with_def)
next
  case (Cons c s)
  then have "\<not> starts_with (c # s @ arrow @ t) arrow" by (auto simp: starts_with_def arrow_def)
  then show ?case using Cons by (auto simp: before_arrow_def split: option.splits)
qed

lemma includes_arrow: "js_includes (s @ arrow @ t) arrow"
  by (simp add: js_includes_iff_sublist)

text \<open>The trigger phrase of a routing record is its incident type.\<close>

lemma phrase_for_route:
  assumes "CHR '' '' \<notin> set incident" and "js_trim incident = incident"
    and "obj_get e ''kind'' = JStr ''orchestrator''" and "obj_get e ''reason'' = JStr (incident @ arrow @ l1)"
    and "\<not> truthy (obj_get e ''triggerPhrase'')"
  shows "phrase_for e = JStr incident"
  using assms before_arrow_append [OF assms(1)] includes_arrow by (simp add: phrase_for_def)

text \<open>A record shows an operator as its authority only if it names one: a decision or an operator.\<close>

lemma operator_authority:
  "kind_of_authority (authority_for e) = JStr ''operator'' \<longleftrightarrow>
     (\<exists>a. obj_get e ''authority'' = JStr a \<and> (starts_with a ''decision:'' \<or> starts_with a ''operator''))"
proof (cases "obj_get e ''authority''")
  case (JStr a)
  consider "a = []" | "a \<noteq> []" "starts_with a ''decision:''" | "a \<noteq> []" "\<not> starts_with a ''decision:''" "starts_with a ''operator''"
    | (other) "a \<noteq> []" "\<not> starts_with a ''decision:''" "\<not> starts_with a ''operator''" by blast
  then show ?thesis
  proof cases
    case other
    then have "a \<noteq> ''operator''" by (metis starts_with_refl)
    with JStr other show ?thesis by (simp add: authority_for_def kind_of_authority_def)
  qed (simp_all add: JStr authority_for_def kind_of_authority_def starts_with_def [of "[]"])
qed (simp_all add: authority_for_def kind_of_authority_def)

text \<open>The outcome of a projection is that of the record, but for an escalation that waits.\<close>

lemma audit_outcome:
  "obj_get (JObj (ledger_to_audit e levels)) ''outcome'' =
     (if obj_get e ''outcome'' = JStr ''admitted'' \<and> kind_of_authority (authority_for e) = JStr ''pending''
      then JStr ''awaiting-approval'' else js_coalesce (obj_get e ''outcome'') JNull)"
  by (simp add: ledger_to_audit_def Let_def)

end
