(* ===== verification/Telegram_Loop.thy ===== *)
theory Telegram_Loop
  imports Telegram Undo Audit_Stream
begin

text \<open>
  The operator loop of src/channels/telegram-loop.js: one update in, at most one command carried out
  through the same intent store, undo registry and ledger that the Action API uses.

  The state is everything a command can touch; \<open>'w\<close> is the policy port and whatever a replay or an
  executed action reaches, \<open>'r\<close> the type of a registered replay.  What comes from outside is in
  \<open>loop_env\<close>: the transport, the clock and a fresh id, \<open>revertAll\<close> of the policy port, the replay of an
  inverse, the media transform and the callback for a settled approval (each \<open>None\<close> when not configured;
  the callback runs the broker over the ledger, the undo registry and the world).
  An awaited call that throws ends the handler with \<open>Inl\<close> of its message, leaving what was done so far.
  The data of a tap are a verdict, an intent and an action; a missing intent is unknown to the store, a
  missing action is read as the word \<open>undefined\<close>, which no registered action has as its id.
\<close>

section \<open>State and results\<close>

record ('r, 'w) loop_state =
  tl_intents :: intent_store
  tl_ledger :: ledger
  tl_undo :: "'r undo_store"
  tl_world :: 'w
  tl_calls :: tg_calls
  tl_events :: "(string \<times> (string \<times> json) list) list"
  tl_halted :: bool
  tl_offset :: int

record ('r, 'w) loop_env =
  te_client :: tg_client
  te_wire :: tg_wire
  te_operator :: caller
  te_append :: "(string \<times> json) list \<Rightarrow> ledger \<Rightarrow> (string + json) \<times> ledger"
  te_bus :: bool
  te_media :: "(detected \<Rightarrow> string + transcript) option"
  te_revert :: "('w \<Rightarrow> (string + nat) \<times> 'w) option"
  te_replay :: "('r \<Rightarrow> 'r undo_rec \<Rightarrow> 'w \<Rightarrow> (string + json) \<times> 'w) option"
  te_approved :: "(intent \<Rightarrow> action \<Rightarrow> decision \<Rightarrow> ledger \<times> 'r undo_store \<times> 'w \<Rightarrow> ledger \<times> 'r undo_store \<times> 'w) option"
  te_uuid :: string
  te_now :: int
  te_at :: string

datatype loop_result =
    No_command
  | Inert command
  | Outcome command bool
  | Transcribed command string string
  | Not_transcribed command string
  | Halted_result command nat
  | Halt_failed command

definition create_loop :: "intent_store \<Rightarrow> ledger \<Rightarrow> 'r undo_store \<Rightarrow> 'w \<Rightarrow> ('r, 'w) loop_state" where
  "create_loop intents l undo w =
     \<lparr>tl_intents = intents, tl_ledger = l, tl_undo = undo, tl_world = w, tl_calls = [], tl_events = [],
      tl_halted = False, tl_offset = 0\<rparr>"

section \<open>Steps of a handler\<close>

text \<open>An awaited step and what follows it if it does not throw.\<close>

definition after :: "(string + 'a) \<times> 's \<Rightarrow> ('a \<Rightarrow> 's \<Rightarrow> (string + 'b) \<times> 's) \<Rightarrow> (string + 'b) \<times> 's" where
  "after r k = (case r of (Inl msg, s) \<Rightarrow> (Inl msg, s) | (Inr v, s) \<Rightarrow> k v s)"

definition with_calls ::
  "(tg_calls \<Rightarrow> (string + json) \<times> tg_calls) \<Rightarrow> ('r, 'w) loop_state \<Rightarrow> (string + json) \<times> ('r, 'w) loop_state" where
  "with_calls f s = (case f (tl_calls s) of (r, calls) \<Rightarrow> (r, s\<lparr>tl_calls := calls\<rparr>))"

definition say :: "('r, 'w) loop_env \<Rightarrow> json \<Rightarrow> string \<Rightarrow> ('r, 'w) loop_state \<Rightarrow> (string + json) \<times> ('r, 'w) loop_state" where
  "say e chat text = with_calls (tg_send (te_wire e) (te_client e) chat text)"

definition loop_entry :: "('r, 'w) loop_env \<Rightarrow> (string \<times> json) list \<Rightarrow> (string \<times> json) list" where
  "loop_entry e entry =
     [(''kind'', JStr ''telegram''), (''agent'', JStr (cl_id (te_operator e))), (''verb'', JStr ''update'')] @ entry"

definition put_entry :: "('r, 'w) loop_env \<Rightarrow> (string \<times> json) list \<Rightarrow> ('r, 'w) loop_state \<Rightarrow> ('r, 'w) loop_state" where
  "put_entry e entry s = s\<lparr>tl_ledger := snd (te_append e entry (tl_ledger s))\<rparr>"

definition log_loop :: "('r, 'w) loop_env \<Rightarrow> (string \<times> json) list \<Rightarrow> ('r, 'w) loop_state \<Rightarrow> ('r, 'w) loop_state" where
  "log_loop e entry s = put_entry e (loop_entry e entry) s"

section \<open>Decisions\<close>

definition tap_reason :: "('r, 'w) loop_env \<Rightarrow> string" where
  "tap_reason e = ''decided from Telegram by '' @ cl_id (te_operator e)"

definition tap_decision ::
  "('r, 'w) loop_env \<Rightarrow> string \<Rightarrow> json \<Rightarrow> json \<Rightarrow> intent_store \<Rightarrow> ((nat \<times> string) + decision) \<times> intent_store" where
  "tap_decision e verdict iid aid store =
     (case iid of
        JStr i \<Rightarrow> decide (te_uuid e) (te_now e) (te_at e) i (js_string aid) verdict (tap_reason e) (te_operator e) store
      | _ \<Rightarrow> (Inl (404, ''unknown intent''), store))"

definition intent_at :: "json \<Rightarrow> intent_store \<Rightarrow> intent option" where
  "intent_at iid store = (case iid of JStr i \<Rightarrow> map_of (st_by_id store) i | _ \<Rightarrow> None)"

definition decided_action :: "(nat \<times> string) + decision \<Rightarrow> json \<Rightarrow> json \<Rightarrow> intent_store \<Rightarrow> action option" where
  "decided_action out iid aid store =
     (case out of
        Inl _ \<Rightarrow> None
      | Inr d \<Rightarrow> (case intent_at iid store of None \<Rightarrow> None | Some i \<Rightarrow> find (\<lambda>a. ac_id a = aid) (in_actions i)))"

definition unsettled :: "decision \<Rightarrow> bool" where
  "unsettled d = (dc_settled d = JBool False)"

definition settled_outcome :: "(nat \<times> string) + decision \<Rightarrow> string \<Rightarrow> string" where
  "settled_outcome out verdict =
     (case out of
        Inl _ \<Rightarrow> ''refused''
      | Inr d \<Rightarrow> if unsettled d then ''approved-partial'' else if verdict = ''approve'' then ''approved'' else ''denied'')"

definition decision_entry ::
  "('r, 'w) loop_env \<Rightarrow> (nat \<times> string) + decision \<Rightarrow> string \<Rightarrow> json \<Rightarrow> action option \<Rightarrow> (string \<times> json) list" where
  "decision_entry e out verdict iid decided =
     [(''verb'', case decided of None \<Rightarrow> JStr ''update'' | Some a \<Rightarrow> js_coalesce (verb_value (ac_verb a)) (JStr ''update'')),
      (''kind'', JStr ''decision''), (''agent'', JStr (cl_id (te_operator e))),
      (''tool'', case decided of None \<Rightarrow> JStr ''telegram.decide''
                 | Some a \<Rightarrow> (case ac_tool a of None \<Rightarrow> JStr ''telegram.decide'' | Some t \<Rightarrow> JStr t)),
      (''impact'', case decided of None \<Rightarrow> JArr [] | Some a \<Rightarrow> js_coalesce (ac_impact a) (JArr [])),
      (''authority'', JStr (''operator:'' @ cl_id (te_operator e))), (''decidedBy'', JStr (cl_id (te_operator e))),
      (''outcome'', JStr (settled_outcome out verdict)),
      (''reason'', JStr (case out of Inl (st, why) \<Rightarrow> why
                         | Inr d \<Rightarrow> ''operator '' @ verdict @ (if unsettled d then '' (1 of 2)'' else []))),
      (''intentId'', iid)]"

definition decision_event ::
  "('r, 'w) loop_env \<Rightarrow> (nat \<times> string) + decision \<Rightarrow> string \<Rightarrow> json \<Rightarrow> action \<Rightarrow> intent_store \<Rightarrow> string \<times> (string \<times> json) list" where
  "decision_event e out verdict iid a store =
     (''agent'',
      [(''agentRoutedTo'', js_coalesce (ac_agent a) JNull),
       (''incident'', case intent_at iid store of None \<Rightarrow> JNull
                      | Some i \<Rightarrow> js_coalesce (obj_get (JObj (in_evidence i)) ''incident_type'') JNull),
       (''action'', case ac_tool a of None \<Rightarrow> JUndef | Some t \<Rightarrow> JStr t),
       (''decision'', JStr (settled_outcome out verdict)), (''by'', JStr (cl_id (te_operator e))), (''intentId'', iid)])"

text \<open>What follows the replies to the operator: the audit entry, the event and the execution.\<close>

definition conclude_decision ::
  "('r, 'w) loop_env \<Rightarrow> (nat \<times> string) + decision \<Rightarrow> string \<Rightarrow> json \<Rightarrow> json \<Rightarrow> ('r, 'w) loop_state \<Rightarrow> ('r, 'w) loop_state" where
  "conclude_decision e out verdict iid aid s =
     (let decided = decided_action out iid aid (tl_intents s);
          s1 = put_entry e (decision_entry e out verdict iid decided) s;
          s2 = (case decided of
                  None \<Rightarrow> s1
                | Some a \<Rightarrow> if te_bus e then s1\<lparr>tl_events := tl_events s1 @ [decision_event e out verdict iid a (tl_intents s1)]\<rparr> else s1)
      in case (te_approved e, out, decided, intent_at iid (tl_intents s2)) of
           (Some f, Inr d, Some a, Some i) \<Rightarrow>
             if dc_verdict d = JStr ''approve'' \<and> \<not> unsettled d
             then (case f i a d (tl_ledger s2, tl_undo s2, tl_world s2) of
                     (l, m, w) \<Rightarrow> s2\<lparr>tl_ledger := l, tl_undo := m, tl_world := w\<rparr>)
             else s2
         | _ \<Rightarrow> s2)"

definition handle_decide ::
  "('r, 'w) loop_env \<Rightarrow> string \<Rightarrow> json \<Rightarrow> json \<Rightarrow> json \<Rightarrow> json \<Rightarrow> json \<Rightarrow> json \<Rightarrow> ('r, 'w) loop_state
     \<Rightarrow> (string + loop_result) \<times> ('r, 'w) loop_state" where
  "handle_decide e verdict iid aid cb chat mid from s =
     (case tap_decision e verdict iid aid (tl_intents s) of
        (out, store) \<Rightarrow>
          after (with_calls (tg_acknowledge (te_wire e) cb (case out of Inr d \<Rightarrow> ''Recorded'' | Inl (st, why) \<Rightarrow> why))
                   (s\<lparr>tl_intents := store\<rparr>))
            (\<lambda>r1 s1. after (if truthy chat \<and> truthy mid
                            then with_calls (tg_settle (te_wire e) (te_client e) chat mid verdict (cl_id (te_operator e))) s1
                            else (Inr JUndef, s1))
              (\<lambda>r2 s2. (Inr (Outcome (Decide verdict iid aid cb chat mid from) (case out of Inl _ \<Rightarrow> False | Inr _ \<Rightarrow> True)),
                        conclude_decision e out verdict iid aid s2))))"

section \<open>Voice and video\<close>

definition media_key :: "detected \<Rightarrow> string" where
  "media_key d = ''tg-media-'' @ js_string (dt_file d)"

definition media_proposer :: "transcript \<Rightarrow> json \<Rightarrow> caller" where
  "media_proposer t from =
     \<lparr>cl_id = ''telegram:'' @ tx_modality t @ '':'' @ js_string from, cl_token = [], cl_secret = [],
      cl_scopes = [''intent:propose'']\<rparr>"

definition media_body :: "transcript \<Rightarrow> body" where
  "media_body t =
     \<lparr>bd_source = JStr ''telegram'', bd_kind = JStr ''task'', bd_detector = JUndef, bd_confidence = JUndef, bd_observed = JUndef,
      bd_evidence = Some [(''modality'', JStr (tx_modality t)), (''transcript'', JStr (tx_text t)),
                          (''flags'', JArr (map JStr (tx_flags t))), (''model'', tx_model t)],
      bd_outcome = JStr (tx_text t), bd_decision = False\<rparr>"

definition heard_text :: "transcript \<Rightarrow> string \<Rightarrow> bool \<Rightarrow> string" where
  "heard_text t iid duplicate =
     lines ([''*Heard* ('' @ tx_modality t @ '', '' @ show_int (tx_latency t) @ '' ms on the local model):'',
             ''_'' @ take 400 (tx_text t) @ ''_''] @
            (if tx_screened t then [''screened: '' @ js_join '', '' (tx_flags t)] else []) @
            [[], ''Intent `'' @ iid @ ''` proposed'' @ (if duplicate then '' (duplicate delivery, same intent)'' else []) @ ''.''])"

fun egress_name :: "egress_kind \<Rightarrow> string" where
  "egress_name Egress_local = ''local''"
| "egress_name Egress_hosted = ''hosted''"
| "egress_name Egress_none = ''none''"

text \<open>The body of the \<open>try\<close>.\<close>

definition media_proposal ::
  "('r, 'w) loop_env \<Rightarrow> (detected \<Rightarrow> string + transcript) \<Rightarrow> detected \<Rightarrow> json \<Rightarrow> json \<Rightarrow> ('r, 'w) loop_state
     \<Rightarrow> (string + loop_result) \<times> ('r, 'w) loop_state" where
  "media_proposal e f d chat from s =
     (case f d of
        Inl msg \<Rightarrow> (Inl msg, s)
      | Inr t \<Rightarrow>
          (case transport_envelope ''telegram'' ''inbound'' (tx_modality t) (Some (media_key d)) (te_at e) of
             Inl msg \<Rightarrow> (Inl msg, s)
           | Inr env \<Rightarrow>
               (case propose (te_uuid e) (te_at e) (Some (media_key d)) (media_body t) (media_proposer t from) (Some env) (tl_intents s) of
                  ((iid, duplicate), store) \<Rightarrow>
                    after (say e chat (heard_text t iid duplicate) (s\<lparr>tl_intents := store\<rparr>))
                      (\<lambda>r s1. (Inr (Transcribed (Media d chat from) iid (tx_text t)),
                         log_loop e [(''tool'', JStr ''telegram.media''), (''outcome'', JStr ''transcribed''),
                           (''reason'', JStr (tx_modality t @ '' '' @ show_nat (tx_bytes t) @ ''b via '' @ js_string (tx_model t) @
                                              '' ('' @ egress_name (tx_egress t) @ '')'')),
                           (''intentId'', JStr iid)] s1)))))"

definition media_entry :: "string \<Rightarrow> string \<Rightarrow> (string \<times> json) list" where
  "media_entry outcome why = [(''tool'', JStr ''telegram.media''), (''outcome'', JStr outcome), (''reason'', JStr why)]"

definition handle_media ::
  "('r, 'w) loop_env \<Rightarrow> detected \<Rightarrow> json \<Rightarrow> json \<Rightarrow> ('r, 'w) loop_state \<Rightarrow> (string + loop_result) \<times> ('r, 'w) loop_state" where
  "handle_media e d chat from s =
     (case te_media e of
        None \<Rightarrow>
          after (say e chat ''Voice and video need the modality transform, which is not configured on this deployment.'' s)
            (\<lambda>r s1. (Inr (Outcome (Media d chat from) False), log_loop e (media_entry ''unconfigured'' (dt_modality d)) s1))
      | Some f \<Rightarrow>
          (case media_proposal e f d chat from s of
             (Inr res, s1) \<Rightarrow> (Inr res, s1)
           | (Inl msg, s1) \<Rightarrow>
               after (say e chat (''Cannot process that '' @ dt_modality d @ '': '' @ msg) s1)
                 (\<lambda>r s2. (Inr (Not_transcribed (Media d chat from) msg), log_loop e (media_entry ''refused'' (take 160 msg)) s2))))"

section \<open>AUDIT, HALT, RESUME and UNDO\<close>

definition tool_entry :: "string \<Rightarrow> string \<Rightarrow> (string \<times> json) list" where
  "tool_entry tool outcome = [(''tool'', JStr tool), (''outcome'', JStr outcome)]"

definition recent :: query where
  "recent = \<lparr>q_since = JUndef, q_tier = JUndef, q_agent = JUndef, q_verb = JUndef, q_impact = JUndef, q_intent = JUndef,
             q_outcome = JUndef, q_kind = JUndef, q_limit = 40\<rparr>"

definition handle_audit ::
  "('r, 'w) loop_env \<Rightarrow> string \<Rightarrow> json \<Rightarrow> json \<Rightarrow> ('r, 'w) loop_state \<Rightarrow> (string + loop_result) \<times> ('r, 'w) loop_state" where
  "handle_audit e q chat from s =
     after (say e chat (format_audit (ledger_query recent (tl_ledger s))) s)
       (\<lambda>r s1. (Inr (Inert (Audit_cmd q chat from)), log_loop e (tool_entry ''telegram.audit'' ''served'') s1))"

definition halted_reply ::
  "('r, 'w) loop_env \<Rightarrow> json \<Rightarrow> json \<Rightarrow> nat \<Rightarrow> ('r, 'w) loop_state \<Rightarrow> (string + loop_result) \<times> ('r, 'w) loop_state" where
  "halted_reply e chat from n s =
     after (say e chat (''Halted. '' @ show_nat n @ '' open capability(ies) revoked. Send RESUME to re-admit.'') s)
       (\<lambda>r s1. (Inr (Halted_result (Halt_cmd chat from) n),
                log_loop e (tool_entry ''telegram.halt'' ''halted'' @ [(''reason'', JStr (''reverted '' @ show_nat n))]) s1))"

definition handle_halt ::
  "('r, 'w) loop_env \<Rightarrow> json \<Rightarrow> json \<Rightarrow> ('r, 'w) loop_state \<Rightarrow> (string + loop_result) \<times> ('r, 'w) loop_state" where
  "handle_halt e chat from s =
     (case te_revert e of
        None \<Rightarrow> halted_reply e chat from 0 (s\<lparr>tl_halted := True\<rparr>)
      | Some f \<Rightarrow>
          (case f (tl_world s) of
             (Inr n, w) \<Rightarrow> halted_reply e chat from n (s\<lparr>tl_halted := True, tl_world := w\<rparr>)
           | (Inl msg, w) \<Rightarrow>
               after (say e chat (''HALT set, but a revert FAILED: '' @ msg) (s\<lparr>tl_halted := True, tl_world := w\<rparr>))
                 (\<lambda>r s1. (Inr (Halt_failed (Halt_cmd chat from)),
                   log_loop e (tool_entry ''telegram.halt'' ''revert-failed'' @ [(''reason'', JStr msg)]) s1))))"

definition handle_resume ::
  "('r, 'w) loop_env \<Rightarrow> json \<Rightarrow> json \<Rightarrow> ('r, 'w) loop_state \<Rightarrow> (string + loop_result) \<times> ('r, 'w) loop_state" where
  "handle_resume e chat from s =
     after (say e chat ''Resumed. Actions are admitted again.'' (s\<lparr>tl_halted := False\<rparr>))
       (\<lambda>r s1. (Inr (Inert (Resume_cmd chat from)), log_loop e (tool_entry ''telegram.resume'' ''resumed'') s1))"

definition handle_undo ::
  "('r, 'w) loop_env \<Rightarrow> string \<Rightarrow> json \<Rightarrow> json \<Rightarrow> ('r, 'w) loop_state \<Rightarrow> (string + loop_result) \<times> ('r, 'w) loop_state" where
  "handle_undo e token chat from s =
     (case te_replay e of
        None \<Rightarrow>
          after (say e chat (''Cannot undo `'' @ token @ ''`: no reversal registry on this deployment.'') s)
            (\<lambda>r s1. (Inr (Outcome (Undo_cmd token chat from) False),
              log_loop e (tool_entry ''telegram.undo'' ''unconfigured'' @ [(''reason'', JStr token)]) s1))
      | Some replay \<Rightarrow>
          (case undo_run (te_append e) replay (cl_id (te_operator e)) token (tl_undo s, tl_ledger s) (tl_world s) of
             (out, (m, l), w) \<Rightarrow>
               after (say e chat (case out of Inr v \<Rightarrow> ''Reversed `'' @ token @ ''`. The inverse ran and is on the ledger.''
                                  | Inl why \<Rightarrow> ''Could not undo `'' @ token @ ''`: '' @ why)
                        (s\<lparr>tl_undo := m, tl_ledger := l, tl_world := w\<rparr>))
                 (\<lambda>r s1. (Inr (Outcome (Undo_cmd token chat from) (case out of Inr _ \<Rightarrow> True | Inl _ \<Rightarrow> False)),
                   log_loop e (tool_entry ''telegram.undo'' (case out of Inr _ \<Rightarrow> ''undone'' | Inl _ \<Rightarrow> ''refused'') @
                     [(''reason'', JStr (case out of Inr _ \<Rightarrow> token | Inl why \<Rightarrow> why))]) s1))))"

section \<open>The handler and one poll\<close>

definition ignored_entry :: "string \<Rightarrow> json \<Rightarrow> (string \<times> json) list" where
  "ignored_entry why from =
     tool_entry ''telegram.ignored'' ''ignored'' @
     [(''reason'', JStr why), (''from'', JStr (js_string (js_coalesce from (JStr ''?''))))]"

fun handle_command ::
  "('r, 'w) loop_env \<Rightarrow> command \<Rightarrow> ('r, 'w) loop_state \<Rightarrow> (string + loop_result) \<times> ('r, 'w) loop_state" where
  "handle_command e (Ignored why from) s = (Inr (Inert (Ignored why from)), log_loop e (ignored_entry why from) s)"
| "handle_command e (Decide verdict iid aid cb chat mid from) s = handle_decide e verdict iid aid cb chat mid from s"
| "handle_command e (Media d chat from) s = handle_media e d chat from s"
| "handle_command e (Audit_cmd q chat from) s = handle_audit e q chat from s"
| "handle_command e (Halt_cmd chat from) s = handle_halt e chat from s"
| "handle_command e (Resume_cmd chat from) s = handle_resume e chat from s"
| "handle_command e (Undo_cmd token chat from) s = handle_undo e token chat from s"
| "handle_command e (Unknown_cmd text chat from) s =
     after (say e chat ''Not a command I act on. Try APPROVE via the buttons, AUDIT, UNDO <token>, HALT or RESUME.'' s)
       (\<lambda>r s1. (Inr (Inert (Unknown_cmd text chat from)), s1))"

definition handle_update ::
  "('r, 'w) loop_env \<Rightarrow> json \<Rightarrow> ('r, 'w) loop_state \<Rightarrow> (string + loop_result) \<times> ('r, 'w) loop_state" where
  "handle_update e u s =
     (case parse_update (te_client e) u of
        Inl msg \<Rightarrow> (Inl msg, s)
      | Inr None \<Rightarrow> (Inr No_command, s)
      | Inr (Some cmd) \<Rightarrow> handle_command e cmd s)"

text \<open>\<open>u.update_id ?? 0\<close>; the id of an update is an integer.\<close>

definition update_number :: "json \<Rightarrow> int" where
  "update_number u = (case obj_get u ''update_id'' of JNum n \<Rightarrow> n | _ \<Rightarrow> 0)"

text \<open>The batch; each update has its own clock and fresh id, so the environment depends on its index.\<close>

fun handle_batch ::
  "(nat \<Rightarrow> ('r, 'w) loop_env) \<Rightarrow> nat \<Rightarrow> json list \<Rightarrow> ('r, 'w) loop_state \<Rightarrow> (string + loop_result list) \<times> ('r, 'w) loop_state" where
  "handle_batch e n [] s = (Inr [], s)"
| "handle_batch e n (u # us) s =
     after (handle_update (e n) u (s\<lparr>tl_offset := max (tl_offset s) (update_number u + 1)\<rparr>))
       (\<lambda>r s1. after (handle_batch e (Suc n) us s1) (\<lambda>rs s2. (Inr (r # rs), s2)))"

definition poll_once ::
  "(nat \<Rightarrow> ('r, 'w) loop_env) \<Rightarrow> int \<Rightarrow> ('r, 'w) loop_state \<Rightarrow> (string + loop_result list) \<times> ('r, 'w) loop_state" where
  "poll_once e timeout s =
     (let calls = tl_calls s @ [(''getUpdates'', JObj [(''offset'', JNum (tl_offset s)), (''timeout'', JNum timeout)])] in
      case te_wire (e 0) calls of
        Inl msg \<Rightarrow> (Inl msg, s\<lparr>tl_calls := calls\<rparr>)
      | Inr res \<Rightarrow>
          handle_batch e 0 (case obj_get res ''result'' of JArr us \<Rightarrow> us | _ \<Rightarrow> []) (s\<lparr>tl_calls := calls\<rparr>))"

end
