(* ===== verification/Intent_Claims.thy ===== *)
theory Intent_Claims
  imports Intents
begin

text \<open>
  The consent rules of the intent store over whole histories: idempotent proposals, finality,
  the quorum of two distinct approvers, and what the broker makes of a recorded decision.
\<close>

definition run_ops :: "intent_op list \<Rightarrow> intent_store \<Rightarrow> intent_store" where
  "run_ops ops s = foldl (\<lambda>s op. intent_step op s) s ops"

lemma run_ops_simps [simp]: "run_ops [] s = s" "run_ops (op # ops) s = run_ops ops (intent_step op s)"
  by (simp_all add: run_ops_def)

section \<open>What an accepted decision has passed\<close>

lemma decide_cases:
  obtains (refused) e where "decide uuid now at iid x verdict reason c s = (Inl e, s)"
  | (denied) i d where "map_of (st_by_id s) iid = Some i" "js_trim reason \<noteq> []" "cl_id c \<noteq> in_proposed_by i"
      "decision_key iid x \<notin> set (st_final s)" "verdict \<noteq> ''approve''"
      "d = mk_decision uuid now at x verdict reason c i True (quorum_for (action_kind (find_action i x))) 0"
      "decide uuid now at iid x verdict reason c s = (Inr d, record_denial (decision_key iid x) iid i d s)"
  | (approved) i d apr settled where "map_of (st_by_id s) iid = Some i" "js_trim reason \<noteq> []" "cl_id c \<noteq> in_proposed_by i"
      "decision_key iid x \<notin> set (st_final s)" "verdict = ''approve''" "cl_id c \<notin> set (approvers_of (decision_key iid x) s)"
      "apr = approvers_of (decision_key iid x) s @ [cl_id c]"
      "settled = (length apr \<ge> quorum_for (action_kind (find_action i x)))"
      "d = mk_decision uuid now at x verdict reason c i settled (quorum_for (action_kind (find_action i x))) (length apr)"
      "decide uuid now at iid x verdict reason c s = (Inr d, record_approval (decision_key iid x) iid i apr settled d s)"
proof (cases "map_of (st_by_id s) iid")
  case None
  then show thesis using refused by (simp add: decide_def)
next
  case (Some i)
  let ?key = "decision_key iid x" and ?kind = "action_kind (find_action i x)"
  consider (r) "js_trim reason = [] \<or> cl_id c = in_proposed_by i \<or> ?key \<in> set (st_final s) \<or>
      verdict = ''approve'' \<and> (?kind = ''two-person'' \<and> st_single s \<or> cl_id c \<in> set (approvers_of ?key s))"
    | (d) "js_trim reason \<noteq> []" "cl_id c \<noteq> in_proposed_by i" "?key \<notin> set (st_final s)" "verdict \<noteq> ''approve''"
    | (a) "js_trim reason \<noteq> []" "cl_id c \<noteq> in_proposed_by i" "?key \<notin> set (st_final s)" "verdict = ''approve''"
        "\<not> (?kind = ''two-person'' \<and> st_single s)" "cl_id c \<notin> set (approvers_of ?key s)"
    by blast
  then show thesis
  proof cases
    case r
    then have "\<exists>e. decide uuid now at iid x verdict reason c s = (Inl e, s)"
      using Some by (auto simp: decide_def Let_def)
    then show thesis using refused by blast
  next
    case d
    then show thesis using denied [OF Some d refl] Some by (simp add: decide_def Let_def)
  next
    case a
    then show thesis using approved [OF Some a(1,2,3,4,6) refl refl refl] Some by (auto simp: decide_def Let_def)
  qed
qed

lemma record_store [simp]:
  "st_by_key (record_denial k iid i d s) = st_by_key s" "st_by_key (record_approval k iid i apr b d s) = st_by_key s"
  "st_final (record_denial k iid i d s) = st_final s @ [k]"
  "st_final (record_approval k iid i apr b d s) = (if b then st_final s @ [k] else st_final s)"
  by (simp_all add: record_denial_def record_approval_def)

section \<open>Finality\<close>

lemma final_mono: "set (st_final s) \<subseteq> set (st_final (intent_step op s))"
proof (cases op)
  case (Op_decide uuid now at i a v r c)
  show ?thesis unfolding Op_decide intent_step.simps
    by (cases rule: decide_cases [where uuid = uuid and now = now and at = at and iid = i and x = a and verdict = v and reason = r and c = c and s = s])
      auto
qed (auto simp: propose_def update_intent_def await_consent_def Let_def split: option.split)

lemma final_run: "set (st_final s) \<subseteq> set (st_final (run_ops ops s))"
proof (induction ops arbitrary: s)
  case (Cons op ops)
  show ?case using final_mono [of s op] Cons.IH [of "intent_step op s"] by simp
qed simp

lemma decide_final: "decision_key iid x \<in> set (st_final s) \<Longrightarrow> \<exists>e. decide uuid now at iid x v r c s = (Inl e, s)"
  by (auto simp: decide_def Let_def split: option.split)

lemma decide_settles:
  assumes "decide uuid now at iid x verdict reason c s = (Inr d, s')" and "dc_settled d = JBool True \<or> verdict \<noteq> ''approve''"
  shows "decision_key iid x \<in> set (st_final s')"
proof (cases rule: decide_cases [where uuid = uuid and now = now and at = at and iid = iid and x = x and verdict = verdict and reason = reason and c = c and s = s])
  case (approved i d' apr settled)
  have "(Inr d, s') = (Inr d' :: (nat \<times> string) + decision, record_approval (decision_key iid x) iid i apr settled d' s)"
    by (rule trans [OF assms(1) [symmetric] approved(10)])
  then have e: "d = d'" "s' = record_approval (decision_key iid x) iid i apr settled d' s" by simp_all
  then have "settled" using assms(2) approved by (simp add: mk_decision_def)
  then show ?thesis unfolding e(2) by simp
qed (use assms in auto)

text \<open>C20. Finality: once a decision on an action settled it, by an approval that completed the quorum or by a
  single denial, no further decision on that action is ever recorded, whoever decides and whatever
  happened in between.\<close>

theorem decide_is_final:
  assumes "decide uuid now at iid x verdict reason c s = (Inr d, s')"
    and "dc_settled d = JBool True \<or> verdict \<noteq> ''approve''"
  shows "\<exists>e. decide uuid' now' at' iid x verdict' reason' c' (run_ops ops s') = (Inl e, run_ops ops s')"
proof -
  have "decision_key iid x \<in> set (st_final (run_ops ops s'))"
    using decide_settles [OF assms] final_run by blast
  then show ?thesis by (rule decide_final)
qed

section \<open>Idempotency\<close>

lemma propose_key_step:
  assumes "map_of (st_by_key s) k = Some i"
  shows "map_of (st_by_key (intent_step op s)) k = Some i"
proof (cases op)
  case (Op_propose uuid at key b c env)
  then show ?thesis using assms
    by (auto simp: propose_def Let_def split: option.splits if_splits)
next
  case (Op_decide uuid now at iid a v r c)
  show ?thesis unfolding Op_decide intent_step.simps
    by (cases rule: decide_cases [where uuid = uuid and now = now and at = at and iid = iid and x = a and verdict = v and reason = r and c = c and s = s])
      (simp_all add: assms)
qed (use assms in \<open>auto simp: update_intent_def await_consent_def Let_def split: option.split\<close>)

lemma propose_key_run: "map_of (st_by_key s) k = Some i \<Longrightarrow> map_of (st_by_key (run_ops ops s)) k = Some i"
  by (induction ops arbitrary: s) (simp_all add: propose_key_step)

text \<open>Idempotency: once a proposal with a key was answered, every later proposal with that key is
  answered with the same intent and changes nothing.  The key is the store's, not the caller's: it
  does not matter who proposes, or what.\<close>

theorem propose_idempotent:
  assumes "propose uuid at (Some k) b c env s = ((i, dup), s')" and "k \<noteq> []"
  shows "propose uuid' at' (Some k) b' c' env' (run_ops ops s') = ((i, True), run_ops ops s')"
proof -
  have "map_of (st_by_key s') k = Some i"
    using assms by (auto simp: propose_def Let_def split: option.splits)
  then have "map_of (st_by_key (run_ops ops s')) k = Some i" by (rule propose_key_run)
  then show ?thesis using assms(2) by (simp add: propose_def)
qed

section \<open>What the broker makes of a decision\<close>

text \<open>C21. The store and the broker agree: an approval that the store recorded for an action passes the
  broker's verification of that action exactly while it is settled, within its two minutes, and
  held by somebody with the scope to decide; a recorded denial never passes.\<close>

theorem decide_verifies:
  assumes "decide uuid now at iid x verdict reason c s = (Inr d, s')" and "ac_id a = JStr x"
  shows "verify_decision (Some d) a t = Inr () \<longleftrightarrow>
     verdict = ''approve'' \<and> dc_settled d = JBool True \<and> t < now + 120000 \<and> ''intent:decide'' \<in> set (cl_scopes c)"
proof -
  obtain i b n m where i: "js_trim reason \<noteq> []" "cl_id c \<noteq> in_proposed_by i"
    and d: "d = mk_decision uuid now at x verdict reason c i b n m" and v: "verdict \<noteq> ''approve'' \<longrightarrow> b"
    by (cases rule: decide_cases [where uuid = uuid and now = now and at = at and iid = iid and x = x and verdict = verdict and reason = reason and c = c and s = s])
      (use assms(1) that in auto)
  have ne: "reason \<noteq> []" using i(1) by (auto simp: js_trim_def)
  have sc: "JStr ''intent:decide'' \<in> set (map JStr (cl_scopes c)) \<longleftrightarrow> ''intent:decide'' \<in> set (cl_scopes c)" by auto
  show ?thesis
    using i ne assms(2) sc by (auto simp: verify_decision_ok d mk_decision_def decision_ok_def decision_scope_def)
qed

section \<open>The quorum\<close>

text \<open>Ids as the store makes them: fresh, and without a colon, as UUIDs are.\<close>

fun fresh_op :: "intent_op \<Rightarrow> intent_store \<Rightarrow> bool" where
  "fresh_op (Op_propose uuid at key b c env) s = (CHR '':'' \<notin> set uuid \<and> \<not> jhas (st_by_id s) (''int_'' @ uuid))"
| "fresh_op op s = True"

fun fresh_history :: "intent_op list \<Rightarrow> intent_store \<Rightarrow> bool" where
  "fresh_history [] s = True"
| "fresh_history (op # ops) s = (fresh_op op s \<and> fresh_history ops (intent_step op s))"

text \<open>Who approved an action of an intent, by the intent's recorded decisions.\<close>

definition approved_by :: "intent \<Rightarrow> string \<Rightarrow> string \<Rightarrow> bool" where
  "approved_by i x who =
     (who \<noteq> in_proposed_by i \<and>
      (\<exists>d \<in> set (in_decisions i). dc_action d = JStr x \<and> dc_verdict d = JStr ''approve'' \<and> dc_decided_by d = JStr who))"

definition store_inv :: "intent_store \<Rightarrow> bool" where
  "store_inv s =
     ((\<forall>iid. jhas (st_by_id s) iid \<longrightarrow> CHR '':'' \<notin> set iid) \<and>
      (\<forall>k. jhas (st_approvers s) k \<longrightarrow> (\<exists>iid x. k = decision_key iid x \<and> jhas (st_by_id s) iid)) \<and>
      (\<forall>iid x i. map_of (st_by_id s) iid = Some i \<longrightarrow>
         distinct (approvers_of (decision_key iid x) s) \<and>
         (\<forall>who \<in> set (approvers_of (decision_key iid x) s). approved_by i x who)))"

lemma decision_key_inj:
  assumes "CHR '':'' \<notin> set i" and "CHR '':'' \<notin> set j"
  shows "decision_key i x = decision_key j y \<longleftrightarrow> i = j \<and> x = y"
proof
  assume e: "decision_key i x = decision_key j y"
  have "takeWhile (\<lambda>c. c \<noteq> CHR '':'') (i @ CHR '':'' # x) = i" "takeWhile (\<lambda>c. c \<noteq> CHR '':'') (j @ CHR '':'' # y) = j"
    using assms by (auto simp: takeWhile_append)
  with e show "i = j \<and> x = y" by (auto simp: decision_key_def)
qed simp

text \<open>A step that keeps the approvers and, of each intent, proposer and decisions.\<close>

lemma store_inv_frame:
  assumes "store_inv s" and "st_approvers s' = st_approvers s"
    and "\<And>iid. jhas (st_by_id s) iid \<Longrightarrow> jhas (st_by_id s') iid"
    and "\<And>iid i'. map_of (st_by_id s') iid = Some i' \<Longrightarrow>
           CHR '':'' \<notin> set iid \<and>
           ((\<exists>i. map_of (st_by_id s) iid = Some i \<and> in_proposed_by i' = in_proposed_by i \<and> set (in_decisions i) \<subseteq> set (in_decisions i')) \<or>
            \<not> jhas (st_by_id s) iid)"
  shows "store_inv s'"
proof -
  have ao: "approvers_of k s' = approvers_of k s" for k using assms(2) by (simp add: approvers_of_def)
  have known: "approvers_of (decision_key iid x) s = []" if "\<not> jhas (st_by_id s) iid" "CHR '':'' \<notin> set iid" for iid x
  proof (rule ccontr)
    assume "approvers_of (decision_key iid x) s \<noteq> []"
    then have "jhas (st_approvers s) (decision_key iid x)" by (auto simp: approvers_of_def jhas_def split: option.splits)
    then obtain iid' x' where k: "decision_key iid x = decision_key iid' x'" "jhas (st_by_id s) iid'"
      using assms(1) unfolding store_inv_def by blast
    moreover have "CHR '':'' \<notin> set iid'" using assms(1) k(2) by (simp add: store_inv_def)
    ultimately show False using that decision_key_inj by blast
  qed
  show ?thesis unfolding store_inv_def ao
  proof (intro conjI allI impI)
    fix iid assume "jhas (st_by_id s') iid"
    then show "CHR '':'' \<notin> set iid" using assms(4) by (auto simp: jhas_def)
  next
    fix k assume "jhas (st_approvers s') k"
    then show "\<exists>iid x. k = decision_key iid x \<and> jhas (st_by_id s') iid"
      using assms(1-3) unfolding store_inv_def by metis
  next
    fix iid x i' assume i': "map_of (st_by_id s') iid = Some i'"
    show "distinct (approvers_of (decision_key iid x) s)"
      using assms(4) [OF i'] known [of iid x] assms(1) by (auto simp: store_inv_def)
  next
    fix iid x i' assume i': "map_of (st_by_id s') iid = Some i'"
    show "\<forall>who \<in> set (approvers_of (decision_key iid x) s). approved_by i' x who"
    proof (cases "jhas (st_by_id s) iid")
      case True
      then obtain i where i: "map_of (st_by_id s) iid = Some i" "in_proposed_by i' = in_proposed_by i" "set (in_decisions i) \<subseteq> set (in_decisions i')"
        using assms(4) [OF i'] by blast
      then have "\<forall>who \<in> set (approvers_of (decision_key iid x) s). approved_by i x who" using assms(1) by (simp add: store_inv_def)
      then show ?thesis using i(2,3) unfolding approved_by_def by (metis subsetD)
    next
      case False
      then show ?thesis using known [of iid x] assms(4) [OF i'] by simp
    qed
  qed
qed

lemma store_inv_set:
  assumes "store_inv s" and "map_of (st_by_id s) iid = Some i" and "st_approvers s' = st_approvers s"
    and "st_by_id s' = jset (st_by_id s) iid i'" and "in_proposed_by i' = in_proposed_by i" and "set (in_decisions i) \<subseteq> set (in_decisions i')"
  shows "store_inv s'"
proof (rule store_inv_frame [OF assms(1,3)])
  show "jhas (st_by_id s') j" if "jhas (st_by_id s) j" for j
    using that by (simp add: assms(4))
  show "CHR '':'' \<notin> set j \<and>
      ((\<exists>i. map_of (st_by_id s) j = Some i \<and> in_proposed_by j' = in_proposed_by i \<and> set (in_decisions i) \<subseteq> set (in_decisions j')) \<or>
       \<not> jhas (st_by_id s) j)" if "map_of (st_by_id s') j = Some j'" for j j'
  proof -
    have "jhas (st_by_id s) j" using that assms(2) by (auto simp: assms(4) jhas_def split: if_splits)
    then have "CHR '':'' \<notin> set j" using assms(1) by (simp add: store_inv_def)
    then show ?thesis using that assms(2,5,6) by (auto simp: assms(4) split: if_splits)
  qed
qed

lemma store_inv_approval:
  assumes "store_inv s" and "map_of (st_by_id s) iid = Some i" and "who \<notin> set (approvers_of (decision_key iid x) s)"
    and "who \<noteq> in_proposed_by i"
    and "dc_action d = JStr x" "dc_verdict d = JStr ''approve''" "dc_decided_by d = JStr who"
  shows "store_inv (record_approval (decision_key iid x) iid i (approvers_of (decision_key iid x) s @ [who]) b d s)"
proof -
  let ?s = "record_approval (decision_key iid x) iid i (approvers_of (decision_key iid x) s @ [who]) b d s"
  let ?i = "i\<lparr>in_decisions := in_decisions i @ [d], in_state := (if b then Proposed else Awaiting_consent)\<rparr>"
  have by_id: "st_by_id ?s = jset (st_by_id s) iid ?i" by (simp add: record_approval_def)
  have ao: "approvers_of k ?s = (if k = decision_key iid x then approvers_of (decision_key iid x) s @ [who] else approvers_of k s)" for k
    by (simp add: record_approval_def approvers_of_def)
  have keep: "approved_by ?i y w" if "approved_by i y w" for y w
    using that unfolding approved_by_def by auto
  have new: "approved_by ?i x who"
    using assms(4-7) unfolding approved_by_def by auto
  have nc: "CHR '':'' \<notin> set iid" using assms(1,2) by (auto simp: store_inv_def jhas_def)
  show ?thesis unfolding store_inv_def
  proof (intro conjI allI impI)
    fix j assume "jhas (st_by_id ?s) j"
    then show "CHR '':'' \<notin> set j" using assms(1) nc by (auto simp: by_id store_inv_def)
  next
    fix k assume "jhas (st_approvers ?s) k"
    then have "k = decision_key iid x \<or> jhas (st_approvers s) k" by (auto simp: record_approval_def)
    then show "\<exists>j y. k = decision_key j y \<and> jhas (st_by_id ?s) j"
      using assms(1) unfolding store_inv_def by_id jhas_jset by metis
  next
    fix j y j' assume j': "map_of (st_by_id ?s) j = Some j'"
    then have cj: "CHR '':'' \<notin> set j" using assms(1) nc by (auto simp: by_id store_inv_def jhas_def split: if_splits)
    have old: "distinct (approvers_of (decision_key j y) s)"
      using assms(1,2) j' by (auto simp: by_id store_inv_def split: if_splits)
    show "distinct (approvers_of (decision_key j y) ?s)" unfolding ao using old assms(3) by auto
  next
    fix j y j' assume j': "map_of (st_by_id ?s) j = Some j'"
    then have cj: "CHR '':'' \<notin> set j" using assms(1) nc by (auto simp: by_id store_inv_def jhas_def split: if_splits)
    show "\<forall>w \<in> set (approvers_of (decision_key j y) ?s). approved_by j' y w"
    proof (cases "j = iid")
      case True
      then have e: "j' = ?i" using j' by (simp add: by_id)
      have "\<forall>w \<in> set (approvers_of (decision_key iid y) s). approved_by i y w" using assms(1,2) by (simp add: store_inv_def)
      then show ?thesis unfolding ao e using True keep new decision_key_inj [OF nc nc] by auto
    next
      case False
      then have "map_of (st_by_id s) j = Some j'" using j' by (simp add: by_id)
      then have "\<forall>w \<in> set (approvers_of (decision_key j y) s). approved_by j' y w" using assms(1) by (simp add: store_inv_def)
      moreover have "decision_key j y \<noteq> decision_key iid x" using False decision_key_inj [OF cj nc] by blast
      ultimately show ?thesis unfolding ao by simp
    qed
  qed
qed

lemma store_inv_step: "store_inv s \<Longrightarrow> fresh_op op s \<Longrightarrow> store_inv (intent_step op s)"
proof (cases op)
  case (Op_propose uuid at key b c env)
  assume inv: "store_inv s" and f: "fresh_op op s"
  let ?i = "new_intent uuid at b c env"
  show ?thesis
  proof (cases "snd (propose uuid at key b c env s) = s")
    case False
    then have e: "st_by_id (snd (propose uuid at key b c env s)) = jset (st_by_id s) (''int_'' @ uuid) ?i"
      "st_approvers (snd (propose uuid at key b c env s)) = st_approvers s"
      by (auto simp: propose_def Let_def new_intent_def split: option.splits if_splits)
    have "store_inv (snd (propose uuid at key b c env s))"
    proof (rule store_inv_frame [OF inv e(2)])
      show "jhas (st_by_id (snd (propose uuid at key b c env s))) j" if "jhas (st_by_id s) j" for j
        using that by (simp add: e(1))
      show "CHR '':'' \<notin> set j \<and>
          ((\<exists>i. map_of (st_by_id s) j = Some i \<and> in_proposed_by j' = in_proposed_by i \<and> set (in_decisions i) \<subseteq> set (in_decisions j')) \<or>
           \<not> jhas (st_by_id s) j)" if "map_of (st_by_id (snd (propose uuid at key b c env s))) j = Some j'" for j j'
        using that inv f Op_propose by (auto simp: e(1) store_inv_def jhas_def split: if_splits)
    qed
    then show ?thesis by (simp add: Op_propose)
  qed (simp add: Op_propose inv)
next
  case (Op_update at iid b c)
  assume inv: "store_inv s"
  show ?thesis
  proof (cases "snd (update_intent at iid b c s) = s")
    case False
    then obtain i where i: "map_of (st_by_id s) iid = Some i" by (auto simp: update_intent_def split: option.splits)
    obtain i' where e: "st_by_id (snd (update_intent at iid b c s)) = jset (st_by_id s) iid i'"
      "st_approvers (snd (update_intent at iid b c s)) = st_approvers s"
      "in_proposed_by i' = in_proposed_by i" "in_decisions i' = in_decisions i"
      using False i by (auto simp: update_intent_def Let_def apply_patch_def split: if_splits)
    show ?thesis unfolding Op_update intent_step.simps
      by (rule store_inv_set [OF inv i e(2,1,3)]) (simp add: e(4))
  qed (simp add: Op_update inv)
next
  case (Op_await iid a)
  assume inv: "store_inv s"
  show ?thesis
  proof (cases "map_of (st_by_id s) iid")
    case (Some i)
    then show ?thesis unfolding Op_await intent_step.simps
      by (intro store_inv_set [OF inv Some, of _ "i\<lparr>in_state := Awaiting_consent, in_actions := in_actions i @ [a]\<rparr>"])
        (simp_all add: await_consent_def Let_def)
  qed (simp add: Op_await await_consent_def inv)
next
  case (Op_decide uuid now at iid x v r c)
  assume inv: "store_inv s"
  show ?thesis unfolding Op_decide intent_step.simps
  proof (cases rule: decide_cases [where uuid = uuid and now = now and at = at and iid = iid and x = x and verdict = v and reason = r and c = c and s = s])
    case (refused e)
    then show "store_inv (snd (decide uuid now at iid x v r c s))" using inv by simp
  next
    case (denied i d)
    then show "store_inv (snd (decide uuid now at iid x v r c s))"
      by (intro store_inv_set [OF inv denied(1), of _ "i\<lparr>in_decisions := in_decisions i @ [d], in_state := Denied\<rparr>"])
        (auto simp: record_denial_def)
  next
    case (approved i d apr settled)
    have "store_inv (record_approval (decision_key iid x) iid i (approvers_of (decision_key iid x) s @ [cl_id c]) settled d s)"
      by (rule store_inv_approval [OF inv approved(1,6,3)]) (simp_all add: approved(5,9) mk_decision_def)
    then show "store_inv (snd (decide uuid now at iid x v r c s))" using approved(7,10) by simp
  qed
qed

lemma store_inv_run: "store_inv s \<Longrightarrow> fresh_history ops s \<Longrightarrow> store_inv (run_ops ops s)"
  by (induction ops arbitrary: s) (simp_all add: store_inv_step)

lemma store_inv_create: "store_inv (create_intents single)"
  by (simp add: store_inv_def create_intents_def jhas_def)

text \<open>C22. The quorum: in every history of the store, an approval that settles a two-person action is
  recorded only when the intent holds approvals of that action by two distinct people, neither of
  them its proposer.\<close>

theorem quorum_two_person:
  assumes "fresh_history ops (create_intents single)" and "s = run_ops ops (create_intents single)"
    and "map_of (st_by_id s) iid = Some i" and "action_kind (find_action i x) = ''two-person''"
    and "decide uuid now at iid x ''approve'' reason c s = (Inr d, s')" and "dc_settled d = JBool True"
  shows "\<exists>i' a b. map_of (st_by_id s') iid = Some i' \<and> a \<noteq> b \<and> approved_by i' x a \<and> approved_by i' x b"
proof -
  have inv: "store_inv s" using store_inv_run [OF store_inv_create assms(1)] assms(2) by simp
  have "store_inv (intent_step (Op_decide uuid now at iid x ''approve'' reason c) s)"
    by (rule store_inv_step [OF inv]) simp
  then have inv': "store_inv s'" using assms(5) by simp
  show ?thesis
  proof (cases rule: decide_cases [where uuid = uuid and now = now and at = at and iid = iid and x = x and verdict = "''approve''" and reason = reason and c = c and s = s])
    case (approved j d' apr settled)
    have "(Inr d, s') = (Inr d' :: (nat \<times> string) + decision, record_approval (decision_key iid x) iid j apr settled d' s)"
      by (rule trans [OF assms(5) [symmetric] approved(10)])
    then have e: "d = d'" "s' = record_approval (decision_key iid x) iid j apr settled d' s" by simp_all
    have ji: "j = i" using approved(1) assms(3) by simp
    have "settled" using assms(6) approved(9) by (simp add: e(1) mk_decision_def)
    then have len: "2 \<le> length apr" using approved(8) assms(4) ji by (simp add: quorum_for_def)
    have apr: "approvers_of (decision_key iid x) s' = apr" by (simp add: e(2) record_approval_def approvers_of_def)
    obtain i' where i': "map_of (st_by_id s') iid = Some i'" by (simp add: e(2) record_approval_def)
    have "distinct apr" "\<forall>w \<in> set apr. approved_by i' x w"
      using inv' i' apr unfolding store_inv_def by blast+
    moreover obtain a b rest where "apr = a # b # rest" using len by (cases apr; cases "tl apr") auto
    ultimately show ?thesis using i' by auto
  qed (use assms(5) in auto)
qed

section \<open>Concrete histories\<close>

definition person :: "string \<Rightarrow> caller" where
  "person who = \<lparr>cl_id = who, cl_token = who, cl_secret = who, cl_scopes = [''intent:decide'']\<rparr>"

lemma person_simps [simp]: "cl_id (person who) = who" "cl_scopes (person who) = [''intent:decide'']"
  by (simp_all add: person_def)

definition no_body :: body where
  "no_body =
     \<lparr>bd_source = JUndef, bd_kind = JUndef, bd_detector = JUndef, bd_confidence = JUndef, bd_observed = JUndef,
      bd_evidence = None, bd_outcome = JUndef, bd_decision = False\<rparr>"

definition recall_action :: action where
  "recall_action = (bare_action ''dispatch.recall'' Delete)\<lparr>ac_id := JStr ''x'', ac_impact := JArr [JStr ''legal'']\<rparr>"

definition recall_ops :: "intent_op list" where
  "recall_ops = [Op_propose ''1'' ''t'' (Some ''k'') no_body (person ''cam'') None, Op_await ''int_1'' recall_action]"

abbreviation recall_store :: intent_store where
  "recall_store \<equiv> run_ops recall_ops (create_intents False)"

abbreviation approve_by :: "string \<Rightarrow> intent_store \<Rightarrow> ((nat \<times> string) + decision) \<times> intent_store" where
  "approve_by who s \<equiv> decide ''d'' 1000 ''t'' ''int_1'' ''x'' ''approve'' ''ok'' (person who) s"

lemma trim_ok [simp]: "js_trim ''ok'' = ''ok''"
  by (simp add: js_trim_def js_ws_def)

lemma recall_kind: "action_kind (Some recall_action) = ''two-person''"
  by (simp add: action_kind_def recall_action_def bare_action_def consent_kind_def normalize_impact_def impact_of_def
      requires_consent_def is_write_def impacts_json_def Let_def)

lemma recall_id: "ac_id recall_action = JStr ''x''"
  by (simp add: recall_action_def)

lemma recall_fresh: "fresh_history recall_ops (create_intents False)"
  by (simp add: recall_ops_def create_intents_def jhas_def)

lemma recall_store_eq:
  "recall_store = \<lparr>st_by_id = [(''int_1'', (new_intent ''1'' ''t'' no_body (person ''cam'') None)\<lparr>in_state := Awaiting_consent, in_actions := [recall_action]\<rparr>)],
     st_by_key = [(''k'', ''int_1'')], st_final = [], st_approvers = [], st_single = False\<rparr>"
  by (simp add: recall_ops_def create_intents_def propose_def await_consent_def Let_def new_intent_def)

lemma approve_first:
  "\<exists>d s'. approve_by ''ann'' recall_store = (Inr d, s') \<and> dc_settled d = JBool False \<and>
     (\<exists>i. st_by_id s' = [(''int_1'', i)] \<and> in_actions i = [recall_action] \<and> in_proposed_by i = ''cam'') \<and>
     st_approvers s' = [(decision_key ''int_1'' ''x'', [''ann''])] \<and> st_final s' = [] \<and> st_single s' = False"
  by (simp add: recall_store_eq decide_def new_intent_def person_def Let_def approvers_of_def find_action_def recall_id
      recall_kind quorum_for_def record_approval_def mk_decision_def)

lemma approve_second:
  assumes "st_by_id s = [(''int_1'', i)]" "in_actions i = [recall_action]" "in_proposed_by i = ''cam''"
    "st_approvers s = [(decision_key ''int_1'' ''x'', [''ann''])]" "st_final s = []" "st_single s = False"
  shows "\<exists>d s'. approve_by ''bob'' s = (Inr d, s') \<and> dc_settled d = JBool True"
  using assms by (simp add: decide_def person_def Let_def approvers_of_def find_action_def recall_id
      recall_kind quorum_for_def mk_decision_def)

theorem quorum_two_person_witness:
  "\<exists>d s' i' a b. approve_by ''bob'' (snd (approve_by ''ann'' recall_store)) = (Inr d, s') \<and> dc_settled d = JBool True \<and>
     map_of (st_by_id s') ''int_1'' = Some i' \<and> a \<noteq> b \<and> approved_by i' ''x'' a \<and> approved_by i' ''x'' b"
proof -
  obtain d1 s1 i where f: "approve_by ''ann'' recall_store = (Inr d1, s1)" "st_by_id s1 = [(''int_1'', i)]"
    "in_actions i = [recall_action]" "in_proposed_by i = ''cam''" "st_approvers s1 = [(decision_key ''int_1'' ''x'', [''ann''])]"
    "st_final s1 = []" "st_single s1 = False" using approve_first by blast
  obtain d s' where g: "approve_by ''bob'' s1 = (Inr d, s')" "dc_settled d = JBool True"
    using approve_second [OF f(2-7)] by blast
  let ?ops = "recall_ops @ [Op_decide ''d'' 1000 ''t'' ''int_1'' ''x'' ''approve'' ''ok'' (person ''ann'')]"
  have fresh: "fresh_history (xs @ ys) s \<longleftrightarrow> fresh_history xs s \<and> fresh_history ys (run_ops xs s)" for xs ys s
    by (induction xs arbitrary: s) auto
  have h: "fresh_history ?ops (create_intents False)" using recall_fresh by (simp add: fresh)
  have r: "s1 = run_ops ?ops (create_intents False)" using f(1) by (simp add: run_ops_def)
  have m: "map_of (st_by_id s1) ''int_1'' = Some i" using f(2) by simp
  have k: "action_kind (find_action i ''x'') = ''two-person''" using f(3) by (simp add: find_action_def recall_id recall_kind)
  obtain i' a b where "map_of (st_by_id s') ''int_1'' = Some i'" "a \<noteq> b" "approved_by i' ''x'' a" "approved_by i' ''x'' b"
    using quorum_two_person [OF h r m k g] by blast
  then show ?thesis using f(1) g by auto
qed

theorem decide_is_final_witness:
  "\<exists>d s'. decide ''d'' 1000 ''t'' ''int_1'' ''x'' ''deny'' ''ok'' (person ''ann'') recall_store = (Inr d, s') \<and>
     (\<exists>e. approve_by ''bob'' s' = (Inl e, s'))"
proof -
  obtain d s' where d: "decide ''d'' 1000 ''t'' ''int_1'' ''x'' ''deny'' ''ok'' (person ''ann'') recall_store = (Inr d, s')"
    by (simp add: recall_store_eq decide_def new_intent_def person_def Let_def)
  from decide_is_final [OF d, of "''d''" 1000 "''t''" "''approve''" "''ok''" "person ''bob''" "[]"] d show ?thesis by auto
qed

theorem propose_idempotent_witness:
  "fst (propose ''2'' ''t'' (Some ''k'') no_body (person ''eve'') None (snd (propose ''1'' ''t'' (Some ''k'') no_body (person ''cam'') None (create_intents False))))
     = (''int_1'', True)"
proof -
  let ?p = "propose ''1'' ''t'' (Some ''k'') no_body (person ''cam'') None (create_intents False)"
  have p: "?p = ((''int_1'', False), snd ?p)"
    by (simp add: propose_def create_intents_def Let_def new_intent_def)
  from propose_idempotent [OF p, of "''2''" "''t''" no_body "person ''eve''" None "[]"] show ?thesis by simp
qed

theorem decide_verifies_witness:
  "\<exists>d s'. approve_by ''ann'' recall_store = (Inr d, s') \<and> verify_decision (Some d) recall_action 1001 \<noteq> Inr ()"
proof -
  obtain d s' where d: "approve_by ''ann'' recall_store = (Inr d, s')" "dc_settled d = JBool False"
    using approve_first by blast
  from decide_verifies [OF d(1) recall_id, of 1001] d show ?thesis by auto
qed

text \<open>The quorum is taken from the action as it is registered when the decision is made.  An approval
  for an action id that is not registered yet needs one approver, and settles; when a two-person
  action is registered under that id afterwards, the broker accepts that one approval for it.  (The
  ids are made of the intent's id and the clock.)\<close>

theorem early_approval_bypasses_quorum:
  "\<exists>d s'. approve_by ''ann'' (run_ops [Op_propose ''1'' ''t'' (Some ''k'') no_body (person ''cam'') None] (create_intents False)) = (Inr d, s') \<and>
     find_action (the (map_of (st_by_id (snd (await_consent ''int_1'' recall_action s'))) ''int_1'')) ''x'' = Some recall_action \<and>
     action_kind (Some recall_action) = ''two-person'' \<and>
     verify_decision (Some d) recall_action 1001 = Inr ()"
proof -
  let ?s = "run_ops [Op_propose ''1'' ''t'' (Some ''k'') no_body (person ''cam'') None] (create_intents False)"
  let ?i = "new_intent ''1'' ''t'' no_body (person ''cam'') None"
  let ?d = "mk_decision ''d'' 1000 ''t'' ''x'' ''approve'' ''ok'' (person ''ann'') ?i True 1 1"
  have p: "in_proposed_by ?i = ''cam''" "in_actions ?i = []" by (simp_all add: new_intent_def)
  have "approve_by ''ann'' ?s = (Inr ?d, record_approval (decision_key ''int_1'' ''x'') ''int_1'' ?i [''ann''] True ?d ?s)"
    using p by (simp add: decide_def Let_def propose_def create_intents_def approvers_of_def find_action_def
        action_kind_def quorum_for_def) (simp add: new_intent_def)
  moreover have "find_action (the (map_of (st_by_id (snd (await_consent ''int_1'' recall_action
      (record_approval (decision_key ''int_1'' ''x'') ''int_1'' ?i [''ann''] True ?d ?s)))) ''int_1'')) ''x'' = Some recall_action"
    using p by (simp add: record_approval_def await_consent_def find_action_def Let_def recall_id)
  moreover have "verify_decision (Some ?d) recall_action 1001 = Inr ()"
    unfolding verify_decision_ok
    by (simp add: decision_ok_def mk_decision_def recall_id p decision_scope_def)
  ultimately show ?thesis using recall_kind by blast
qed

end
