(* ===== verification/Telegram_Claims.thy ===== *)
theory Telegram_Claims
  imports Telegram_Loop Intent_Claims
begin

text \<open>
  What the operator loop guarantees: whoever is not the operator is ignored, a tap goes through the
  intent store and nowhere else, only a settled approval executes, and the bot calls no method outside
  its list.
\<close>

definition update_sender :: "json \<Rightarrow> json" where
  "update_sender u =
     obj_get (obj_get (if truthy (obj_get u ''callback_query'') then obj_get u ''callback_query'' else obj_get u ''message'') ''from'') ''id''"

section \<open>Parsing\<close>

lemma parse_from_stranger:
  assumes "\<not> is_operator c (update_sender u)"
  obtains msg where "parse_update c u = Inl msg"
    | "parse_update c u = Inr None"
    | who where "parse_update c u = Inr (Some (Ignored ''not the registered operator'' who))"
  using assms
  by (cases "parse_update c u")
    (auto simp: parse_update_def parse_callback_def parse_message_def ignored_sender_def update_sender_def Let_def split: if_splits)

lemma parse_decide:
  assumes "parse_update c u = Inr (Some (Decide verdict iid aid cb chat mid from))"
  shows "is_operator c (update_sender u) \<and> verdict \<in> {''approve'', ''deny''}"
  using assms
  by (auto simp: parse_update_def parse_callback_def parse_message_def parse_text_def update_sender_def ignored_sender_def Let_def
      split: if_splits option.splits json.splits)

text \<open>Someone who is not on the allow list cannot act through Telegram: an update of theirs leaves
  the whole state as it is (intents, undo registry, policy, calls to Telegram, events, halt flag), or
  adds exactly the one ledger entry that says it was ignored.\<close>

theorem stranger_is_inert:
  assumes "\<not> is_operator (te_client e) (update_sender u)"
  shows "snd (handle_update e u s) = s \<or>
    (\<exists>from. snd (handle_update e u s) = log_loop e (ignored_entry ''not the registered operator'' from) s)"
  using assms by (cases rule: parse_from_stranger) (auto simp: handle_update_def)

section \<open>Where the intents of a handler come from\<close>

lemma after_intents:
  assumes "fst r = Inl m \<longrightarrow> P (snd r)" and "\<And>v. fst r = Inr v \<Longrightarrow> P (snd (k v (snd r)))" and "\<And>m. fst r = Inl m \<Longrightarrow> P (snd r)"
  shows "P (snd (after r k))"
  using assms by (cases r; cases "fst r") (auto simp: after_def)

lemma snd_after: "snd (after r k) = (case fst r of Inl m \<Rightarrow> snd r | Inr v \<Rightarrow> snd (k v (snd r)))"
  by (cases r) (auto simp: after_def split: sum.split)

lemma with_calls_frame [simp]:
  "tl_intents (snd (with_calls f s)) = tl_intents s" "tl_ledger (snd (with_calls f s)) = tl_ledger s"
  "tl_undo (snd (with_calls f s)) = tl_undo s" "tl_world (snd (with_calls f s)) = tl_world s"
  "tl_events (snd (with_calls f s)) = tl_events s" "tl_halted (snd (with_calls f s)) = tl_halted s"
  "tl_offset (snd (with_calls f s)) = tl_offset s"
  by (auto simp: with_calls_def split: prod.split)

lemma say_intents [simp]: "tl_intents (snd (say e chat text s)) = tl_intents s"
  by (simp add: say_def)

lemma log_intents [simp]: "tl_intents (log_loop e entry s) = tl_intents s" "tl_intents (put_entry e entry s) = tl_intents s"
  by (simp_all add: log_loop_def put_entry_def)

lemma conclude_intents [simp]: "tl_intents (conclude_decision e out verdict iid aid s) = tl_intents s"
  by (auto simp: conclude_decision_def Let_def split: option.split sum.split prod.split)

lemma decide_intents:
  "tl_intents (snd (handle_decide e verdict iid aid cb chat mid from s)) = snd (tap_decision e verdict iid aid (tl_intents s))"
  by (auto simp: handle_decide_def snd_after split: prod.split sum.split)

lemma simple_intents:
  "tl_intents (snd (handle_audit e q chat from s)) = tl_intents s"
  "tl_intents (snd (handle_halt e chat from s)) = tl_intents s"
  "tl_intents (snd (handle_resume e chat from s)) = tl_intents s"
  "tl_intents (snd (handle_undo e token chat from s)) = tl_intents s"
  by (auto simp: handle_audit_def handle_halt_def handle_resume_def handle_undo_def halted_reply_def snd_after
      split: option.split sum.split prod.split)

lemma media_intents:
  "tl_intents (snd (handle_media e d chat from s)) = tl_intents s \<or>
   (\<exists>t env. tl_intents (snd (handle_media e d chat from s)) =
      snd (propose (te_uuid e) (te_at e) (Some (media_key d)) (media_body t) (media_proposer t from) (Some env) (tl_intents s)))"
proof -
  have "tl_intents (snd (media_proposal e f d chat from s)) = tl_intents s \<or>
      (\<exists>t env. tl_intents (snd (media_proposal e f d chat from s)) =
         snd (propose (te_uuid e) (te_at e) (Some (media_key d)) (media_body t) (media_proposer t from) (Some env) (tl_intents s)))" for f
    by (auto simp: media_proposal_def snd_after split: sum.split prod.split) (metis snd_conv)+
  moreover have "tl_intents (snd (handle_media e d chat from s)) =
      (case te_media e of None \<Rightarrow> tl_intents s | Some f \<Rightarrow> tl_intents (snd (media_proposal e f d chat from s)))"
    by (auto simp: handle_media_def snd_after split: option.split sum.split prod.split)
  ultimately show ?thesis by (cases "te_media e") auto
qed


section \<open>Only the two store operations\<close>

definition tap_store :: "('r, 'w) loop_env \<Rightarrow> string \<Rightarrow> string \<Rightarrow> string \<Rightarrow> intent_store \<Rightarrow> intent_store" where
  "tap_store e iid x verdict store =
     snd (decide (te_uuid e) (te_now e) (te_at e) iid x verdict (tap_reason e) (te_operator e) store)"

lemma tap_decision_store:
  "snd (tap_decision e verdict iid aid store) = store \<or>
   (\<exists>i x. snd (tap_decision e verdict iid aid store) = tap_store e i x verdict store)"
  by (cases iid) (auto simp: tap_decision_def tap_store_def)

lemma parse_media:
  assumes "parse_update c u = Inr (Some (Media d chat who))"
  shows "is_operator c (update_sender u) \<and> who = update_sender u"
  using assms
  by (auto simp: parse_update_def parse_callback_def parse_message_def parse_text_def update_sender_def ignored_sender_def Let_def
      split: if_splits option.splits json.splits)

text \<open>Telegram decides nothing itself: an update changes the intent store only if its sender is on
  the allow list, and then by exactly one operation of the store, either a decision by the operator
  identity with an approving or denying verdict, or a proposal in the name of the channel (never of
  the operator), so every rule of the store applies to it.\<close>

theorem telegram_store_moves:
  "tl_intents (snd (handle_update e u s)) = tl_intents s \<or>
   (is_operator (te_client e) (update_sender u) \<and>
    ((\<exists>verdict \<in> {''approve'', ''deny''}. \<exists>iid x. tl_intents (snd (handle_update e u s)) = tap_store e iid x verdict (tl_intents s)) \<or>
     (\<exists>d t env. tl_intents (snd (handle_update e u s)) =
        snd (propose (te_uuid e) (te_at e) (Some (media_key d)) (media_body t) (media_proposer t (update_sender u)) (Some env)
               (tl_intents s)))))"
proof (cases "parse_update (te_client e) u")
  case (Inr c)
  show ?thesis
  proof (cases c)
    case (Some cmd)
    have h: "handle_update e u s = handle_command e cmd s" using Inr Some by (simp add: handle_update_def)
    show ?thesis
    proof (cases cmd)
      case (Decide verdict iid aid cb chat mid who)
      then show ?thesis using parse_decide [of "te_client e" u verdict iid aid cb chat mid who] Inr Some
          tap_decision_store [of e verdict iid aid "tl_intents s"]
        by (auto simp: h decide_intents)
    next
      case (Media d chat who)
      then show ?thesis using parse_media [of "te_client e" u d chat who] Inr Some media_intents [of e d chat who s]
        by (simp only: h handle_command.simps) blast
    qed (simp_all add: h simple_intents snd_after split: sum.split)
  qed (use Inr in \<open>simp add: handle_update_def\<close>)
qed (simp add: handle_update_def)

section \<open>Only a settled approval executes\<close>

definition no_callback :: "('r, 'w) loop_env \<Rightarrow> ('r, 'w) loop_env" where
  "no_callback e = e\<lparr>te_approved := None\<rparr>"

lemma no_callback_fields [simp]:
  "te_client (no_callback e) = te_client e" "te_wire (no_callback e) = te_wire e" "te_operator (no_callback e) = te_operator e"
  "te_append (no_callback e) = te_append e" "te_bus (no_callback e) = te_bus e" "te_media (no_callback e) = te_media e"
  "te_revert (no_callback e) = te_revert e" "te_replay (no_callback e) = te_replay e" "te_approved (no_callback e) = None"
  "te_uuid (no_callback e) = te_uuid e" "te_now (no_callback e) = te_now e" "te_at (no_callback e) = te_at e"
  by (simp_all add: no_callback_def)

lemma no_callback_ops [simp]:
  "say (no_callback e) = say e" "log_loop (no_callback e) = log_loop e" "put_entry (no_callback e) = put_entry e"
  "tap_decision (no_callback e) = tap_decision e" "decision_entry (no_callback e) = decision_entry e"
  "decision_event (no_callback e) = decision_event e"
  unfolding fun_eq_iff say_def log_loop_def put_entry_def loop_entry_def tap_decision_def tap_reason_def
    decision_entry_def decision_event_def no_callback_fields by simp_all

lemma no_callback_handlers:
  "handle_media (no_callback e) = handle_media e" "handle_audit (no_callback e) = handle_audit e"
  "handle_halt (no_callback e) = handle_halt e" "handle_resume (no_callback e) = handle_resume e"
  "handle_undo (no_callback e) = handle_undo e"
  unfolding fun_eq_iff handle_media_def media_proposal_def handle_audit_def handle_halt_def halted_reply_def
    handle_resume_def handle_undo_def no_callback_fields no_callback_ops by simp_all

lemma conclude_callback:
  assumes "conclude_decision e out verdict iid aid s \<noteq> conclude_decision (no_callback e) out verdict iid aid s"
  obtains d a i where "out = Inr d" "intent_at iid (tl_intents s) = Some i" "a \<in> set (in_actions i)" "ac_id a = aid"
    "dc_verdict d = JStr ''approve''" "\<not> unsettled d"
proof -
  have "\<exists>d a i. out = Inr d \<and> decided_action out iid aid (tl_intents s) = Some a \<and> intent_at iid (tl_intents s) = Some i \<and>
      dc_verdict d = JStr ''approve'' \<and> \<not> unsettled d"
    using assms
    by (auto simp: conclude_decision_def Let_def put_entry_def split: option.splits sum.splits if_splits)
  then obtain d a i where r: "out = Inr d" "decided_action out iid aid (tl_intents s) = Some a"
      "intent_at iid (tl_intents s) = Some i" "dc_verdict d = JStr ''approve''" "\<not> unsettled d" by blast
  then have "find (\<lambda>a. ac_id a = aid) (in_actions i) = Some a" by (simp add: decided_action_def)
  then have "a \<in> set (in_actions i)" "ac_id a = aid" by (auto simp: find_Some_iff)
  with r that show thesis by blast
qed

lemma handle_decide_callback:
  assumes "handle_decide e verdict iid aid cb chat mid who s \<noteq> handle_decide (no_callback e) verdict iid aid cb chat mid who s"
  obtains out store s1 where "tap_decision e verdict iid aid (tl_intents s) = (out, store)" "tl_intents s1 = store"
    "conclude_decision e out verdict iid aid s1 \<noteq> conclude_decision (no_callback e) out verdict iid aid s1"
proof -
  obtain out store where t: "tap_decision e verdict iid aid (tl_intents s) = (out, store)" by fastforce
  let ?ack = "with_calls (tg_acknowledge (te_wire e) cb (case out of Inr d \<Rightarrow> ''Recorded'' | Inl (st, why) \<Rightarrow> why)) (s\<lparr>tl_intents := store\<rparr>)"
  let ?set = "if truthy chat \<and> truthy mid
              then with_calls (tg_settle (te_wire e) (te_client e) chat mid verdict (cl_id (te_operator e))) (snd ?ack)
              else (Inr JUndef, snd ?ack)"
  have i: "tl_intents (snd ?set) = store" by simp
  have "conclude_decision e out verdict iid aid (snd ?set) \<noteq> conclude_decision (no_callback e) out verdict iid aid (snd ?set)"
    using assms by (auto simp: handle_decide_def t after_def split: prod.splits sum.splits if_splits)
  with t i that show thesis by blast
qed

text \<open>Nothing executes from Telegram without a settled approval: if the callback that runs the broker
  makes any difference to the handling of an update, then the sender is on the allow list, the intent
  store has just accepted an approval of the operator for an action registered on that intent, the
  approval is settled (its quorum is met), and the operator is not the proposer of the intent.\<close>

theorem tap_executes_only_settled:
  assumes "handle_update e u s \<noteq> handle_update (no_callback e) u s"
  shows "\<exists>iid aid d i0 i a. is_operator (te_client e) (update_sender u) \<and>
    fst (decide (te_uuid e) (te_now e) (te_at e) iid (js_string aid) ''approve'' (tap_reason e) (te_operator e) (tl_intents s)) = Inr d \<and>
    dc_settled d \<noteq> JBool False \<and>
    map_of (st_by_id (tl_intents s)) iid = Some i0 \<and> in_proposed_by i0 \<noteq> cl_id (te_operator e) \<and>
    map_of (st_by_id (tap_store e iid (js_string aid) ''approve'' (tl_intents s))) iid = Some i \<and>
    a \<in> set (in_actions i) \<and> ac_id a = aid"
proof -
  obtain cmd where p: "parse_update (te_client e) u = Inr (Some cmd)" and
    c: "handle_command e cmd s \<noteq> handle_command (no_callback e) cmd s"
    using assms by (auto simp: handle_update_def split: sum.splits option.splits)
  then obtain verdict iid aid cb chat mid who where cmd: "cmd = Decide verdict iid aid cb chat mid who"
    by (cases cmd) (auto simp: no_callback_handlers)
  from parse_decide [OF p [unfolded cmd]] have sender: "is_operator (te_client e) (update_sender u)" and
    v: "verdict \<in> {''approve'', ''deny''}" by blast+
  from c [unfolded cmd handle_command.simps] obtain out store s1 where
    t: "tap_decision e verdict iid aid (tl_intents s) = (out, store)" and s1: "tl_intents s1 = store" and
    cc: "conclude_decision e out verdict iid aid s1 \<noteq> conclude_decision (no_callback e) out verdict iid aid s1"
    by (rule handle_decide_callback)
  from conclude_callback [OF cc] s1 obtain d a i where
    r: "out = Inr d" "intent_at iid store = Some i" "a \<in> set (in_actions i)" "ac_id a = aid"
      "dc_verdict d = JStr ''approve''" "\<not> unsettled d" by metis
  then obtain k where k: "iid = JStr k" "map_of (st_by_id store) k = Some i" by (cases iid) (auto simp: intent_at_def)
  have dec: "decide (te_uuid e) (te_now e) (te_at e) k (js_string aid) verdict (tap_reason e) (te_operator e) (tl_intents s) = (Inr d, store)"
    using t r(1) k(1) by (simp add: tap_decision_def)
  obtain i0 where i0: "map_of (st_by_id (tl_intents s)) k = Some i0" "in_proposed_by i0 \<noteq> cl_id (te_operator e)"
    "dc_verdict d = JStr verdict"
    using dec by (auto simp: decide_def mk_decision_def Let_def split: option.splits if_splits)
  then have "verdict = ''approve''" using r(5) by simp
  with sender dec i0 k(2) r(3,4,6) show ?thesis
    by (intro exI [of _ k] exI [of _ aid] exI [of _ d] exI [of _ i0] exI [of _ i] exI [of _ a]) (simp add: tap_store_def unsettled_def)
qed

section \<open>The hardened method list\<close>

definition calls_ok :: "('r, 'w) loop_state \<Rightarrow> bool" where
  "calls_ok s = hardened (tl_calls s)"

lemma calls_ok_frame [simp]:
  "calls_ok (s\<lparr>tl_intents := a\<rparr>) = calls_ok s" "calls_ok (s\<lparr>tl_world := w\<rparr>) = calls_ok s"
  "calls_ok (s\<lparr>tl_undo := m\<rparr>) = calls_ok s" "calls_ok (s\<lparr>tl_ledger := l\<rparr>) = calls_ok s"
  "calls_ok (s\<lparr>tl_halted := h\<rparr>) = calls_ok s" "calls_ok (s\<lparr>tl_offset := n\<rparr>) = calls_ok s"
  "calls_ok (s\<lparr>tl_events := evs\<rparr>) = calls_ok s" "calls_ok (log_loop e entry s) = calls_ok s"
  "calls_ok (put_entry e entry s) = calls_ok s" "calls_ok (conclude_decision e out verdict iid aid s) = calls_ok s"
  by (auto simp: calls_ok_def log_loop_def put_entry_def conclude_decision_def Let_def split: option.split sum.split prod.split)

lemma calls_ok_with:
  assumes "\<And>c. hardened c \<Longrightarrow> hardened (snd (f c))" and "calls_ok s"
  shows "calls_ok (snd (with_calls f s))"
  using assms by (auto simp: calls_ok_def with_calls_def split: prod.split) (metis snd_conv)

lemma calls_ok_say: "calls_ok s \<Longrightarrow> calls_ok (snd (say e chat text s))"
  unfolding say_def by (rule calls_ok_with) (simp_all add: tg_send_def hardened_call)

lemma calls_ok_after:
  assumes "calls_ok (snd r)" and "\<And>v s. calls_ok s \<Longrightarrow> calls_ok (snd (k v s))"
  shows "calls_ok (snd (after r k))"
  using assms by (auto simp: snd_after split: sum.split)

lemma calls_ok_decide: "calls_ok s \<Longrightarrow> calls_ok (snd (handle_decide e verdict iid aid cb chat mid who s))"
  by (auto simp: handle_decide_def hardened_call tg_acknowledge_def hardened_settle intro!: calls_ok_after calls_ok_with
      split: prod.split)

lemma calls_ok_media: "calls_ok s \<Longrightarrow> calls_ok (snd (handle_media e d chat who s))"
proof -
  assume s: "calls_ok s"
  have "calls_ok (snd (media_proposal e f d chat who s))" for f
    using s by (auto simp: media_proposal_def intro!: calls_ok_after calls_ok_say split: sum.split prod.split)
  with s show ?thesis
    by (auto simp: handle_media_def intro!: calls_ok_after calls_ok_say split: option.split sum.split prod.split) (metis snd_conv)+
qed

text \<open>The bot never calls a method outside its list, so it cannot redirect its own approval channel.\<close>

lemma calls_ok_handle: "calls_ok s \<Longrightarrow> calls_ok (snd (handle_update e u s))"
proof -
  assume s: "calls_ok s"
  have "calls_ok (snd (handle_command e cmd s))" for cmd
    using s
    by (cases cmd)
      (auto simp: calls_ok_decide calls_ok_media handle_audit_def handle_halt_def halted_reply_def handle_resume_def handle_undo_def
        intro!: calls_ok_after calls_ok_say split: option.split sum.split prod.split)
  with s show ?thesis by (auto simp: handle_update_def split: sum.split option.split)
qed

lemma calls_ok_batch: "calls_ok s \<Longrightarrow> calls_ok (snd (handle_batch e n us s))"
proof (induction us arbitrary: n s)
  case (Cons u us)
  then show ?case by (auto intro!: calls_ok_after calls_ok_handle)
qed simp

lemma calls_ok_poll: "calls_ok s \<Longrightarrow> calls_ok (snd (poll_once e timeout s))"
  by (auto simp: poll_once_def Let_def calls_ok_def [symmetric] intro!: calls_ok_batch split: sum.split)
    (auto simp: calls_ok_def hardened_def allowed_methods_def)


section \<open>A lost tap\<close>

text \<open>
  The reply to the operator is awaited before the audit entry and the execution.  If it throws, a settled
  approval stays recorded in the store, but nothing is executed and nothing is added to the ledger; the
  update is not fetched again, and the same tap is then refused as already decided.
\<close>

lemma tap_lost_when_reply_throws:
  assumes "tap_decision e verdict iid aid (tl_intents s) = (Inr d, store)"
    and "te_wire e (tl_calls s @ [(''answerCallbackQuery'', JObj [(''callback_query_id'', cb), (''text'', JStr ''Recorded'')])]) = Inl msg"
  shows "fst (handle_decide e verdict iid aid cb chat mid who s) = Inl msg \<and>
    tl_intents (snd (handle_decide e verdict iid aid cb chat mid who s)) = store \<and>
    tl_ledger (snd (handle_decide e verdict iid aid cb chat mid who s)) = tl_ledger s \<and>
    tl_world (snd (handle_decide e verdict iid aid cb chat mid who s)) = tl_world s"
  using assms
  by (simp add: handle_decide_def after_def with_calls_def tg_acknowledge_def tg_call_def allowed_methods_def)

section \<open>Instances\<close>

definition demo_action :: action where
  "demo_action =
     (bare_action ''dispatch.ems'' Create)\<lparr>ac_id := JStr ''a1'', ac_impact := JArr [JStr ''legal''], ac_declared := True\<rparr>"

definition demo_loop_env :: "(unit, bool) loop_env" where
  "demo_loop_env =
     \<lparr>te_client = \<lparr>tc_allowed = [''7''], tc_mode = ''Markdown''\<rparr>, te_wire = (\<lambda>calls. Inr JNull),
      te_operator = \<lparr>cl_id = ''operator:ann'', cl_token = [], cl_secret = [], cl_scopes = [''intent:decide'']\<rparr>,
      te_append = (\<lambda>entry l. (Inr JNull, l\<lparr>lg_mem := lg_mem l @ [JObj entry]\<rparr>)), te_bus = True, te_media = None, te_revert = None,
      te_replay = None, te_approved = Some (\<lambda>i a d (l, m, w). (l, m, True)), te_uuid = ''u'', te_now = 1000, te_at = ''t''\<rparr>"

definition demo_loop :: "(unit, bool) loop_state" where
  "demo_loop =
     create_loop ((create_intents True)\<lparr>st_by_id := [(''int_1'', leaky_intent\<lparr>in_actions := [demo_action]\<rparr>)]\<rparr>) empty_ledger [] False"

definition demo_tap :: "int \<Rightarrow> json" where
  "demo_tap who =
     JObj [(''update_id'', JNum 5),
           (''callback_query'', JObj [(''id'', JStr ''q''), (''from'', JObj [(''id'', JNum who)]), (''data'', JStr ''approve:int_1:a1'')])]"

theorem stranger_is_inert_witness:
  "\<not> is_operator (te_client demo_loop_env) (update_sender (demo_tap 8)) \<and>
   (\<exists>from. snd (handle_update demo_loop_env (demo_tap 8) demo_loop) =
      log_loop demo_loop_env (ignored_entry ''not the registered operator'' from) demo_loop)"
proof -
  have n: "\<not> is_operator (te_client demo_loop_env) (update_sender (demo_tap 8))" by code_simp
  have "lg_mem (tl_ledger (snd (handle_update demo_loop_env (demo_tap 8) demo_loop))) \<noteq> lg_mem (tl_ledger demo_loop)" by code_simp
  then have "snd (handle_update demo_loop_env (demo_tap 8) demo_loop) \<noteq> demo_loop" by metis
  with stranger_is_inert [OF n, of demo_loop] n show ?thesis by blast
qed

theorem tap_executes_only_settled_witness:
  "tl_world (snd (handle_update demo_loop_env (demo_tap 7) demo_loop)) \<and>
   is_operator (te_client demo_loop_env) (update_sender (demo_tap 7)) \<and>
   (\<exists>iid aid d. fst (decide ''u'' 1000 ''t'' iid aid ''approve'' (tap_reason demo_loop_env) (te_operator demo_loop_env) (tl_intents demo_loop)) = Inr d \<and>
      dc_settled d \<noteq> JBool False)"
proof -
  have w: "tl_world (snd (handle_update demo_loop_env (demo_tap 7) demo_loop))" by code_simp
  have "\<not> tl_world (snd (handle_update (no_callback demo_loop_env) (demo_tap 7) demo_loop))" by code_simp
  with w have "handle_update demo_loop_env (demo_tap 7) demo_loop \<noteq> handle_update (no_callback demo_loop_env) (demo_tap 7) demo_loop"
    by metis
  from tap_executes_only_settled [OF this] w show ?thesis by (auto simp: demo_loop_env_def)
qed

end
