(* ===== verification/Policy_Port.thy ===== *)
theory Policy_Port
  imports Envelope Json_Roundtrip
begin

text \<open>
  Correctness of the envelope and the interface the broker relies on: what a glob matches, what a
  request check grants, and that a delta which is applied and reverted leaves the policy exactly
  as it was.
\<close>

section \<open>The glob matcher\<close>

lemma rx_test_Bol: "rx_test (Seq Bol r) s \<longleftrightarrow> rx_match r ([], s) \<noteq> []"
proof
  assume "rx_test (Seq Bol r) s"
  then obtain p where p: "advances ([], s) p" "rx_match (Seq Bol r) p \<noteq> []" by (auto simp: rx_test_iff)
  then have "fst p = []" by (auto split: if_splits)
  with p(1) have "p = ([], s)" by (cases p) (auto simp: advances_def)
  with p(2) show "rx_match r ([], s) \<noteq> []" by simp
next
  assume "rx_match r ([], s) \<noteq> []"
  then show "rx_test (Seq Bol r) s" by (auto simp: rx_test_iff intro!: exI [of _ "([], s)"])
qed

lemma rep_Sat_end:
  "length t < n \<Longrightarrow>
     (\<exists>q \<in> set (rep_m (rx_match (Sat P)) True n 0 None (pre, t)). snd q = []) \<longleftrightarrow> (\<forall>c \<in> set t. P c)"
proof (induction t arbitrary: n pre)
  case Nil
  then obtain m where "n = Suc m" by (cases n) auto
  then show ?case by simp
next
  case (Cons c t)
  then obtain m where n: "n = Suc m" "length t < m" by (cases n) auto
  show ?case using Cons.IH [OF n(2), of "c # pre"] by (auto simp: n(1))
qed

lemma star_Eol: "rx_match (Seq (rx_star (Sat P)) Eol) (pre, t) \<noteq> [] \<longleftrightarrow> (\<forall>c \<in> set t. P c)"
proof -
  have "rx_match (Seq (rx_star (Sat P)) Eol) (pre, t) \<noteq> [] \<longleftrightarrow>
     (\<exists>q \<in> set (rx_match (rx_star (Sat P)) (pre, t)). snd q = [])"
    by (auto simp: concat_eq_Nil_conv)
  also have "\<dots> \<longleftrightarrow> (\<forall>c \<in> set t. P c)"
    unfolding rx_star_def rx_match.simps(5) by (rule rep_Sat_end) simp
  finally show ?thesis .
qed

definition plain_path :: "string \<Rightarrow> bool" where
  "plain_path p = (CHR ''*'' \<notin> set p \<and> CHR ''?'' \<notin> set p \<and> CHR 0x00 \<notin> set p)"

lemma plain_path_Cons [simp]:
  "plain_path (c # p) \<longleftrightarrow> c \<noteq> CHR ''*'' \<and> c \<noteq> CHR ''?'' \<and> c \<noteq> CHR 0x00 \<and> plain_path p"
  by (auto simp: plain_path_def)

lemma glob_tokens_plain: "plain_path p \<Longrightarrow> glob_tokens (p @ s) = map G_lit p @ glob_tokens s"
proof (induction p)
  case (Cons c p)
  then show ?case by (cases "p @ s") auto
qed simp

lemma glob_rx_lits:
  assumes "count_quests ts = 0" and "glob_rx ts = Some r"
  shows "glob_rx (map G_lit p @ ts) = Some (foldr (\<lambda>c. Seq (Sat (\<lambda>d. d = c))) p r)"
proof (induction p)
  case (Cons c p)
  have "count_quests (map G_lit p @ ts) = 0" using assms(1) by (cases p) auto
  with Cons show ?case by simp
qed (simp add: assms)

lemma rx_match_lits:
  "rx_match (foldr (\<lambda>c. Seq (Sat (\<lambda>d. d = c))) p r) (pre, t) =
     (if prefix p t then rx_match r (rev p @ pre, drop (length p) t) else [])"
proof (induction p arbitrary: pre t)
  case (Cons c p)
  then show ?case by (cases t) auto
qed simp

lemma path_matches_plain: "plain_path p \<Longrightarrow> path_matches p path = Some (path = p)"
proof -
  assume p: "plain_path p"
  have "rx_match (Seq (foldr (\<lambda>c. Seq (Sat (\<lambda>d. d = c))) p Eps) Eol) ([], path) \<noteq> [] \<longleftrightarrow> path = p"
    by (auto simp: rx_match_lits prefix_def split: if_splits)
  then show ?thesis
    using glob_tokens_plain [OF p, of "[]"] glob_rx_lits [of "[]" Eps p]
    by (simp only: path_matches_def append_Nil2 glob_tokens.simps count_quests.simps glob_rx.simps
        rx_test_Bol option.map)
qed

lemma path_matches_tree:
  assumes "plain_path p"
  shows "path_matches (p @ ''/**'') path = Some (\<exists>rest. path = p @ ''/'' @ rest \<and> (\<forall>c \<in> set rest. dot_char c))"
proof -
  let ?q = "p @ ''/''"
  have q: "plain_path ?q" using assms by (auto simp: plain_path_def)
  let ?r = "Seq (rx_star (Sat dot_char)) Eps"
  have t: "glob_tokens (p @ ''/**'') = map G_lit ?q @ [G_any]"
    using glob_tokens_plain [OF q, of "''**''"] by simp
  have g: "glob_rx (glob_tokens (p @ ''/**'')) = Some (foldr (\<lambda>c. Seq (Sat (\<lambda>d. d = c))) ?q ?r)"
    unfolding t by (rule glob_rx_lits) simp_all
  have e: "rx_match (Seq ?r Eol) x \<noteq> [] \<longleftrightarrow> (\<forall>c \<in> set (snd x). dot_char c)" for x
    using star_Eol [of dot_char "fst x" "snd x"] by (simp add: comp_def)
  have "rx_match (Seq (foldr (\<lambda>c. Seq (Sat (\<lambda>d. d = c))) ?q ?r) Eol) ([], path) \<noteq> [] \<longleftrightarrow>
      (\<exists>rest. path = ?q @ rest \<and> (\<forall>c \<in> set rest. dot_char c))"
    using e [of "(rev ?q, drop (length ?q) path)"]
    by (auto simp: rx_match_lits prefix_def simp del: foldr_append)
  then show "path_matches (p @ ''/**'') path = Some (\<exists>rest. path = p @ ''/'' @ rest \<and> (\<forall>c \<in> set rest. dot_char c))"
    by (simp only: path_matches_def g option.map rx_test_Bol append_assoc)
qed

text \<open>A grant on \<open>p/**\<close> is a grant on the subtree of \<open>p\<close>: it matches exactly the paths that
  continue \<open>p/\<close> on one line, and a grant on a path without wildcards matches that path alone.\<close>

theorem path_matches_subtree:
  assumes "plain_path p"
  shows "path_matches (p @ ''/**'') path = Some (\<exists>rest. path = p @ ''/'' @ rest \<and> (\<forall>c \<in> set rest. dot_char c)) \<and>
         path_matches p path = Some (path = p)"
  using path_matches_tree [OF assms] path_matches_plain [OF assms] by blast

theorem path_matches_subtree_witness:
  "path_matches ''/v1/dispatch/**'' ''/v1/dispatch/a/b'' = Some True \<and> path_matches ''/v1/dispatch/**'' ''/v1/dispatch'' = Some False"
  using path_matches_subtree [of "''/v1/dispatch''" "''/v1/dispatch/a/b''"] path_matches_subtree [of "''/v1/dispatch''" "''/v1/dispatch''"]
  by (simp add: plain_path_def dot_char_def)

section \<open>What a check grants\<close>

definition granted :: "string + verdict \<Rightarrow> bool" where
  "granted res = (case res of Inl m \<Rightarrow> False | Inr v \<Rightarrow> vd_allowed v)"

text \<open>The reading of a policy: a rule of some endpoint of the host names the method and a glob of the path.\<close>

definition grants :: "policies \<Rightarrow> request \<Rightarrow> bool" where
  "grants pols rq =
     (\<exists>ep \<in> set (endpoints_for pols (rq_host rq)). \<exists>r \<in> set (ep_rules ep).
        ru_method r = rq_method rq \<and> path_matches (ru_path r) (rq_path rq) = Some True)"

text \<open>Policies as the compiler emits them: REST endpoints only, every path a glob.\<close>

definition rest_policies :: "policies \<Rightarrow> bool" where
  "rest_policies pols =
     (\<forall>kg \<in> set pols. \<forall>ep \<in> set (gp_endpoints (snd kg)).
        ep_protocol ep = ''rest'' \<and> (\<forall>r \<in> set (ep_rules ep). glob_rx (glob_tokens (ru_path r)) \<noteq> None))"

lemma set_endpoints_for:
  "ep \<in> set (endpoints_for pols host) \<longleftrightarrow> (\<exists>kg \<in> set pols. ep \<in> set (gp_endpoints (snd kg))) \<and> ep_host ep = host"
  by (auto simp: endpoints_for_def)

lemma check_rules_spec:
  assumes "\<forall>r \<in> set rs. glob_rx (glob_tokens (ru_path r)) \<noteq> None"
  shows "if \<exists>r \<in> set rs. ru_method r = m \<and> path_matches (ru_path r) p = Some True
         then \<exists>v. check_rules m p rs = Inr (Some v) \<and> vd_allowed v
         else check_rules m p rs = Inr None"
  using assms
proof (induction rs)
  case (Cons r rs)
  then obtain x where "path_matches (ru_path r) p = Some x" by (auto simp: path_matches_def)
  with Cons show ?case by (cases x) (auto split: if_splits)
qed simp

lemma check_endpoints_spec:
  assumes "\<forall>ep \<in> set eps. ep_protocol ep = ''rest'' \<and> (\<forall>r \<in> set (ep_rules ep). glob_rx (glob_tokens (ru_path r)) \<noteq> None)"
  shows "if \<exists>ep \<in> set eps. \<exists>r \<in> set (ep_rules ep). ru_method r = m \<and> path_matches (ru_path r) p = Some True
         then \<exists>v. check_endpoints m p eps = Inr (Some v) \<and> vd_allowed v
         else check_endpoints m p eps = Inr None"
  using assms
proof (induction eps)
  case (Cons ep eps)
  then show ?case using check_rules_spec [of "ep_rules ep" m p]
    by (cases "\<exists>r \<in> set (ep_rules ep). ru_method r = m \<and> path_matches (ru_path r) p = Some True")
      (auto split: if_splits)
qed simp

lemma check_policies_granted: "rest_policies pols \<Longrightarrow> granted (check_policies pols rq) \<longleftrightarrow> grants pols rq"
proof -
  assume "rest_policies pols"
  then have "\<forall>ep \<in> set (endpoints_for pols (rq_host rq)). ep_protocol ep = ''rest'' \<and>
      (\<forall>r \<in> set (ep_rules ep). glob_rx (glob_tokens (ru_path r)) \<noteq> None)"
    by (auto simp: set_endpoints_for rest_policies_def)
  from check_endpoints_spec [OF this, of "rq_method rq" "rq_path rq"] show ?thesis
    unfolding grants_def check_policies_def Let_def
    by (cases "\<exists>ep \<in> set (endpoints_for pols (rq_host rq)). \<exists>r \<in> set (ep_rules ep).
        ru_method r = rq_method rq \<and> path_matches (ru_path r) (rq_path rq) = Some True")
      (auto simp: granted_def)
qed

lemma check_policies_total:
  assumes "rest_policies pols"
  shows "\<exists>v. check_policies pols rq = Inr v \<and> vd_allowed v = grants pols rq"
proof -
  have "\<exists>v. check_policies pols rq = Inr v"
  proof -
    have "\<forall>ep \<in> set (endpoints_for pols (rq_host rq)). ep_protocol ep = ''rest'' \<and>
        (\<forall>r \<in> set (ep_rules ep). glob_rx (glob_tokens (ru_path r)) \<noteq> None)"
      using assms by (auto simp: set_endpoints_for rest_policies_def)
    from check_endpoints_spec [OF this, of "rq_method rq" "rq_path rq"] show ?thesis
      by (auto simp: check_policies_def Let_def split: if_splits)
  qed
  then show ?thesis using check_policies_granted [OF assms, of rq] by (auto simp: granted_def)
qed

section \<open>Applying and dropping a delta\<close>

lemma map_rules_id: "(\<And>kg ep. kg \<in> set pols \<Longrightarrow> ep \<in> set (gp_endpoints (snd kg)) \<Longrightarrow> f (ep_rules ep) = ep_rules ep) \<Longrightarrow> map_rules f pols = pols"
proof -
  assume a: "\<And>kg ep. kg \<in> set pols \<Longrightarrow> ep \<in> set (gp_endpoints (snd kg)) \<Longrightarrow> f (ep_rules ep) = ep_rules ep"
  have "g\<lparr>gp_endpoints := map (\<lambda>ep. ep\<lparr>ep_rules := f (ep_rules ep)\<rparr>) (gp_endpoints g)\<rparr> = g" if "(k, g) \<in> set pols" for k g
  proof -
    have "map (\<lambda>ep. ep\<lparr>ep_rules := f (ep_rules ep)\<rparr>) (gp_endpoints g) = gp_endpoints g"
      using a [OF that] by (intro map_idI) simp
    then show ?thesis by simp
  qed
  then show ?thesis unfolding map_rules_def by (intro map_idI) auto
qed

lemma push_endpoint_none: "\<forall>ep \<in> set eps. ep_host ep \<noteq> host \<Longrightarrow> push_endpoint host r eps = eps"
  by (induction eps) auto

lemma map_rules_push_endpoint:
  "\<forall>ep \<in> set eps. f (ep_rules ep) = ep_rules ep \<Longrightarrow> (\<forall>ep \<in> set eps. f (ep_rules ep @ [r]) = f (ep_rules ep)) \<Longrightarrow>
     map (\<lambda>ep. ep\<lparr>ep_rules := f (ep_rules ep)\<rparr>) (push_endpoint host r eps) = eps"
  by (induction eps) (auto intro: map_idI)

definition tag_free :: "string \<Rightarrow> policies \<Rightarrow> bool" where
  "tag_free i pols = (\<forall>r \<in> set (all_rules pols). ru_delta r \<noteq> Some i)"

lemma tag_free_Cons:
  "tag_free i ((k, g) # gs) \<longleftrightarrow>
     (\<forall>ep \<in> set (gp_endpoints g). \<forall>r \<in> set (ep_rules ep). ru_delta r \<noteq> Some i) \<and> tag_free i gs"
  by (auto simp: tag_free_def all_rules_def)

lemma drop_delta_free: "tag_free i pols \<Longrightarrow> drop_delta i pols = pols"
  unfolding drop_delta_def
  by (rule map_rules_id) (auto simp: tag_free_def all_rules_def intro!: filter_True)

lemma drop_delta_Cons:
  "drop_delta i ((k, g) # gs) =
     (k, g\<lparr>gp_endpoints := map (\<lambda>ep. ep\<lparr>ep_rules := filter (\<lambda>r. ru_delta r \<noteq> Some i) (ep_rules ep)\<rparr>) (gp_endpoints g)\<rparr>)
       # drop_delta i gs"
  by (simp add: drop_delta_def map_rules_def)

lemma drop_delta_push:
  "tag_free i pols \<Longrightarrow> ru_delta r = Some i \<Longrightarrow> drop_delta i (push_rule host r pols) = pols"
proof (induction pols)
  case (Cons kg pols)
  obtain k g where kg: "kg = (k, g)" by (cases kg)
  have "map (\<lambda>ep. ep\<lparr>ep_rules := filter (\<lambda>r. ru_delta r \<noteq> Some i) (ep_rules ep)\<rparr>) (push_endpoint host r (gp_endpoints g)) = gp_endpoints g"
    using Cons.prems kg by (intro map_rules_push_endpoint) (auto simp: tag_free_Cons intro!: filter_True)
  moreover have "map (\<lambda>ep. ep\<lparr>ep_rules := filter (\<lambda>r. ru_delta r \<noteq> Some i) (ep_rules ep)\<rparr>) (gp_endpoints g) = gp_endpoints g"
    using Cons.prems kg by (auto simp: tag_free_Cons intro!: map_idI filter_True)
  ultimately show ?case using Cons kg drop_delta_free [of i pols]
    by (simp add: drop_delta_Cons tag_free_Cons)
qed (simp add: drop_delta_def map_rules_def)

lemma set_push_endpoint:
  "r' \<in> set (concat (map ep_rules (push_endpoint host r eps))) \<Longrightarrow> r' = r \<or> r' \<in> set (concat (map ep_rules eps))"
  by (induction eps) (auto split: if_splits)

lemma set_push_rule: "r' \<in> set (all_rules (push_rule host r pols)) \<Longrightarrow> r' = r \<or> r' \<in> set (all_rules pols)"
proof (induction pols)
  case (Cons kg pols)
  obtain k g where kg: "kg = (k, g)" by (cases kg)
  then show ?case using Cons set_push_endpoint [of r' host r "gp_endpoints g"]
    by (auto simp: all_rules_def split: if_splits)
qed simp

lemma set_drop_delta: "r \<in> set (all_rules (drop_delta i pols)) \<longleftrightarrow> r \<in> set (all_rules pols) \<and> ru_delta r \<noteq> Some i"
proof (induction pols)
  case (Cons kg pols)
  obtain k g where "kg = (k, g)" by (cases kg)
  with Cons show ?case by (fastforce simp: all_rules_def drop_delta_Cons)
qed (simp add: all_rules_def drop_delta_def map_rules_def)

lemma nat_of_show_inj: "show_nat n = show_nat m \<Longrightarrow> n = m"
  by (metis nat_of_digits_show)

lemma delta_id_inj [simp]: "delta_id n = delta_id m \<longleftrightarrow> n = m"
  by (auto simp: delta_id_def dest: nat_of_show_inj)

section \<open>The interface of a policy port\<close>

text \<open>
  What the broker asks of the port it brackets a consequential write with: a failed application
  changes nothing that is granted, and a revert right behind a successful one restores it.
\<close>

locale policy_port =
  fixes apply_delta :: "action \<Rightarrow> 'p \<Rightarrow> (string + unit) \<times> 'p"
    and revert_delta :: "action \<Rightarrow> 'p \<Rightarrow> (string + unit) \<times> 'p"
    and view :: "'p \<Rightarrow> policies"
    and inv :: "'p \<Rightarrow> bool"
    and okay :: "action \<Rightarrow> bool"
  assumes apply_inv: "inv p \<Longrightarrow> okay a \<Longrightarrow> inv (snd (apply_delta a p))"
    and revert_inv: "inv p \<Longrightarrow> inv (snd (revert_delta a p))"
    and apply_Inl: "apply_delta a p = (Inl m, p') \<Longrightarrow> view p' = view p"
    and bracket: "inv p \<Longrightarrow> okay a \<Longrightarrow> apply_delta a p = (Inr u, p') \<Longrightarrow> view (snd (revert_delta a p')) = view p"
begin

definition bracketed :: "action \<Rightarrow> 'p \<Rightarrow> 'p" where
  "bracketed a p = (case apply_delta a p of (Inl m, p') \<Rightarrow> p' | (Inr u, p') \<Rightarrow> snd (revert_delta a p'))"

lemma bracketed_view: "inv p \<Longrightarrow> okay a \<Longrightarrow> view (bracketed a p) = view p"
  by (cases "apply_delta a p") (auto simp: bracketed_def apply_Inl bracket split: sum.split)

lemma bracketed_inv: "inv p \<Longrightarrow> okay a \<Longrightarrow> inv (bracketed a p)"
  using apply_inv [of p a] by (cases "apply_delta a p") (auto simp: bracketed_def revert_inv split: sum.split)

lemma bracketed_run:
  "inv p \<Longrightarrow> list_all okay as \<Longrightarrow> view (fold bracketed as p) = view p \<and> inv (fold bracketed as p)"
  by (induction as arbitrary: p) (simp_all add: bracketed_view bracketed_inv)

end

definition sim_view :: "sim_policy \<Rightarrow> policies" where
  "sim_view p = en_policies (sm_env p)"

definition tags_of :: "policies \<Rightarrow> string set" where
  "tags_of pols = {i. \<exists>r \<in> set (all_rules pols). ru_delta r = Some i}"

definition sim_inv :: "sim_policy \<Rightarrow> bool" where
  "sim_inv p =
     (tags_of (sim_view p) \<subseteq> delta_id ` {..sm_counter p} \<and> map_of (sm_applied p) (JStr []) = None)"

text \<open>An action with the empty string for its id shares the key of the actions without one.\<close>

definition sim_okay :: "action \<Rightarrow> bool" where
  "sim_okay a = (ac_id a \<noteq> JStr [])"

lemma tag_free_iff: "tag_free i pols \<longleftrightarrow> i \<notin> tags_of pols"
  by (auto simp: tag_free_def tags_of_def)

lemma tags_of_drop: "tags_of (drop_delta i pols) = tags_of pols - {i}"
  by (auto simp: tags_of_def set_drop_delta)

lemma tags_of_push: "tags_of (push_rule host r pols) \<subseteq> tags_of pols \<union> {i. ru_delta r = Some i}"
  by (auto simp: tags_of_def dest!: set_push_rule)

lemma delta_id_nonempty [simp]: "delta_id n \<noteq> []" "[] \<noteq> delta_id n"
  by (simp_all add: delta_id_def)

lemma sim_fresh: "sim_inv p \<Longrightarrow> tag_free (delta_id (Suc (sm_counter p))) (sim_view p)"
  by (auto simp: sim_inv_def tag_free_iff)

lemma sim_apply_cases:
  assumes "sim_apply a p = (res, p')"
  obtains (failed) m where "res = Inl m" "sim_view p' = sim_view p" "sm_counter p' = Suc (sm_counter p)"
      "sm_applied p' = sm_applied p \<or> sm_applied p' = jset (sm_applied p) (js_coalesce (ac_id a) (JStr (delta_id (Suc (sm_counter p))))) (delta_id (Suc (sm_counter p)))"
  | (applied) rq where "res = Inr ()" "ac_request a = Some rq" "endpoints_for (sim_view p) (rq_host rq) \<noteq> []"
      "sim_view p' = push_rule (rq_host rq)
         \<lparr>ru_method = rq_method rq, ru_path = rq_path rq, ru_delta = Some (delta_id (Suc (sm_counter p)))\<rparr> (sim_view p)"
      "sm_counter p' = Suc (sm_counter p)"
      "sm_applied p' = jset (sm_applied p) (js_coalesce (ac_id a) (JStr (delta_id (Suc (sm_counter p))))) (delta_id (Suc (sm_counter p)))"
proof (cases "ac_request a")
  case None
  with assms have "res = Inl ''Cannot destructure property 'host' of 'action.request' as it is undefined.''"
    "p' = p\<lparr>sm_counter := Suc (sm_counter p)\<rparr>"
    by (simp_all add: sim_apply_def Let_def)
  then show thesis using failed by (simp add: sim_view_def)
next
  case (Some rq)
  show thesis
  proof (cases "endpoints_for (sim_view p) (rq_host rq) = []")
    case True
    with Some assms have "\<exists>m. res = Inl m" and "sm_env p' = sm_env p" and "sm_counter p' = Suc (sm_counter p)"
      "sm_applied p' = jset (sm_applied p) (js_coalesce (ac_id a) (JStr (delta_id (Suc (sm_counter p))))) (delta_id (Suc (sm_counter p)))"
      by (auto simp: sim_apply_def Let_def envelope_apply_def sim_view_def)
    then show thesis using failed by (auto simp: sim_view_def)
  next
    case False
    with Some assms show thesis using applied [of rq]
      by (auto simp: sim_apply_def Let_def envelope_apply_def sim_view_def)
  qed
qed

lemma sim_revert_view: "sim_view (snd (sim_revert a p)) =
     drop_delta (case map_of (sm_applied p) (js_coalesce (ac_id a) (JStr [])) of None \<Rightarrow> delta_id (sm_counter p) | Some i \<Rightarrow> i) (sim_view p)"
  by (simp add: sim_revert_def Let_def sim_view_def envelope_revert_def)

lemma sim_revert_counter [simp]: "sm_counter (snd (sim_revert a p)) = sm_counter p"
  by (simp add: sim_revert_def Let_def)

lemma sim_revert_applied: "sm_applied (snd (sim_revert a p)) = jdel (sm_applied p) (js_coalesce (ac_id a) (JStr []))"
  by (simp add: sim_revert_def Let_def)

lemma sim_apply_inv: "sim_inv p \<Longrightarrow> sim_okay a \<Longrightarrow> sim_inv (snd (sim_apply a p))"
proof -
  assume inv: "sim_inv p" and ok: "sim_okay a"
  obtain res p' where r: "sim_apply a p = (res, p')" by (cases "sim_apply a p")
  have k: "js_coalesce (ac_id a) (JStr (delta_id n)) \<noteq> JStr []" for n
    using ok by (simp add: sim_okay_def js_coalesce_def)
  have d: "tags_of (sim_view p) \<union> {delta_id (Suc (sm_counter p))} \<subseteq> delta_id ` {..Suc (sm_counter p)}"
    using inv by (auto simp: sim_inv_def)
  have "map_of (sm_applied p') (JStr []) = None \<and> sm_counter p' = Suc (sm_counter p) \<and>
      tags_of (sim_view p') \<subseteq> tags_of (sim_view p) \<union> {delta_id (Suc (sm_counter p))}"
    using r
  proof (cases rule: sim_apply_cases)
    case failed
    then show ?thesis using inv k [of "Suc (sm_counter p)"] by (auto simp: sim_inv_def)
  next
    case (applied rq)
    have "tags_of (sim_view p') \<subseteq> tags_of (sim_view p) \<union> {i. Some (delta_id (Suc (sm_counter p))) = Some i}"
      unfolding applied(4) using tags_of_push by fastforce
    then show ?thesis using inv k [of "Suc (sm_counter p)"] applied(5,6) by (auto simp: sim_inv_def)
  qed
  then show ?thesis using d by (auto simp: sim_inv_def r)
qed

lemma sim_revert_inv: "sim_inv p \<Longrightarrow> sim_inv (snd (sim_revert a p))"
  by (auto simp: sim_inv_def sim_revert_view tags_of_drop sim_revert_applied)

lemma sim_bracket:
  assumes "sim_inv p" and "sim_okay a" and "sim_apply a p = (Inr u, p')"
  shows "sim_view (snd (sim_revert a p')) = sim_view p"
proof -
  let ?i = "delta_id (Suc (sm_counter p))"
  from assms(3) show ?thesis
  proof (cases rule: sim_apply_cases)
    case (applied rq)
    have "map_of (sm_applied p') (js_coalesce (ac_id a) (JStr [])) = (if nullish (ac_id a) then None else Some ?i)"
      using assms(1) applied(6) by (auto simp: js_coalesce_def sim_inv_def)
    then have "sim_view (snd (sim_revert a p')) = drop_delta ?i (sim_view p')"
      by (simp add: sim_revert_view applied(5))
    also have "\<dots> = sim_view p"
      unfolding applied(4) by (rule drop_delta_push [OF sim_fresh [OF assms(1)]]) simp
    finally show ?thesis .
  qed simp
qed

interpretation sim: policy_port sim_apply sim_revert sim_view sim_inv sim_okay
proof
  show "sim_view p' = sim_view p" if "sim_apply a p = (Inl m, p')" for a p m p'
    using that by (cases rule: sim_apply_cases) simp_all
qed (fact sim_apply_inv sim_revert_inv sim_bracket)+

section \<open>Properties\<close>

lemma endpoints_for_Nil: "endpoints_for pols host = [] \<longleftrightarrow> (\<forall>kg \<in> set pols. \<forall>ep \<in> set (gp_endpoints (snd kg)). ep_host ep \<noteq> host)"
  by (auto simp: endpoints_for_def filter_empty_conv)

definition grants_in :: "endpoint list \<Rightarrow> request \<Rightarrow> bool" where
  "grants_in eps rq =
     (\<exists>ep \<in> set eps. ep_host ep = rq_host rq \<and> (\<exists>r \<in> set (ep_rules ep). ru_method r = rq_method rq \<and> path_matches (ru_path r) (rq_path rq) = Some True))"

lemma grants_grants_in: "grants pols rq = (\<exists>kg \<in> set pols. grants_in (gp_endpoints (snd kg)) rq)"
  unfolding grants_def grants_in_def Bex_def set_endpoints_for by blast

lemma grants_in_Cons:
  "grants_in (ep # eps) rq \<longleftrightarrow>
     (ep_host ep = rq_host rq \<and> (\<exists>r \<in> set (ep_rules ep). ru_method r = rq_method rq \<and> path_matches (ru_path r) (rq_path rq) = Some True)) \<or> grants_in eps rq"
  by (auto simp: grants_in_def)

lemma grants_in_push_endpoint:
  "grants_in (push_endpoint host r eps) rq \<longleftrightarrow>
     grants_in eps rq \<or> ((\<exists>ep \<in> set eps. ep_host ep = host) \<and> rq_host rq = host \<and> ru_method r = rq_method rq \<and> path_matches (ru_path r) (rq_path rq) = Some True)"
proof (induction eps)
  case (Cons ep eps)
  then show ?case by (cases "ep_host ep = host") (auto simp: grants_in_Cons)
qed (simp add: grants_in_def)

lemma grants_push_rule:
  "grants (push_rule host r pols) rq \<longleftrightarrow>
     grants pols rq \<or> (endpoints_for pols host \<noteq> [] \<and> rq_host rq = host \<and> ru_method r = rq_method rq \<and> path_matches (ru_path r) (rq_path rq) = Some True)"
proof (induction pols)
  case (Cons kg pols)
  obtain k g where kg: "kg = (k, g)" by (cases kg)
  show ?case
  proof (cases "\<exists>ep \<in> set (gp_endpoints g). ep_host ep = host")
    case True
    then have "endpoints_for (kg # pols) host \<noteq> []" using kg by (auto simp: endpoints_for_Nil)
    with True kg show ?thesis by (auto simp: grants_grants_in grants_in_push_endpoint)
  next
    case False
    then have "endpoints_for (kg # pols) host = [] \<longleftrightarrow> endpoints_for pols host = []"
      using kg by (auto simp: endpoints_for_Nil)
    with False kg Cons show ?thesis by (auto simp: grants_grants_in)
  qed
qed (simp add: grants_def endpoints_for_def)

text \<open>What a policy check grants: on a policy of REST endpoints, a request is allowed exactly if
  some rule of its host has its method and a glob of its path; every other request gets the 403.\<close>

theorem check_grants_iff:
  assumes "rest_policies pols"
  shows "(grants pols rq \<longrightarrow> (\<exists>v. check_policies pols rq = Inr v \<and> vd_allowed v \<and> vd_status v = 200)) \<and>
         (\<not> grants pols rq \<longrightarrow> (\<exists>v. check_policies pols rq = Inr v \<and> \<not> vd_allowed v \<and> vd_status v = 403))"
proof -
  have rs: "check_rules m p rs = Inr (Some v) \<Longrightarrow> vd_allowed v \<and> vd_status v = 200" for m p rs v
    by (induction rs) (auto split: if_splits option.splits bool.splits)
  have es: "check_endpoints m p eps = Inr (Some v) \<Longrightarrow> vd_allowed v \<and> vd_status v = 200" for m p eps v
    by (induction eps) (auto split: if_splits sum.splits option.splits dest: rs)
  have st: "check_policies pols rq = Inr v \<Longrightarrow> vd_status v = (if vd_allowed v then 200 else 403)" for v
    by (auto simp: check_policies_def Let_def split: if_splits sum.splits option.splits dest: es)
  from check_policies_total [OF assms, of rq] have "\<exists>v. check_policies pols rq = Inr v" by blast
  then obtain v where v: "check_policies pols rq = Inr v" by blast
  with check_policies_granted [OF assms, of rq] st [OF v] show ?thesis by (auto simp: granted_def)
qed

definition city_policies :: policies where
  "city_policies =
     [(''city'', \<lparr>gp_name = ''city'',
        gp_endpoints = [\<lparr>ep_host = ''city'', ep_port = 443, ep_protocol = ''rest'', ep_enforcement = ''enforce'',
          ep_rules = [\<lparr>ru_method = ''GET'', ru_path = ''/dispatch/**'', ru_delta = None\<rparr>]\<rparr>],
        gp_binaries = []\<rparr>)]"

abbreviation city_post :: request where
  "city_post \<equiv> \<lparr>rq_method = ''POST'', rq_host = ''city'', rq_path = ''/dispatch/ems''\<rparr>"

lemma rest_city: "rest_policies city_policies"
  by (simp add: rest_policies_def city_policies_def)

theorem check_grants_iff_witness:
  "rest_policies city_policies \<and> (\<exists>v. check_policies city_policies city_post = Inr v \<and> \<not> vd_allowed v \<and> vd_status v = 403)"
  using check_grants_iff [OF rest_city, of city_post] rest_city
  by (simp add: grants_def city_policies_def endpoints_for_def)

text \<open>A delta is narrow: behind a successful application exactly the requests of its host and
  method on its path are granted in addition; and the revert restores the policy as it was.\<close>

theorem sim_delta_narrow:
  assumes "sim_inv p" and "sim_okay a" and "sim_apply a p = (Inr u, p')" and "ac_request a = Some rq"
  shows "(grants (sim_view p') x \<longleftrightarrow> grants (sim_view p) x \<or>
            rq_host x = rq_host rq \<and> rq_method x = rq_method rq \<and> path_matches (rq_path rq) (rq_path x) = Some True) \<and>
         sim_view (snd (sim_revert a p')) = sim_view p"
proof
  from assms(3) show "grants (sim_view p') x \<longleftrightarrow> grants (sim_view p) x \<or>
      rq_host x = rq_host rq \<and> rq_method x = rq_method rq \<and> path_matches (rq_path rq) (rq_path x) = Some True"
    by (cases rule: sim_apply_cases) (use assms(4) in \<open>auto simp: grants_push_rule\<close>)
  show "sim_view (snd (sim_revert a p')) = sim_view p"
    by (rule sim.bracket [OF assms(1-3)])
qed

abbreviation city_action :: action where
  "city_action \<equiv> bare_action ''dispatch.ems'' Create\<lparr>ac_id := JStr ''a1'', ac_request := Some city_post\<rparr>"

lemma sim_inv_city: "sim_inv (create_sim city_policies)"
  by (simp add: sim_inv_def create_sim_def create_envelope_def sim_view_def city_policies_def tags_of_def all_rules_def)

theorem sim_delta_narrow_witness:
  "\<exists>p'. sim_apply city_action (create_sim city_policies) = (Inr (), p') \<and> grants (sim_view p') city_post \<and>
     sim_view (snd (sim_revert city_action p')) = city_policies"
proof -
  let ?p = "create_sim city_policies"
  have ok: "sim_okay city_action" by (simp add: sim_okay_def bare_action_def)
  have rq: "ac_request city_action = Some city_post" by simp
  have "fst (sim_apply city_action ?p) = Inr ()"
    by (simp add: sim_apply_def Let_def envelope_apply_def create_sim_def create_envelope_def city_policies_def endpoints_for_def)
  then obtain p' where p': "sim_apply city_action ?p = (Inr (), p')" by (metis prod.collapse)
  from sim_delta_narrow [OF sim_inv_city ok p' rq, of city_post] p' path_matches_plain [of "''/dispatch/ems''" "''/dispatch/ems''"]
  show ?thesis by (simp add: plain_path_def) (simp add: sim_view_def create_sim_def create_envelope_def)
qed

text \<open>The simulated port holds one delta per action id: an action whose delta is applied a second
  time before the first is reverted leaves its capability open, however often it is reverted
  afterwards, because the first delta's tag is forgotten.\<close>

theorem sim_double_apply_leaks:
  assumes "sim_inv p" and "\<not> nullish (ac_id a)" and "sim_okay a" and "ac_request a = Some rq" and "plain_path (rq_path rq)"
    and "sim_apply a p = (Inr u, p1)" and "sim_apply a p1 = (Inr u', p2)"
  shows "grants (sim_view (snd (sim_revert a (snd (sim_revert a p2))))) rq"
proof -
  let ?i = "delta_id (Suc (sm_counter p))" and ?j = "delta_id (Suc (Suc (sm_counter p)))"
  let ?r = "\<lambda>t. \<lparr>ru_method = rq_method rq, ru_path = rq_path rq, ru_delta = Some t\<rparr>"
  have p1: "sim_view p1 = push_rule (rq_host rq) (?r ?i) (sim_view p)" "sm_counter p1 = Suc (sm_counter p)"
    "endpoints_for (sim_view p) (rq_host rq) \<noteq> []"
    using assms(6) by (cases rule: sim_apply_cases; use assms(4) in auto)+
  have p2: "sim_view p2 = push_rule (rq_host rq) (?r ?j) (sim_view p1)" "sm_counter p2 = Suc (sm_counter p1)"
    "map_of (sm_applied p2) (ac_id a) = Some ?j"
    using assms(7) by (cases rule: sim_apply_cases; use assms(2,4) p1(2) in \<open>auto simp: js_coalesce_def\<close>)+
  have inv1: "sim_inv p1" using sim.apply_inv [OF assms(1,3)] assms(6) by simp
  have f: "tag_free ?j (sim_view p1)" using sim_fresh [OF inv1] p1(2) by simp
  let ?p3 = "snd (sim_revert a p2)"
  have "sim_view ?p3 = drop_delta ?j (sim_view p2)"
    using p2(3) assms(2) by (simp add: sim_revert_view js_coalesce_def)
  also have "\<dots> = sim_view p1" unfolding p2(1) by (rule drop_delta_push [OF f]) simp
  finally have v3: "sim_view ?p3 = sim_view p1" .
  have "sim_view (snd (sim_revert a ?p3)) = drop_delta ?j (sim_view ?p3)"
    using assms(2) p2(2) p1(2) by (simp add: sim_revert_view sim_revert_applied js_coalesce_def)
  then have "sim_view (snd (sim_revert a ?p3)) = sim_view p1" using v3 drop_delta_free [OF f] by simp
  then show ?thesis
    using p1(1,3) path_matches_plain [OF assms(5), of "rq_path rq"] by (simp add: grants_push_rule)
qed

theorem sim_double_apply_leaks_witness:
  "\<not> grants city_policies city_post \<and>
   grants (sim_view (snd (sim_revert city_action (snd (sim_revert city_action
      (snd (sim_apply city_action (snd (sim_apply city_action (create_sim city_policies)))))))))) city_post"
proof -
  let ?p = "create_sim city_policies"
  have a: "fst (sim_apply city_action ?p) = Inr ()" "fst (sim_apply city_action (snd (sim_apply city_action ?p))) = Inr ()"
    by (simp_all add: sim_apply_def Let_def envelope_apply_def create_sim_def create_envelope_def city_policies_def endpoints_for_def)
  have "grants (sim_view (snd (sim_revert city_action (snd (sim_revert city_action
      (snd (sim_apply city_action (snd (sim_apply city_action ?p))))))))) city_post"
    by (rule sim_double_apply_leaks [OF sim_inv_city, where u = "()" and u' = "()" and ?p1.0 = "snd (sim_apply city_action ?p)"])
      (use a in \<open>auto simp: bare_action_def sim_okay_def plain_path_def prod_eq_iff\<close>)
  then show ?thesis by (simp add: grants_def city_policies_def endpoints_for_def)
qed

end
