(* ===== verification/Broker.thy ===== *)
theory Broker
  imports Decision Undo Policy_Port Ledger_Durable
begin

text \<open>
  The choke point, \<open>authorize\<close> of src/broker/authorize.js: prohibited before anything else,
  undeclared before any permissive path, the ledger before the execution, and a consequential write
  bracketed by the policy port.

  What the context of a call passes in is the record \<open>ctx\<close>; the objects it shares with other calls
  (the ledger, the policy, the undo registry, the world outside) are the state \<open>bstate\<close>.
  \<open>cx_execute\<close> is the caller's executor: it sees the ledger and the policy as they are when it runs,
  so that the order of the steps can be stated.  \<open>bs_disks\<close> lists what the disk does to the
  coming ledger writes; behind its end they succeed.  A thrown error is \<open>Inl\<close>.
\<close>

section \<open>Context, state and results\<close>

record ('p, 'w, 'r) ctx =
  cx_hash :: "string \<Rightarrow> string"
  cx_env :: "string option"
  cx_at :: string
  cx_now :: int
  cx_apply :: "action \<Rightarrow> 'p \<Rightarrow> (string + unit) \<times> 'p"
  cx_revert :: "action \<Rightarrow> 'p \<Rightarrow> (string + unit) \<times> 'p"
  cx_execute :: "action \<Rightarrow> ledger \<Rightarrow> 'p \<Rightarrow> 'w \<Rightarrow> (string + json) \<times> 'w"
  cx_decision :: "decision option"
  cx_inverse :: "'r option"

record ('p, 'w, 'r) bstate =
  bs_ledger :: ledger
  bs_disks :: "disk list"
  bs_policy :: 'p
  bs_world :: 'w
  bs_undo :: "'r undo_store option"

datatype broker_result =
    Refused tier string "string option"
  | Escalated string json
  | Executed tier string json json bool "string option"

text \<open>The policy port of a context that has none.\<close>

definition null_port :: "action \<Rightarrow> 'p \<Rightarrow> (string + unit) \<times> 'p" where
  "null_port a p = (Inr (), p)"

section \<open>Ledger entries\<close>

text \<open>\<open>{...a, ...b}\<close>.\<close>

definition spread :: "(string \<times> json) list \<Rightarrow> (string \<times> json) list \<Rightarrow> (string \<times> json) list" where
  "spread a b = foldl (\<lambda>m kv. jset m (fst kv) (snd kv)) a b"

definition base_entry :: "(string \<Rightarrow> string) \<Rightarrow> action \<Rightarrow> (string \<times> json) list" where
  "base_entry hash a =
     [(''agent'', js_coalesce (ac_agent a) (JStr ''unknown'')),
      (''tool'', JStr (case ac_tool a of None \<Rightarrow> ''unknown'' | Some t \<Rightarrow> t)),
      (''verb'', verb_value (ac_verb a)),
      (''impact'', js_coalesce (ac_impact a) (JArr [])),
      (''argsHash'', JStr (hash_args hash (case ac_args a of None \<Rightarrow> JUndef | Some kvs \<Rightarrow> JObj kvs))),
      (''actionId'', js_coalesce (ac_id a) JNull)]
     @ (if truthy (ac_intent a) then [(''intentId'', ac_intent a)] else [])
     @ (if truthy (ac_resource a) then [(''resource'', ac_resource a)] else [])
     @ (case ac_request a of
          None \<Rightarrow> []
        | Some rq \<Rightarrow> [(''target'', JStr (js_trim (rq_method rq @ '' '' @ rq_host rq @ rq_path rq)))])"

definition next_disk :: "disk list \<Rightarrow> disk" where
  "next_disk ds = (case ds of [] \<Rightarrow> Disk_ok | d # _ \<Rightarrow> d)"

definition append_entry ::
  "('p, 'w, 'r) ctx \<Rightarrow> (string \<times> json) list \<Rightarrow> ('p, 'w, 'r) bstate \<Rightarrow> (string + json) \<times> ('p, 'w, 'r) bstate" where
  "append_entry cx e s =
     (case ledger_append (cx_hash cx) (next_disk (bs_disks s)) (cx_at cx) e (bs_ledger s) of
        (res, l) \<Rightarrow> (res, s\<lparr>bs_ledger := l, bs_disks := tl (bs_disks s)\<rparr>))"

text \<open>\<open>record\<close>: the best-effort entry, whose failure changes nothing.\<close>

definition record_entry ::
  "('p, 'w, 'r) ctx \<Rightarrow> action \<Rightarrow> (string \<times> json) list \<Rightarrow> ('p, 'w, 'r) bstate \<Rightarrow> ('p, 'w, 'r) bstate" where
  "record_entry cx a e s = snd (append_entry cx (spread (base_entry (cx_hash cx) a) e) s)"

definition outcome_entry :: "tier \<Rightarrow> string \<Rightarrow> string \<Rightarrow> (string \<times> json) list" where
  "outcome_entry tier authority outcome =
     [(''tier'', JStr (tier_name tier)), (''authority'', JStr authority), (''outcome'', JStr outcome)]"

section \<open>The three tiers that act\<close>

definition lacks_inverse :: "action \<Rightarrow> bool" where
  "lacks_inverse a = (requires_inverse (ac_verb a) \<and> \<not> truthy (ac_inverse a))"

definition no_inverse_msg :: string where
  "no_inverse_msg = ''no inverse registered: an update or delete must be reversible before it runs''"

definition undo_token :: "action \<Rightarrow> json \<Rightarrow> string option" where
  "undo_token a entry =
     (if truthy (ac_inverse a) then (case obj_get entry ''hash'' of JStr h \<Rightarrow> Some (take 12 h) | _ \<Rightarrow> None) else None)"

definition register_undo ::
  "('p, 'w, 'r) ctx \<Rightarrow> action \<Rightarrow> string option \<Rightarrow> ('p, 'w, 'r) bstate \<Rightarrow> ('p, 'w, 'r) bstate" where
  "register_undo cx a token s =
     (case token of
        None \<Rightarrow> s
      | Some t \<Rightarrow> s\<lparr>bs_undo := map_option (undo_register (cx_now cx) t (ac_tool a) (ac_inverse a) (cx_inverse cx)) (bs_undo s)\<rparr>)"

definition run_execute ::
  "('p, 'w, 'r) ctx \<Rightarrow> action \<Rightarrow> ('p, 'w, 'r) bstate \<Rightarrow> (string + json) \<times> ('p, 'w, 'r) bstate" where
  "run_execute cx a s =
     (case cx_execute cx a (bs_ledger s) (bs_policy s) (bs_world s) of (res, w) \<Rightarrow> (res, s\<lparr>bs_world := w\<rparr>))"

definition authorize_safe ::
  "('p, 'w, 'r) ctx \<Rightarrow> action \<Rightarrow> json \<Rightarrow> ('p, 'w, 'r) bstate \<Rightarrow> (string + broker_result) \<times> ('p, 'w, 'r) bstate" where
  "authorize_safe cx a entry s =
     (case run_execute cx a s of
        (Inl msg, s1) \<Rightarrow> (Inl msg, s1)
      | (Inr out, s1) \<Rightarrow>
          (Inr (Executed Safe ''envelope'' (obj_get entry ''seq'') out False None),
           record_entry cx a (outcome_entry Safe ''envelope'' ''executed'' @ [(''ofSeq'', obj_get entry ''seq'')]) s1))"

definition authorize_contained ::
  "('p, 'w, 'r) ctx \<Rightarrow> action \<Rightarrow> json \<Rightarrow> ('p, 'w, 'r) bstate \<Rightarrow> (string + broker_result) \<times> ('p, 'w, 'r) bstate" where
  "authorize_contained cx a entry s =
     (if lacks_inverse a then (Inr (Refused Contained no_inverse_msg None), s)
      else
        (case run_execute cx a s of
           (Inl msg, s1) \<Rightarrow> (Inl msg, s1)
         | (Inr out, s1) \<Rightarrow>
             (let s2 = record_entry cx a (outcome_entry Contained ''envelope'' ''executed'' @ [(''ofSeq'', obj_get entry ''seq'')]) s1;
                  token = undo_token a entry
              in (Inr (Executed Contained ''envelope'' (obj_get entry ''seq'') out False token),
                  register_undo cx a token s2))))"

definition halt_msg :: "string \<Rightarrow> string" where
  "halt_msg msg = ''HALT: policy delta revert failed, capability may remain open: '' @ msg"

text \<open>The \<open>finally\<close> block behind an applied delta: the revert, and the incident when it fails.\<close>

definition guaranteed_revert ::
  "('p, 'w, 'r) ctx \<Rightarrow> action \<Rightarrow> (string + broker_result) \<Rightarrow> ('p, 'w, 'r) bstate \<Rightarrow> (string + broker_result) \<times> ('p, 'w, 'r) bstate" where
  "guaranteed_revert cx a res s =
     (case cx_revert cx a (bs_policy s) of
        (Inr _, p) \<Rightarrow> (res, s\<lparr>bs_policy := p\<rparr>)
      | (Inl msg, p) \<Rightarrow>
          (Inl (halt_msg msg),
           record_entry cx a (outcome_entry Consequential ''incident'' ''revert-failed'' @ [(''reason'', JStr msg)])
             (s\<lparr>bs_policy := p\<rparr>)))"

definition authorize_consequential ::
  "('p, 'w, 'r) ctx \<Rightarrow> action \<Rightarrow> json \<Rightarrow> ('p, 'w, 'r) bstate \<Rightarrow> (string + broker_result) \<times> ('p, 'w, 'r) bstate" where
  "authorize_consequential cx a entry s =
     (case cx_decision cx of
        None \<Rightarrow>
          (Inr (Escalated ''consequential write requires a recorded decision; capability is absent until then'' (obj_get entry ''seq'')), s)
      | Some d \<Rightarrow>
          (case verify_decision (Some d) a (cx_now cx) of
             Inl why \<Rightarrow>
               (Inr (Refused Consequential why None),
                record_entry cx a (outcome_entry Consequential ''denied'' ''refused'' @ [(''reason'', JStr why)]) s)
           | Inr _ \<Rightarrow>
               if lacks_inverse a then (Inr (Refused Consequential no_inverse_msg None), s)
               else
                 (case cx_apply cx a (bs_policy s) of
                    (Inl msg, p) \<Rightarrow> (Inl msg, s\<lparr>bs_policy := p\<rparr>)
                  | (Inr _, p) \<Rightarrow>
                      (case run_execute cx a (s\<lparr>bs_policy := p\<rparr>) of
                         (Inl msg, s1) \<Rightarrow> guaranteed_revert cx a (Inl msg) s1
                       | (Inr out, s1) \<Rightarrow>
                           (let authority = ''decision:'' @ dc_id d;
                                s2 = record_entry cx a (outcome_entry Consequential authority ''executed''
                                       @ [(''ofSeq'', obj_get entry ''seq''), (''decidedBy'', dc_decided_by d)]) s1;
                                token = undo_token a entry
                            in guaranteed_revert cx a
                                 (Inr (Executed Consequential authority (obj_get entry ''seq'') out True token))
                                 (register_undo cx a token s2))))))"

section \<open>authorize\<close>

definition authorize ::
  "('p, 'w, 'r) ctx \<Rightarrow> action \<Rightarrow> ('p, 'w, 'r) bstate \<Rightarrow> (string + broker_result) \<times> ('p, 'w, 'r) bstate" where
  "authorize cx a s =
     (case prohibited_reason (cx_env cx) a of
        Some rule \<Rightarrow>
          (Inr (Refused Prohibited_tier (''prohibited: '' @ rule) (Some rule)),
           record_entry cx a (outcome_entry Prohibited_tier ''prohibited'' ''refused'' @ [(''rule'', JStr rule)]) s)
      | None \<Rightarrow>
          if \<not> ac_declared a then
            (Inr (Refused Undeclared ''undeclared: tool is absent from every skill manifest'' None),
             record_entry cx a (outcome_entry Undeclared ''denied'' ''refused'') s)
          else
            (let tier = classify (ac_verb a) (js_coalesce (ac_impact a) (JArr [])) True False in
             if tier = Undeclared then
               (Inr (Refused Undeclared (''unknown verb: '' @ js_string (verb_value (ac_verb a))) None),
                record_entry cx a (outcome_entry tier ''denied'' ''refused'') s)
             else
               (case append_entry cx (spread (base_entry (cx_hash cx) a) (outcome_entry tier ''pending'' ''admitted'')) s of
                  (Inl msg, s1) \<Rightarrow> (Inr (Refused tier (''ledger write failed, refusing to act unlogged: '' @ msg) None), s1)
                | (Inr entry, s1) \<Rightarrow>
                    if tier = Safe then authorize_safe cx a entry s1
                    else if tier = Contained then authorize_contained cx a entry s1
                    else authorize_consequential cx a entry s1)))"

end
