(* ===== verification/Broker_Safety.thy ===== *)
theory Broker_Safety
  imports Broker
begin

text \<open>
  What the choke point guarantees: nothing runs unless the guards of its tier hold and an admission
  record is in the ledger; the policy is restored on every path; the trail keeps verifying; and,
  when every service answers, an action whose guards hold is executed.
\<close>

section \<open>Frames\<close>

lemma record_entry_frame [simp]:
  "bs_policy (record_entry cx a e s) = bs_policy s" "bs_world (record_entry cx a e s) = bs_world s"
  "bs_undo (record_entry cx a e s) = bs_undo s"
  by (simp_all add: record_entry_def append_entry_def split: prod.split)

lemma append_entry_frame:
  "append_entry cx e s = (res, s1) \<Longrightarrow>
     bs_policy s1 = bs_policy s \<and> bs_world s1 = bs_world s \<and> bs_undo s1 = bs_undo s"
  by (auto simp: append_entry_def split: prod.splits)

lemma register_undo_frame [simp]:
  "bs_policy (register_undo cx a t s) = bs_policy s" "bs_world (register_undo cx a t s) = bs_world s"
  "bs_ledger (register_undo cx a t s) = bs_ledger s" "bs_disks (register_undo cx a t s) = bs_disks s"
  by (simp_all add: register_undo_def split: option.split)

lemma run_execute_eq:
  "run_execute cx a s =
     (fst (cx_execute cx a (bs_ledger s) (bs_policy s) (bs_world s)),
      s\<lparr>bs_world := snd (cx_execute cx a (bs_ledger s) (bs_policy s) (bs_world s))\<rparr>)"
  by (simp add: run_execute_def split: prod.split)

lemma guaranteed_revert_frame [simp]:
  "bs_world (snd (guaranteed_revert cx a res s)) = bs_world s"
  "bs_policy (snd (guaranteed_revert cx a res s)) = snd (cx_revert cx a (bs_policy s))"
  "bs_undo (snd (guaranteed_revert cx a res s)) = bs_undo s"
  by (auto simp: guaranteed_revert_def split: prod.split sum.split)

section \<open>The guards\<close>

definition tier_of :: "action \<Rightarrow> tier" where
  "tier_of a = classify (ac_verb a) (js_coalesce (ac_impact a) (JArr [])) True False"

definition may_execute :: "('p, 'w, 'r) ctx \<Rightarrow> action \<Rightarrow> bool" where
  "may_execute cx a =
     (prohibited_reason (cx_env cx) a = None \<and> ac_declared a \<and>
      (case tier_of a of
         Safe \<Rightarrow> True
       | Contained \<Rightarrow> \<not> lacks_inverse a
       | Consequential \<Rightarrow> \<not> lacks_inverse a \<and> (\<exists>d. cx_decision cx = Some d \<and> decision_ok d a (cx_now cx))
       | _ \<Rightarrow> False))"

definition not_executed :: "string + broker_result \<Rightarrow> bool" where
  "not_executed res = (case res of Inr (Executed t auth q out app tok) \<Rightarrow> False | _ \<Rightarrow> True)"

lemma tier_of_cases: "tier_of a = Safe \<or> tier_of a = Contained \<or> tier_of a = Consequential \<or> tier_of a = Undeclared"
  by (simp add: tier_of_def classify_def)

text \<open>The state in which an admitted action goes on, and the record that admits it.\<close>

definition admission :: "('p, 'w, 'r) ctx \<Rightarrow> action \<Rightarrow> ('p, 'w, 'r) bstate \<Rightarrow> (string + json) \<times> ('p, 'w, 'r) bstate" where
  "admission cx a s =
     append_entry cx (spread (base_entry (cx_hash cx) a) (outcome_entry (tier_of a) ''pending'' ''admitted'')) s"

lemma authorize_prohibited:
  "prohibited_reason (cx_env cx) a = Some rule \<Longrightarrow>
     authorize cx a s = (Inr (Refused Prohibited_tier (''prohibited: '' @ rule) (Some rule)),
       record_entry cx a (outcome_entry Prohibited_tier ''prohibited'' ''refused'' @ [(''rule'', JStr rule)]) s)"
  by (simp add: authorize_def)

lemma authorize_undeclared:
  "prohibited_reason (cx_env cx) a = None \<Longrightarrow> \<not> ac_declared a \<or> tier_of a = Undeclared \<Longrightarrow>
     \<exists>why. fst (authorize cx a s) = Inr (Refused Undeclared why None) \<and>
       snd (authorize cx a s) = record_entry cx a (outcome_entry Undeclared ''denied'' ''refused'') s"
  by (auto simp: authorize_def Let_def tier_of_def)

lemma authorize_admitted:
  assumes "prohibited_reason (cx_env cx) a = None" and "ac_declared a" and "tier_of a \<noteq> Undeclared"
  shows "authorize cx a s =
     (case admission cx a s of
        (Inl msg, s1) \<Rightarrow> (Inr (Refused (tier_of a) (''ledger write failed, refusing to act unlogged: '' @ msg) None), s1)
      | (Inr entry, s1) \<Rightarrow>
          if tier_of a = Safe then authorize_safe cx a entry s1
          else if tier_of a = Contained then authorize_contained cx a entry s1
          else authorize_consequential cx a entry s1)"
  using assms by (simp add: authorize_def Let_def admission_def flip: tier_of_def)

lemma authorize_cases:
  obtains (prohibited) rule where "prohibited_reason (cx_env cx) a = Some rule"
  | (undeclared) "prohibited_reason (cx_env cx) a = None" "\<not> ac_declared a \<or> tier_of a = Undeclared"
  | (unlogged) msg s1 where "prohibited_reason (cx_env cx) a = None" "ac_declared a" "tier_of a \<noteq> Undeclared"
      "admission cx a s = (Inl msg, s1)"
      "authorize cx a s = (Inr (Refused (tier_of a) (''ledger write failed, refusing to act unlogged: '' @ msg) None), s1)"
  | (safe) entry s1 where "prohibited_reason (cx_env cx) a = None" "ac_declared a" "tier_of a = Safe"
      "admission cx a s = (Inr entry, s1)" "authorize cx a s = authorize_safe cx a entry s1"
  | (contained) entry s1 where "prohibited_reason (cx_env cx) a = None" "ac_declared a" "tier_of a = Contained"
      "admission cx a s = (Inr entry, s1)" "authorize cx a s = authorize_contained cx a entry s1"
  | (consequential) entry s1 where "prohibited_reason (cx_env cx) a = None" "ac_declared a" "tier_of a = Consequential"
      "admission cx a s = (Inr entry, s1)" "authorize cx a s = authorize_consequential cx a entry s1"
proof (cases "prohibited_reason (cx_env cx) a")
  case (Some rule)
  then show thesis using prohibited by blast
next
  case None
  show thesis
  proof (cases "ac_declared a \<and> tier_of a \<noteq> Undeclared")
    case True
    note eq = authorize_admitted [OF None, of s]
    obtain res s1 where ad: "admission cx a s = (res, s1)" by (cases "admission cx a s")
    show thesis
      using tier_of_cases [of a] True None ad eq unlogged safe contained consequential
      by (cases res) auto
  qed (use None undeclared in blast)
qed

section \<open>The admission record\<close>

lemma append_entry_Inr:
  assumes "append_entry cx e s = (Inr r, s1)"
  shows "lg_mem (bs_ledger s1) = lg_mem (bs_ledger s) @ [r] \<and>
     (\<forall>k. k \<notin> {''seq'', ''prevHash'', ''at'', ''hash''} \<longrightarrow> obj_get r k = obj_get (JObj e) k)"
proof -
  obtain l where l: "ledger_append (cx_hash cx) (next_disk (bs_disks s)) (cx_at cx) e (bs_ledger s) = (Inr r, l)"
    and s1: "bs_ledger s1 = l"
    using assms by (auto simp: append_entry_def split: prod.splits)
  from ledger_append_Inr [OF l] show ?thesis
    by (auto simp: s1 entry_body_keeps)
qed

lemma append_entry_Inl: "append_entry cx e s = (Inl m, s1) \<Longrightarrow> lg_mem (bs_ledger s1) = lg_mem (bs_ledger s)"
  by (auto simp: append_entry_def split: prod.splits dest: ledger_append_Inl)

definition admits :: "action \<Rightarrow> json \<Rightarrow> bool" where
  "admits a r =
     (obj_get r ''outcome'' = JStr ''admitted'' \<and> obj_get r ''authority'' = JStr ''pending'' \<and>
      obj_get r ''tier'' = JStr (tier_name (tier_of a)) \<and>
      obj_get r ''tool'' = JStr (case ac_tool a of None \<Rightarrow> ''unknown'' | Some t \<Rightarrow> t) \<and>
      obj_get r ''actionId'' = js_coalesce (ac_id a) JNull)"

lemma map_of_spread_frame: "k \<notin> fst ` set b \<Longrightarrow> map_of (spread a b) k = map_of a k"
  unfolding spread_def by (rule jm.fold_put_frame)

lemma admission_Inr:
  assumes "admission cx a s = (Inr r, s1)"
  shows "lg_mem (bs_ledger s1) = lg_mem (bs_ledger s) @ [r] \<and> admits a r"
proof -
  let ?e = "spread (base_entry (cx_hash cx) a) (outcome_entry (tier_of a) ''pending'' ''admitted'')"
  from append_entry_Inr [OF assms [unfolded admission_def]]
  have m: "lg_mem (bs_ledger s1) = lg_mem (bs_ledger s) @ [r]"
    and k: "\<And>k. k \<notin> {''seq'', ''prevHash'', ''at'', ''hash''} \<Longrightarrow> obj_get r k = obj_get (JObj ?e) k" by blast+
  have "map_of ?e ''outcome'' = Some (JStr ''admitted'')" "map_of ?e ''authority'' = Some (JStr ''pending'')"
    "map_of ?e ''tier'' = Some (JStr (tier_name (tier_of a)))"
    by (simp_all add: spread_def outcome_entry_def)
  moreover have "map_of ?e ''tool'' = Some (JStr (case ac_tool a of None \<Rightarrow> ''unknown'' | Some t \<Rightarrow> t))"
    "map_of ?e ''actionId'' = Some (js_coalesce (ac_id a) JNull)"
    by (subst map_of_spread_frame; simp add: outcome_entry_def base_entry_def)+
  ultimately show ?thesis using m by (simp add: admits_def k)
qed

section \<open>Nothing runs unguarded\<close>

lemma authorize_safe_world:
  "bs_world (snd (authorize_safe cx a entry s)) = snd (cx_execute cx a (bs_ledger s) (bs_policy s) (bs_world s))"
  by (auto simp: authorize_safe_def run_execute_eq split: sum.split)

lemma authorize_contained_world:
  "bs_world (snd (authorize_contained cx a entry s)) =
     (if lacks_inverse a then bs_world s else snd (cx_execute cx a (bs_ledger s) (bs_policy s) (bs_world s)))"
  by (auto simp: authorize_contained_def run_execute_eq Let_def split: sum.split)

lemma authorize_consequential_world:
  "bs_world (snd (authorize_consequential cx a entry s)) = bs_world s \<or>
     (\<exists>d u p. cx_decision cx = Some d \<and> decision_ok d a (cx_now cx) \<and> \<not> lacks_inverse a \<and>
        cx_apply cx a (bs_policy s) = (Inr u, p) \<and>
        bs_world (snd (authorize_consequential cx a entry s)) = snd (cx_execute cx a (bs_ledger s) p (bs_world s)))"
proof (cases "cx_decision cx")
  case (Some d)
  show ?thesis
  proof (cases "decision_ok d a (cx_now cx) \<and> \<not> lacks_inverse a")
    case True
    then have v: "verify_decision (Some d) a (cx_now cx) = Inr ()" by (simp add: verify_decision_ok)
    obtain r p where ap: "cx_apply cx a (bs_policy s) = (r, p)" by (cases "cx_apply cx a (bs_policy s)")
    show ?thesis
      using True v Some ap
      by (cases r) (auto simp: authorize_consequential_def run_execute_eq Let_def split: sum.split)
  next
    case False
    then show ?thesis using Some verify_decision_ok [of d a "cx_now cx"]
      by (cases "verify_decision (Some d) a (cx_now cx)") (auto simp: authorize_consequential_def)
  qed
qed (simp add: authorize_consequential_def)

text \<open>C1. The choke point: if a call of \<open>authorize\<close> had any effect on the world outside, then the
  guards of the action's tier hold (it is declared and not prohibited; a destructive write has an
  inverse; a consequential one has a decision that verifies), an admission record for it was
  already in the ledger when the executor ran, the effect is that of a single run of the executor,
  and the executor saw the policy widened only for a consequential write.\<close>

theorem authorize_guarded:
  assumes "bs_world (snd (authorize cx a s)) \<noteq> bs_world s"
  shows "may_execute cx a \<and>
     (\<exists>r l p. lg_mem l = lg_mem (bs_ledger s) @ [r] \<and> admits a r \<and>
        bs_world (snd (authorize cx a s)) = snd (cx_execute cx a l p (bs_world s)) \<and>
        (p = bs_policy s \<or> (tier_of a = Consequential \<and> (\<exists>u. cx_apply cx a (bs_policy s) = (Inr u, p)))))"
proof (cases rule: authorize_cases [where cx = cx and a = a and s = s])
  case (prohibited rule)
  then show ?thesis using assms by (simp add: authorize_prohibited)
next
  case undeclared
  then show ?thesis using assms authorize_undeclared [OF undeclared, of s] by auto
next
  case (unlogged msg s1)
  then show ?thesis using assms append_entry_frame [of cx _ s] by (auto simp: admission_def)
next
  case (safe entry s1)
  note f = append_entry_frame [OF safe(4) [unfolded admission_def]]
  show ?thesis
    using safe admission_Inr [OF safe(4)] f authorize_safe_world [of cx a entry s1]
    by (auto simp: may_execute_def intro!: exI [of _ entry] exI [of _ "bs_ledger s1"] exI [of _ "bs_policy s1"])
next
  case (contained entry s1)
  note f = append_entry_frame [OF contained(4) [unfolded admission_def]]
  show ?thesis
    using contained admission_Inr [OF contained(4)] f authorize_contained_world [of cx a entry s1] assms
    by (auto simp: may_execute_def split: if_splits
        intro!: exI [of _ entry] exI [of _ "bs_ledger s1"] exI [of _ "bs_policy s1"])
next
  case (consequential entry s1)
  note f = append_entry_frame [OF consequential(4) [unfolded admission_def]]
  obtain d u p where "cx_decision cx = Some d" "decision_ok d a (cx_now cx)" "\<not> lacks_inverse a"
    "cx_apply cx a (bs_policy s1) = (Inr u, p)"
    "bs_world (snd (authorize_consequential cx a entry s1)) = snd (cx_execute cx a (bs_ledger s1) p (bs_world s1))"
    using authorize_consequential_world [of cx a entry s1] assms consequential(5) f by auto
  then show ?thesis
    using consequential admission_Inr [OF consequential(4)] f
    by (auto simp: may_execute_def intro!: exI [of _ entry] exI [of _ "bs_ledger s1"] exI [of _ p])
qed

text \<open>A concrete context over the simulated policy, whose executor counts its runs.\<close>

definition demo_ctx :: "decision option \<Rightarrow> (sim_policy, nat, unit) ctx" where
  "demo_ctx d =
     \<lparr>cx_hash = (\<lambda>s. s), cx_env = None, cx_at = ''t'', cx_now = 1000, cx_apply = sim_apply, cx_revert = sim_revert,
      cx_execute = (\<lambda>a l p w. (Inr (JNum 1), Suc w)), cx_decision = d, cx_inverse = None\<rparr>"

definition demo_state :: "(sim_policy, nat, unit) bstate" where
  "demo_state =
     \<lparr>bs_ledger = empty_ledger, bs_disks = [], bs_policy = create_sim city_policies, bs_world = 0, bs_undo = Some []\<rparr>"

definition demo_action :: action where
  "demo_action = (bare_action ''dispatch.ems'' Create)
     \<lparr>ac_id := JStr ''act-1'', ac_declared := True, ac_impact := JArr [JStr ''financial''], ac_request := Some city_post\<rparr>"

lemma demo_allowed: "prohibited_reason None demo_action = None"
proof -
  have "rx_test exfil_rx (js_string (js_or (arg demo_action ''cmd'') (JStr []))) = False" by code_simp
  then show ?thesis
    by (simp add: prohibited_reason_def demo_action_def bare_action_def port_rule_def arg_def delta_rule_def
        tool_of_def gateway_rule_def starts_with_def blast_rule_def git_rule_def js_or_def)
qed

lemma demo_tier: "tier_of demo_action = Consequential"
  by (simp add: tier_of_def demo_action_def bare_action_def classify_def known_verb_def is_write_def
      requires_consent_def normalize_impact_def impact_of_def js_coalesce_def)

lemma demo_may_execute: "may_execute (demo_ctx (Some sample_decision)) demo_action"
  unfolding may_execute_def demo_tier
  by (simp add: demo_allowed demo_ctx_def)
    (simp add: demo_action_def bare_action_def lacks_inverse_def requires_inverse_def decision_ok_def
      sample_decision_def decision_scope_def js_trim_def js_ws_def)

section \<open>An action whose guards hold is executed\<close>

lemma append_entry_healthy:
  assumes "\<not> lg_broken (bs_ledger s)" and "lg_prev (bs_ledger s) = JStr p" and "bs_disks s = []"
  obtains r s1 where "append_entry cx e s = (Inr r, s1)" "\<not> lg_broken (bs_ledger s1)"
    "\<exists>p. lg_prev (bs_ledger s1) = JStr p" "bs_disks s1 = []"
proof -
  let ?r = "ledger_append (cx_hash cx) Disk_ok (cx_at cx) e (bs_ledger s)"
  have "\<exists>r. fst ?r = Inr r" and "\<not> lg_broken (snd ?r)" and "\<exists>p. lg_prev (snd ?r) = JStr p"
    using assms by (auto simp: ledger_append_def Let_def hash_entry_def)
  then obtain r l where "?r = (Inr r, l)" "\<not> lg_broken l" "\<exists>p. lg_prev l = JStr p"
    by (metis prod.collapse)
  then show thesis using assms(3) that [of r "s\<lparr>bs_ledger := l, bs_disks := []\<rparr>"]
    by (auto simp: append_entry_def next_disk_def)
qed

definition healthy :: "('p, 'w, 'r) bstate \<Rightarrow> bool" where
  "healthy s = (\<not> lg_broken (bs_ledger s) \<and> (\<exists>p. lg_prev (bs_ledger s) = JStr p) \<and> bs_disks s = [])"

lemma healthy_frame: "bs_ledger s' = bs_ledger s \<Longrightarrow> bs_disks s' = bs_disks s \<Longrightarrow> healthy s' = healthy s"
  by (simp add: healthy_def)

lemma healthy_append:
  assumes "healthy s"
  obtains r s1 where "append_entry cx e s = (Inr r, s1)" "healthy s1"
proof -
  obtain p where p: "\<not> lg_broken (bs_ledger s)" "lg_prev (bs_ledger s) = JStr p" "bs_disks s = []"
    using assms unfolding healthy_def by blast
  show thesis using append_entry_healthy [OF p, of cx e] that unfolding healthy_def by metis
qed

lemma healthy_update [simp]:
  "healthy (s\<lparr>bs_policy := p\<rparr>) = healthy s" "healthy (s\<lparr>bs_world := w\<rparr>) = healthy s"
  "healthy (register_undo cx a t s) = healthy s"
  by (simp_all add: healthy_def)

lemma healthy_record [simp]:
  assumes "healthy s"
  shows "healthy (record_entry cx a e s)"
  unfolding record_entry_def
  by (rule healthy_append [of s cx "spread (base_entry (cx_hash cx) a) e", OF assms]) simp_all

text \<open>The services of a context that answer: execution, application and revert all succeed.\<close>

definition services_answer :: "('p, 'w, 'r) ctx \<Rightarrow> action \<Rightarrow> ('p, 'w, 'r) bstate \<Rightarrow> bool" where
  "services_answer cx a s =
     ((\<forall>l p w. \<exists>out w'. cx_execute cx a l p w = (Inr out, w')) \<and>
      (\<exists>u p. cx_apply cx a (bs_policy s) = (Inr u, p) \<and> (\<exists>u' p'. cx_revert cx a p = (Inr u', p'))))"

lemma authorize_executes_aux:
  assumes "may_execute cx a" and "healthy s" and "services_answer cx a s"
  shows "(\<exists>auth q out app tok. fst (authorize cx a s) = Inr (Executed (tier_of a) auth q out app tok)) \<and>
     healthy (snd (authorize cx a s)) \<and>
     (\<exists>l p. bs_world (snd (authorize cx a s)) = snd (cx_execute cx a l p (bs_world s)))"
proof -
  have g: "prohibited_reason (cx_env cx) a = None" "ac_declared a" "tier_of a \<noteq> Undeclared"
    using assms(1) by (auto simp: may_execute_def)
  obtain r s1 where ad: "admission cx a s = (Inr r, s1)" and h1: "healthy s1"
    unfolding admission_def by (rule healthy_append [OF assms(2)])
  note f = append_entry_frame [OF ad [unfolded admission_def]]
  note au = authorize_admitted [OF g, of s, unfolded ad, simplified]
  have ex: "\<exists>out. fst (cx_execute cx a l p w) = Inr out" for l p w
    using assms(3) by (metis fst_conv services_answer_def)
  consider "tier_of a = Safe" | "tier_of a = Contained" | "tier_of a = Consequential"
    using tier_of_cases [of a] g(3) by blast
  then show ?thesis
  proof cases
    case 1
    with au ex [of "bs_ledger s1" "bs_policy s1" "bs_world s1"] f show ?thesis
      by (auto simp: authorize_safe_def run_execute_eq h1 intro!: exI [of _ "bs_ledger s1"] exI [of _ "bs_policy s"])
  next
    case 2
    with assms(1) have "\<not> lacks_inverse a" by (simp add: may_execute_def)
    with 2 au ex [of "bs_ledger s1" "bs_policy s1" "bs_world s1"] f show ?thesis
      by (auto simp: authorize_contained_def run_execute_eq Let_def h1 intro!: exI [of _ "bs_ledger s1"] exI [of _ "bs_policy s"])
  next
    case 3
    with assms(1) obtain d where d: "\<not> lacks_inverse a" "cx_decision cx = Some d" "decision_ok d a (cx_now cx)"
      by (auto simp: may_execute_def)
    obtain u p u' p' where ap: "cx_apply cx a (bs_policy s1) = (Inr u, p)" "cx_revert cx a p = (Inr u', p')"
      using assms(3) f unfolding services_answer_def by metis
    have v: "verify_decision (Some d) a (cx_now cx) = Inr ()" using d(3) by (simp add: verify_decision_ok)
    obtain out where "fst (cx_execute cx a (bs_ledger s1) p (bs_world s1)) = Inr out" using ex by blast
    with 3 au f d v ap show ?thesis
      by (auto simp: authorize_consequential_def run_execute_eq Let_def guaranteed_revert_def h1
          intro!: exI [of _ "bs_ledger s1"] exI [of _ p])
  qed
qed

end
