(* ===== verification/Broker_Claims.thy ===== *)
theory Broker_Claims
  imports Broker_Safety
begin

text \<open>
  The properties of \<open>authorize\<close> beyond the guard of \<open>Broker_Safety.authorize_guarded\<close>, and the
  concrete runs on which they are exercised.
\<close>

lemma demo_healthy: "healthy demo_state"
  by (simp add: healthy_def demo_state_def empty_ledger_def)

lemma demo_services: "services_answer (demo_ctx d) demo_action demo_state"
proof -
  have "fst (sim_apply demo_action (create_sim city_policies)) = Inr ()"
    by (simp add: sim_apply_def Let_def envelope_apply_def create_sim_def create_envelope_def city_policies_def
        endpoints_for_def demo_action_def)
  then have "\<exists>p. sim_apply demo_action (create_sim city_policies) = (Inr (), p)"
    by (metis prod.collapse)
  then show ?thesis
    by (auto simp: services_answer_def demo_ctx_def demo_state_def sim_revert_def Let_def)
qed

lemma demo_world: "bs_world (snd (authorize (demo_ctx (Some sample_decision)) demo_action demo_state)) = 1"
  using authorize_executes_aux [OF demo_may_execute demo_healthy demo_services]
  by (auto simp: demo_ctx_def demo_state_def)

theorem authorize_guarded_witness:
  "bs_world (snd (authorize (demo_ctx (Some sample_decision)) demo_action demo_state)) \<noteq> bs_world demo_state \<and>
   may_execute (demo_ctx (Some sample_decision)) demo_action"
proof -
  have "bs_world (snd (authorize (demo_ctx (Some sample_decision)) demo_action demo_state)) \<noteq> bs_world demo_state"
    unfolding demo_world by (simp add: demo_state_def)
  with authorize_guarded [OF this] show ?thesis by blast
qed

text \<open>C3. A refusal is complete: when a guard fails, \<open>authorize\<close> throws nothing, reports no execution
  and leaves the world, the policy and the undo registry as they were; a prohibited action is
  refused as prohibited whatever decision the context holds.\<close>

theorem authorize_refuses:
  assumes "\<not> may_execute cx a"
  shows "(\<exists>r. fst (authorize cx a s) = Inr r) \<and> not_executed (fst (authorize cx a s)) \<and>
     bs_world (snd (authorize cx a s)) = bs_world s \<and> bs_policy (snd (authorize cx a s)) = bs_policy s \<and>
     bs_undo (snd (authorize cx a s)) = bs_undo s \<and>
     (prohibited_reason (cx_env cx) a \<noteq> None \<longrightarrow> (\<exists>why rule. fst (authorize cx a s) = Inr (Refused Prohibited_tier why (Some rule))))"
proof (cases rule: authorize_cases [where cx = cx and a = a and s = s])
  case (prohibited rule)
  then show ?thesis by (simp add: authorize_prohibited not_executed_def)
next
  case undeclared
  with authorize_undeclared [OF undeclared, of s] show ?thesis by (auto simp: not_executed_def)
next
  case (unlogged msg s1)
  then show ?thesis using append_entry_frame [of cx _ s] by (auto simp: admission_def not_executed_def)
next
  case (safe entry s1)
  with assms show ?thesis by (simp add: may_execute_def)
next
  case (contained entry s1)
  with assms have "lacks_inverse a" by (simp add: may_execute_def)
  with contained append_entry_frame [OF contained(4) [unfolded admission_def]] show ?thesis
    by (simp add: authorize_contained_def not_executed_def)
next
  case (consequential entry s1)
  note f = append_entry_frame [OF consequential(4) [unfolded admission_def]]
  show ?thesis
  proof (cases "cx_decision cx")
    case None
    with consequential f show ?thesis by (simp add: authorize_consequential_def not_executed_def)
  next
    case (Some d)
    show ?thesis
    proof (cases "verify_decision (Some d) a (cx_now cx)")
      case (Inl why)
      with Some consequential f show ?thesis by (simp add: authorize_consequential_def not_executed_def)
    next
      case (Inr u)
      then have "decision_ok d a (cx_now cx)" using verify_decision_ok [of d a "cx_now cx"] by simp
      with Some assms consequential have "lacks_inverse a" by (simp add: may_execute_def)
      with Inr Some consequential f show ?thesis by (simp add: authorize_consequential_def not_executed_def)
    qed
  qed
qed

theorem authorize_refuses_witness:
  "\<not> may_execute (demo_ctx None) demo_action \<and> bs_world (snd (authorize (demo_ctx None) demo_action demo_state)) = 0"
proof -
  have n: "\<not> may_execute (demo_ctx None) demo_action" by (simp add: may_execute_def demo_tier demo_ctx_def)
  from authorize_refuses [OF n, of demo_state] n show ?thesis by (simp add: demo_state_def)
qed

section \<open>The policy is restored\<close>

lemma consequential_policy:
  assumes cx: "cx_apply cx = sim_apply" "cx_revert cx = sim_revert"
    and inv: "sim_inv (bs_policy s)" and ok: "sim_okay a"
  shows "sim_view (bs_policy (snd (authorize_consequential cx a entry s))) = sim_view (bs_policy s) \<and>
     sim_inv (bs_policy (snd (authorize_consequential cx a entry s)))"
proof (cases "cx_decision cx")
  case (Some d)
  obtain res p where ap: "sim_apply a (bs_policy s) = (res, p)" by (cases "sim_apply a (bs_policy s)")
  have ip: "sim_inv p" using sim.apply_inv [OF inv ok] ap by simp
  show ?thesis
  proof (cases "verify_decision (Some d) a (cx_now cx)")
    case (Inl why)
    with Some inv show ?thesis by (simp add: authorize_consequential_def)
  next
    case (Inr u)
    show ?thesis
    proof (cases res)
      case (Inl m)
      with Some Inr ap inv ip cx sim.apply_Inl [of a "bs_policy s" m p] show ?thesis
        by (simp add: authorize_consequential_def)
    next
      case r: (Inr u')
      then have "sim_view (snd (sim_revert a p)) = sim_view (bs_policy s)"
        using sim.bracket [OF inv ok] ap by simp
      moreover have "sim_inv (snd (sim_revert a p))" by (rule sim.revert_inv [OF ip])
      ultimately show ?thesis using Some Inr ap r inv cx
        by (auto simp: authorize_consequential_def run_execute_eq Let_def split: sum.split)
    qed
  qed
qed (simp add: authorize_consequential_def inv)

text \<open>C4. Over the simulated policy, no call of \<open>authorize\<close> leaves a capability open: on every path,
  refusals and throwing executors included, the policy grants afterwards exactly what it granted
  before, and the next call finds the port in a state where the same holds.\<close>

theorem authorize_restores_policy:
  assumes "cx_apply cx = sim_apply" and "cx_revert cx = sim_revert"
    and "sim_inv (bs_policy s)" and "sim_okay a"
  shows "sim_view (bs_policy (snd (authorize cx a s))) = sim_view (bs_policy s) \<and>
     sim_inv (bs_policy (snd (authorize cx a s)))"
proof (cases rule: authorize_cases [where cx = cx and a = a and s = s])
  case (prohibited rule)
  then show ?thesis using assms by (simp add: authorize_prohibited)
next
  case undeclared
  then show ?thesis using assms authorize_undeclared [OF undeclared, of s] by auto
next
  case (unlogged msg s1)
  then show ?thesis using assms append_entry_frame [of cx _ s] by (auto simp: admission_def)
next
  case (safe entry s1)
  then show ?thesis using assms append_entry_frame [OF safe(4) [unfolded admission_def]]
    by (auto simp: authorize_safe_def run_execute_eq split: sum.split)
next
  case (contained entry s1)
  then show ?thesis using assms append_entry_frame [OF contained(4) [unfolded admission_def]]
    by (auto simp: authorize_contained_def run_execute_eq Let_def split: sum.split)
next
  case (consequential entry s1)
  note f = append_entry_frame [OF consequential(4) [unfolded admission_def]]
  then show ?thesis using consequential(5) consequential_policy [OF assms(1,2) _ assms(4), of s1 entry] assms(3) by simp
qed

theorem authorize_restores_policy_witness:
  "sim_view (bs_policy (snd (authorize (demo_ctx (Some sample_decision)) demo_action demo_state))) = city_policies"
  using authorize_restores_policy [of "demo_ctx (Some sample_decision)" demo_state demo_action] sim_inv_city
  by (simp add: demo_ctx_def demo_state_def demo_action_def bare_action_def sim_okay_def)
    (simp add: sim_view_def create_sim_def create_envelope_def)

section \<open>A failed revert\<close>

text \<open>A failed revert is an incident: when the capability of an accepted decision was opened and
  the port cannot close it, \<open>authorize\<close> throws the HALT error, whether the execution succeeded or
  threw.\<close>

theorem authorize_halts:
  assumes "may_execute cx a" and "tier_of a = Consequential" and "admission cx a s = (Inr entry, s1)"
    and "cx_apply cx a (bs_policy s) = (Inr u, p)" and "cx_revert cx a p = (Inl msg, p')"
  shows "fst (authorize cx a s) = Inl (halt_msg msg)"
proof -
  have g: "prohibited_reason (cx_env cx) a = None" "ac_declared a" "tier_of a \<noteq> Undeclared"
    using assms(1) by (auto simp: may_execute_def)
  obtain d where d: "\<not> lacks_inverse a" "cx_decision cx = Some d" "decision_ok d a (cx_now cx)"
    using assms(1,2) by (auto simp: may_execute_def)
  have v: "verify_decision (Some d) a (cx_now cx) = Inr ()" using d(3) by (simp add: verify_decision_ok)
  have "bs_policy s1 = bs_policy s" using append_entry_frame [OF assms(3) [unfolded admission_def]] by simp
  then show ?thesis
    using authorize_admitted [OF g, of s] assms d v
    by (auto simp: authorize_consequential_def run_execute_eq guaranteed_revert_def Let_def split: sum.split)
qed

definition stuck_ctx :: "(sim_policy, nat, unit) ctx" where
  "stuck_ctx = (demo_ctx (Some sample_decision))\<lparr>cx_revert := \<lambda>a p. (Inl ''timeout'', p)\<rparr>"

theorem authorize_halts_witness:
  "fst (authorize stuck_ctx demo_action demo_state) = Inl (halt_msg ''timeout'')"
proof -
  have m: "may_execute stuck_ctx demo_action"
    using demo_may_execute by (simp add: stuck_ctx_def may_execute_def demo_tier)
  obtain r s1 where ad: "admission stuck_ctx demo_action demo_state = (Inr r, s1)"
    unfolding admission_def by (rule healthy_append [OF demo_healthy])
  obtain u p where ap: "cx_apply stuck_ctx demo_action (bs_policy demo_state) = (Inr u, p)"
    using demo_services [of "Some sample_decision"] by (auto simp: services_answer_def stuck_ctx_def)
  show ?thesis
    by (rule authorize_halts [OF m demo_tier ad ap]) (simp add: stuck_ctx_def)
qed

section \<open>The trail\<close>

lemma jwf_spread: "jwf a \<Longrightarrow> jwf (spread a b)"
  unfolding spread_def by (induction b arbitrary: a) (auto intro: jm.wf_put)

lemma jwf_base_entry: "jwf (base_entry hash a)"
  by (simp add: base_entry_def jwf_def split: option.split)

lemma plain_spread:
  assumes "''hash'' \<notin> fst ` set e"
  shows "plain_entry (spread (base_entry hash a) e)"
proof -
  have "\<not> jhas (base_entry hash a) ''hash''" by (simp add: jhas_def base_entry_def split: option.split)
  then show ?thesis using jwf_spread [OF jwf_base_entry] map_of_spread_frame [OF assms]
    by (simp add: plain_entry_def jhas_def)
qed

text \<open>What a call may do to the trail: it keeps verifying and only grows.\<close>

definition extends :: "(string \<Rightarrow> string) \<Rightarrow> ledger \<Rightarrow> ledger \<Rightarrow> bool" where
  "extends hash l l' = ((chain_inv hash l \<longrightarrow> chain_inv hash l') \<and> prefix (lg_mem l) (lg_mem l'))"

lemma extends_refl [simp]: "extends hash l l"
  by (simp add: extends_def)

lemma extends_trans: "extends hash l m \<Longrightarrow> extends hash m n \<Longrightarrow> extends hash l n"
  by (auto simp: extends_def intro: prefix_order.trans)

lemma append_entry_extends:
  assumes "plain_entry e"
  shows "extends (cx_hash cx) (bs_ledger s) (bs_ledger (snd (append_entry cx e s)))"
proof -
  let ?l = "snd (ledger_append (cx_hash cx) (next_disk (bs_disks s)) (cx_at cx) e (bs_ledger s))"
  have "bs_ledger (snd (append_entry cx e s)) = ?l"
    by (simp add: append_entry_def split: prod.split)
  moreover have "prefix (lg_mem (bs_ledger s)) (lg_mem ?l)" by (rule trail.app_prefix)
  moreover have "chain_inv (cx_hash cx) (bs_ledger s) \<Longrightarrow> chain_inv (cx_hash cx) ?l"
    by (rule chain_inv_append [OF _ assms])
  ultimately show ?thesis by (simp add: extends_def)
qed

lemma record_extends [simp]:
  "''hash'' \<notin> fst ` set e \<Longrightarrow> extends (cx_hash cx) (bs_ledger s) (bs_ledger (record_entry cx a e s))"
  unfolding record_entry_def by (intro append_entry_extends plain_spread)

lemma record_extends_step:
  "''hash'' \<notin> fst ` set e \<Longrightarrow> bs_ledger s' = bs_ledger s \<Longrightarrow>
     extends (cx_hash cx) (bs_ledger s) (bs_ledger (record_entry cx a e s'))"
  using record_extends [of e cx s' a] by simp

lemma admission_extends: "extends (cx_hash cx) (bs_ledger s) (bs_ledger (snd (admission cx a s)))"
  unfolding admission_def by (intro append_entry_extends plain_spread) (simp add: outcome_entry_def)

lemma revert_extends: "extends (cx_hash cx) (bs_ledger s) (bs_ledger (snd (guaranteed_revert cx a res s)))"
  unfolding guaranteed_revert_def
  by (auto simp: outcome_entry_def split: prod.split sum.split intro!: record_extends_step)

lemma consequential_extends:
  "extends (cx_hash cx) (bs_ledger s) (bs_ledger (snd (authorize_consequential cx a entry s)))"
proof (cases "cx_decision cx")
  case (Some d)
  show ?thesis
  proof (cases "verify_decision (Some d) a (cx_now cx)")
    case (Inl why)
    then show ?thesis using Some by (simp add: authorize_consequential_def outcome_entry_def)
  next
    case (Inr u)
    have rec: "extends (cx_hash cx) (bs_ledger s) (bs_ledger (register_undo cx a t (record_entry cx a
        (outcome_entry Consequential auth ''executed'' @ [(''ofSeq'', q), (''decidedBy'', b)]) (s\<lparr>bs_policy := p, bs_world := w\<rparr>))))"
      for auth q b p w t
      by (simp add: outcome_entry_def record_extends_step)
    have rv: "extends (cx_hash cx) (bs_ledger s) (bs_ledger (snd (guaranteed_revert cx a res (s\<lparr>bs_policy := p, bs_world := w\<rparr>))))"
      for res p w
      using revert_extends [of cx "s\<lparr>bs_policy := p, bs_world := w\<rparr>" a res] by simp
    from Inr Some show ?thesis
      by (auto simp: authorize_consequential_def run_execute_eq Let_def rv
          intro!: extends_trans [OF rec revert_extends] split: prod.split sum.split)
  qed
qed (simp add: authorize_consequential_def)

text \<open>C5. The trail of the broker: whatever the disk does, a call of \<open>authorize\<close> only adds records at
  the end, the chain keeps verifying, and an execution it reports has its admission record in it.\<close>

theorem authorize_trail:
  "prefix (lg_mem (bs_ledger s)) (lg_mem (bs_ledger (snd (authorize cx a s)))) \<and>
   (chain_inv (cx_hash cx) (bs_ledger s) \<longrightarrow>
      (\<exists>n. ledger_verify (cx_hash cx) (bs_ledger (snd (authorize cx a s))) = Chain_ok n)) \<and>
   (\<not> not_executed (fst (authorize cx a s)) \<longrightarrow> (\<exists>r \<in> set (lg_mem (bs_ledger (snd (authorize cx a s)))). admits a r))"
proof -
  let ?l = "bs_ledger (snd (authorize cx a s))"
  have main: "extends (cx_hash cx) (bs_ledger s) ?l \<and>
      (\<not> not_executed (fst (authorize cx a s)) \<longrightarrow> (\<exists>r \<in> set (lg_mem ?l). admits a r))"
  proof (cases rule: authorize_cases [where cx = cx and a = a and s = s])
    case (prohibited rule)
    then show ?thesis by (simp add: authorize_prohibited not_executed_def outcome_entry_def)
  next
    case undeclared
    with authorize_undeclared [OF undeclared, of s] show ?thesis by (auto simp: not_executed_def outcome_entry_def)
  next
    case (unlogged msg s1)
    then show ?thesis using admission_extends [of cx s a] by (simp add: not_executed_def)
  next
    case (safe entry s1)
    have "extends (cx_hash cx) (bs_ledger s1) (bs_ledger (snd (authorize_safe cx a entry s1)))"
      by (auto simp: authorize_safe_def run_execute_eq outcome_entry_def split: sum.split intro!: record_extends_step)
    then show ?thesis using safe admission_Inr [OF safe(4)] admission_extends [of cx s a]
      by (auto simp: extends_def prefix_def intro: prefix_order.trans)
  next
    case (contained entry s1)
    have "extends (cx_hash cx) (bs_ledger s1) (bs_ledger (snd (authorize_contained cx a entry s1)))"
      by (auto simp: authorize_contained_def run_execute_eq outcome_entry_def Let_def split: sum.split intro!: record_extends_step)
    then show ?thesis using contained admission_Inr [OF contained(4)] admission_extends [of cx s a]
      by (auto simp: extends_def prefix_def intro: prefix_order.trans)
  next
    case (consequential entry s1)
    with consequential_extends [of cx s1 a entry] show ?thesis
      using admission_Inr [OF consequential(4)] admission_extends [of cx s a]
      by (auto simp: extends_def prefix_def intro: prefix_order.trans)
  qed
  then show ?thesis by (auto simp: extends_def chain_inv_def ledger_verify_def)
qed

theorem authorize_trail_witness:
  "chain_inv (cx_hash (demo_ctx None)) (bs_ledger demo_state) \<and>
   (\<exists>n. ledger_verify (\<lambda>s. s) (bs_ledger (snd (authorize (demo_ctx None) demo_action demo_state))) = Chain_ok n)"
  using authorize_trail [of demo_state "demo_ctx None" demo_action] chain_inv_empty [of "\<lambda>s. s"]
  by (simp add: demo_ctx_def demo_state_def)

section \<open>Liveness and replay\<close>

text \<open>C6. An action whose guards hold is executed when every service answers: \<open>authorize\<close> reports the
  execution under its tier, the executor ran once, and the ledger is left able to admit the next.\<close>

theorem authorize_executes:
  assumes "may_execute cx a" and "healthy s" and "services_answer cx a s"
  shows "\<exists>auth q out app tok l p. fst (authorize cx a s) = Inr (Executed (tier_of a) auth q out app tok) \<and>
     bs_world (snd (authorize cx a s)) = snd (cx_execute cx a l p (bs_world s)) \<and> healthy (snd (authorize cx a s))"
  using authorize_executes_aux [OF assms] by blast

theorem authorize_executes_witness:
  "\<exists>auth q out app tok. fst (authorize (demo_ctx (Some sample_decision)) demo_action demo_state)
     = Inr (Executed Consequential auth q out app tok)"
  using authorize_executes [OF demo_may_execute demo_healthy demo_services] by (auto simp: demo_tier)

text \<open>A decision is not single use: the broker refuses a decision that is marked spent, but nothing
  marks it, so the very context that executed an action executes it again, any number of times,
  until the decision expires.\<close>

theorem authorize_replays:
  assumes "may_execute cx a" and "healthy s" and "\<And>s :: ('p, 'w, 'r) bstate. services_answer cx a s"
  shows "\<not> not_executed (fst (authorize cx a (((\<lambda>s. snd (authorize cx a s)) ^^ n) (s :: ('p, 'w, 'r) bstate))))"
proof -
  have h: "healthy (((\<lambda>s. snd (authorize cx a s)) ^^ n) s)"
    using assms authorize_executes_aux [OF assms(1) _ assms(3)] by (induction n) auto
  from authorize_executes_aux [OF assms(1) h assms(3)] show ?thesis by (auto simp: not_executed_def)
qed

definition open_ctx :: "(unit, nat, unit) ctx" where
  "open_ctx =
     \<lparr>cx_hash = (\<lambda>s. s), cx_env = None, cx_at = ''t'', cx_now = 1000, cx_apply = null_port, cx_revert = null_port,
      cx_execute = (\<lambda>a l p w. (Inr (JNum 1), Suc w)), cx_decision = Some sample_decision, cx_inverse = None\<rparr>"

theorem authorize_replays_witness:
  "\<not> not_executed (fst (authorize open_ctx demo_action (snd (authorize open_ctx demo_action
      \<lparr>bs_ledger = empty_ledger, bs_disks = [], bs_policy = (), bs_world = 0, bs_undo = None\<rparr>))))"
proof -
  let ?s = "\<lparr>bs_ledger = empty_ledger, bs_disks = [], bs_policy = (), bs_world = 0, bs_undo = None\<rparr> :: (unit, nat, unit) bstate"
  have m: "may_execute open_ctx demo_action"
    using demo_may_execute by (simp add: open_ctx_def demo_ctx_def may_execute_def demo_tier)
  have h: "healthy ?s" by (simp add: healthy_def empty_ledger_def)
  have v: "services_answer open_ctx demo_action s" for s :: "(unit, nat, unit) bstate"
    by (simp add: services_answer_def open_ctx_def null_port_def)
  from authorize_replays [OF m h v, of 1] show ?thesis by simp
qed

end
