(* ===== verification/Boot.thy ===== *)
theory Boot
  imports Telegram_Claims Broker_Claims
begin

text \<open>
  How src/boot.js wires the operator loop to the broker: the executor that reaches the services, the callback
  for a settled approval, the demonstration control, and what follows for the whole path from a tap
  on the phone to an effect outside.

  \<open>'p\<close> is the policy of the port, \<open>'w\<close> the world that the executor's \<open>fetch\<close> reaches.
\<close>

section \<open>The executor\<close>

definition method_for_verb :: "verb \<Rightarrow> string" where
  "method_for_verb v =
     (case v of Read \<Rightarrow> ''GET'' | Create \<Rightarrow> ''POST'' | Update \<Rightarrow> ''PUT'' | Delete \<Rightarrow> ''DELETE'' | Other_verb _ \<Rightarrow> ''POST'')"

text \<open>A request with its port; \<open>None\<close> is a request without one.\<close>

definition request_for :: "registry_row \<Rightarrow> (request \<times> int option) option" where
  "request_for row =
     map_option (\<lambda>eg. (\<lparr>rq_method = method_for_verb (rg_verb row), rq_host = eg_host eg, rq_path = eg_path eg\<rparr>, Some (eg_port eg)))
       (rg_egress row)"

definition drop_suffix :: "string \<Rightarrow> string \<Rightarrow> string" where
  "drop_suffix suf s = (if ends_with s suf then take (length s - length suf) s else s)"

definition bare_path :: "string \<Rightarrow> string" where
  "bare_path p = (let q = drop_suffix ''/*'' (drop_suffix ''/**'' p) in if q = [] then ''/'' else q)"

definition sends_body :: "string \<Rightarrow> bool" where
  "sends_body verb = (verb \<noteq> ''GET'' \<and> verb \<noteq> ''DELETE'')"

text \<open>What the service does: it answers with a status and a body (\<open>None\<close> when that is no JSON), or the call fails.\<close>

datatype service_reply = Service_ok nat "json option" | Service_failed string

record fetch_call =
  fc_url :: string
  fc_method :: string
  fc_body :: "json option"

definition action_request :: "registry \<Rightarrow> (action \<Rightarrow> int option) \<Rightarrow> action \<Rightarrow> (request \<times> int option) option" where
  "action_request reg port_of a =
     (case ac_request a of
        Some rq \<Rightarrow> Some (rq, port_of a)
      | None \<Rightarrow>
          (case lookup_tool reg (case ac_tool a of None \<Rightarrow> ''undefined'' | Some t \<Rightarrow> t) of
             None \<Rightarrow> None
           | Some (row, skill) \<Rightarrow> request_for row))"

definition fetch_of :: "action \<Rightarrow> request \<Rightarrow> int option \<Rightarrow> fetch_call" where
  "fetch_of a rq port =
     \<lparr>fc_url = ''http://'' @ rq_host rq @ '':'' @ show_int (case port of None \<Rightarrow> 3120 | Some n \<Rightarrow> n) @ bare_path (rq_path rq),
      fc_method = rq_method rq,
      fc_body = (if sends_body (rq_method rq)
                 then Some (JObj [(''demo'', JBool True), (''tool'', case ac_tool a of None \<Rightarrow> JUndef | Some t \<Rightarrow> JStr t),
                                  (''intentId'', ac_intent a)])
                 else None)\<rparr>"

text \<open>\<open>executeAction\<close>: it never throws.  \<open>port_of\<close> is the port an action's own request carries.\<close>

definition execute_action ::
  "registry \<Rightarrow> (action \<Rightarrow> int option) \<Rightarrow> (fetch_call \<Rightarrow> 'w \<Rightarrow> service_reply \<times> 'w) \<Rightarrow> action \<Rightarrow> 'w \<Rightarrow> (string + json) \<times> 'w" where
  "execute_action reg port_of fetch a w =
     (case action_request reg port_of a of
        None \<Rightarrow> (Inr (JObj [(''ok'', JBool True), (''note'', JStr ''local action, no egress'')]), w)
      | Some (rq, port) \<Rightarrow>
          if rq_host rq = [] then (Inr (JObj [(''ok'', JBool True), (''note'', JStr ''local action, no egress'')]), w)
          else
            (case fetch (fetch_of a rq port) w of
               (Service_failed msg, w') \<Rightarrow> (Inr (JObj [(''ok'', JBool False), (''error'', JStr (take 120 msg))]), w')
             | (Service_ok st body, w') \<Rightarrow>
                 (Inr (JObj [(''ok'', JBool (200 \<le> st \<and> st < 300)), (''status'', JNum (int st)),
                             (''result'', case body of None \<Rightarrow> JObj [] | Some v \<Rightarrow> v)]), w')))"

text \<open>The inverse of the demonstration does nothing.\<close>

definition execute_inverse :: "'w \<Rightarrow> (string + json) \<times> 'w" where
  "execute_inverse w = (Inr (JObj [(''ok'', JBool True), (''note'', JStr ''demo inverse: no-op'')]), w)"

section \<open>A settled approval\<close>

definition execute_failed_entry :: "action \<Rightarrow> string \<Rightarrow> (string \<times> json) list" where
  "execute_failed_entry a msg =
     [(''kind'', JStr ''decision''), (''agent'', JStr ''broker''),
      (''tool'', case ac_tool a of None \<Rightarrow> JUndef | Some t \<Rightarrow> JStr t), (''verb'', verb_value (ac_verb a)),
      (''impact'', js_coalesce (ac_impact a) (JArr [])), (''outcome'', JStr ''execute-failed''), (''reason'', JStr (take 160 msg)),
      (''intentId'', ac_intent a)]"

definition broker_state :: "disk list \<Rightarrow> ledger \<times> 'r undo_store \<times> 'p \<times> 'w \<Rightarrow> ('p, 'w, 'r) bstate" where
  "broker_state disks x =
     (case x of (l, m, p, w) \<Rightarrow> \<lparr>bs_ledger = l, bs_disks = disks, bs_policy = p, bs_world = w, bs_undo = Some m\<rparr>)"

definition on_approved ::
  "('p, 'w, 'r) ctx \<Rightarrow> disk list \<Rightarrow> intent \<Rightarrow> action \<Rightarrow> decision \<Rightarrow> ledger \<times> 'r undo_store \<times> 'p \<times> 'w \<Rightarrow> ledger \<times> 'r undo_store \<times> 'p \<times> 'w" where
  "on_approved cx disks i a d x =
     (case authorize (cx\<lparr>cx_decision := Some d\<rparr>) a (broker_state disks x) of
        (res, b) \<Rightarrow>
          (let b' = (case res of Inr _ \<Rightarrow> b | Inl msg \<Rightarrow> snd (append_entry cx (execute_failed_entry a msg) b))
           in (bs_ledger b', (case bs_undo b' of None \<Rightarrow> [] | Some m \<Rightarrow> m), bs_policy b', bs_world b')))"

text \<open>
  The loop as \<open>boot\<close> sets it up, from an environment that holds the rest: \<open>HALT\<close> reverts the open deltas of
  the policy, \<open>UNDO\<close> replays the inverse above, and a settled approval runs the broker.
\<close>

definition boot_loop ::
  "('r, 'p \<times> 'w) loop_env \<Rightarrow> ('p \<Rightarrow> (string + nat) \<times> 'p) option \<Rightarrow> ('p, 'w, 'r) ctx \<Rightarrow> disk list \<Rightarrow> ('r, 'p \<times> 'w) loop_env" where
  "boot_loop e revert cx disks =
     e\<lparr>te_bus := True,
       te_revert := map_option (\<lambda>f x. case f (fst x) of (n, p) \<Rightarrow> (n, (p, snd x))) revert,
       te_replay := Some (\<lambda>r rec x. execute_inverse x),
       te_approved := Some (on_approved cx disks)\<rparr>"

section \<open>The demonstration control\<close>

definition gated_tools :: "registry_row list \<Rightarrow> registry_row list" where
  "gated_tools rows = filter (\<lambda>r. rg_consent r \<noteq> [] \<and> rg_consent r \<noteq> ''none'') rows"

definition demo_body :: "string \<Rightarrow> body" where
  "demo_body tool =
     \<lparr>bd_source = JStr ''admin-demo'', bd_kind = JStr ''demo'', bd_detector = JStr ''admin dashboard (demo)'', bd_confidence = JUndef,
      bd_observed = JUndef, bd_evidence = None, bd_outcome = JStr (''DEMO dangerous action: '' @ tool), bd_decision = False\<rparr>"

definition demo_row_action :: "string \<Rightarrow> string \<Rightarrow> registry_row \<Rightarrow> action" where
  "demo_row_action stamp iid row =
     (bare_action (rg_tool row) (rg_verb row))
       \<lparr>ac_impact := impacts_json (rg_impact row), ac_declared := True, ac_id := JStr (''demo-'' @ stamp), ac_intent := JStr iid,
        ac_agent := JStr (rg_agent row), ac_request := map_option fst (request_for row)\<rparr>"

definition demo_entry :: "registry_row \<Rightarrow> string \<Rightarrow> (string \<times> json) list" where
  "demo_entry row iid =
     [(''kind'', JStr ''demo''), (''agent'', JStr ''admin:demo''), (''tool'', JStr (rg_tool row)), (''verb'', verb_value (rg_verb row)),
      (''impact'', impacts_json (rg_impact row)), (''intentId'', JStr iid), (''outcome'', JStr ''escalated''),
      (''reason'', JStr (''demo escalation -> '' @ rg_consent row))]"

definition admin_demo_caller :: caller where
  "admin_demo_caller = \<lparr>cl_id = ''admin:demo'', cl_token = [], cl_secret = [], cl_scopes = [''intent:propose'']\<rparr>"

text \<open>
  \<open>trigger\<close>: the message to the operator is \<open>escalate\<close> (\<open>None\<close> when Telegram is not configured); \<open>stamp\<close>
  is the time in base 36 and \<open>ms\<close> in decimal.  What it returns, or the error the message throws.
\<close>

definition demo_trigger ::
  "registry \<Rightarrow> (intent \<Rightarrow> action \<Rightarrow> string + unit) option \<Rightarrow> ((string \<times> json) list \<Rightarrow> ledger \<Rightarrow> (string + json) \<times> ledger) \<Rightarrow>
     string \<Rightarrow> string \<Rightarrow> string \<Rightarrow> string \<Rightarrow> string \<Rightarrow> intent_store \<times> ledger
     \<Rightarrow> (string + (string + string \<times> string \<times> string)) \<times> intent_store \<times> ledger" where
  "demo_trigger reg escalate app uuid at' ms stamp tool s =
     (case escalate of
        None \<Rightarrow> (Inr (Inl ''Telegram is not configured (set TELEGRAM_BOT_TOKEN and TELEGRAM_ALLOWED_IDS)''), s)
      | Some send \<Rightarrow>
          (case lookup_tool reg tool of
             None \<Rightarrow> (Inr (Inl (''unknown tool \"'' @ tool @ ''\"'')), s)
           | Some (row, skill) \<Rightarrow>
               if rg_consent row = [] \<or> rg_consent row = ''none''
               then (Inr (Inl (''\"'' @ tool @ ''\" is not a gated action; pick one that requires consent'')), s)
               else
                 (case propose uuid at' (Some (''demo-'' @ tool @ ''-'' @ ms)) (demo_body tool) admin_demo_caller None (fst s) of
                    ((iid, dup), store) \<Rightarrow>
                      (let a = demo_row_action stamp iid row;
                           store' = snd (await_consent iid a store);
                           l = snd (app (demo_entry row iid) (snd s))
                       in case map_of (st_by_id store') iid of
                            None \<Rightarrow> (Inl ''unknown intent'', (store', l))
                          | Some i \<Rightarrow>
                              (case send i a of
                                 Inl msg \<Rightarrow> (Inl msg, (store', l))
                               | Inr _ \<Rightarrow> (Inr (Inr (rg_tool row, rg_consent row, iid)), (store', l)))))))"

section \<open>From a tap to an effect\<close>

lemma authorize_world_may_execute:
  assumes "bs_world (snd (authorize cx a s)) \<noteq> bs_world s"
  shows "may_execute cx a"
proof (cases rule: authorize_cases [where cx = cx and a = a and s = s])
  case (prohibited rule)
  then show ?thesis using assms by (simp add: authorize_prohibited)
next
  case undeclared
  then show ?thesis using assms authorize_undeclared [OF undeclared, of s] by auto
next
  case (unlogged msg s1)
  then show ?thesis using assms append_entry_frame [of cx _ s] by (auto simp: admission_def)
next
  case (safe entry s1)
  then show ?thesis by (simp add: may_execute_def)
next
  case (contained entry s1)
  note f = append_entry_frame [OF contained(4) [unfolded admission_def]]
  show ?thesis using contained f authorize_contained_world [of cx a entry s1] assms
    by (auto simp: may_execute_def split: if_splits)
next
  case (consequential entry s1)
  note f = append_entry_frame [OF consequential(4) [unfolded admission_def]]
  show ?thesis using consequential f authorize_consequential_world [of cx a entry s1] assms
    by (auto simp: may_execute_def)
qed

lemma on_approved_world:
  "snd (snd (snd (on_approved cx disks i a d x))) =
     bs_world (snd (authorize (cx\<lparr>cx_decision := Some d\<rparr>) a (broker_state disks x)))"
  by (auto simp: on_approved_def append_entry_def split: prod.split sum.split)

lemma on_approved_effect:
  assumes "snd (snd (snd (on_approved cx disks i a d x))) \<noteq> snd (snd (snd x))"
  shows "may_execute (cx\<lparr>cx_decision := Some d\<rparr>) a"
proof -
  have "bs_world (broker_state disks x) = snd (snd (snd x))" by (simp add: broker_state_def split: prod.split)
  with assms on_approved_world [of cx disks i a d x] show ?thesis
    by (intro authorize_world_may_execute [where s = "broker_state disks x"]) metis
qed


lemma boot_fields [simp]:
  "te_client (boot_loop e rv cx disks) = te_client e" "te_operator (boot_loop e rv cx disks) = te_operator e"
  "te_uuid (boot_loop e rv cx disks) = te_uuid e" "te_now (boot_loop e rv cx disks) = te_now e"
  "te_at (boot_loop e rv cx disks) = te_at e" "te_approved (boot_loop e rv cx disks) = Some (on_approved cx disks)"
  "te_append (boot_loop e rv cx disks) = te_append e"
  by (simp_all add: boot_loop_def)

lemma say_world [simp]: "tl_world (snd (say e chat text s)) = tl_world s"
  by (simp add: say_def)

lemma log_world [simp]: "tl_world (log_loop e entry s) = tl_world s" "tl_world (put_entry e entry s) = tl_world s"
  by (simp_all add: log_loop_def put_entry_def)

lemma media_world: "tl_world (snd (handle_media e d chat who s)) = tl_world s"
proof -
  have "tl_world (snd (media_proposal e f d chat who s)) = tl_world s" for f
    by (auto simp: media_proposal_def snd_after split: sum.split prod.split)
  then show ?thesis
    by (auto simp: handle_media_def snd_after split: option.split sum.split prod.split) (metis snd_conv)+
qed

lemma undo_run_world:
  assumes "\<And>r rec x. snd (replay r rec x) = x"
  shows "snd (snd (undo_run app replay operator token s w)) = w"
  using assms by (auto simp: undo_run_def Let_def split: prod.split sum.split option.split) (metis snd_conv)+

lemma undo_world: "tl_world (snd (handle_undo (boot_loop e rv cx disks) token chat who s)) = tl_world s"
proof -
  let ?replay = "\<lambda>r rec x. execute_inverse x"
  obtain out m l w where r: "undo_run (te_append e) ?replay (cl_id (te_operator e)) token (tl_undo s, tl_ledger s) (tl_world s) = (out, (m, l), w)"
    by (metis surj_pair)
  have "w = tl_world s"
    using undo_run_world [of ?replay "te_append e" "cl_id (te_operator e)" token "(tl_undo s, tl_ledger s)" "tl_world s"] r
    by (simp add: execute_inverse_def)
  moreover have "te_replay (boot_loop e rv cx disks) = Some ?replay" by (simp add: boot_loop_def)
  ultimately show ?thesis using r by (simp add: handle_undo_def snd_after split: sum.split)
qed

lemma halt_world: "snd (tl_world (snd (handle_halt (boot_loop e rv cx disks) chat who s))) = snd (tl_world s)"
  by (cases rv) (auto simp: handle_halt_def boot_loop_def halted_reply_def snd_after split: sum.split prod.split)

lemma conclude_effect:
  assumes "snd (tl_world (conclude_decision (boot_loop e rv cx disks) out verdict iid aid s)) \<noteq> snd (tl_world s)"
  obtains d a i where "out = Inr d" "intent_at iid (tl_intents s) = Some i" "a \<in> set (in_actions i)" "ac_id a = aid"
    "dc_verdict d = JStr ''approve''" "\<not> unsettled d" "may_execute (cx\<lparr>cx_decision := Some d\<rparr>) a"
proof -
  have "\<exists>d a i x. out = Inr d \<and> decided_action out iid aid (tl_intents s) = Some a \<and> intent_at iid (tl_intents s) = Some i \<and>
      dc_verdict d = JStr ''approve'' \<and> \<not> unsettled d \<and> snd (snd x) = tl_world s \<and>
      snd (snd (snd (on_approved cx disks i a d x))) \<noteq> snd (tl_world s)"
    using assms
    by (auto simp: conclude_decision_def Let_def split: option.splits sum.splits if_splits prod.splits) (metis snd_conv)+
  then obtain d a i x where r: "out = Inr d" "decided_action out iid aid (tl_intents s) = Some a"
      "intent_at iid (tl_intents s) = Some i" "dc_verdict d = JStr ''approve''" "\<not> unsettled d"
      "snd (snd x) = tl_world s" "snd (snd (snd (on_approved cx disks i a d x))) \<noteq> snd (tl_world s)" by blast
  from r(6,7) have "may_execute (cx\<lparr>cx_decision := Some d\<rparr>) a" by (intro on_approved_effect [of cx disks i a d x]) simp
  moreover have "find (\<lambda>a. ac_id a = aid) (in_actions i) = Some a" using r(1,2,3) by (simp add: decided_action_def)
  then have "a \<in> set (in_actions i)" "ac_id a = aid" by (auto simp: find_Some_iff)
  ultimately show thesis using r that by blast
qed

lemma decide_world:
  "snd (tl_world (snd (handle_decide e verdict iid aid cb chat mid who s))) \<noteq> snd (tl_world s) \<Longrightarrow>
   \<exists>s1. tl_intents s1 = snd (tap_decision e verdict iid aid (tl_intents s)) \<and> tl_world s1 = tl_world s \<and>
     snd (tl_world (conclude_decision e (fst (tap_decision e verdict iid aid (tl_intents s))) verdict iid aid s1)) \<noteq> snd (tl_world s1)"
proof -
  assume a: "snd (tl_world (snd (handle_decide e verdict iid aid cb chat mid who s))) \<noteq> snd (tl_world s)"
  obtain out store where t: "tap_decision e verdict iid aid (tl_intents s) = (out, store)" by fastforce
  let ?ack = "with_calls (tg_acknowledge (te_wire e) cb (case out of Inr d \<Rightarrow> ''Recorded'' | Inl (st, why) \<Rightarrow> why)) (s\<lparr>tl_intents := store\<rparr>)"
  let ?set = "if truthy chat \<and> truthy mid
              then with_calls (tg_settle (te_wire e) (te_client e) chat mid verdict (cl_id (te_operator e))) (snd ?ack)
              else (Inr JUndef, snd ?ack)"
  have i: "tl_intents (snd ?set) = store" "tl_world (snd ?set) = tl_world s" by simp_all
  have "tl_world (snd (handle_decide e verdict iid aid cb chat mid who s)) = tl_world s \<or>
      tl_world (snd (handle_decide e verdict iid aid cb chat mid who s)) =
      tl_world (conclude_decision e out verdict iid aid (snd ?set))"
    by (auto simp: handle_decide_def t snd_after split: sum.split)
  with a i t show ?thesis by (intro exI [of _ "snd ?set"]) auto
qed

text \<open>C2. From a tap to an effect: if handling an update of Telegram changes anything in the world outside,
  then the sender is on the allow list, the intent store has just accepted the operator's approval of
  a registered action of an intent the operator did not propose, that approval is settled, and the
  broker's guards hold for the action under exactly that decision: it is not prohibited, it is
  declared, an update or a delete has an inverse, and a consequential one is covered by the decision.\<close>

theorem tap_to_effect:
  assumes "snd (tl_world (snd (handle_update (boot_loop e rv cx disks) u s))) \<noteq> snd (tl_world s)"
  shows "\<exists>iid aid d i0 i a. is_operator (te_client e) (update_sender u) \<and>
    fst (decide (te_uuid e) (te_now e) (te_at e) iid (js_string aid) ''approve'' (''decided from Telegram by '' @ cl_id (te_operator e))
           (te_operator e) (tl_intents s)) = Inr d \<and>
    dc_settled d \<noteq> JBool False \<and>
    map_of (st_by_id (tl_intents s)) iid = Some i0 \<and> in_proposed_by i0 \<noteq> cl_id (te_operator e) \<and>
    map_of (st_by_id (tl_intents (snd (handle_update (boot_loop e rv cx disks) u s)))) iid = Some i \<and>
    a \<in> set (in_actions i) \<and> ac_id a = aid \<and> may_execute (cx\<lparr>cx_decision := Some d\<rparr>) a"
proof -
  let ?e = "boot_loop e rv cx disks"
  obtain cmd where p: "parse_update (te_client e) u = Inr (Some cmd)"
    and c: "handle_update ?e u s = handle_command ?e cmd s"
    using assms by (auto simp: handle_update_def split: sum.splits option.splits)
  have "snd (tl_world (snd (handle_command ?e cmd s))) \<noteq> snd (tl_world s)" using assms c by simp
  then obtain verdict iid aid cb chat mid who where cmd: "cmd = Decide verdict iid aid cb chat mid who"
    by (cases cmd) (auto simp: media_world undo_world halt_world handle_audit_def handle_resume_def snd_after split: sum.splits)
  from parse_decide [OF p [unfolded cmd]] have sender: "is_operator (te_client e) (update_sender u)" by blast
  have w: "snd (tl_world (snd (handle_decide ?e verdict iid aid cb chat mid who s))) \<noteq> snd (tl_world s)"
    using assms c cmd by simp
  from decide_world [OF w] obtain s1 where s1: "tl_intents s1 = snd (tap_decision ?e verdict iid aid (tl_intents s))"
      "snd (tl_world (conclude_decision ?e (fst (tap_decision ?e verdict iid aid (tl_intents s))) verdict iid aid s1)) \<noteq> snd (tl_world s1)"
    by blast
  from conclude_effect [OF s1(2)] obtain d a i where
    r: "fst (tap_decision ?e verdict iid aid (tl_intents s)) = Inr d" "intent_at iid (tl_intents s1) = Some i" "a \<in> set (in_actions i)"
      "ac_id a = aid" "dc_verdict d = JStr ''approve''" "\<not> unsettled d" "may_execute (cx\<lparr>cx_decision := Some d\<rparr>) a" by metis
  then obtain k where k: "iid = JStr k" "map_of (st_by_id (tl_intents s1)) k = Some i" by (cases iid) (auto simp: intent_at_def)
  have dec: "fst (decide (te_uuid e) (te_now e) (te_at e) k (js_string aid) verdict (tap_reason ?e) (te_operator e) (tl_intents s)) = Inr d"
    using r(1) k(1) by (simp add: tap_decision_def)
  then obtain i0 where i0: "map_of (st_by_id (tl_intents s)) k = Some i0" "in_proposed_by i0 \<noteq> cl_id (te_operator e)"
    "dc_verdict d = JStr verdict"
    by (auto simp: decide_def mk_decision_def Let_def split: option.splits if_splits)
  then have v: "verdict = ''approve''" using r(5) by simp
  have st: "tl_intents (snd (handle_update ?e u s)) = tl_intents s1"
    unfolding c cmd by (simp add: decide_intents s1(1))
  from sender dec v i0 k(2) r(3,4,6,7) st show ?thesis
    by (intro exI [of _ k] exI [of _ aid] exI [of _ d] exI [of _ i0] exI [of _ i] exI [of _ a])
      (simp add: tap_reason_def unsettled_def)
qed


section \<open>An instance\<close>

definition tap_env :: "(unit, sim_policy \<times> nat) loop_env" where
  "tap_env =
     \<lparr>te_client = \<lparr>tc_allowed = [''7''], tc_mode = ''Markdown''\<rparr>, te_wire = (\<lambda>calls. Inr JNull),
      te_operator = \<lparr>cl_id = ''operator:ann'', cl_token = [], cl_secret = [], cl_scopes = [''intent:decide'']\<rparr>,
      te_append = (\<lambda>entry l. (Inr JNull, l)), te_bus = True, te_media = None, te_revert = None,
      te_replay = None, te_approved = None, te_uuid = ''u'', te_now = 1000, te_at = ''t''\<rparr>"

definition tap_store0 :: intent_store where
  "tap_store0 = (create_intents True)\<lparr>st_by_id := [(''int_1'', leaky_intent\<lparr>in_actions := [Broker_Safety.demo_action]\<rparr>)]\<rparr>"

definition tap_state :: "(unit, sim_policy \<times> nat) loop_state" where
  "tap_state = create_loop tap_store0 empty_ledger [] (create_sim city_policies, 0)"

definition tap_update :: json where
  "tap_update =
     JObj [(''update_id'', JNum 5),
           (''callback_query'', JObj [(''id'', JStr ''q''), (''from'', JObj [(''id'', JNum 7)]), (''data'', JStr ''approve:int_1:act-1'')])]"

definition tapped :: decision where
  "tapped =
     mk_decision ''u'' 1000 ''t'' ''act-1'' ''approve'' ''decided from Telegram by operator:ann'' (te_operator tap_env) leaky_intent True 1 1"

abbreviation tap_loop :: "(unit, sim_policy \<times> nat) loop_env" where
  "tap_loop \<equiv> boot_loop tap_env None (demo_ctx None) []"

lemma tap_parsed:
  "parse_update (te_client tap_env) tap_update = Inr (Some (Decide ''approve'' (JStr ''int_1'') (JStr ''act-1'') (JStr ''q'') JUndef JUndef (JNum 7)))"
  by code_simp

lemma tap_kind: "action_kind (Some Broker_Safety.demo_action) = ''approval''"
  by code_simp

lemma tap_decided:
  "\<exists>store i. tap_decision tap_loop ''approve'' (JStr ''int_1'') (JStr ''act-1'') tap_store0 = (Inr tapped, store) \<and>
     map_of (st_by_id store) ''int_1'' = Some i \<and> in_actions i = [Broker_Safety.demo_action]"
proof -
  have f: "find_action (leaky_intent\<lparr>in_actions := [Broker_Safety.demo_action]\<rparr>) ''act-1'' = Some Broker_Safety.demo_action"
    by (simp add: find_action_def Broker_Safety.demo_action_def)
  have p: "in_proposed_by leaky_intent = ''ops''" by (simp add: leaky_intent_def)
  have r: "js_trim ''decided from Telegram by operator:ann'' \<noteq> []" by code_simp
  have m: "mk_decision u n t x v w c (leaky_intent\<lparr>in_actions := as\<rparr>) b k h = mk_decision u n t x v w c leaky_intent b k h"
    for u n t x v w c as b k h by (simp add: mk_decision_def)
  show ?thesis
    using r by (simp add: tap_decision_def decide_def tap_store0_def create_intents_def f p tap_kind quorum_for_def approvers_of_def
        record_approval_def tapped_def tap_reason_def tap_env_def m Let_def)
qed

lemma tapped_may_execute: "may_execute ((demo_ctx None)\<lparr>cx_decision := Some tapped\<rparr>) Broker_Safety.demo_action"
proof -
  have "decision_ok tapped Broker_Safety.demo_action 1000"
    by (simp add: tapped_def mk_decision_def decision_ok_def Broker_Safety.demo_action_def bare_action_def leaky_intent_def tap_env_def
        decision_scope_def js_trim_def js_ws_def)
  moreover have "\<not> lacks_inverse Broker_Safety.demo_action"
    by (simp add: Broker_Safety.demo_action_def bare_action_def lacks_inverse_def requires_inverse_def)
  ultimately show ?thesis
    unfolding may_execute_def demo_tier by (simp add: demo_allowed demo_ctx_def) (simp add: Broker_Safety.demo_action_def)
qed

lemma tap_world: "snd (tl_world (snd (handle_update tap_loop tap_update tap_state))) = 1"
proof -
  obtain store i where d: "tap_decision tap_loop ''approve'' (JStr ''int_1'') (JStr ''act-1'') tap_store0 = (Inr tapped, store)"
      "map_of (st_by_id store) ''int_1'' = Some i" "in_actions i = [Broker_Safety.demo_action]"
    using tap_decided by blast
  have cx: "(demo_ctx None)\<lparr>cx_decision := Some tapped\<rparr> = demo_ctx (Some tapped)" by (simp add: demo_ctx_def)
  have st: "broker_state [] (empty_ledger, [], create_sim city_policies, 0) = demo_state"
    by (simp add: broker_state_def demo_state_def)
  have "bs_world (snd (authorize (demo_ctx (Some tapped)) Broker_Safety.demo_action demo_state)) = 1"
    using authorize_executes_aux [OF tapped_may_execute [unfolded cx] demo_healthy demo_services]
    by (auto simp: demo_ctx_def demo_state_def)
  then have w: "snd (snd (snd (on_approved (demo_ctx None) [] i Broker_Safety.demo_action tapped
      (empty_ledger, [], create_sim city_policies, 0)))) = 1"
    by (simp add: on_approved_world cx st)
  have v: "dc_verdict tapped = JStr ''approve''" "\<not> unsettled tapped" by (simp_all add: tapped_def mk_decision_def unsettled_def)
  have a: "ac_id Broker_Safety.demo_action = JStr ''act-1''" by (simp add: Broker_Safety.demo_action_def)
  have e: "te_wire tap_loop = (\<lambda>calls. Inr JNull)" "te_append tap_env = (\<lambda>entry l. (Inr JNull, l))" "te_bus tap_loop"
    by (simp_all add: boot_loop_def tap_env_def)
  have s: "tl_intents tap_state = tap_store0" "tl_ledger tap_state = empty_ledger" "tl_undo tap_state = []"
    "tl_world tap_state = (create_sim city_policies, 0)" by (simp_all add: tap_state_def create_loop_def)
  show ?thesis
    using w v
    by (simp add: handle_update_def tap_parsed handle_decide_def s d after_def with_calls_def tg_acknowledge_def tg_call_def
        allowed_methods_def e conclude_decision_def decided_action_def intent_at_def a put_entry_def Let_def split: prod.split)
      (metis snd_conv)
qed

theorem tap_to_effect_witness:
  "snd (tl_world (snd (handle_update tap_loop tap_update tap_state))) = 1 \<and>
   is_operator (te_client tap_env) (update_sender tap_update) \<and>
   (\<exists>iid aid d a. fst (decide ''u'' 1000 ''t'' iid (js_string aid) ''approve'' ''decided from Telegram by operator:ann''
        (te_operator tap_env) tap_store0) = Inr d \<and> ac_id a = aid \<and> may_execute ((demo_ctx None)\<lparr>cx_decision := Some d\<rparr>) a)"
proof -
  have "snd (tl_world (snd (handle_update tap_loop tap_update tap_state))) \<noteq> snd (tl_world tap_state)"
    unfolding tap_world by (simp add: tap_state_def create_loop_def)
  from tap_to_effect [OF this] obtain iid aid d a where
    r: "is_operator (te_client tap_env) (update_sender tap_update)"
      "fst (decide (te_uuid tap_env) (te_now tap_env) (te_at tap_env) iid (js_string aid) ''approve''
        (''decided from Telegram by '' @ cl_id (te_operator tap_env)) (te_operator tap_env) (tl_intents tap_state)) = Inr d"
      "ac_id a = aid" "may_execute ((demo_ctx None)\<lparr>cx_decision := Some d\<rparr>) a" by blast
  have "te_uuid tap_env = ''u''" "te_now tap_env = 1000" "te_at tap_env = ''t''" "cl_id (te_operator tap_env) = ''operator:ann''"
    "tl_intents tap_state = tap_store0" by (simp_all add: tap_env_def tap_state_def create_loop_def)
  with r tap_world show ?thesis by auto
qed

end
