(* ===== verification/City.thy ===== *)
theory City
  imports Planning
begin

text \<open>
  The mock city services of src/mock/city-services.js: the stores behind the routes, their views that age
  with the clock, and the request handler.

  A request has its method, its path and the text of its body; a reply is a status and a JSON value, or
  \<open>Inl\<close> where the handler throws (a body that is the value \<open>null\<close>).  SHA-256 in hexadecimal is the parameter
  \<open>hash\<close>, the rendering of a number of seconds as minutes with one decimal (\<open>toFixed\<close> on a float) the
  parameter \<open>mins\<close>.  The clock is an integer of milliseconds.
\<close>

section \<open>Time stamps\<close>

text \<open>\<open>new Date(ms).toISOString()\<close> for the years 0 to 9999, by the Gregorian calendar.\<close>

definition pad_zero :: "nat \<Rightarrow> string \<Rightarrow> string" where
  "pad_zero n s = replicate (n - length s) (CHR ''0'') @ s"

definition civil_of_days :: "int \<Rightarrow> int \<times> int \<times> int" where
  "civil_of_days days =
     (let z = days + 719468; era = z div 146097; doe = z mod 146097;
          yoe = (doe - doe div 1460 + doe div 36524 - doe div 146096) div 365;
          doy = doe - (365 * yoe + yoe div 4 - yoe div 100);
          mp = (5 * doy + 2) div 153; d = doy - (153 * mp + 2) div 5 + 1;
          m = (if mp < 10 then mp + 3 else mp - 9)
      in (yoe + era * 400 + (if m \<le> 2 then 1 else 0), m, d))"

definition iso_time :: "int \<Rightarrow> string" where
  "iso_time ms =
     (let (y, mo, d) = civil_of_days (ms div 86400000); t = ms mod 86400000;
          two = (\<lambda>n. pad_zero 2 (show_int n))
      in pad_zero 4 (show_int y) @ ''-'' @ two mo @ ''-'' @ two d @ ''T'' @ two (t div 3600000) @ '':'' @
         two (t div 60000 mod 60) @ '':'' @ two (t div 1000 mod 60) @ ''.'' @ pad_zero 3 (show_int (t mod 1000)) @ ''Z'')"

section \<open>Reference data\<close>

record unit_row =
  un_id :: string
  un_type :: string
  un_service :: string
  un_home :: string

definition unit_row_of :: "string \<Rightarrow> string \<Rightarrow> string \<Rightarrow> string \<Rightarrow> unit_row" where
  "unit_row_of i t s h = \<lparr>un_id = i, un_type = t, un_service = s, un_home = h\<rparr>"

definition eta_of :: "(string, int) jsmap" where
  "eta_of = [(''fire'', 360), (''ems'', 480), (''police'', 300), (''tow'', 900), (''debris'', 1200), (''pothole'', 172800)]"

definition fleet :: "unit_row list" where
  "fleet =
     [unit_row_of ''E-17'' ''fire engine'' ''fire'' ''Station 17'', unit_row_of ''L-9'' ''ladder truck'' ''fire'' ''Station 9'',
      unit_row_of ''M-2'' ''ambulance'' ''ems'' ''Harborview'', unit_row_of ''M-5'' ''ambulance'' ''ems'' ''Swedish'',
      unit_row_of ''P-31'' ''patrol car'' ''police'' ''West Precinct'', unit_row_of ''TOW-4'' ''tow truck'' ''tow'' ''SDOT Yard 3'']"

text \<open>\<open>parseInt(hex, 16)\<close>: the digits up to the first that is none.\<close>

fun hex_number :: "nat \<Rightarrow> string \<Rightarrow> nat" where
  "hex_number a [] = a"
| "hex_number a (c # s) = (case hex_val c of None \<Rightarrow> a | Some d \<Rightarrow> hex_number (16 * a + d) s)"

definition unit_for :: "(string \<Rightarrow> string) \<Rightarrow> string \<Rightarrow> string \<Rightarrow> unit_row" where
  "unit_for hash service ident =
     (let pool = filter (\<lambda>u. un_service u = service) fleet in
      if pool = [] then hd fleet else pool ! (hex_number 0 (take 4 (hash ident)) mod length pool))"

definition phase_of :: "int \<Rightarrow> int \<Rightarrow> string" where
  "phase_of elapsed eta = (if elapsed < 5 then ''routing'' else if elapsed < eta then ''en_route'' else ''on_scene'')"

definition vendor_row :: "string \<Rightarrow> string \<Rightarrow> string \<Rightarrow> int \<Rightarrow> (string \<times> json) list" where
  "vendor_row i name kind rate =
     [(''vendor_id'', JStr i), (''name'', JStr name), (''kind'', JStr kind), (''rate_per_hour'', JNum rate), (''status'', JStr ''available'')]"

definition vendors :: "(string \<times> json) list list" where
  "vendors =
     [vendor_row ''V-CRANE-1'' ''Ballard Heavy Lift'' ''crane'' 1200, vendor_row ''V-TOW-HD1'' ''Rainier Heavy Recovery'' ''heavy-tow'' 480,
      vendor_row ''V-HAZ-1'' ''Cascade Hazmat Services'' ''hazmat'' 2100]"

definition channels :: "(string \<times> json) list list" where
  "channels =
     [[(''channel_id'', JStr ''ADV-BOARD''), (''name'', JStr ''Neighborhood advisory board''), (''kind'', JStr ''advisory''), (''audience'', JNum 4200)],
      [(''channel_id'', JStr ''R911-Z1''), (''name'', JStr ''Reverse-911 zone 1''), (''kind'', JStr ''reverse911''), (''audience'', JNum 1850)]]"

section \<open>State\<close>

record call =
  ca_service :: string
  ca_location :: json
  ca_incident :: json
  ca_unit :: unit_row
  ca_eta :: int
  ca_routed :: string
  ca_placed :: int
  ca_cancelled :: bool

record work_order =
  wo_type :: string
  wo_segment :: json
  wo_unit :: unit_row
  wo_eta :: int
  wo_placed :: int
  wo_cancelled :: bool

record filed_incident =
  fi_kind :: json
  fi_location :: json
  fi_summary :: json
  fi_placed :: int
  fi_retracted :: bool

record callout =
  co_vendor :: "(string \<times> json) list"
  co_need :: json
  co_location :: json
  co_placed :: int
  co_cancelled :: bool

record clip =
  cl_camera :: json
  cl_span :: json
  cl_reason :: json
  cl_placed :: int
  cl_retracted :: bool

record notice =
  no_to :: json
  no_subject :: json
  no_placed :: int

record advisory =
  av_kind :: string
  av_area :: json
  av_message :: json
  av_placed :: int

record city =
  ct_calls :: "(string, call) jsmap"
  ct_orders :: "(string, work_order) jsmap"
  ct_incidents :: "(string, filed_incident) jsmap"
  ct_notices :: "(string, notice) jsmap"
  ct_callouts :: "(string, callout) jsmap"
  ct_clips :: "(string, clip) jsmap"
  ct_advisories :: "(string, advisory) jsmap"
  ct_segments :: "(json, (string \<times> json) list) jsmap"
  ct_counter :: nat

definition create_city :: city where
  "create_city =
     \<lparr>ct_calls = [], ct_orders = [], ct_incidents = [], ct_notices = [], ct_callouts = [], ct_clips = [], ct_advisories = [],
      ct_segments = [], ct_counter = 0\<rparr>"

definition city_id :: "string \<Rightarrow> nat \<Rightarrow> string" where
  "city_id pre n = pre @ ''-'' @ pad_zero 4 (show_nat n)"

text \<open>\<open>nextId\<close>: the id, and the state with the counter moved.\<close>

definition next_id :: "string \<Rightarrow> city \<Rightarrow> string \<times> city" where
  "next_id pre s = (city_id pre (Suc (ct_counter s)), s\<lparr>ct_counter := Suc (ct_counter s)\<rparr>)"

section \<open>What is protected\<close>

definition dangerous_fallback :: "string list" where
  "dangerous_fallback =
     [''dispatch.unit.request'', ''dispatch.callout.cancel'', ''incident.record.create'', ''incident.record.retract'',
      ''supervisor.notify'', ''procurement.callout.authorize'', ''procurement.callout.cancel'', ''utility.gas.shutoff'',
      ''utility.power.deenergize'', ''evidence.clip.export'', ''evidence.clip.retract'', ''comms.advisory.post'',
      ''comms.reverse911.send'']"

definition city_lookup :: "registry option \<Rightarrow> string \<Rightarrow> registry_row option" where
  "city_lookup reg tool = (case reg of None \<Rightarrow> None | Some r \<Rightarrow> map_option fst (lookup_tool r tool))"

definition protection_for :: "registry option \<Rightarrow> string \<Rightarrow> (string \<times> json) list" where
  "protection_for reg tool =
     (case city_lookup reg tool of
        None \<Rightarrow> [(''verb'', JNull), (''impact'', JArr []), (''openshell_protected'', JNull), (''consent'', JNull)]
      | Some row \<Rightarrow>
          [(''verb'', verb_value (rg_verb row)), (''impact'', impacts_json (rg_impact row)), (''consent'', JStr (rg_consent row)),
           (''openshell_protected'', JBool (rg_consent row \<noteq> ''none''))])"

definition is_dangerous :: "registry option \<Rightarrow> string \<Rightarrow> bool" where
  "is_dangerous reg tool =
     (case obj_get (JObj (protection_for reg tool)) ''openshell_protected'' of
        JBool b \<Rightarrow> b
      | _ \<Rightarrow> tool \<in> set dangerous_fallback)"

section \<open>Views\<close>

definition seconds_since :: "int \<Rightarrow> int \<Rightarrow> int" where
  "seconds_since placed now = max 0 ((now - placed) div 1000)"

definition call_status :: "call \<Rightarrow> int \<Rightarrow> string" where
  "call_status c now = (if ca_cancelled c then ''cancelled'' else phase_of (seconds_since (ca_placed c) now) (ca_eta c))"

definition call_remaining :: "call \<Rightarrow> int \<Rightarrow> int" where
  "call_remaining c now = max 0 (ca_eta c - seconds_since (ca_placed c) now)"

definition dispatch_view :: "(int \<Rightarrow> string) \<Rightarrow> int \<Rightarrow> string \<Rightarrow> call \<Rightarrow> (string \<times> json) list" where
  "dispatch_view mins now i c =
     (let remaining = (if ca_cancelled c then JNull else JNum (call_remaining c now)); u = ca_unit c in
      [(''call_id'', JStr i), (''service'', JStr (ca_service c)), (''routed_to'', JStr (ca_routed c)),
       (''status'', JStr (call_status c now)),
       (''units'',
         if ca_cancelled c then JArr []
         else JArr [JObj [(''unit_id'', JStr (un_id u)), (''type'', JStr (un_type u)), (''from'', JStr (un_home u)),
                          (''eta_seconds'', remaining),
                          (''distance'', JStr (if call_status c now = ''on_scene'' then ''on scene''
                                               else mins (call_remaining c now) @ '' min out''))]]),
       (''eta_seconds'', remaining), (''elapsed_seconds'', JNum (seconds_since (ca_placed c) now)),
       (''incident'', ca_incident c), (''location'', ca_location c), (''placed_at'', JStr (iso_time (ca_placed c)))])"

definition order_status :: "work_order \<Rightarrow> int \<Rightarrow> string" where
  "order_status w now =
     (let elapsed = seconds_since (wo_placed w) now in
      if wo_cancelled w then ''cancelled'' else if elapsed < 30 then ''scheduled''
      else if elapsed < wo_eta w then ''crew_dispatched'' else if elapsed < wo_eta w + 600 then ''on_site'' else ''complete'')"

definition order_view :: "int \<Rightarrow> string \<Rightarrow> work_order \<Rightarrow> (string \<times> json) list" where
  "order_view now i w =
     [(''work_order_id'', JStr i), (''type'', JStr (wo_type w)), (''segment'', wo_segment w), (''status'', JStr (order_status w now)),
      (''crew'', if wo_cancelled w then JNull
                 else JObj [(''unit_id'', JStr (un_id (wo_unit w))), (''type'', JStr (un_type (wo_unit w))),
                            (''eta_seconds'', JNum (max 0 (wo_eta w - seconds_since (wo_placed w) now)))]),
      (''opened_at'', JStr (iso_time (wo_placed w)))]"

definition incident_view :: "int \<Rightarrow> string \<Rightarrow> filed_incident \<Rightarrow> (string \<times> json) list" where
  "incident_view now i f =
     [(''incident_id'', JStr i), (''kind'', fi_kind f), (''location'', fi_location f), (''summary'', fi_summary f),
      (''status'', JStr (if fi_retracted f then ''retracted''
                         else if seconds_since (fi_placed f) now < 30 then ''filed'' else ''acknowledged'')),
      (''routed_to'', JStr ''King County incident registry''), (''filed_at'', JStr (iso_time (fi_placed f)))]"

definition vendor_rate :: "(string \<times> json) list \<Rightarrow> int" where
  "vendor_rate v = (case obj_get (JObj v) ''rate_per_hour'' of JNum n \<Rightarrow> n | _ \<Rightarrow> 0)"

definition callout_view :: "int \<Rightarrow> string \<Rightarrow> callout \<Rightarrow> (string \<times> json) list" where
  "callout_view now i c =
     (let elapsed = seconds_since (co_placed c) now; rate = vendor_rate (co_vendor c) in
      [(''callout_id'', JStr i), (''vendor'', obj_get (JObj (co_vendor c)) ''name''), (''kind'', obj_get (JObj (co_vendor c)) ''kind''),
       (''need'', co_need c), (''location'', co_location c),
       (''status'', JStr (if co_cancelled c then ''cancelled'' else if elapsed < 30 then ''authorized''
                          else if elapsed < 600 then ''dispatched'' else ''on_site'')),
       (''rate_per_hour'', JNum rate),
       (''running_cost'', JNum (if co_cancelled c then rate else rate * max 1 ((elapsed + 3599) div 3600))),
       (''authorized_at'', JStr (iso_time (co_placed c)))])"

definition segment_state :: "int \<Rightarrow> json \<Rightarrow> city \<Rightarrow> (string \<times> json) list" where
  "segment_state now i s =
     foldl (\<lambda>m kv. jset m (fst kv) (snd kv)) [(''segment_id'', i)]
       ((case map_of (ct_segments s) i of
           None \<Rightarrow> [(''energized'', JBool True), (''gas_flowing'', JBool True), (''hazard'', JStr ''downed line reported'')]
         | Some kvs \<Rightarrow> kvs) @ [(''updated_at'', JStr (iso_time now))])"


section \<open>Requests\<close>

record city_env =
  ce_reg :: "registry option"
  ce_hash :: "string \<Rightarrow> string"
  ce_mins :: "int \<Rightarrow> string"
  ce_now :: int

type_synonym city_reply = "(string + nat \<times> json) \<times> city"

definition city_ok :: "nat \<Rightarrow> (string \<times> json) list \<Rightarrow> city \<Rightarrow> city_reply" where
  "city_ok status kvs s = (Inr (status, JObj kvs), s)"

text \<open>An absent body, and one that does not parse, is the empty object; reading a property of \<open>null\<close> throws.\<close>

definition city_body :: "string \<Rightarrow> string + json" where
  "city_body raw =
     (case (if raw = [] then None else json_parse raw) of
        None \<Rightarrow> Inr (JObj [])
      | Some v \<Rightarrow> if v = JNull then Inl ''Cannot read properties of null'' else Inr v)"

text \<open>\<open>s0\<close> is the state when the first property of the body is read.\<close>

definition with_body :: "string \<Rightarrow> city \<Rightarrow> (json \<Rightarrow> city_reply) \<Rightarrow> city_reply" where
  "with_body raw s0 k = (case city_body raw of Inl msg \<Rightarrow> (Inl msg, s0) | Inr b \<Rightarrow> k b)"

definition given :: "json \<Rightarrow> string \<Rightarrow> json \<Rightarrow> json" where
  "given b k d = js_coalesce (obj_get b k) d"

definition label :: "city_env \<Rightarrow> string \<Rightarrow> string \<Rightarrow> (string \<times> json) list" where
  "label e tool msg = [(''dangerous'', JBool (is_dangerous (ce_reg e) tool)), (''message'', JStr msg)]"

definition id_char :: "char \<Rightarrow> bool" where
  "id_char c =
     (let n = (of_char c :: nat) in (65 \<le> n \<and> n \<le> 90) \<or> (97 \<le> n \<and> n \<le> 122) \<or> (48 \<le> n \<and> n \<le> 57) \<or> n = 45)"

definition path_id :: "string \<Rightarrow> string \<Rightarrow> string option" where
  "path_id pre p =
     (let x = drop (length pre) p in if starts_with p pre \<and> x \<noteq> [] \<and> list_all id_char x then Some x else None)"

text \<open>The routes of one stored item; another method falls through to the routes behind.\<close>

definition item_route ::
  "(string, 'a) jsmap \<Rightarrow> string \<Rightarrow> string \<Rightarrow> string \<Rightarrow> ('a \<Rightarrow> city_reply) \<Rightarrow> ('a \<Rightarrow> city_reply) \<Rightarrow> city \<Rightarrow> city_reply option" where
  "item_route store i m missing get del s =
     (case map_of store i of
        None \<Rightarrow> Some (city_ok 404 [(''error'', JStr missing)] s)
      | Some x \<Rightarrow> if m = ''GET'' then Some (get x) else if m = ''DELETE'' then Some (del x) else None)"

definition upper :: "string \<Rightarrow> string" where
  "upper s = map (\<lambda>c. let n = (of_char c :: nat) in if 97 \<le> n \<and> n \<le> 122 then char_of (n - 32) else c) s"

definition one_of :: "json \<Rightarrow> string list \<Rightarrow> string \<Rightarrow> string" where
  "one_of v ws d = (case v of JStr s \<Rightarrow> if s \<in> set ws then s else d | _ \<Rightarrow> d)"

definition eta_for :: "string \<Rightarrow> int \<Rightarrow> int" where
  "eta_for k d = (case map_of eta_of k of None \<Rightarrow> d | Some n \<Rightarrow> n)"

definition routed_to :: "string \<Rightarrow> string" where
  "routed_to service =
     (if service = ''fire'' then ''Seattle Fire Dispatch'' else if service = ''ems'' then ''King County Medic One'' else ''SPD Dispatch'')"

section \<open>Dispatch\<close>

definition deployed_units :: "city \<Rightarrow> string list" where
  "deployed_units s = map (\<lambda>c. un_id (ca_unit c)) (filter (\<lambda>c. \<not> ca_cancelled c) (map snd (ct_calls s)))"

definition new_call :: "city_env \<Rightarrow> string \<Rightarrow> json \<Rightarrow> call" where
  "new_call e i b =
     (let service = one_of (obj_get b ''service'') [''fire'', ''ems'', ''police''] ''police'' in
      \<lparr>ca_service = service, ca_location = given b ''location'' (JStr ''unknown''),
       ca_incident = given b ''incident'' (JStr ''unspecified''), ca_unit = unit_for (ce_hash e) service i,
       ca_eta = eta_for service 300, ca_routed = routed_to service, ca_placed = ce_now e, ca_cancelled = False\<rparr>)"

definition dispatch_routes :: "city_env \<Rightarrow> string \<Rightarrow> string \<Rightarrow> string \<Rightarrow> city \<Rightarrow> city_reply option" where
  "dispatch_routes e m p raw s =
     (if p = ''/api/dispatch/units'' \<and> m = ''GET'' then
        Some (city_ok 200 [(''units'', JArr (map (\<lambda>u. JObj [(''unit_id'', JStr (un_id u)), (''type'', JStr (un_type u)),
           (''service'', JStr (un_service u)), (''home'', JStr (un_home u)),
           (''status'', JStr (if un_id u \<in> set (deployed_units s) then ''deployed'' else ''available''))]) fleet))] s)
      else if p = ''/api/dispatch'' \<and> m = ''POST'' then
        Some (with_body raw s (\<lambda>b.
          (let (i, s1) = next_id ''CAD'' s; c = new_call e i b in
           city_ok 201 (dispatch_view (ce_mins e) (ce_now e) i c @
              label e ''dispatch.unit.request'' (upper (ca_service c) @ '' unit '' @ un_id (ca_unit c) @ '' dispatched''))
             (s1\<lparr>ct_calls := jset (ct_calls s1) i c\<rparr>))))
      else (case path_id ''/api/dispatch/'' p of
              None \<Rightarrow> None
            | Some i \<Rightarrow>
                item_route (ct_calls s) i m ''unknown call_id''
                  (\<lambda>c. city_ok 200 (dispatch_view (ce_mins e) (ce_now e) i c) s)
                  (\<lambda>c. let c' = c\<lparr>ca_cancelled := True\<rparr> in
                        city_ok 200 (dispatch_view (ce_mins e) (ce_now e) i c' @ label e ''dispatch.callout.cancel'' ''callout cancelled'')
                          (s\<lparr>ct_calls := jset (ct_calls s) i c'\<rparr>)) s))"

section \<open>Roads\<close>

definition road_routes :: "city_env \<Rightarrow> string \<Rightarrow> string \<Rightarrow> string \<Rightarrow> city \<Rightarrow> city_reply option" where
  "road_routes e m p raw s =
     (if path_id ''/api/roads/segments/'' p \<noteq> None \<and> m = ''GET'' then
        Some (city_ok 200 [(''segment_id'', JStr (the (path_id ''/api/roads/segments/'' p))), (''surface'', JStr ''dry''),
          (''lanes_open'', JNum 2), (''lanes_total'', JNum 3), (''obstruction'', JStr ''partial''),
          (''updated_at'', JStr (iso_time (ce_now e)))] s)
      else if p = ''/api/roads/workorders'' \<and> m = ''POST'' then
        Some (with_body raw s (\<lambda>b.
          (let kind = one_of (obj_get b ''type'') [''tow'', ''debris'', ''pothole''] ''debris''; (i, s1) = next_id ''WO'' s;
               w = \<lparr>wo_type = kind, wo_segment = given b ''segment'' (JStr ''unknown''), wo_unit = unit_for (ce_hash e) ''tow'' i,
                    wo_eta = eta_for kind 900, wo_placed = ce_now e, wo_cancelled = False\<rparr>
           in city_ok 201 (order_view (ce_now e) i w @ label e ''roadside.workorder.create'' (''work order '' @ i @ '' opened''))
                (s1\<lparr>ct_orders := jset (ct_orders s1) i w\<rparr>))))
      else (case path_id ''/api/roads/workorders/'' p of
              None \<Rightarrow> None
            | Some i \<Rightarrow>
                item_route (ct_orders s) i m ''unknown work_order_id''
                  (\<lambda>w. city_ok 200 (order_view (ce_now e) i w) s)
                  (\<lambda>w. let w' = w\<lparr>wo_cancelled := True\<rparr> in
                        city_ok 200 (order_view (ce_now e) i w' @ label e ''roadside.workorder.cancel'' ''work order cancelled'')
                          (s\<lparr>ct_orders := jset (ct_orders s) i w'\<rparr>)) s))"

section \<open>Incident records and notices\<close>

definition incident_routes :: "city_env \<Rightarrow> string \<Rightarrow> string \<Rightarrow> string \<Rightarrow> city \<Rightarrow> city_reply option" where
  "incident_routes e m p raw s =
     (if p = ''/api/incidents'' \<and> m = ''POST'' then
        Some (let (i, s1) = next_id ''INC'' s in
          with_body raw s1 (\<lambda>b.
            (let f = \<lparr>fi_kind = given b ''kind'' (JStr ''detection''), fi_location = given b ''location'' (JStr ''unknown''),
                      fi_summary = given b ''summary'' (JStr ''unspecified''), fi_placed = ce_now e, fi_retracted = False\<rparr>
             in city_ok 201 (incident_view (ce_now e) i f @ label e ''incident.record.create'' (''incident '' @ i @ '' filed''))
                  (s1\<lparr>ct_incidents := jset (ct_incidents s1) i f\<rparr>))))
      else (case path_id ''/api/incidents/'' p of
              None \<Rightarrow> None
            | Some i \<Rightarrow>
                item_route (ct_incidents s) i m ''unknown incident_id''
                  (\<lambda>f. city_ok 200 (incident_view (ce_now e) i f) s)
                  (\<lambda>f. let f' = f\<lparr>fi_retracted := True\<rparr> in
                        city_ok 200 (incident_view (ce_now e) i f' @ label e ''incident.record.retract'' ''incident record retracted'')
                          (s\<lparr>ct_incidents := jset (ct_incidents s) i f'\<rparr>)) s))"

definition notify_routes :: "city_env \<Rightarrow> string \<Rightarrow> string \<Rightarrow> string \<Rightarrow> city \<Rightarrow> city_reply option" where
  "notify_routes e m p raw s =
     (if p = ''/api/notify'' \<and> m = ''POST'' then
        Some (let (i, s1) = next_id ''NTF'' s in
          with_body raw s1 (\<lambda>b.
            (let x = \<lparr>no_to = given b ''to'' (JStr ''on-call supervisor''),
                      no_subject = given b ''subject'' (JStr ''incident notification''), no_placed = ce_now e\<rparr>
             in city_ok 201 ([(''notice_id'', JStr i), (''to'', no_to x), (''subject'', no_subject x), (''status'', JStr ''delivered''),
                   (''dangerous'', JBool (is_dangerous (ce_reg e) ''supervisor.notify'')),
                   (''sent_at'', JStr (iso_time (ce_now e))),
                   (''message'', JStr (''notification '' @ i @ '' sent to '' @ js_string (no_to x)))])
                  (s1\<lparr>ct_notices := jset (ct_notices s1) i x\<rparr>))))
      else None)"

section \<open>Procurement\<close>

definition vendor_of :: "json \<Rightarrow> (string \<times> json) list" where
  "vendor_of b =
     (case find (\<lambda>v. obj_get (JObj v) ''vendor_id'' = obj_get b ''vendor_id'') vendors of None \<Rightarrow> hd vendors | Some v \<Rightarrow> v)"

definition procurement_routes :: "city_env \<Rightarrow> string \<Rightarrow> string \<Rightarrow> string \<Rightarrow> city \<Rightarrow> city_reply option" where
  "procurement_routes e m p raw s =
     (if p = ''/api/procurement/vendors'' \<and> m = ''GET'' then Some (city_ok 200 [(''vendors'', JArr (map JObj vendors))] s)
      else if p = ''/api/procurement/callouts'' \<and> m = ''POST'' then
        Some (with_body raw s (\<lambda>b.
          (let v = vendor_of b; (i, s1) = next_id ''PO'' s;
               c = \<lparr>co_vendor = v, co_need = given b ''need'' (JStr ''heavy recovery''),
                    co_location = given b ''location'' (JStr ''unknown''), co_placed = ce_now e, co_cancelled = False\<rparr>
           in city_ok 201 (callout_view (ce_now e) i c @
                 label e ''procurement.callout.authorize''
                   (js_string (obj_get (JObj v) ''name'') @ '' ('' @ js_string (obj_get (JObj v) ''kind'') @ '') authorized at $'' @
                    show_int (vendor_rate v) @ ''/hr''))
                (s1\<lparr>ct_callouts := jset (ct_callouts s1) i c\<rparr>))))
      else (case path_id ''/api/procurement/callouts/'' p of
              None \<Rightarrow> None
            | Some i \<Rightarrow>
                item_route (ct_callouts s) i m ''unknown callout_id''
                  (\<lambda>c. city_ok 200 (callout_view (ce_now e) i c) s)
                  (\<lambda>c. let c' = c\<lparr>co_cancelled := True\<rparr> in
                        city_ok 200 (callout_view (ce_now e) i c' @ (''cancellation_fee'', JNum (vendor_rate (co_vendor c))) #
                            label e ''procurement.callout.cancel'' ''vendor contract cancelled'')
                          (s\<lparr>ct_callouts := jset (ct_callouts s) i c'\<rparr>)) s))"

section \<open>Utilities\<close>

text \<open>A switch of one segment: the fields it starts from if the segment is new, and those it sets.\<close>

definition switch_route ::
  "city_env \<Rightarrow> string \<Rightarrow> string \<Rightarrow> (string \<times> json) list \<Rightarrow> (string \<times> json) list \<Rightarrow> string \<Rightarrow> city \<Rightarrow> city_reply" where
  "switch_route e tool msg fresh sets raw s =
     with_body raw s (\<lambda>b.
       (let seg = given b ''segment'' (JStr ''unknown'');
            old = (case map_of (ct_segments s) seg of None \<Rightarrow> fresh | Some kvs \<Rightarrow> kvs);
            s1 = s\<lparr>ct_segments := jset (ct_segments s) seg (foldl (\<lambda>m kv. jset m (fst kv) (snd kv)) old sets)\<rparr>
        in city_ok 200 (segment_state (ce_now e) seg s1 @ label e tool (msg @ js_string seg)) s1))"

definition utility_routes :: "city_env \<Rightarrow> string \<Rightarrow> string \<Rightarrow> string \<Rightarrow> city \<Rightarrow> city_reply option" where
  "utility_routes e m p raw s =
     (if path_id ''/api/utility/segments/'' p \<noteq> None \<and> m = ''GET'' then
        Some (city_ok 200 (segment_state (ce_now e) (JStr (the (path_id ''/api/utility/segments/'' p))) s) s)
      else if p = ''/api/utility/power/deenergize'' \<and> m = ''PUT'' then
        Some (switch_route e ''utility.power.deenergize'' ''power cut to ''
          [(''gas_flowing'', JBool True), (''hazard'', JStr ''downed line reported'')] [(''energized'', JBool False)] raw s)
      else if p = ''/api/utility/gas/shutoff'' \<and> m = ''PUT'' then
        Some (switch_route e ''utility.gas.shutoff'' ''gas shut off to ''
          [(''energized'', JBool True), (''hazard'', JStr ''gas leak reported'')] [(''gas_flowing'', JBool False)] raw s)
      else if p = ''/api/utility/power/restore'' \<and> m = ''PUT'' then
        Some (switch_route e ''utility.power.restore'' ''power restored to ''
          [(''gas_flowing'', JBool True), (''hazard'', JNull)] [(''energized'', JBool True), (''hazard'', JNull)] raw s)
      else None)"

section \<open>Evidence and public messages\<close>

definition evidence_routes :: "city_env \<Rightarrow> string \<Rightarrow> string \<Rightarrow> string \<Rightarrow> city \<Rightarrow> city_reply option" where
  "evidence_routes e m p raw s =
     (if p = ''/api/cameras/ptz'' \<and> m = ''PUT'' then
        Some (with_body raw s (\<lambda>b.
          city_ok 200 ([(''camera_id'', given b ''camera_id'' (JStr ''CAM-1'')),
            (''view'', JObj [(''pan'', given b ''pan'' (JNum 0)), (''tilt'', given b ''tilt'' (JNum 0)), (''zoom'', given b ''zoom'' (JNum 1))])]
            @ label e ''camera.ptz.control'' ''camera repositioned'') s))
      else if p = ''/api/evidence/clips'' \<and> m = ''POST'' then
        Some (let (i, s1) = next_id ''EV'' s in
          with_body raw s1 (\<lambda>b.
            (let c = \<lparr>cl_camera = given b ''camera_id'' (JStr ''CAM-1''), cl_span = given b ''span'' (JStr ''00:00-00:30''),
                      cl_reason = given b ''reason'' (JStr ''incident evidence''), cl_placed = ce_now e, cl_retracted = False\<rparr>
             in city_ok 201 ([(''clip_id'', JStr i), (''camera_id'', cl_camera c), (''span'', cl_span c),
                   (''chain_of_custody'', JStr (''custody opened for '' @ i)), (''status'', JStr ''exported''),
                   (''dangerous'', JBool (is_dangerous (ce_reg e) ''evidence.clip.export'')),
                   (''exported_at'', JStr (iso_time (ce_now e))), (''message'', JStr (''clip '' @ i @ '' exported as evidence''))])
                  (s1\<lparr>ct_clips := jset (ct_clips s1) i c\<rparr>))))
      else (case path_id ''/api/evidence/clips/'' p of
              None \<Rightarrow> None
            | Some i \<Rightarrow>
                item_route (ct_clips s) i m ''unknown clip_id''
                  (\<lambda>c. city_ok 200 [(''clip_id'', JStr i), (''camera_id'', cl_camera c), (''span'', cl_span c),
                        (''status'', JStr (if cl_retracted c then ''retracted'' else ''held'')),
                        (''exported_at'', JStr (iso_time (cl_placed c)))] s)
                  (\<lambda>c. city_ok 200 ([(''clip_id'', JStr i), (''status'', JStr ''retracted'')] @
                          label e ''evidence.clip.retract'' ''evidence clip retracted'')
                        (s\<lparr>ct_clips := jset (ct_clips s) i (c\<lparr>cl_retracted := True\<rparr>)\<rparr>)) s))"

definition audience :: "nat \<Rightarrow> json" where
  "audience n = obj_get (JObj (channels ! n)) ''audience''"

definition comms_routes :: "city_env \<Rightarrow> string \<Rightarrow> string \<Rightarrow> string \<Rightarrow> city \<Rightarrow> city_reply option" where
  "comms_routes e m p raw s =
     (if p = ''/api/comms/channels'' \<and> m = ''GET'' then Some (city_ok 200 [(''channels'', JArr (map JObj channels))] s)
      else if p = ''/api/comms/advisories'' \<and> m = ''POST'' then
        Some (let (i, s1) = next_id ''ADV'' s in
          with_body raw s1 (\<lambda>b.
            (let area = given b ''area'' (JStr ''unknown'');
                 a = \<lparr>av_kind = ''advisory'', av_area = area, av_message = given b ''message'' (JStr []), av_placed = ce_now e\<rparr>
             in city_ok 201 ([(''advisory_id'', JStr i), (''area'', area), (''reach'', audience 0), (''status'', JStr ''posted'')] @
                   label e ''comms.advisory.post'' (''advisory '' @ i @ '' posted''))
                  (s1\<lparr>ct_advisories := jset (ct_advisories s1) i a\<rparr>))))
      else if p = ''/api/comms/reverse911'' \<and> m = ''POST'' then
        Some (let (i, s1) = next_id ''R911'' s in
          with_body raw s1 (\<lambda>b.
            (let zone = given b ''zone'' (JStr ''zone 1'');
                 a = \<lparr>av_kind = ''reverse911'', av_area = zone, av_message = given b ''message'' (JStr []), av_placed = ce_now e\<rparr>
             in city_ok 201 ([(''alert_id'', JStr i), (''zone'', zone), (''action'', given b ''action'' (JStr ''shelter-in-place'')),
                   (''recipients'', audience 1), (''status'', JStr ''sent'')] @
                   label e ''comms.reverse911.send'' (''reverse-911 '' @ i @ '' sent to '' @ js_string (audience 1) @ '' residents''))
                  (s1\<lparr>ct_advisories := jset (ct_advisories s1) i a\<rparr>))))
      else None)"


section \<open>The catalog and the handler\<close>

definition city_route :: "string \<Rightarrow> string \<Rightarrow> string \<Rightarrow> string \<Rightarrow> (string \<times> json) list" where
  "city_route m p tool summary =
     [(''method'', JStr m), (''path'', JStr p), (''tool'', JStr tool), (''summary'', JStr summary)]"

definition city_catalog :: "(string \<times> json) list list" where
  "city_catalog =
     [
      city_route ''GET'' ''/api/dispatch/units'' ''dispatch.status.read''
        ''fleet status: which units are available or deployed'',
      city_route ''POST'' ''/api/dispatch'' ''dispatch.unit.request''
        ''request a unit (fire/EMS/police) to an incident'',
      city_route ''GET'' ''/api/dispatch/{call_id}'' ''dispatch.status.read''
        ''poll a dispatched call: status, units, ETA'',
      city_route ''DELETE'' ''/api/dispatch/{call_id}'' ''dispatch.callout.cancel''
        ''cancel a live callout'',
      city_route ''GET'' ''/api/roads/segments/{id}'' ''roadside.segment.read''
        ''read a road segment's condition'',
      city_route ''POST'' ''/api/roads/workorders'' ''roadside.workorder.create''
        ''open a roadside/DOT work order (tow, debris, pothole)'',
      city_route ''GET'' ''/api/roads/workorders/{id}'' ''roadside.workorder.create''
        ''poll a work order: status and crew ETA'',
      city_route ''DELETE'' ''/api/roads/workorders/{id}'' ''roadside.workorder.cancel''
        ''cancel a work order'',
      city_route ''POST'' ''/api/incidents'' ''incident.record.create''
        ''file an incident record with the county of record'',
      city_route ''GET'' ''/api/incidents/{id}'' ''incident.status.read''
        ''poll a filed incident record'',
      city_route ''DELETE'' ''/api/incidents/{id}'' ''incident.record.retract''
        ''retract a filed incident record'',
      city_route ''POST'' ''/api/notify'' ''supervisor.notify''
        ''notify a supervisor / on-call under our name'',
      city_route ''GET'' ''/api/procurement/vendors'' ''procurement.vendor.read''
        ''list private vendors on contract (crane, heavy tow, hazmat)'',
      city_route ''POST'' ''/api/procurement/callouts'' ''procurement.callout.authorize''
        ''authorize a private vendor callout (commits public money)'',
      city_route ''GET'' ''/api/procurement/callouts/{id}'' ''procurement.callout.status''
        ''poll a vendor callout: status and running cost'',
      city_route ''DELETE'' ''/api/procurement/callouts/{id}'' ''procurement.callout.cancel''
        ''cancel a paid vendor contract'',
      city_route ''GET'' ''/api/utility/segments/{id}'' ''utility.grid.read''
        ''read a grid segment: energized, gas, load, hazard'',
      city_route ''PUT'' ''/api/utility/power/restore'' ''utility.power.restore''
        ''restore power to a segment after a hazard is cleared'',
      city_route ''PUT'' ''/api/utility/gas/shutoff'' ''utility.gas.shutoff''
        ''shut off gas to a segment'',
      city_route ''PUT'' ''/api/utility/power/deenergize'' ''utility.power.deenergize''
        ''cut power to a block'',
      city_route ''PUT'' ''/api/cameras/ptz'' ''camera.ptz.control''
        ''pan/tilt/zoom a camera to follow an incident'',
      city_route ''POST'' ''/api/evidence/clips'' ''evidence.clip.export''
        ''export CCTV footage as legal evidence'',
      city_route ''GET'' ''/api/evidence/clips/{id}'' ''evidence.clip.status''
        ''poll an exported evidence clip'',
      city_route ''DELETE'' ''/api/evidence/clips/{id}'' ''evidence.clip.retract''
        ''retract an exported evidence clip'',
      city_route ''GET'' ''/api/comms/channels'' ''comms.channel.read''
        ''list notification channels and audience size'',
      city_route ''POST'' ''/api/comms/advisories'' ''comms.advisory.post''
        ''post a neighborhood advisory'',
      city_route ''POST'' ''/api/comms/reverse911'' ''comms.reverse911.send''
        ''send a reverse-911 to residents (evacuate / shelter)''
     ]"

definition catalog_row :: "registry option \<Rightarrow> (string \<times> json) list \<Rightarrow> json" where
  "catalog_row reg r = JObj (r @ protection_for reg (js_string (obj_get (JObj r) ''tool'')))"

fun first_some :: "'a option list \<Rightarrow> 'a option" where
  "first_some [] = None"
| "first_some (None # xs) = first_some xs"
| "first_some (Some x # xs) = Some x"

definition city_handle :: "city_env \<Rightarrow> string \<Rightarrow> string \<Rightarrow> string \<Rightarrow> city \<Rightarrow> city_reply" where
  "city_handle e m p raw s =
     (if p = ''/health'' then city_ok 200 [(''ok'', JBool True), (''service'', JStr ''city-services-mock'')] s
      else if p = ''/api/catalog'' then
        city_ok 200 [(''service'', JStr ''OMODA mock city-services layer''),
          (''note'', JStr ''reads are open; the writes that dispatch or cancel a real-world response are OpenShell-protected''),
          (''routes'', JArr (map (catalog_row (ce_reg e)) city_catalog))] s
      else
        (case first_some [dispatch_routes e m p raw s, road_routes e m p raw s, incident_routes e m p raw s, notify_routes e m p raw s,
                          procurement_routes e m p raw s, utility_routes e m p raw s, evidence_routes e m p raw s,
                          comms_routes e m p raw s] of
           Some r \<Rightarrow> r
         | None \<Rightarrow> city_ok 404 [(''error'', JStr ''no such route''), (''hint'', JStr ''GET /api/catalog lists every route'')] s))"

section \<open>Lemmas\<close>

lemma nat_of_digits_zeros: "nat_of_digits 0 (replicate k (CHR ''0'') @ s) = nat_of_digits 0 s"
  by (induction k) (simp_all add: digit_val_def)

text \<open>Ids with different numbers differ.\<close>

lemma city_id_inj: "city_id pre m = city_id pre n \<longleftrightarrow> m = n"
proof
  assume "city_id pre m = city_id pre n"
  then have "pad_zero 4 (show_nat m) = pad_zero 4 (show_nat n)" by (simp add: city_id_def)
  then have "nat_of_digits 0 (pad_zero 4 (show_nat m)) = nat_of_digits 0 (pad_zero 4 (show_nat n))" by simp
  then show "m = n" by (simp add: pad_zero_def nat_of_digits_zeros)
qed simp

text \<open>A unit is of the service that was asked for.\<close>

lemma unit_for_service:
  assumes "service \<in> {''fire'', ''ems'', ''police'', ''tow''}"
  shows "un_service (unit_for hash service i) = service \<and> unit_for hash service i \<in> set fleet"
proof -
  let ?pool = "filter (\<lambda>u. un_service u = service) fleet"
  have "?pool \<noteq> []" using assms by (auto simp: fleet_def unit_row_of_def)
  then have "unit_for hash service i \<in> set ?pool"
    by (simp add: unit_for_def Let_def del: set_filter)
  then show ?thesis by auto
qed

definition phase_rank :: "string \<Rightarrow> nat" where
  "phase_rank w = (if w = ''routing'' then 0 else if w = ''en_route'' then 1 else 2)"

text \<open>A callout that is not cancelled only moves forward, and its unit arrives when its time is over.\<close>

lemma call_progress:
  assumes "\<not> ca_cancelled c" and "t \<le> t'" and "5 \<le> ca_eta c"
  shows "phase_rank (call_status c t) \<le> phase_rank (call_status c t') \<and> call_remaining c t' \<le> call_remaining c t"
proof -
  have "seconds_since (ca_placed c) t \<le> seconds_since (ca_placed c) t'"
    using assms(2) by (auto simp: seconds_since_def intro: zdiv_mono1)
  with assms(1,3) show ?thesis
    by (auto simp: call_status_def phase_of_def phase_rank_def call_remaining_def)
qed

lemma call_arrives:
  assumes "\<not> ca_cancelled c" and "5 \<le> ca_eta c" and "ca_placed c + 1000 * ca_eta c \<le> t"
  shows "call_status c t = ''on_scene'' \<and> call_remaining c t = 0"
proof -
  have "(1000 * ca_eta c) div 1000 \<le> (t - ca_placed c) div 1000" using assms(3) by (intro zdiv_mono1) simp_all
  then have "ca_eta c \<le> (t - ca_placed c) div 1000" by simp
  with assms show ?thesis by (auto simp: call_status_def phase_of_def call_remaining_def seconds_since_def)
qed

lemma iso_time_demo: "iso_time 0 = ''1970-01-01T00:00:00.000Z'' \<and> iso_time 1709164800007 = ''2024-02-29T00:00:00.007Z''"
  by code_simp

end
