(* ===== verification/Judge.thy ===== *)
theory Judge
  imports Triggers Screen Planning
begin

text \<open>
  The observation judge of src/coco/judge.js: the deterministic candidate filter, the model's
  judgment of a candidate, and the incidents that are open.

  An observation is a JSON object whose list fields hold arrays or are absent.  \<open>onObservation\<close> is
  split where it awaits the model: \<open>judge_begin\<close> is the part before (it ends there unless the model
  is needed), \<open>judge_finish\<close> the part after, so that other observations may come in between.  The
  ledger entries of an operation are listed in order; each append is best effort.
\<close>

section \<open>Candidate signals\<close>

definition lc :: "json \<Rightarrow> string" where
  "lc v = js_lower (if nullish v then [] else js_string v)"

fun items :: "json \<Rightarrow> json list" where
  "items (JArr xs) = xs"
| "items v = []"

fun is_array :: "json \<Rightarrow> bool" where
  "is_array (JArr xs) = True"
| "is_array v = False"

text \<open>\<open>x?.length\<close> as a condition.\<close>

fun has_length :: "json \<Rightarrow> bool" where
  "has_length (JArr xs) = (xs \<noteq> [])"
| "has_length (JStr s) = (s \<noteq> [])"
| "has_length (JObj kvs) = truthy (obj_get (JObj kvs) ''length'')"
| "has_length v = False"

fun key_names :: "json \<Rightarrow> string list" where
  "key_names (JObj kvs) = map fst kvs"
| "key_names v = []"

definition change_list :: "json \<Rightarrow> string list" where
  "change_list changes = (if is_array changes then map lc (items changes) else map js_lower (key_names changes))"

definition danger_lexicon :: rx where
  "danger_lexicon = rx_word_i
     [''fire'', ''smoke'', ''smoking'', ''collision'', ''collid'', ''crash'', ''overturn'', ''injur'', ''explosion'',
      ''ambulance'', ''firefighter'', ''fire truck'', ''wreck'']"

definition vehicle_signals :: "json \<Rightarrow> string list" where
  "vehicle_signals v =
     (if truthy (obj_get v ''visible_damage'') \<and> lc (obj_get v ''visible_damage'') \<notin> {''none'', ''unknown''}
      then [''vehicle:visible_damage''] else []) @
     (if obj_get v ''smoke_visible'' = JBool True \<or> obj_get v ''fire_visible'' = JBool True then [''vehicle:smoke_or_fire''] else [])"

definition occupies_road :: "json \<Rightarrow> bool" where
  "occupies_road v = (truthy (obj_get v ''road_area_occupied'') \<and> lc (obj_get v ''road_area_occupied'') \<noteq> ''none'')"

definition sign_signals :: "json \<Rightarrow> string list" where
  "sign_signals s =
     (if lc (obj_get s ''mounting_state'') \<in> {''fallen'', ''detached'', ''tilted''} then [''sign:down''] else []) @
     (if occupies_road s then [''sign:occupying_road''] else [])"

definition stopped_at_intersection :: "json \<Rightarrow> bool" where
  "stopped_at_intersection v =
     (lc (obj_get v ''motion_state'') = ''stopped'' \<and> js_includes (lc (obj_get v ''location'')) ''intersection'')"

definition flow_obstructed :: "json \<Rightarrow> bool" where
  "flow_obstructed obs =
     (list_ex (\<lambda>c. js_includes c ''obstructed'') (change_list (obj_get obs ''changes_from_previous'')) \<or>
      js_includes (lc (obj_get (obj_get obs ''environment'') ''intersection_condition'')) ''obstructed'' \<or>
      js_includes (lc (obj_get obs ''traffic_flow_state'')) ''obstructed'')"

definition raw_signals :: "json \<Rightarrow> string list" where
  "raw_signals obs =
     (let changes = obj_get obs ''changes_from_previous'';
          maintenance = obj_get obs ''maintenance'' in
      concat (map (\<lambda>i. if obj_get i ''contact_visible'' = JBool True then [''interaction:contact_visible''] else [])
        (items (obj_get obs ''visible_interactions''))) @
      (if list_ex (\<lambda>c. js_includes c ''contact'' \<or> js_includes c ''collision'') (change_list changes)
       then [''changes:new_vehicle_contact''] else []) @
      (if \<not> is_array changes \<and> has_length (obj_get changes ''new_vehicle_contact'')
       then [''changes:new_vehicle_contact''] else []) @
      (if list_ex stopped_at_intersection (items (obj_get obs ''vehicles'')) \<and> flow_obstructed obs
       then [''vehicles:stopped_in_obstructed_intersection''] else []) @
      concat (map vehicle_signals (items (obj_get obs ''vehicles''))) @
      concat (map sign_signals (items (obj_get obs ''signs''))) @
      concat (map (\<lambda>p. if obj_get p ''fallen_or_prone'' = JBool True \<or> lc (obj_get p ''posture'') = ''lying_down''
                       then [''pedestrian:down''] else []) (items (obj_get obs ''pedestrians''))) @
      concat (map (\<lambda>v. if occupies_road v then [''object:occupying_road''] else []) (items (obj_get obs ''objects''))) @
      (if truthy (obj_get obs ''visible_road_damage'') \<or> truthy (obj_get maintenance ''pothole_visible'') \<or>
          truthy (obj_get maintenance ''damaged_surface_visible'') \<or> truthy (obj_get maintenance ''flooding_visible'')
       then [''road:damage_or_flooding''] else []) @
      (if obj_get obs ''danger_signal'' = JBool True then [''followup:danger_true''] else []) @
      (if rx_test danger_lexicon (lc (obj_get obs ''scene_description'')) then [''description:danger_lexicon''] else []))"

definition candidate_signals :: "json \<Rightarrow> string list" where
  "candidate_signals obs = set_adds [] (raw_signals obs)"

section \<open>The digest for the model\<close>

definition digest_line :: "json \<Rightarrow> string" where
  "digest_line ob =
     (let w = obj_get ob ''window'';
          clean = fst (screen_text (obj_get ob ''scene_description'') 300);
          changes = (case obj_get ob ''changes_from_previous'' of
                       JArr xs \<Rightarrow> js_join ''; '' (map (\<lambda>x. if nullish x then [] else js_string x) xs) | _ \<Rightarrow> []) in
      ''['' @ js_string (obj_get w ''start_seconds'') @ ''-'' @ js_string (obj_get w ''end_seconds'') @ ''s] '' @ clean @
      (if changes = [] then [] else '' | changes: '' @ fst (screen_text (JStr changes) 200)))"

definition digest :: "json list \<Rightarrow> string" where
  "digest context = js_join newline (map digest_line (js_last_n 6 context))"

section \<open>Judgment\<close>

definition judged :: "bool \<Rightarrow> string \<Rightarrow> string \<Rightarrow> string \<Rightarrow> string \<Rightarrow> json" where
  "judged incident kind severity why mark =
     JObj ([(''is_incident'', JBool incident), (''incident_type'', JStr kind), (''severity'', JStr severity),
            (''reason'', JStr why), (''cleared'', JBool False)] @ (if mark = [] then [] else [(mark, JBool True)]))"

definition degraded_verdict :: "string list \<Rightarrow> string \<Rightarrow> json" where
  "degraded_verdict signals why =
     (if ''interaction:contact_visible'' \<in> set signals \<or> ''changes:new_vehicle_contact'' \<in> set signals
      then judged True ''traffic-accident'' ''medium'' (why @ ''; deterministic signals: '' @ js_join '', '' signals) ''degraded''
      else judged False ''none'' ''none'' (why @ ''; signals inconclusive'') ''degraded'')"

definition judge_prompt :: string where
  "judge_prompt = js_join '' ''
     [''You judge road-camera observations for a city operations platform.'',
      ''You receive factual scene descriptions over time. Decide whether they show an'',
      ''operational incident: traffic-accident, fire, fallen-signage, road-maintenance,'',
      ''utility-hazard (downed line, gas leak), public-warning (evacuate, shelter), or other.'',
      ''The observations are facts from a vision system; they contain no judgments.'',
      ''Judge conservatively: an incident requires clear supporting facts across the'',
      ''window, not a single ambiguous frame. If the described hazard is no longer'',
      ''present in the latest observations, set cleared=true.'',
      ''Reply with only JSON matching the schema.'']"

definition incident_types :: "string list" where
  "incident_types =
     [''traffic-accident'', ''fire'', ''fallen-signage'', ''road-maintenance'', ''utility-hazard'', ''public-warning'', ''other'']"

definition string_type :: json where
  "string_type = JObj [(''type'', JStr ''string'')]"

definition bool_type :: json where
  "bool_type = JObj [(''type'', JStr ''boolean'')]"

definition enum_type :: "string list \<Rightarrow> json" where
  "enum_type xs = JObj [(''type'', JStr ''string''), (''enum'', JArr (map JStr xs))]"

definition judge_schema :: json where
  "judge_schema =
     JObj [(''type'', JStr ''object''),
       (''properties'', JObj [(''is_incident'', bool_type), (''incident_type'', enum_type (incident_types @ [''none''])),
          (''severity'', enum_type [''low'', ''medium'', ''high'', ''none'']), (''reason'', string_type), (''cleared'', bool_type)]),
       (''required'', JArr (map JStr [''is_incident'', ''incident_type'', ''severity'', ''reason'', ''cleared''])),
       (''additionalProperties'', JBool False)]"

definition judge_request :: "routing \<Rightarrow> string list \<Rightarrow> json list \<Rightarrow> completion_request" where
  "judge_request r signals context =
     \<lparr>cr_model = rt_model r, cr_endpoint = rt_endpoint r,
      cr_messages = JArr [message ''system'' judge_prompt,
        message ''user'' (''Signals fired: '' @ js_join '', '' signals @ newline @ newline @ ''Observations, oldest first:'' @ newline @ digest context)],
      cr_max_tokens = 1500, cr_schema = Some (''incident_judgment'', judge_schema)\<rparr>"

type_synonym entry = "(string \<times> json) list"

definition judge_entry :: "string \<Rightarrow> string \<Rightarrow> string \<Rightarrow> json \<Rightarrow> json \<Rightarrow> entry" where
  "judge_entry tool verb outcome why intent =
     [(''kind'', JStr ''judge''), (''agent'', JStr ''omoda:judge''), (''tool'', JStr tool), (''verb'', JStr verb),
      (''outcome'', JStr outcome)] @
     (if why = JUndef then [] else [(''reason'', why)]) @ (if intent = JUndef then [] else [(''intentId'', intent)])"

text \<open>\<open>judgeCandidate\<close>: the judgment, the entries, and whether an inference succeeded.\<close>

definition judge_candidate ::
  "(completion_request \<Rightarrow> infer_error + completion) \<Rightarrow> string option \<Rightarrow> bool \<Rightarrow> json list \<Rightarrow> string list \<Rightarrow> json \<times> entry list \<times> bool" where
  "judge_candidate infer env local context signals =
     (case route env \<lparr>rq_task = Classify_task, rq_payload = JStr [], rq_multimodal = False, rq_hosted = True,
                      rq_local = local, rq_declared = False\<rparr> of
        Inl msg \<Rightarrow> (JUndef, [], False)
      | Inr r \<Rightarrow>
          if rt_model r = None
          then (degraded_verdict signals ''local model unavailable'',
                [judge_entry ''judge.infer'' ''read'' ''degraded'' (JStr (rt_reason r)) JUndef], False)
          else
            (case infer (judge_request r signals context) of
               Inl err \<Rightarrow>
                 (degraded_verdict signals ''inference unreachable'',
                  [judge_entry ''judge.infer'' ''read'' ''degraded'' (JStr (''inference failed: '' @ take 120 (error_text err))) JUndef], False)
             | Inr out \<Rightarrow>
                 (case extract_json (co_text out) of
                    None \<Rightarrow>
                      (judged False ''none'' ''none'' ''judgment unparseable; refusing to guess'' [],
                       [judge_entry ''judge.infer'' ''read'' ''unparseable'' JUndef JUndef], True)
                  | Some parsed \<Rightarrow> (parsed, [], True))))"

text \<open>The route of a classification never refuses, so the first branch is not taken.\<close>

lemma classify_routes: "\<exists>r. route env \<lparr>rq_task = Classify_task, rq_payload = JStr [], rq_multimodal = False,
    rq_hosted = True, rq_local = local, rq_declared = False\<rparr> = Inr r \<and> rt_egress r \<noteq> Egress_hosted"
proof -
  have "\<not> is_sensitive (JStr []) False" by code_simp
  then show ?thesis by (auto simp: route_cases)
qed

section \<open>Observations\<close>

record open_incident =
  oi_intent :: string
  oi_occurrences :: nat
  oi_quiet :: nat

record judge_stats =
  js_observations :: nat
  js_candidates :: nat
  js_inferences :: nat
  js_skipped :: nat
  js_incidents :: nat

record judge_state =
  jd_open :: "(string, open_incident) jsmap"
  jd_inflight :: bool
  jd_stats :: judge_stats

definition create_judge :: judge_state where
  "create_judge =
     \<lparr>jd_open = [], jd_inflight = False,
      jd_stats = \<lparr>js_observations = 0, js_candidates = 0, js_inferences = 0, js_skipped = 0, js_incidents = 0\<rparr>\<rparr>"

datatype verdict =
    Nominal
  | Skipped_busy "string list"
  | Judged_nominal "string list" json
  | Attached string nat "string list"
  | Incident string json json "string list" "string option" "string option"

datatype judge_outcome = Verdict verdict | Needs_model "string list"

definition camera_of :: "json \<Rightarrow> string" where
  "camera_of obs = js_string (obj_get obs ''camera_id'')"

text \<open>Quiet: the clearance of the open incidents of the camera advances.\<close>

fun advance_quiet :: "nat \<Rightarrow> string \<Rightarrow> (string, open_incident) jsmap \<Rightarrow> (string, open_incident) jsmap \<times> entry list" where
  "advance_quiet limit camera [] = ([], [])"
| "advance_quiet limit camera ((k, st) # m) =
     (let (m', es) = advance_quiet limit camera m in
      if \<not> starts_with k (camera @ ''|'') then ((k, st) # m', es)
      else
        (let st' = st\<lparr>oi_quiet := Suc (oi_quiet st)\<rparr> in
         if oi_quiet st' \<ge> limit
         then (m', judge_entry ''judge.resolve'' ''update'' ''cleared''
                     (JStr (k @ '' quiet for '' @ show_nat (oi_quiet st') @ '' observation(s)'')) (JStr (oi_intent st')) # es)
         else ((k, st') # m', es)))"

definition trigger_hit :: "trigger list option \<Rightarrow> json \<Rightarrow> (trigger \<times> string) option" where
  "trigger_hit triggers obs =
     (case triggers of
        None \<Rightarrow> None
      | Some rules \<Rightarrow>
          (case trigger_match rules (js_coalesce (obj_get obs ''scene_description'') (JStr [])) of None \<Rightarrow> None | Some hit \<Rightarrow> hit))"

definition observed_signals :: "trigger list option \<Rightarrow> json \<Rightarrow> string list" where
  "observed_signals triggers obs =
     candidate_signals obs @ (case trigger_hit triggers obs of None \<Rightarrow> [] | Some (r, phrase) \<Rightarrow> [''trigger:'' @ phrase])"

definition trigger_judgment :: "trigger \<Rightarrow> string \<Rightarrow> json" where
  "trigger_judgment r phrase =
     judged True (tg_incident r) ''unranked'' (''take-action trigger matched: \"'' @ phrase @ ''\"'') ''deterministic''"

definition incident_body :: "json \<Rightarrow> json \<Rightarrow> string list \<Rightarrow> body" where
  "incident_body obs j signals =
     \<lparr>bd_source = JStr ''coco'', bd_kind = JStr ''detection'', bd_detector = JStr (''coco:'' @ camera_of obs),
      bd_confidence = js_coalesce (obj_get obs ''overall_confidence'') (obj_get obs ''confidence''),
      bd_observed = obj_get obs ''captured_at'',
      bd_evidence = Some [(''incident_type'', obj_get j ''incident_type''), (''severity'', obj_get j ''severity''),
        (''signals'', JArr (map JStr signals)), (''scene'', JStr (fst (screen_text (obj_get obs ''scene_description'') 400))),
        (''evidence_ref'', obj_get obs ''evidence_ref''), (''degraded'', js_coalesce (obj_get j ''degraded'') (JBool False))],
      bd_outcome = JStr (take 300 (''respond to '' @ js_string (obj_get j ''incident_type'') @ '' at '' @ camera_of obs @ '': '' @
        js_string (obj_get j ''reason''))),
      bd_decision = False\<rparr>"

text \<open>\<open>j.reason?.slice(0, 160)\<close>; a reason is a string.\<close>

definition short_reason :: "json \<Rightarrow> json" where
  "short_reason v = (case v of JStr s \<Rightarrow> JStr (take 160 s) | _ \<Rightarrow> JUndef)"

text \<open>Behind the judgment: \<open>uuid\<close> and \<open>at\<close> are for an intent that is opened.\<close>

definition judge_apply ::
  "string \<Rightarrow> string \<Rightarrow> trigger list option \<Rightarrow> json \<Rightarrow> string list \<Rightarrow> json \<Rightarrow> judge_state \<Rightarrow> intent_store
     \<Rightarrow> verdict \<times> entry list \<times> judge_state \<times> intent_store" where
  "judge_apply uuid at triggers obs signals j s store =
     (let kind = obj_get j ''incident_type'';
          key = camera_of obs @ ''|'' @ js_string kind;
          hit = trigger_hit triggers obs in
      if \<not> truthy (obj_get j ''is_incident'') \<or> kind = JStr ''none''
      then (Judged_nominal signals (obj_get j ''reason''),
            [judge_entry ''judge.infer'' ''read'' ''nominal-after-judgment'' (short_reason (obj_get j ''reason'')) JUndef], s, store)
      else
        (case map_of (jd_open s) key of
           Some st \<Rightarrow>
             (let st' = st\<lparr>oi_occurrences := Suc (oi_occurrences st), oi_quiet := 0\<rparr> in
              (Attached (oi_intent st') (oi_occurrences st') signals,
               [judge_entry ''judge.attach'' ''update'' ''occurrence'' (JStr (key @ '' x'' @ show_nat (oi_occurrences st'))) (JStr (oi_intent st'))],
               s\<lparr>jd_open := jset (jd_open s) key st'\<rparr>, store))
         | None \<Rightarrow>
             (let idem = ''coco-'' @ key @ ''-'' @ js_string (obj_get obs ''observation_id'');
                  c = \<lparr>cl_id = ''coco:'' @ camera_of obs, cl_token = [], cl_secret = [], cl_scopes = [''intent:propose'']\<rparr>;
                  env = \<lparr>tr_source = ''stream'', tr_direction = ''outbound-dial'', tr_modality = ''json'', tr_key = Some idem, tr_received = at\<rparr>;
                  ((intent, dup), store') = propose uuid at (Some idem) (incident_body obs j signals) c (Some env) store;
                  act = (case hit of
                           Some (r, phrase) \<Rightarrow> Some (tg_action r)
                         | None \<Rightarrow> map_option tg_action (find (\<lambda>r. JStr (tg_incident r) = kind) (case triggers of None \<Rightarrow> [] | Some rs \<Rightarrow> rs)))
              in (Incident intent kind (obj_get j ''severity'') signals (map_option snd hit) act,
                  [judge_entry ''judge.incident'' ''create'' ''intent-opened''
                     (JStr (js_string kind @ '' '' @ js_string (obj_get j ''severity''))) (JStr intent)],
                  s\<lparr>jd_open := jset (jd_open s) key \<lparr>oi_intent = intent, oi_occurrences = 1, oi_quiet = 0\<rparr>,
                    jd_stats := (jd_stats s)\<lparr>js_incidents := Suc (js_incidents (jd_stats s))\<rparr>\<rparr>,
                  store'))))"

definition judge_begin ::
  "nat \<Rightarrow> string \<Rightarrow> string \<Rightarrow> trigger list option \<Rightarrow> json \<Rightarrow> judge_state \<Rightarrow> intent_store
     \<Rightarrow> judge_outcome \<times> entry list \<times> judge_state \<times> intent_store" where
  "judge_begin limit uuid at triggers obs s store =
     (let signals = observed_signals triggers obs;
          s1 = s\<lparr>jd_stats := (jd_stats s)\<lparr>js_observations := Suc (js_observations (jd_stats s))\<rparr>\<rparr> in
      if signals = []
      then (let (m, es) = advance_quiet limit (camera_of obs) (jd_open s1) in (Verdict Nominal, es, s1\<lparr>jd_open := m\<rparr>, store))
      else
        (let s2 = s1\<lparr>jd_stats := (jd_stats s1)\<lparr>js_candidates := Suc (js_candidates (jd_stats s1))\<rparr>\<rparr> in
         if jd_inflight s2
         then (Verdict (Skipped_busy signals),
               [judge_entry ''judge.infer'' ''read'' ''skipped-busy'' (JStr (js_join '', '' signals)) JUndef],
               s2\<lparr>jd_stats := (jd_stats s2)\<lparr>js_skipped := Suc (js_skipped (jd_stats s2))\<rparr>\<rparr>, store)
         else
           (case trigger_hit triggers obs of
              Some (r, phrase) \<Rightarrow>
                (let (v, es, s3, store') = judge_apply uuid at triggers obs signals (trigger_judgment r phrase) s2 store in
                 (Verdict v,
                  judge_entry ''judge.trigger'' ''read'' ''matched'' (JStr (phrase @ '' -> '' @ tg_incident r)) JUndef # es, s3, store'))
            | None \<Rightarrow> (Needs_model signals, [], s2\<lparr>jd_inflight := True\<rparr>, store))))"

definition judge_finish ::
  "(completion_request \<Rightarrow> infer_error + completion) \<Rightarrow> string option \<Rightarrow> bool \<Rightarrow> string \<Rightarrow> string \<Rightarrow> trigger list option
     \<Rightarrow> json \<Rightarrow> json list \<Rightarrow> string list \<Rightarrow> judge_state \<Rightarrow> intent_store \<Rightarrow> verdict \<times> entry list \<times> judge_state \<times> intent_store" where
  "judge_finish infer env local uuid at triggers obs context signals s store =
     (let (j, es, inferred) = judge_candidate infer env local context signals;
          s1 = s\<lparr>jd_inflight := False,
                 jd_stats := (jd_stats s)\<lparr>js_inferences := js_inferences (jd_stats s) + (if inferred then 1 else 0)\<rparr>\<rparr>;
          (v, es', s2, store') = judge_apply uuid at triggers obs signals j s1 store
      in (v, es @ es', s2, store'))"

end
