(* ===== verification/Coco.thy ===== *)
theory Coco
  imports Judge Bus Json_Roundtrip
begin

text \<open>
  The two ways in which the cameras reach the judge: the adapter of src/coco/adapter.js for frames of the
  Observation Schema, and the live client of src/coco/live.js.

  The schemas are data; the library that checks a value against one is the parameter \<open>zod\<close>, and
  \<open>zod_sound\<close> is what is relied on of it.  The judge is awaited last, so an operation is split there:
  the first half hands over an observation and its context, the second half makes the reply.
\<close>

section \<open>Schemas\<close>

text \<open>An object schema passes the fields it does not name.\<close>

datatype zod_type =
    Z_string nat
  | Z_starts string
  | Z_literal string
  | Z_number "(int \<times> int) option"
  | Z_boolean
  | Z_unknown
  | Z_enum "string list"
  | Z_array zod_type
  | Z_object "(string \<times> zod_type) list"
  | Z_union "zod_type list"
  | Z_optional zod_type
  | Z_nullable zod_type
  | Z_default json zod_type

record zod_error =
  ze_issues :: "string list"
  ze_text :: string

type_synonym zod = "zod_type \<Rightarrow> json \<Rightarrow> zod_error + json"

definition window_schema :: zod_type where
  "window_schema =
     Z_object [(''start_seconds'', Z_number None), (''end_seconds'', Z_number None), (''duration_seconds'', Z_optional (Z_number None))]"

abbreviation objects_schema :: zod_type where
  "objects_schema \<equiv> Z_default (JArr []) (Z_array (Z_object []))"

abbreviation strings_schema :: zod_type where
  "strings_schema \<equiv> Z_default (JArr []) (Z_array (Z_string 0))"

definition observation_schema :: zod_type where
  "observation_schema =
     Z_object
       [(''schema_version'', Z_string 0), (''type'', Z_literal ''observation''), (''observation_id'', Z_string 1),
        (''camera_id'', Z_string 1), (''captured_at'', Z_string 1), (''window'', window_schema), (''scene_description'', Z_string 1),
        (''traffic_signals'', objects_schema), (''vehicles'', objects_schema), (''pedestrians'', objects_schema),
        (''objects'', objects_schema), (''signs'', objects_schema), (''visible_interactions'', objects_schema),
        (''visible_actions'', strings_schema),
        (''changes_from_previous'', Z_default (JArr []) (Z_union [Z_array (Z_string 0), Z_object []])),
        (''confidence'', Z_optional (Z_number (Some (0, 1)))), (''overall_confidence'', Z_optional (Z_number (Some (0, 1)))),
        (''uncertainties'', strings_schema),
        (''evidence_ref'', Z_object [(''source'', Z_string 1), (''start_seconds'', Z_number None), (''end_seconds'', Z_number None)]),
        (''processing_latency_ms'', Z_optional (Z_number None))]"

definition stream_status_schema :: zod_type where
  "stream_status_schema =
     Z_object
       [(''schema_version'', Z_string 0), (''type'', Z_literal ''stream_status''), (''camera_id'', Z_string 0),
        (''status'', Z_enum [''available'', ''unavailable'', ''ended'']), (''timestamp'', Z_string 0), (''detail'', Z_optional (Z_string 0))]"

definition observation_error_schema :: zod_type where
  "observation_error_schema =
     Z_object
       [(''schema_version'', Z_string 0), (''type'', Z_literal ''observation_error''), (''camera_id'', Z_string 0),
        (''window'', Z_optional window_schema), (''error_code'', Z_string 0), (''retryable'', Z_optional Z_boolean),
        (''timestamp'', Z_string 0)]"

definition live_frame_schema :: zod_type where
  "live_frame_schema = Z_object [(''seq'', Z_number None), (''index'', Z_optional (Z_number None)), (''rgb'', Z_starts ''data:image/'')]"

definition live_observability_schema :: zod_type where
  "live_observability_schema =
     Z_object
       [(''prompt'', Z_optional (Z_nullable (Z_string 0))), (''description'', Z_string 1),
        (''followup'', Z_optional (Z_nullable (Z_object [(''question'', Z_string 0), (''answer'', Z_unknown)])))]"

text \<open>The documented meaning of a schema, on the value that the library hands back.\<close>

fun conforms :: "zod_type \<Rightarrow> json \<Rightarrow> bool" where
  "conforms (Z_string n) v = (case v of JStr s \<Rightarrow> n \<le> length s | _ \<Rightarrow> False)"
| "conforms (Z_starts p) v = (case v of JStr s \<Rightarrow> starts_with s p | _ \<Rightarrow> False)"
| "conforms (Z_literal l) v = (v = JStr l)"
| "conforms (Z_number r) v =
     (case v of JNum n \<Rightarrow> (case r of None \<Rightarrow> True | Some (lo, hi) \<Rightarrow> lo \<le> n \<and> n \<le> hi) | _ \<Rightarrow> False)"
| "conforms Z_boolean v = (v = JBool True \<or> v = JBool False)"
| "conforms Z_unknown v = True"
| "conforms (Z_enum xs) v = (case v of JStr s \<Rightarrow> s \<in> set xs | _ \<Rightarrow> False)"
| "conforms (Z_array t) v = (case v of JArr xs \<Rightarrow> list_all (conforms t) xs | _ \<Rightarrow> False)"
| "conforms (Z_object fs) v =
     (case v of JObj kvs \<Rightarrow> list_all (\<lambda>kt. conforms (snd kt) (obj_get v (fst kt))) fs | _ \<Rightarrow> False)"
| "conforms (Z_union ts) v = list_ex (\<lambda>t. conforms t v) ts"
| "conforms (Z_optional t) v = (v = JUndef \<or> conforms t v)"
| "conforms (Z_nullable t) v = (v = JNull \<or> conforms t v)"
| "conforms (Z_default d t) v = conforms t v"

definition zod_sound :: "zod \<Rightarrow> bool" where
  "zod_sound zod = (\<forall>t v d. zod t v = Inr d \<longrightarrow> conforms t d)"

section \<open>The adapter\<close>

type_synonym contexts = "(json, json list) jsmap"

definition create_adapter :: "bool \<Rightarrow> string + contexts" where
  "create_adapter judge = (if \<not> judge then Inl ''coco adapter requires the observation judge'' else Inr [])"

definition context_at :: "json \<Rightarrow> contexts \<Rightarrow> json list" where
  "context_at camera m = (case map_of m camera of None \<Rightarrow> [] | Some xs \<Rightarrow> xs)"

definition context_for :: "json \<Rightarrow> contexts \<Rightarrow> json list \<times> contexts" where
  "context_for camera m = (if jhas m camera then (context_at camera m, m) else ([], jset m camera []))"

text \<open>\<open>push\<close>, then \<open>shift\<close> when the context has grown past its size.\<close>

definition push_context :: "nat \<Rightarrow> json \<Rightarrow> json list \<Rightarrow> json list" where
  "push_context n x xs = (let ys = xs @ [x] in if n < length ys then tl ys else ys)"

definition coco_entry :: "entry \<Rightarrow> entry" where
  "coco_entry rest = [(''kind'', JStr ''coco''), (''verb'', JStr ''read'')] @ rest"

datatype coco_result =
    Coco_rejected string
  | Coco_status json json
  | Coco_error json json
  | Coco_judge json "json list"

definition frame_value :: "json \<Rightarrow> json option" where
  "frame_value raw = (case raw of JStr s \<Rightarrow> json_parse s | v \<Rightarrow> Some v)"

definition status_message :: "zod \<Rightarrow> json \<Rightarrow> coco_result \<times> entry list" where
  "status_message zod frame =
     (case zod stream_status_schema frame of
        Inl e \<Rightarrow> (Coco_rejected ''malformed stream_status'', [])
      | Inr d \<Rightarrow>
          (Coco_status (obj_get d ''status'') (obj_get d ''camera_id''),
           [coco_entry [(''tool'', JStr ''coco.stream_status''), (''outcome'', obj_get d ''status''),
                        (''reason'', js_coalesce (obj_get d ''detail'') (JStr [])), (''camera'', obj_get d ''camera_id'')]]))"

definition error_message :: "zod \<Rightarrow> json \<Rightarrow> coco_result \<times> entry list" where
  "error_message zod frame =
     (case zod observation_error_schema frame of
        Inl e \<Rightarrow> (Coco_rejected ''malformed observation_error'', [])
      | Inr d \<Rightarrow>
          (Coco_error (obj_get d ''error_code'') (obj_get d ''camera_id''),
           [coco_entry [(''tool'', JStr ''coco.observation_error''), (''outcome'', JStr ''recorded''),
                        (''reason'', obj_get d ''error_code''), (''camera'', obj_get d ''camera_id'')]]))"

definition first_issue :: "zod_error \<Rightarrow> string option" where
  "first_issue e = (case ze_issues e of [] \<Rightarrow> None | m # ms \<Rightarrow> Some m)"

definition observation_message :: "zod \<Rightarrow> nat \<Rightarrow> json \<Rightarrow> contexts \<Rightarrow> coco_result \<times> entry list \<times> contexts" where
  "observation_message zod n frame m =
     (case zod observation_schema frame of
        Inl e \<Rightarrow>
          (Coco_rejected (''schema: '' @ (case first_issue e of None \<Rightarrow> ''invalid'' | Some t \<Rightarrow> t)),
           [coco_entry [(''tool'', JStr ''coco.observation''), (''outcome'', JStr ''rejected''),
                        (''reason'', case first_issue e of None \<Rightarrow> JUndef | Some t \<Rightarrow> JStr (take 120 t))]], m)
      | Inr obs \<Rightarrow>
          (let (xs, m1) = context_for (obj_get obs ''camera_id'') m;
               ctx = push_context n obs xs
           in (Coco_judge obs ctx, [], jset m1 (obj_get obs ''camera_id'') ctx)))"

definition coco_message :: "zod \<Rightarrow> nat \<Rightarrow> json \<Rightarrow> contexts \<Rightarrow> coco_result \<times> entry list \<times> contexts" where
  "coco_message zod n raw m =
     (case frame_value raw of
        None \<Rightarrow> (Coco_rejected ''frame is not JSON'', [], m)
      | Some frame \<Rightarrow>
          (let kind = obj_get frame ''type'' in
           if kind = JStr ''stream_status'' then (let (r, es) = status_message zod frame in (r, es, m))
           else if kind = JStr ''observation_error'' then (let (r, es) = error_message zod frame in (r, es, m))
           else if kind = JStr ''observation'' then observation_message zod n frame m
           else (Coco_rejected (''unknown message type \"'' @ take 40 (js_string kind) @ ''\"''), [], m)))"

text \<open>The reply behind the judge.\<close>

definition coco_reply :: "json \<Rightarrow> entry \<Rightarrow> entry" where
  "coco_reply obs verdict =
     spread_onto [(''kind'', JStr ''observation''), (''observationId'', obj_get obs ''observation_id''),
                  (''cameraId'', obj_get obs ''camera_id'')] verdict"

section \<open>What the judge is given\<close>

text \<open>The observation that a raw frame carries, if it is one.\<close>

definition accepted_obs :: "zod \<Rightarrow> json \<Rightarrow> json option" where
  "accepted_obs zod raw =
     (case frame_value raw of
        None \<Rightarrow> None
      | Some frame \<Rightarrow>
          if obj_get frame ''type'' = JStr ''observation''
          then (case zod observation_schema frame of Inl e \<Rightarrow> None | Inr obs \<Rightarrow> Some obs) else None)"

definition coco_run :: "zod \<Rightarrow> nat \<Rightarrow> json list \<Rightarrow> contexts \<Rightarrow> contexts" where
  "coco_run zod n raws m = foldl (\<lambda>m raw. snd (snd (coco_message zod n raw m))) m raws"

definition observed_by :: "zod \<Rightarrow> json \<Rightarrow> json list \<Rightarrow> json list" where
  "observed_by zod camera raws = filter (\<lambda>ob. obj_get ob ''camera_id'' = camera) (List.map_filter (accepted_obs zod) raws)"

text \<open>What the judge relies on.\<close>

definition judgeable :: "json \<Rightarrow> bool" where
  "judgeable ob =
     (obj_get ob ''type'' = JStr ''observation'' \<and>
      list_all (\<lambda>k. case obj_get ob k of JStr s \<Rightarrow> s \<noteq> [] | _ \<Rightarrow> False) [''observation_id'', ''camera_id'', ''captured_at'', ''scene_description''] \<and>
      list_all (\<lambda>k. is_array (obj_get ob k)) [''vehicles'', ''pedestrians'', ''objects'', ''signs'', ''visible_interactions''])"

lemma push_context_window: "foldl (\<lambda>xs x. push_context n x xs) [] ys = drop (length ys - n) ys"
proof (induction ys rule: rev_induct)
  case (snoc y ys)
  have "tl (drop k xs @ [y]) = drop (Suc k) (xs @ [y])" if "k \<le> length xs" for k and xs :: "json list"
    using that by (cases "k = length xs") (simp_all add: drop_Suc tl_drop tl_append2)
  then show ?case using snoc by (auto simp: push_context_def Let_def Suc_diff_le)
qed simp

lemma context_at_for:
  "fst (context_for c m) = context_at c m" "context_at d (snd (context_for c m)) = context_at d m"
  by (auto simp: context_for_def context_at_def jm.get_put jhas_def split: option.split)

lemma coco_message_context:
  "context_at c (snd (snd (coco_message zod n raw m))) =
     (case accepted_obs zod raw of
        Some ob \<Rightarrow> (if obj_get ob ''camera_id'' = c then push_context n ob (context_at c m) else context_at c m)
      | None \<Rightarrow> context_at c m)"
  using context_at_for
  by (auto simp: coco_message_def accepted_obs_def observation_message_def Let_def context_at_def jm.get_put
      split: option.splits sum.splits prod.splits) (metis fst_conv snd_conv option.simps(4,5))+

lemma coco_message_judge:
  "fst (coco_message zod n raw m) = Coco_judge ob ctx \<longleftrightarrow>
     accepted_obs zod raw = Some ob \<and> ctx = push_context n ob (context_at (obj_get ob ''camera_id'') m)"
  using context_at_for(1)
  by (auto simp: coco_message_def accepted_obs_def observation_message_def status_message_def error_message_def Let_def
      split: option.splits sum.splits prod.splits) (metis fst_conv)+

lemma coco_run_context:
  "context_at c (coco_run zod n raws []) = drop (length (observed_by zod c raws) - n) (observed_by zod c raws)"
proof (induction raws rule: rev_induct)
  case Nil
  then show ?case by (simp add: coco_run_def context_at_def observed_by_def map_filter_simps)
next
  case (snoc raw raws)
  have "context_at c (coco_run zod n raws []) = foldl (\<lambda>xs x. push_context n x xs) [] (observed_by zod c raws)"
    using snoc by (simp add: push_context_window)
  then have "context_at c (coco_run zod n (raws @ [raw]) []) =
      foldl (\<lambda>xs x. push_context n x xs) [] (observed_by zod c (raws @ [raw]))"
    by (simp add: coco_run_def coco_message_context observed_by_def map_filter_def split: option.split)
  then show ?case by (simp add: push_context_window)
qed

lemma conforms_field: "conforms (Z_object fs) v \<Longrightarrow> (k, t) \<in> set fs \<Longrightarrow> conforms t (obj_get v k)"
  by (auto simp: list_all_iff split: json.splits)

lemma conforms_text: "conforms (Z_string 1) v \<Longrightarrow> (case v of JStr s \<Rightarrow> s \<noteq> [] | _ \<Rightarrow> False)"
  by (auto split: json.splits)

lemma conforms_objects: "conforms objects_schema v \<Longrightarrow> is_array v"
  by (cases v) auto

lemma conforms_observation:
  assumes "conforms observation_schema ob"
  shows "judgeable ob"
proof -
  note f = conforms_field [OF assms [unfolded observation_schema_def]]
  have "obj_get ob ''type'' = JStr ''observation''" using f [of "''type''" "Z_literal ''observation''"] by (simp del: obj_get.simps)
  moreover have "case obj_get ob k of JStr s \<Rightarrow> s \<noteq> [] | _ \<Rightarrow> False"
    if "k \<in> {''observation_id'', ''camera_id'', ''captured_at'', ''scene_description''}" for k
    using that by (intro conforms_text f) auto
  moreover have "is_array (obj_get ob k)" if "k \<in> {''vehicles'', ''pedestrians'', ''objects'', ''signs'', ''visible_interactions''}" for k
    using that by (intro conforms_objects f) auto
  ultimately show ?thesis unfolding judgeable_def list_all_iff by auto
qed

text \<open>The judge reasons over the right window: an observation reaches it only if the frame passed the
  schema, so that the fields it reads are there, and the context it gets with it holds exactly the last
  \<open>n\<close> observations accepted from that camera in the order of their arrival, whatever other
  cameras, status frames, errors and malformed frames came in between.\<close>

theorem coco_window:
  assumes "zod_sound zod" and "fst (coco_message zod n raw (coco_run zod n raws [])) = Coco_judge ob ctx"
  shows "accepted_obs zod raw = Some ob \<and> judgeable ob \<and>
    (let ws = observed_by zod (obj_get ob ''camera_id'') (raws @ [raw]) in ctx = drop (length ws - n) ws)"
proof -
  let ?c = "obj_get ob ''camera_id''"
  from assms(2) have ob: "accepted_obs zod raw = Some ob" and
    ctx: "ctx = push_context n ob (context_at ?c (coco_run zod n raws []))"
    by (simp_all add: coco_message_judge)
  from ob assms(1) have "conforms observation_schema ob"
    by (auto simp: accepted_obs_def zod_sound_def split: option.splits if_splits sum.splits)
  moreover have "context_at ?c (coco_run zod n (raws @ [raw]) []) = ctx"
    using ob ctx by (simp add: coco_run_def coco_message_context)
  ultimately show ?thesis
    using ob coco_run_context [of ?c zod n "raws @ [raw]"] by (simp add: conforms_observation Let_def)
qed

definition strict_zod :: zod where
  "strict_zod t v = (if conforms t v then Inr v else Inl \<lparr>ze_issues = [''Invalid input''], ze_text = ''Invalid input''\<rparr>)"

definition demo_frame :: "string \<Rightarrow> string \<Rightarrow> json" where
  "demo_frame i camera =
     JObj ([(''schema_version'', JStr ''1''), (''type'', JStr ''observation''), (''observation_id'', JStr i), (''camera_id'', JStr camera),
            (''captured_at'', JStr ''t''), (''window'', JObj [(''start_seconds'', JNum 0), (''end_seconds'', JNum 5)]),
            (''scene_description'', JStr ''A quiet street''),
            (''evidence_ref'', JObj [(''source'', JStr ''x''), (''start_seconds'', JNum 0), (''end_seconds'', JNum 5)])] @
           map (\<lambda>k. (k, JArr [])) [''traffic_signals'', ''vehicles'', ''pedestrians'', ''objects'', ''signs'', ''visible_interactions'',
             ''visible_actions'', ''changes_from_previous'', ''uncertainties''])"

theorem coco_window_witness:
  "judgeable (demo_frame ''o3'' ''north'') \<and>
   (let ws = observed_by strict_zod (JStr ''north'') [demo_frame ''o1'' ''north'', demo_frame ''o2'' ''south'', demo_frame ''o3'' ''north'']
    in [demo_frame ''o3'' ''north''] = drop (length ws - 1) ws)"
proof -
  have z: "zod_sound strict_zod" by (simp add: zod_sound_def strict_zod_def)
  have j: "fst (coco_message strict_zod 1 (demo_frame ''o3'' ''north'')
      (coco_run strict_zod 1 [demo_frame ''o1'' ''north'', demo_frame ''o2'' ''south''] [])) =
    Coco_judge (demo_frame ''o3'' ''north'') [demo_frame ''o3'' ''north'']" by code_simp
  have "obj_get (demo_frame ''o3'' ''north'') ''camera_id'' = JStr ''north''" by (simp add: demo_frame_def)
  with coco_window [OF z j] show ?thesis by simp
qed

end
