(* ===== verification/Coco_Live.thy ===== *)
theory Coco_Live
  imports Coco
begin

text \<open>
  The live client of src/coco/live.js: the normalisation of descriptions, the relay of camera frames to
  the bus without decoding them, the one-off question, and the redial.

  \<open>onObservation\<close> of the judge is awaited between \<open>live_begin\<close> and \<open>live_publish\<close>.  The clock is read
  once per message; \<open>at\<close> is its ISO rendering.  The text of a parser error is the parameter \<open>bad\<close>.
\<close>

section \<open>Descriptions\<close>

definition to_observation :: "int \<Rightarrow> int \<Rightarrow> string \<Rightarrow> string \<Rightarrow> json \<Rightarrow> json" where
  "to_observation seq ms at' source msg =
     (let (clean, flags) = screen_text (obj_get msg ''description'') 600;
          t = ms div 1000
      in JObj
        [(''schema_version'', JStr ''live-1''), (''type'', JStr ''observation''),
         (''observation_id'', JStr (''live-'' @ show_int t @ ''-'' @ show_int seq)), (''camera_id'', JStr ''coco-live''),
         (''captured_at'', JStr at'),
         (''window'', JObj [(''start_seconds'', JNum (t - 5)), (''end_seconds'', JNum t), (''duration_seconds'', JNum 5)]),
         (''scene_description'', JStr clean), (''screen_flags'', JArr (map JStr flags)),
         (''danger_signal'', JBool (obj_get (obj_get msg ''followup'') ''answer'' = JBool True)),
         (''followup_question'', js_coalesce (obj_get (obj_get msg ''followup'') ''question'') JNull),
         (''prompt'', js_coalesce (obj_get msg ''prompt'') JNull),
         (''vehicles'', JArr []), (''pedestrians'', JArr []), (''objects'', JArr []), (''signs'', JArr []),
         (''visible_interactions'', JArr []), (''visible_actions'', JArr []), (''changes_from_previous'', JArr []),
         (''uncertainties'', JArr []),
         (''evidence_ref'', JObj [(''source'', JStr source), (''start_seconds'', JNum (t - 5)), (''end_seconds'', JNum t)])])"

definition ws_base :: "string \<Rightarrow> string" where
  "ws_base base = (if starts_with base ''http'' then ''ws'' @ drop 4 base else base)"

definition live_entry :: "string \<Rightarrow> string \<Rightarrow> string \<Rightarrow> entry" where
  "live_entry tool outcome why =
     [(''kind'', JStr ''coco-live''), (''verb'', JStr ''read''), (''tool'', JStr tool), (''outcome'', JStr outcome), (''reason'', JStr why)]"

record live =
  lv_context :: "json list"
  lv_seq :: int

definition create_live :: "string \<Rightarrow> bool \<Rightarrow> bool \<Rightarrow> string + live" where
  "create_live base judge bus =
     (if base = [] then Inl ''coco live requires the base url''
      else if \<not> judge \<or> \<not> bus then Inl ''coco live requires the judge and the bus''
      else Inr \<lparr>lv_context = [], lv_seq = 0\<rparr>)"

definition live_message :: "zod \<Rightarrow> (string \<Rightarrow> string) \<Rightarrow> string \<Rightarrow> string + json" where
  "live_message zod bad raw =
     (case json_parse raw of
        None \<Rightarrow> Inl (bad raw)
      | Some v \<Rightarrow> (case zod live_observability_schema v of Inl e \<Rightarrow> Inl (ze_text e) | Inr msg \<Rightarrow> Inr msg))"

datatype live_result = Live_rejected string | Live_judge json json "json list"

definition live_begin ::
  "zod \<Rightarrow> (string \<Rightarrow> string) \<Rightarrow> nat \<Rightarrow> string \<Rightarrow> int \<Rightarrow> string \<Rightarrow> string \<Rightarrow> live \<Rightarrow> live_result \<times> entry list \<times> live" where
  "live_begin zod bad n base ms at' raw s =
     (case live_message zod bad raw of
        Inl err \<Rightarrow>
          (Live_rejected ''malformed observability message'', [live_entry ''coco.observability'' ''rejected'' (take 120 err)], s)
      | Inr msg \<Rightarrow>
          (let seq = lv_seq s + 1;
               ob = to_observation seq ms at' (ws_base base @ ''/api/observability'') msg;
               ctx = push_context n ob (lv_context s)
           in (Live_judge msg ob ctx, [], \<lparr>lv_context = ctx, lv_seq = seq\<rparr>)))"

definition live_event :: "json \<Rightarrow> json \<Rightarrow> entry \<Rightarrow> entry" where
  "live_event msg ob verdict =
     spread_onto
       [(''source'', JStr ''coco-live''), (''description'', obj_get ob ''scene_description''), (''prompt'', obj_get ob ''prompt''),
        (''followup'', js_coalesce (obj_get msg ''followup'') JNull), (''danger_signal'', obj_get ob ''danger_signal'')] verdict"

definition live_publish :: "wire \<Rightarrow> string \<Rightarrow> json \<Rightarrow> json \<Rightarrow> entry \<Rightarrow> bus \<Rightarrow> (string + entry) \<times> bus" where
  "live_publish w at' msg ob verdict b =
     (case publish w at' ''observation'' (live_event msg ob verdict) b of
        (Inl err, b') \<Rightarrow> (Inl err, b')
      | (Inr e, b') \<Rightarrow> (Inr (spread_onto [(''kind'', JStr ''observation'')] verdict), b'))"

section \<open>Frames\<close>

text \<open>\<open>s.match(/"seq"\s*:\s*(\d+)/)\<close>: the digits that end the match.\<close>

definition seq_rx :: rx where
  "seq_rx = rx_seqs [rx_lit [CHR 0x22, CHR ''s'', CHR ''e'', CHR ''q'', CHR 0x22], rx_star rx_ws, rx_lit '':'', rx_star rx_ws,
     rx_plus (Sat is_digit)]"

definition frame_seq :: "string \<Rightarrow> json" where
  "frame_seq s =
     (case rx_search seq_rx s of
        None \<Rightarrow> JNull
      | Some (p, q) \<Rightarrow> JNum (int (nat_of_digits 0 (rev (takeWhile is_digit (fst q))))))"

definition rgb_key :: string where
  "rgb_key = [CHR 0x22, CHR ''r'', CHR ''g'', CHR ''b'', CHR 0x22]"

definition frame_header :: "string \<Rightarrow> string" where
  "frame_header at' = ''{\"topic\":\"frame\",\"at\":\"'' @ at' @ ''\",''"

definition relay_frame :: "wire \<Rightarrow> string \<Rightarrow> string \<Rightarrow> string \<Rightarrow> bus \<Rightarrow> (string + json) \<times> bus" where
  "relay_frame w now at' s b =
     (case index_of s ''{'' of
        None \<Rightarrow> (Inl ''malformed frame'', b)
      | Some brace \<Rightarrow>
          if \<not> js_includes s rgb_key then (Inl ''malformed frame'', b)
          else
            (let seq = frame_seq s
             in (Inr seq,
                 snd (publish w now ''frame'' [(''seq'', seq), (''precomposed'', JStr (frame_header at' @ drop (Suc brace) s))] b))))"

section \<open>The one-off question\<close>

text \<open>\<open>encodeURIComponent\<close> on code units below 256: the UTF-8 bytes of what is not unreserved.\<close>

definition unreserved :: "char \<Rightarrow> bool" where
  "unreserved c = ((word_char c \<or> c \<in> set (''-.!~*()'' @ [CHR 0x27])))"

definition upper_hex :: "nat \<Rightarrow> char" where
  "upper_hex d = (if d < 10 then char_of (48 + d) else char_of (55 + d))"

definition percent :: "nat \<Rightarrow> string" where
  "percent n = [CHR ''%'', upper_hex (n div 16), upper_hex (n mod 16)]"

definition encode_unit :: "char \<Rightarrow> string" where
  "encode_unit c =
     (let n = (of_char c :: nat) in
      if unreserved c then [c] else if n < 128 then percent n else percent (192 + n div 64) @ percent (128 + n mod 64))"

definition encode_component :: "string \<Rightarrow> string" where
  "encode_component s = concat (map encode_unit s)"

datatype describe_reply = No_reply string | Reply bool nat "string + json"

definition null_description :: string where
  "null_description = ''Cannot read properties of null (reading 'description')''"

definition described :: "describe_reply \<Rightarrow> string + string" where
  "described r =
     (case r of
        No_reply msg \<Rightarrow> Inl msg
      | Reply good status body \<Rightarrow>
          if \<not> good then Inl (''HTTP '' @ show_nat status)
          else
            (case body of
               Inl msg \<Rightarrow> Inl msg
             | Inr v \<Rightarrow>
                 if v = JNull then Inl null_description
                 else Inr (fst (screen_text (js_coalesce (obj_get v ''description'') (JStr [])) 600))))"

definition describe :: "(string \<Rightarrow> describe_reply) \<Rightarrow> string \<Rightarrow> string \<Rightarrow> live \<Rightarrow> (string + string) \<times> entry list \<times> live" where
  "describe fetch base prompt s =
     (let r = described (fetch (base @ ''/api/describe?prompt='' @ encode_component prompt))
      in (r,
          [case r of
             Inl err \<Rightarrow> live_entry ''coco.describe'' ''failed'' (take 120 err)
           | Inr clean \<Rightarrow> live_entry ''coco.describe'' ''answered'' (take 120 prompt)],
          s\<lparr>lv_seq := lv_seq s + 1\<rparr>))"

section \<open>The redial\<close>

datatype dial_event = Dial_open | Dial_close bool

text \<open>The delay until the next attempt, if one is made, and the back-off that follows.\<close>

fun dial_step :: "int \<Rightarrow> int \<Rightarrow> dial_event \<Rightarrow> int \<Rightarrow> int option \<times> int" where
  "dial_step reconnect limit Dial_open backoff = (None, reconnect)"
| "dial_step reconnect limit (Dial_close running) backoff =
     (if running then (Some backoff, min (backoff * 2) limit) else (None, backoff))"

fun dial_delays :: "int \<Rightarrow> int \<Rightarrow> dial_event list \<Rightarrow> int \<Rightarrow> int list" where
  "dial_delays reconnect limit [] backoff = []"
| "dial_delays reconnect limit (ev # evs) backoff =
     (let (d, backoff') = dial_step reconnect limit ev backoff
      in (case d of None \<Rightarrow> [] | Some x \<Rightarrow> [x]) @ dial_delays reconnect limit evs backoff')"

lemma dial_delays_bounded:
  "0 < reconnect \<Longrightarrow> reconnect \<le> limit \<Longrightarrow> reconnect \<le> backoff \<Longrightarrow> backoff \<le> limit \<Longrightarrow>
     list_all (\<lambda>d. reconnect \<le> d \<and> d \<le> limit) (dial_delays reconnect limit evs backoff)"
proof (induction evs arbitrary: backoff)
  case (Cons ev evs)
  then show ?case by (cases ev) auto
qed simp

section \<open>The relay writes what decoding and publishing would write\<close>

lemma index_brace: "index_of (json_str (JObj kvs)) ''{'' = Some 0"
  by (simp add: starts_with_def)

lemma enveloped_fresh:
  assumes "distinct (map fst kvs)" and "''topic'' \<notin> fst ` set kvs" and "''at'' \<notin> fst ` set kvs"
  shows "enveloped topic at' kvs = (''topic'', JStr topic) # (''at'', JStr at') # kvs"
proof -
  have "foldl (\<lambda>m kv. jset m (fst kv) (snd kv)) m kvs = m @ kvs"
    if "distinct (map fst (m @ kvs))" for m :: "(string \<times> json) list"
    using that
  proof (induction kvs arbitrary: m)
    case (Cons kv kvs)
    have "\<not> jhas m (fst kv)" using Cons.prems by (auto simp: jhas_iff_key)
    then have "jset m (fst kv) (snd kv) = m @ [kv]" using jset_fresh [of m "fst kv" "snd kv"] by simp
    then show ?case using Cons by simp
  qed simp
  from this [of "[(''topic'', JStr topic), (''at'', JStr at')]"] show ?thesis
    using assms by (auto simp: enveloped_def)
qed

lemma sublist_join: "x \<in> set xs \<Longrightarrow> sublist x (js_join sep xs)"
proof (induction sep xs rule: js_join.induct)
  case (3 sep w v ws)
  then show ?case
    by (metis append.assoc set_ConsD sublist_append_leftI sublist_append_rightI sublist_order.order.trans js_join.simps(3))
qed auto

lemma includes_rgb:
  assumes "wf_json (JObj kvs)" and "''rgb'' \<in> fst ` set kvs"
  shows "js_includes (json_str (JObj kvs)) rgb_key"
proof -
  obtain v where v: "(''rgb'', v) \<in> set kvs" using assms(2) by auto
  define x where "x = js_join '','' (map render_member kvs)"
  have 1: "sublist (render_member (''rgb'', v)) x"
    unfolding x_def by (rule sublist_join) (use v in \<open>force simp: image_iff simp del: json_str.simps\<close>)
  have "json_quote ''rgb'' = rgb_key" by (simp add: rgb_key_def json_quote_def esc_char_def)
  then have 2: "sublist rgb_key (render_member (''rgb'', v))" by (simp add: sublist_append_rightI)
  have "list_all (\<lambda>kv. wf_json (snd kv)) kvs" using assms(1) by simp
  from json_str_JObj [OF this] have 3: "sublist x (json_str (JObj kvs))"
    unfolding x_def [symmetric] by (simp only: sublist_appendI)
  show ?thesis
    unfolding js_includes_iff_sublist
    by (rule sublist_order.order.trans [OF sublist_order.order.trans [OF 2 1] 3])
qed

lemma spliced_text:
  assumes "wf_json (JObj kvs)" and "kvs \<noteq> []" and "json_quote at' = CHR 0x22 # at' @ [CHR 0x22]"
  shows "frame_header at' @ drop 1 (json_str (JObj kvs)) = json_str (JObj ((''topic'', JStr ''frame'') # (''at'', JStr at') # kvs))"
proof -
  have all: "list_all (\<lambda>kv. wf_json (snd kv)) kvs" using assms(1) by simp
  then have "json_str (JObj ((''topic'', JStr ''frame'') # (''at'', JStr at') # kvs)) =
      ''{'' @ js_join '','' (map render_member ((''topic'', JStr ''frame'') # (''at'', JStr at') # kvs)) @ ''}''"
    by (intro json_str_JObj) simp
  moreover have "json_quote ''topic'' = [CHR 0x22] @ ''topic'' @ [CHR 0x22]" "json_quote ''at'' = [CHR 0x22] @ ''at'' @ [CHR 0x22]"
    "json_quote ''frame'' = [CHR 0x22] @ ''frame'' @ [CHR 0x22]"
    by (simp_all add: json_quote_def esc_char_def)
  moreover have "js_join '','' (x # y # map render_member kvs) = x @ '','' @ y @ '','' @ js_join '','' (map render_member kvs)" for x y
    using assms(2) by (cases kvs) auto
  ultimately show ?thesis using json_str_JObj [OF all] assms(3) by (simp add: frame_header_def)
qed


definition demo_rgb :: "(string \<times> json) list" where
  "demo_rgb = [(''seq'', JNum 7), (''rgb'', JStr ''data:image/png;base64,AA'')]"


end
