(* ===== verification/Compile_Claims.thy ===== *)
theory Compile_Claims
  imports Compile Policy_Port
begin

text \<open>
  What the compiled policy grants, read through the request check of the envelope: soundness and
  completeness of the compiler, of the merge of all skills, and the collision of policy keys.
\<close>

section \<open>Grouping\<close>

definition group_of :: "capability list \<Rightarrow> string \<times> endpoint_group \<Rightarrow> bool" where
  "group_of caps kg =
     (case kg of (k, h, p, cs) \<Rightarrow>
        k = h @ '':'' @ show_int p \<and> cs \<noteq> [] \<and>
        (\<forall>c \<in> set cs. c \<in> set caps \<and> (\<exists>e. cp_egress c = Some e \<and> eg_host e = h \<and> eg_port e = p)))"

lemma set_jset: "x \<in> set (jset m k v) \<Longrightarrow> x = (k, v) \<or> x \<in> set m"
  using set_jset_subset by fastforce

lemma jset_mem: "(k, v) \<in> set (jset m k v)"
  by (induction m k v rule: jset.induct) auto

lemma jset_keeps: "(k', v') \<in> set m \<Longrightarrow> k' \<noteq> k \<Longrightarrow> (k', v') \<in> set (jset m k v)"
  by (induction m k v rule: jset.induct) auto

lemma show_nat_inj: "show_nat n = show_nat m \<longleftrightarrow> n = m"
  using nat_of_show_inj by blast

lemma show_nat_no: "\<not> is_digit c \<Longrightarrow> c \<notin> set (show_nat n)"
  using show_nat_digits by blast

lemma show_int_inj: "show_int i = show_int j \<longleftrightarrow> i = j"
proof -
  have h: "CHR ''-'' \<notin> set (show_nat n)" for n by (rule show_nat_no) (simp add: is_digit_def)
  then have "show_nat n \<noteq> CHR ''-'' # show_nat m" for n m by (metis list.set_intros(1))
  then show ?thesis
    by (auto simp: show_int_def show_nat_inj split: if_splits) (metis)+
qed

lemma show_int_no_colon: "CHR '':'' \<notin> set (show_int i)"
  by (auto simp: show_int_def is_digit_def dest!: show_nat_digits)

lemma split_at_last:
  "p @ c # s = q @ c # t \<Longrightarrow> c \<notin> set s \<Longrightarrow> c \<notin> set t \<Longrightarrow> p = q \<and> s = t"
proof -
  assume e: "p @ c # s = q @ c # t" and n: "c \<notin> set s" "c \<notin> set t"
  have "takeWhile (\<lambda>x. x \<noteq> c) (rev (p @ c # s)) = rev s" "takeWhile (\<lambda>x. x \<noteq> c) (rev (q @ c # t)) = rev t"
    using n by (auto simp: takeWhile_append)
  with e have "s = t" by (metis rev_rev_ident)
  with e show ?thesis by simp
qed

lemma endpoint_key_inj: "endpoint_key e = endpoint_key f \<longleftrightarrow> eg_host e = eg_host f \<and> eg_port e = eg_port f"
proof
  assume "endpoint_key e = endpoint_key f"
  then show "eg_host e = eg_host f \<and> eg_port e = eg_port f"
    using split_at_last [of "eg_host e" "CHR '':''" "show_int (eg_port e)" "eg_host f" "show_int (eg_port f)"]
    by (simp add: endpoint_key_def show_int_no_colon show_int_inj)
qed (simp add: endpoint_key_def)

lemma group_by_endpoint_sound:
  "list_all (group_of all) m \<Longrightarrow> set caps \<subseteq> set all \<Longrightarrow> list_all (group_of all) (group_by_endpoint m caps)"
proof (induction m caps rule: group_by_endpoint.induct)
  case (2 m c cs)
  show ?case
  proof (cases "cp_egress c")
    case (Some e)
    let ?k = "endpoint_key e"
    let ?g = "case map_of m ?k of None \<Rightarrow> (eg_host e, eg_port e, []) | Some g \<Rightarrow> g"
    have g: "fst ?g = eg_host e \<and> fst (snd ?g) = eg_port e \<and>
        (\<forall>x \<in> set (snd (snd ?g)). x \<in> set all \<and> (\<exists>e'. cp_egress x = Some e' \<and> eg_host e' = eg_host e \<and> eg_port e' = eg_port e))"
    proof (cases "map_of m ?k")
      case (Some g)
      then have "group_of all (?k, g)" using 2(3) map_of_SomeD by (fastforce simp: list_all_iff)
      moreover obtain h p xs where "g = (h, p, xs)" by (cases g)
      moreover have "h = eg_host e \<and> p = eg_port e" if "?k = h @ '':'' @ show_int p"
        using that endpoint_key_inj [of e "\<lparr>eg_host = h, eg_port = p, eg_path = []\<rparr>"] by (simp add: endpoint_key_def)
      ultimately show ?thesis using Some by (auto simp: group_of_def)
    qed simp
    have "group_of all (?k, fst ?g, fst (snd ?g), snd (snd ?g) @ [c])"
      using g 2(4) Some by (auto simp: group_of_def endpoint_key_def)
    then have "list_all (group_of all) (jset m ?k (fst ?g, fst (snd ?g), snd (snd ?g) @ [c]))"
      using 2(3) by (auto simp: list_all_iff dest!: set_jset)
    then show ?thesis using 2(2) [OF Some refl refl] 2(4) Some by (simp add: Let_def)
  qed (use 2 in simp)
qed simp

lemma add_rules_sound:
  "r \<in> set (add_rules seen xs) \<Longrightarrow> (ru_method r, ru_path r) \<in> set xs \<and> ru_delta r = None"
  by (induction seen xs rule: add_rules.induct) (auto simp: Let_def split: if_splits)

lemma cap_grants_iff:
  "(m, p) \<in> set (cap_grants caps) \<longleftrightarrow> (\<exists>c \<in> set caps. \<exists>e. cp_egress c = Some e \<and> eg_path e = p \<and> m \<in> set (cap_methods c))"
proof -
  have "(m, p) \<in> set (case cp_egress c of None \<Rightarrow> [] | Some e \<Rightarrow> map (\<lambda>m. (m, eg_path e)) (cap_methods c)) \<longleftrightarrow>
      (\<exists>e. cp_egress c = Some e \<and> eg_path e = p \<and> m \<in> set (cap_methods c))" for c
    by (cases "cp_egress c") auto
  then show ?thesis unfolding cap_grants_def set_concat set_map by blast
qed

lemma foldl_jset_mem:
  "x \<in> set (foldl (\<lambda>m y. jset m (f y) (g y)) m0 ys) \<Longrightarrow> x \<in> set m0 \<or> (\<exists>y \<in> set ys. x = (f y, g y))"
proof (induction ys arbitrary: m0)
  case (Cons y ys)
  from Cons.IH [of "jset m0 (f y) (g y)"] Cons.prems show ?case by (auto dest!: set_jset)
qed simp

section \<open>Soundness of the compiler\<close>

definition permutes_rules :: "(rule list \<Rightarrow> rule list) \<Rightarrow> bool" where
  "permutes_rules collate = (\<forall>rs. set (collate rs) = set rs)"

lemma permutes_set: "permutes_rules collate \<Longrightarrow> set (collate rs) = set rs"
  by (simp add: permutes_rules_def)

lemma compile_policies_rule:
  assumes "permutes_rules collate" and "kg \<in> set (compile_policies collate m)" and "ep \<in> set (gp_endpoints (snd kg))"
    and "r \<in> set (ep_rules ep)"
  shows "\<exists>c \<in> set (mf_capabilities m). \<exists>e. cp_egress c = Some e \<and> eg_host e = ep_host ep \<and> eg_port e = ep_port ep \<and>
           eg_path e = ru_path r \<and> ru_method r \<in> set (cap_methods c)"
proof -
  let ?gs = "group_by_endpoint [] (mf_capabilities m)"
  obtain y where y: "y \<in> set ?gs" and kg: "snd kg = compile_group collate (mf_binaries m) (snd y)"
    using foldl_jset_mem [OF assms(2) [unfolded compile_policies_def]] by auto
  obtain k h p cs where y': "y = (k, h, p, cs)" by (cases y)
  have "list_all (group_of (mf_capabilities m)) ?gs" by (rule group_by_endpoint_sound) simp_all
  then have go: "group_of (mf_capabilities m) y" using y by (auto simp: list_all_iff)
  have ep: "ep_host ep = h" "ep_port ep = p" "r \<in> set (add_rules [] (cap_grants cs))"
    using assms(3,4) permutes_set [OF assms(1)] by (auto simp: kg y' compile_group_def)
  from add_rules_sound [OF ep(3)] obtain c e where "c \<in> set cs" "cp_egress c = Some e" "eg_path e = ru_path r" "ru_method r \<in> set (cap_methods c)"
    by (auto simp: cap_grants_iff)
  moreover from this go have "c \<in> set (mf_capabilities m) \<and> eg_host e = h \<and> eg_port e = p"
    by (auto simp: group_of_def y')
  ultimately show ?thesis using ep by auto
qed

lemma cap_methods_GET: "cap_gated c \<or> \<not> is_write (cp_verb c) \<Longrightarrow> cap_methods c = [''GET'']"
  by (auto simp: cap_methods_def cap_gated_def methods_for_def)

text \<open>C15. The compiled policy is sound, read through the request check: a request that it grants is
  covered by a declared capability on that host whose path glob matches; and a granted request with
  another method than \<open>GET\<close> is covered by a write that needs no consent.  No consequential write
  is granted.\<close>

theorem compile_sound:
  assumes "compile_fragment collate m = Inr fr" and "permutes_rules collate" and "grants (fr_policies fr) rq"
  shows "\<exists>c \<in> set (mf_capabilities m). \<exists>e. cp_egress c = Some e \<and> eg_host e = rq_host rq \<and>
     path_matches (eg_path e) (rq_path rq) = Some True \<and> rq_method rq \<in> set (cap_methods c) \<and>
     (rq_method rq \<noteq> ''GET'' \<longrightarrow> is_write (cp_verb c) \<and> \<not> cap_gated c)"
proof -
  have "fr_policies fr = compile_policies collate m"
    using assms(1) by (auto simp: compile_fragment_def parse_manifest_Inr split: sum.splits)
  then obtain kg ep r where "kg \<in> set (compile_policies collate m)" "ep \<in> set (gp_endpoints (snd kg))" "r \<in> set (ep_rules ep)"
    and r: "ep_host ep = rq_host rq" "ru_method r = rq_method rq" "path_matches (ru_path r) (rq_path rq) = Some True"
    using assms(3) unfolding grants_grants_in grants_in_def by metis
  from compile_policies_rule [OF assms(2) this(1-3)] obtain c e where c: "c \<in> set (mf_capabilities m)"
    "cp_egress c = Some e" "eg_host e = rq_host rq" "eg_path e = ru_path r" "rq_method rq \<in> set (cap_methods c)"
    using r by metis
  moreover have "is_write (cp_verb c) \<and> \<not> cap_gated c" if "rq_method rq \<noteq> ''GET''"
    using that c(5) cap_methods_GET [of c] by (cases "cap_gated c \<or> \<not> is_write (cp_verb c)") auto
  ultimately show ?thesis using r by metis
qed

section \<open>Completeness of the compiler\<close>

lemma split_at_first:
  "p @ c # s = q @ c # t \<Longrightarrow> c \<notin> set p \<Longrightarrow> c \<notin> set q \<Longrightarrow> p = q \<and> s = t"
  using split_at_last [of "rev s" c "rev p" "rev t" "rev q"]
  by (metis (no_types) append.assoc append_Cons append_Nil rev.simps(2) rev_append rev_rev_ident set_rev)

lemma cap_methods_no_space: "m \<in> set (cap_methods c) \<Longrightarrow> CHR '' '' \<notin> set m"
  by (auto simp: cap_methods_def methods_for_def split: if_splits)

lemma add_rules_complete:
  "(m, p) \<in> set xs \<Longrightarrow> (\<forall>(m, p) \<in> set xs. CHR '' '' \<notin> set m) \<Longrightarrow> m @ '' '' @ p \<notin> set seen \<Longrightarrow>
     \<exists>r \<in> set (add_rules seen xs). ru_method r = m \<and> ru_path r = p"
proof (induction seen xs rule: add_rules.induct)
  case (2 seen m' p' rest)
  let ?sig = "m' @ '' '' @ p'"
  show ?case
  proof (cases "?sig \<in> set seen")
    case True
    then have "(m, p) \<in> set rest" using 2 by auto
    then show ?thesis using 2 True by (simp add: Let_def)
  next
    case False
    show ?thesis
    proof (cases "(m, p) = (m', p')")
      case eq: False
      then have "m @ '' '' @ p \<noteq> ?sig"
        using 2(3,4) split_at_first [of m "CHR '' ''" p m' p'] by auto
      then show ?thesis using 2 False eq by (auto simp: Let_def)
    qed (use False in \<open>simp add: Let_def\<close>)
  qed
qed simp

lemma group_by_endpoint_keeps:
  "map_of m k = Some (h, p, cs) \<Longrightarrow> c \<in> set cs \<Longrightarrow>
     \<exists>cs'. map_of (group_by_endpoint m caps) k = Some (h, p, cs') \<and> c \<in> set cs'"
proof (induction m caps arbitrary: cs rule: group_by_endpoint.induct)
  case (2 m c' cs')
  show ?case
  proof (cases "cp_egress c'")
    case (Some e)
    show ?thesis
    proof (cases "endpoint_key e = k")
      case True
      then show ?thesis using 2(2) [OF Some refl refl, of "cs @ [c']"] 2(3,4) Some by (simp add: Let_def)
    next
      case False
      then show ?thesis using 2(2) [OF Some refl refl, of cs] 2(3,4) Some by (simp add: Let_def)
    qed
  qed (use 2 in simp)
qed auto

lemma group_by_endpoint_complete:
  "c \<in> set caps \<Longrightarrow> cp_egress c = Some e \<Longrightarrow>
     \<exists>h p cs. map_of (group_by_endpoint m caps) (endpoint_key e) = Some (h, p, cs) \<and> c \<in> set cs"
proof (induction m caps rule: group_by_endpoint.induct)
  case (2 m c' cs')
  show ?case
  proof (cases "c = c'")
    case True
    let ?k = "endpoint_key e"
    let ?g = "case map_of m ?k of None \<Rightarrow> (eg_host e, eg_port e, []) | Some g \<Rightarrow> g"
    have "\<exists>cs. map_of (group_by_endpoint (jset m ?k (fst ?g, fst (snd ?g), snd (snd ?g) @ [c])) cs') ?k
        = Some (fst ?g, fst (snd ?g), cs) \<and> c \<in> set cs"
      by (rule group_by_endpoint_keeps [where cs = "snd (snd ?g) @ [c]"]) simp_all
    then show ?thesis using True 2(4) by (auto simp: Let_def)
  next
    case False
    then have "c \<in> set cs'" using 2(3) by simp
    then show ?thesis using 2 by (cases "cp_egress c'") (simp_all add: Let_def)
  qed
qed simp

text \<open>No two endpoints of a manifest share a policy key.\<close>

definition keys_apart :: "manifest \<Rightarrow> bool" where
  "keys_apart m =
     (\<forall>c \<in> set (mf_capabilities m). \<forall>c' \<in> set (mf_capabilities m).
        case (cp_egress c, cp_egress c') of
          (Some e, Some e') \<Rightarrow> policy_key (eg_host e) = policy_key (eg_host e') \<longrightarrow> endpoint_key e = endpoint_key e'
        | _ \<Rightarrow> True)"

lemma foldl_jset_get:
  "(\<forall>y \<in> set ys. f y = k \<longrightarrow> g y = v) \<Longrightarrow> map_of m0 k = Some v \<or> (\<exists>y \<in> set ys. f y = k) \<Longrightarrow>
     map_of (foldl (\<lambda>m y. jset m (f y) (g y)) m0 ys) k = Some v"
proof (induction ys arbitrary: m0)
  case (Cons y ys)
  show ?case using Cons.prems by (simp, intro Cons.IH) auto
qed simp

lemma group_by_endpoint_wf: "jwf m \<Longrightarrow> jwf (group_by_endpoint m caps)"
proof (induction m caps rule: group_by_endpoint.induct)
  case (2 m c cs)
  then show ?case by (cases "cp_egress c") (simp_all add: Let_def)
qed simp

text \<open>The compiled policy is complete: unless two endpoints of the manifest fall on the same policy
  key, every method of every declared capability is granted on the path of the capability.\<close>

theorem compile_complete:
  assumes "compile_fragment collate m = Inr fr" and "permutes_rules collate" and "keys_apart m"
    and "c \<in> set (mf_capabilities m)" and "cp_egress c = Some e" and "method \<in> set (cap_methods c)"
    and "path_matches (eg_path e) path = Some True"
  shows "grants (fr_policies fr) \<lparr>rq_method = method, rq_host = eg_host e, rq_path = path\<rparr>"
proof -
  let ?gs = "group_by_endpoint [] (mf_capabilities m)"
  obtain h p cs where g: "map_of ?gs (endpoint_key e) = Some (h, p, cs)" "c \<in> set cs"
    using group_by_endpoint_complete [OF assms(4,5)] by blast
  have all: "list_all (group_of (mf_capabilities m)) ?gs" by (rule group_by_endpoint_sound) simp_all
  have mem: "(endpoint_key e, h, p, cs) \<in> set ?gs" using g(1) by (rule map_of_SomeD)
  have go: "group_of (mf_capabilities m) (endpoint_key e, h, p, cs)" using all mem by (auto simp: list_all_iff)
  then have hp: "h = eg_host e" "p = eg_port e" using g(2) assms(5) by (auto simp: group_of_def)
  let ?G = "compile_group collate (mf_binaries m) (h, p, cs)"
  have "\<forall>y \<in> set ?gs. policy_key (fst (snd y)) = policy_key h \<longrightarrow> compile_group collate (mf_binaries m) (snd y) = ?G"
  proof (intro ballI impI)
    fix y assume y: "y \<in> set ?gs" and k: "policy_key (fst (snd y)) = policy_key h"
    obtain k' h' p' cs' where y': "y = (k', h', p', cs')" by (cases y)
    have go': "group_of (mf_capabilities m) y" using all y by (auto simp: list_all_iff)
    have "cs' \<noteq> []" using go' y' by (simp add: group_of_def)
    then obtain c' e' where c': "c' \<in> set (mf_capabilities m)" "cp_egress c' = Some e'" "eg_host e' = h'" "eg_port e' = p'" "k' = endpoint_key e'"
      using go' y' by (cases cs') (auto simp: group_of_def endpoint_key_def)
    have "endpoint_key e' = endpoint_key e"
      using assms(3-5) c' k y' hp unfolding keys_apart_def by fastforce
    then have "map_of ?gs (endpoint_key e) = Some (h', p', cs')"
      using y y' c'(5) group_by_endpoint_wf [of "[]" "mf_capabilities m"] by (simp add: jwf_def)
    then show "compile_group collate (mf_binaries m) (snd y) = ?G" using g(1) y' by simp
  qed
  then have "map_of (compile_policies collate m) (policy_key h) = Some ?G"
    unfolding compile_policies_def by (rule foldl_jset_get) (use mem in force)
  then have kg: "(policy_key h, ?G) \<in> set (compile_policies collate m)" by (rule map_of_SomeD)
  have "(method, eg_path e) \<in> set (cap_grants cs)" using g(2) assms(5,6) by (auto simp: cap_grants_iff)
  then obtain r where r: "r \<in> set (add_rules [] (cap_grants cs))" "ru_method r = method" "ru_path r = eg_path e"
    using add_rules_complete [of "method" "eg_path e" "cap_grants cs" "[]"] cap_methods_no_space by (force simp: cap_grants_iff)
  have "grants_in (gp_endpoints ?G) \<lparr>rq_method = method, rq_host = eg_host e, rq_path = path\<rparr>"
    using r assms(7) hp permutes_set [OF assms(2)] by (auto simp: grants_in_def compile_group_def)
  then have "grants (compile_policies collate m) \<lparr>rq_method = method, rq_host = eg_host e, rq_path = path\<rparr>"
    using kg unfolding grants_grants_in by force
  then show ?thesis using assms(1) by (auto simp: compile_fragment_def parse_manifest_Inr split: sum.splits)
qed

lemma permutes_id: "permutes_rules (\<lambda>rs. rs)"
  by (simp add: permutes_rules_def)

lemma sample_compiles: "\<exists>fr. compile_fragment (\<lambda>rs. rs) sample_manifest = Inr fr"
  by (simp add: compile_fragment_def sample_manifest_ok)

lemma sample_keys_apart: "keys_apart sample_manifest"
  by (simp add: keys_apart_def sample_manifest_def endpoint_key_def)

lemma sample_glob: "path_matches ''/**'' ''/units'' = Some True"
  using path_matches_tree [of "[]" "''/units''"] by (simp add: plain_path_def dot_char_def)

theorem compile_complete_witness:
  "\<exists>fr. compile_fragment (\<lambda>rs. rs) sample_manifest = Inr fr \<and>
     grants (fr_policies fr) \<lparr>rq_method = ''GET'', rq_host = ''city-1'', rq_path = ''/units''\<rparr>"
proof -
  obtain fr where fr: "compile_fragment (\<lambda>rs. rs) sample_manifest = Inr fr" using sample_compiles by blast
  let ?e = "\<lparr>eg_host = ''city-1'', eg_port = 443, eg_path = ''/**''\<rparr>"
  let ?c = "\<lparr>cp_tool = ''dispatch.read'', cp_verb = Read, cp_resource = None, cp_impact = [], cp_egress = Some ?e\<rparr>"
  have "grants (fr_policies fr) \<lparr>rq_method = ''GET'', rq_host = eg_host ?e, rq_path = ''/units''\<rparr>"
    by (rule compile_complete [OF fr permutes_id sample_keys_apart, where c = ?c])
      (simp_all add: sample_manifest_def cap_methods_def methods_for_def is_write_def sample_glob)
  with fr show ?thesis by auto
qed

theorem compile_sound_witness:
  "\<exists>pols. grants pols \<lparr>rq_method = ''GET'', rq_host = ''city-1'', rq_path = ''/units''\<rparr> \<and>
     \<not> grants pols \<lparr>rq_method = ''POST'', rq_host = ''city-1'', rq_path = ''/ems/1''\<rparr>"
proof -
  obtain fr where fr: "compile_fragment (\<lambda>rs. rs) sample_manifest = Inr fr" using sample_compiles by blast
  let ?e = "\<lparr>eg_host = ''city-1'', eg_port = 443, eg_path = ''/**''\<rparr>"
  let ?k = "''city_1''"
  have p: "fr_policies fr = compile_policies (\<lambda>rs. rs) sample_manifest"
    using fr by (auto simp: compile_fragment_def sample_manifest_ok)
  have "fr_policies fr = [(?k, compile_group (\<lambda>rs. rs) [''/usr/local/bin/node''] (''city-1'', 443, mf_capabilities sample_manifest))]"
    unfolding p by (simp add: compile_policies_def sample_manifest_def endpoint_key_def Let_def)
      (simp add: policy_key_def lower_alnum_def js_lower_char_def js_lower_def Let_def)
  moreover have "ru_method r = ''GET''" if r_in: "r \<in> set (add_rules [] (cap_grants (mf_capabilities sample_manifest)))" for r
  proof -
    obtain c where c: "c \<in> set (mf_capabilities sample_manifest)" "ru_method r \<in> set (cap_methods c)"
      using add_rules_sound [OF r_in] by (auto simp: cap_grants_iff)
    then have "cap_gated c \<or> \<not> is_write (cp_verb c)"
      by (auto simp: sample_manifest_def cap_gated_def requires_consent_def is_write_def)
    with c(2) show ?thesis using cap_methods_GET by fastforce
  qed
  moreover have "\<exists>r \<in> set (add_rules [] (cap_grants (mf_capabilities sample_manifest))). path_matches (ru_path r) ''/units'' = Some True"
  proof (rule bexI)
    show "\<lparr>ru_method = ''GET'', ru_path = ''/**'', ru_delta = None\<rparr> \<in> set (add_rules [] (cap_grants (mf_capabilities sample_manifest)))"
      by (simp add: sample_manifest_def cap_grants_def cap_methods_def methods_for_def requires_consent_def is_write_def
          normalize_impact_def impacts_json_def Let_def)
  qed (simp add: sample_glob)
  ultimately have g: "grants (fr_policies fr) \<lparr>rq_method = ''GET'', rq_host = ''city-1'', rq_path = ''/units''\<rparr>"
    and n: "\<not> grants (fr_policies fr) \<lparr>rq_method = ''POST'', rq_host = ''city-1'', rq_path = ''/ems/1''\<rparr>"
    by (auto simp: grants_grants_in grants_in_def compile_group_def)
  from compile_sound [OF fr permutes_id g] g n show ?thesis by blast
qed

section \<open>The merge of all skills\<close>

text \<open>Every key names one host, in all fragments alike (\<open>H\<close>), as it does unless two host names differ
  only in the characters that the key squashes or in their case.\<close>

definition keys_name_hosts :: "(string \<Rightarrow> string) \<Rightarrow> policies \<Rightarrow> bool" where
  "keys_name_hosts H pols =
     (\<forall>kg \<in> set pols. \<exists>t. gp_endpoints (snd kg) = [t] \<and> ep_host t = H (fst kg))"

definition rule_for :: "request \<Rightarrow> rule \<Rightarrow> bool" where
  "rule_for rq r = (ru_method r = rq_method rq \<and> path_matches (ru_path r) (rq_path rq) = Some True)"

lemma set_union_rules: "set target \<subseteq> set (union_rules target rs) \<and> set (union_rules target rs) \<subseteq> set target \<union> set rs"
proof (induction target rs rule: union_rules.induct)
  case (2 target r rs)
  then show ?case by (cases "list_ex (\<lambda>t. ru_method t = ru_method r \<and> ru_path t = ru_path r) target") auto
qed simp

lemma union_rules_covers:
  "r \<in> set rs \<Longrightarrow> \<exists>t \<in> set (union_rules target rs). ru_method t = ru_method r \<and> ru_path t = ru_path r"
proof (induction target rs rule: union_rules.induct)
  case (2 target r' rs)
  let ?target = "if list_ex (\<lambda>t. ru_method t = ru_method r' \<and> ru_path t = ru_path r') target then target else target @ [r']"
  show ?case
  proof (cases "r = r'")
    case True
    then have "\<exists>t \<in> set ?target. ru_method t = ru_method r \<and> ru_path t = ru_path r" by (auto simp: list_ex_iff)
    then show ?thesis using set_union_rules [of ?target rs] unfolding union_rules.simps by blast
  next
    case False
    then show ?thesis using 2 by simp
  qed
qed simp

lemma union_rules_for: "(\<exists>r \<in> set (union_rules target rs). rule_for rq r) \<longleftrightarrow> (\<exists>r \<in> set target \<union> set rs. rule_for rq r)"
proof
  assume "\<exists>r \<in> set target \<union> set rs. rule_for rq r"
  then obtain r where r: "r \<in> set target \<union> set rs" "rule_for rq r" by blast
  then obtain t where "t \<in> set (union_rules target rs)" "ru_method t = ru_method r" "ru_path t = ru_path r"
    using set_union_rules [of target rs] union_rules_covers [of r rs target] by blast
  with r(2) show "\<exists>r \<in> set (union_rules target rs). rule_for rq r" by (auto simp: rule_for_def)
qed (use set_union_rules [of target rs] in blast)

lemma grants_hosts:
  assumes "keys_name_hosts H pols"
  shows "grants pols rq \<longleftrightarrow> (\<exists>kg \<in> set pols. H (fst kg) = rq_host rq \<and> (\<exists>r \<in> set (concat (map ep_rules (gp_endpoints (snd kg)))). rule_for rq r))"
  unfolding grants_grants_in
proof (intro bex_cong refl)
  fix kg assume "kg \<in> set pols"
  then obtain t where "gp_endpoints (snd kg) = [t]" "ep_host t = H (fst kg)" using assms by (auto simp: keys_name_hosts_def)
  then show "grants_in (gp_endpoints (snd kg)) rq \<longleftrightarrow>
      H (fst kg) = rq_host rq \<and> (\<exists>r \<in> set (concat (map ep_rules (gp_endpoints (snd kg)))). rule_for rq r)"
    by (simp add: grants_in_def rule_for_def)
qed

lemma merge_group_step:
  assumes "jwf pols" and "keys_name_hosts H pols" and "\<exists>t. gp_endpoints g = [t] \<and> ep_host t = H k"
  shows "jwf (merge_group pols (k, g)) \<and> keys_name_hosts H (merge_group pols (k, g)) \<and>
     (grants (merge_group pols (k, g)) rq \<longleftrightarrow> grants pols rq \<or> grants [(k, g)] rq)"
proof (cases "map_of pols k")
  case None
  then have m: "merge_group pols (k, g) = pols @ [(k, g)]" by (simp add: merge_group_def jset_fresh jhas_def)
  have "jwf (merge_group pols (k, g))" using assms(1) None by (simp add: merge_group_def)
  moreover have "keys_name_hosts H (merge_group pols (k, g))" using assms(2,3) by (auto simp: m keys_name_hosts_def)
  ultimately show ?thesis by (auto simp: m grants_grants_in)
next
  case (Some g0)
  then obtain xs ys where sp: "pols = xs @ (k, g0) # ys" using map_of_SomeD split_list by metis
  obtain t0 where t0: "gp_endpoints g0 = [t0]" "ep_host t0 = H k" using assms(2) sp by (auto simp: keys_name_hosts_def)
  obtain t where t: "gp_endpoints g = [t]" "ep_host t = H k" using assms(3) by blast
  let ?g = "g0\<lparr>gp_endpoints := [t0\<lparr>ep_rules := union_rules (ep_rules t0) (ep_rules t)\<rparr>]\<rparr>"
  have m: "merge_group pols (k, g) = jset pols k ?g" using Some t0 t by (simp add: merge_group_def)
  have j: "jset (xs @ (k, g0) # ys) k v = xs @ (k, v) # ys" if "k \<notin> fst ` set xs" for v
    using that by (induction xs) auto
  have "k \<notin> fst ` set xs" using assms(1) sp by (auto simp: jwf_def)
  then have e: "merge_group pols (k, g) = xs @ (k, ?g) # ys" using m j [of ?g] sp by simp
  have kn: "keys_name_hosts H (merge_group pols (k, g))"
    unfolding e using assms(2) t0 unfolding sp keys_name_hosts_def by auto
  have gx: "grants (xs @ (k, G) # ys) rq \<longleftrightarrow> grants xs rq \<or> grants_in (gp_endpoints G) rq \<or> grants ys rq" for G
    by (auto simp: grants_grants_in)
  have one: "grants_in [ep] rq \<longleftrightarrow> ep_host ep = rq_host rq \<and> (\<exists>r \<in> set (ep_rules ep). rule_for rq r)" for ep
    by (simp add: grants_in_def rule_for_def)
  have "grants_in (gp_endpoints ?g) rq \<longleftrightarrow> grants_in (gp_endpoints g0) rq \<or> grants_in (gp_endpoints g) rq"
    using t0 t union_rules_for [of "ep_rules t0" "ep_rules t" rq] by (auto simp: one)
  moreover have "grants [(k, g)] rq \<longleftrightarrow> grants_in (gp_endpoints g) rq" by (simp add: grants_grants_in)
  ultimately have "grants (merge_group pols (k, g)) rq \<longleftrightarrow> grants pols rq \<or> grants [(k, g)] rq"
    unfolding e unfolding sp gx by blast
  with kn show ?thesis using assms(1) by (simp add: m)
qed

lemma merge_groups_grants:
  "jwf pols \<Longrightarrow> keys_name_hosts H pols \<Longrightarrow> keys_name_hosts H kgs \<Longrightarrow>
     grants (foldl merge_group pols kgs) rq \<longleftrightarrow> grants pols rq \<or> grants kgs rq"
proof (induction kgs arbitrary: pols)
  case (Cons kg kgs)
  obtain k g where kg: "kg = (k, g)" by (cases kg)
  have "\<exists>t. gp_endpoints g = [t] \<and> ep_host t = H k" "keys_name_hosts H kgs"
    using Cons.prems(3) kg by (auto simp: keys_name_hosts_def)
  with merge_group_step [OF Cons.prems(1,2) this(1), of rq] Cons.IH kg show ?case
    by (auto simp: grants_grants_in)
qed (simp add: grants_grants_in)

definition one_skill :: "string \<Rightarrow> verb \<Rightarrow> string \<Rightarrow> manifest" where
  "one_skill host v path =
     \<lparr>mf_skill = ''s'', mf_agent = ''a'', mf_description = None, mf_level = 2, mf_inference = False,
      mf_capabilities = [\<lparr>cp_tool = ''t'', cp_verb = v, cp_resource = None, cp_impact = [],
        cp_egress = Some \<lparr>eg_host = host, eg_port = 443, eg_path = path\<rparr>\<rparr>],
      mf_read = [], mf_write = [], mf_binaries = [''/usr/local/bin/node'']\<rparr>"

lemma one_skill_policies:
  "compile_policies (\<lambda>rs. rs) (one_skill host v path) =
     [(policy_key host, compile_group (\<lambda>rs. rs) [''/usr/local/bin/node''] (host, 443, mf_capabilities (one_skill host v path)))]"
  by (simp add: compile_policies_def one_skill_def endpoint_key_def Let_def)

lemma one_skill_rules:
  "v = Read \<or> v = Create \<Longrightarrow>
     add_rules [] (cap_grants (mf_capabilities (one_skill host v path))) =
       [\<lparr>ru_method = (if v = Read then ''GET'' else ''POST''), ru_path = path, ru_delta = None\<rparr>]"
  by (auto simp: one_skill_def cap_grants_def cap_methods_def methods_for_def requires_consent_def is_write_def
      normalize_impact_def impacts_json_def Let_def)

lemma one_skill_compiles:
  "v = Read \<or> v = Create \<Longrightarrow> hostname_ish host \<Longrightarrow> starts_with path ''/'' \<Longrightarrow>
     \<exists>fr. compile_fragment (\<lambda>rs. rs) (one_skill host v path) = Inr fr \<and> fr_policies fr = compile_policies (\<lambda>rs. rs) (one_skill host v path)"
  by (auto simp: compile_fragment_def parse_manifest_def one_skill_def fields_ok_def capability_ok_def egress_ok_def kebab_def
      absolute_path_def lower_alnum_def starts_with_def level_issues_def known_verb_def)

text \<open>The merged policy grants what the skills grant, no more and no less, as long as every policy
  key stands for one host name.\<close>

theorem merge_grants_iff:
  assumes "\<forall>fr \<in> set frs. keys_name_hosts H (fr_policies fr)"
  shows "grants (merge_policies frs) rq \<longleftrightarrow> (\<exists>fr \<in> set frs. grants (fr_policies fr) rq)"
proof -
  have "keys_name_hosts H (concat (map fr_policies frs))" using assms by (auto simp: keys_name_hosts_def)
  then have "grants (merge_policies frs) rq \<longleftrightarrow> grants (concat (map fr_policies frs)) rq"
    unfolding merge_policies_def by (subst merge_groups_grants [where H = H]) (auto simp: keys_name_hosts_def grants_grants_in)
  then show ?thesis by (auto simp: grants_grants_in)
qed

theorem merge_grants_iff_witness:
  "\<exists>fr. fr_policies fr = compile_policies (\<lambda>rs. rs) (one_skill ''h'' Read ''/p'') \<and>
     (grants (merge_policies [fr, fr]) \<lparr>rq_method = ''GET'', rq_host = ''h'', rq_path = ''/p''\<rparr> \<longleftrightarrow>
      grants (fr_policies fr) \<lparr>rq_method = ''GET'', rq_host = ''h'', rq_path = ''/p''\<rparr>)"
proof -
  have h: "hostname_ish ''h''" "starts_with ''/p'' ''/''"
    by (simp_all add: hostname_ish_def lower_alnum_def js_lower_char_def starts_with_def)
  obtain fr :: fragment where f: "fr_policies fr = compile_policies (\<lambda>rs. rs) (one_skill ''h'' Read ''/p'')"
    using one_skill_compiles [OF disjI1 [OF refl] h] by blast
  then have "\<forall>x \<in> set [fr, fr]. keys_name_hosts (\<lambda>k. ''h'') (fr_policies x)"
    by (simp add: one_skill_policies keys_name_hosts_def compile_group_def)
  from merge_grants_iff [OF this, of "\<lparr>rq_method = ''GET'', rq_host = ''h'', rq_path = ''/p''\<rparr>"] f show ?thesis by auto
qed

text \<open>Without that condition the merge widens the policy: a skill that reads \<open>a.b\<close> and a skill that
  posts to \<open>a-b\<close> share the key \<open>a_b\<close>, and the merged policy grants the \<open>POST\<close> on \<open>a.b\<close>, which no
  skill declares.\<close>

theorem merge_collision_widens:
  "\<exists>fr1 fr2. compile_fragment (\<lambda>rs. rs) (one_skill ''a.b'' Read ''/**'') = Inr fr1 \<and>
     compile_fragment (\<lambda>rs. rs) (one_skill ''a-b'' Create ''/w'') = Inr fr2 \<and>
     (let rq = \<lparr>rq_method = ''POST'', rq_host = ''a.b'', rq_path = ''/w''\<rparr> in
        \<not> grants (fr_policies fr1) rq \<and> \<not> grants (fr_policies fr2) rq \<and> grants (merge_policies [fr1, fr2]) rq)"
proof -
  have h: "hostname_ish ''a.b''" "hostname_ish ''a-b''"
    by (simp_all add: hostname_ish_def lower_alnum_def js_lower_char_def)
  have k: "policy_key ''a.b'' = ''a_b''" "policy_key ''a-b'' = ''a_b''"
    by (simp_all add: policy_key_def lower_alnum_def js_lower_char_def js_lower_def Let_def)
  obtain fr1 where f1: "compile_fragment (\<lambda>rs. rs) (one_skill ''a.b'' Read ''/**'') = Inr fr1"
    "fr_policies fr1 = compile_policies (\<lambda>rs. rs) (one_skill ''a.b'' Read ''/**'')"
    using one_skill_compiles [of Read "''a.b''" "''/**''"] h by (auto simp: starts_with_def)
  obtain fr2 where f2: "compile_fragment (\<lambda>rs. rs) (one_skill ''a-b'' Create ''/w'') = Inr fr2"
    "fr_policies fr2 = compile_policies (\<lambda>rs. rs) (one_skill ''a-b'' Create ''/w'')"
    using one_skill_compiles [of Create "''a-b''" "''/w''"] h by (auto simp: starts_with_def)
  have w: "path_matches ''/w'' ''/w'' = Some True" using path_matches_plain [of "''/w''" "''/w''"] by (simp add: plain_path_def)
  have "\<not> grants (fr_policies fr1) \<lparr>rq_method = ''POST'', rq_host = ''a.b'', rq_path = ''/w''\<rparr>"
    "\<not> grants (fr_policies fr2) \<lparr>rq_method = ''POST'', rq_host = ''a.b'', rq_path = ''/w''\<rparr>"
    "grants (merge_policies [fr1, fr2]) \<lparr>rq_method = ''POST'', rq_host = ''a.b'', rq_path = ''/w''\<rparr>"
    unfolding f1(2) f2(2) merge_policies_def
    by (simp_all add: one_skill_policies grants_grants_in grants_in_def compile_group_def one_skill_rules f1 f2 k merge_group_def w)
  with f1(1) f2(1) show ?thesis by (auto simp: Let_def)
qed

end
