(* ===== verification/Deployment.thy ===== *)
theory Deployment
  imports Intent_Claims Auth Audit_Stream Bus Compile Ledger
begin

text \<open>
  How src/boot.js sets the system up: the settings file, the skills, the identities it issues, the size of the
  operator list, and the ledger whose records feed the audit stream.  What follows for a two-person rule:
  the identities that boot issues cannot satisfy one.
\<close>

section \<open>Settings\<close>

definition setting_char :: "char \<Rightarrow> bool" where
  "setting_char c = (let n = (of_char c :: nat) in (65 \<le> n \<and> n \<le> 90) \<or> (48 \<le> n \<and> n \<le> 57) \<or> n = 95)"

text \<open>\<open>/^\s*([A-Z0-9_]+)\s*=\s*(.*)$/\<close>; the dot matches no line terminator.\<close>

definition setting_line :: "string \<Rightarrow> (string \<times> string) option" where
  "setting_line line =
     (let s = dropWhile js_ws line;
          k = takeWhile setting_char s;
          t = dropWhile js_ws (drop (length k) s) in
      case t of
        [] \<Rightarrow> None
      | c # u \<Rightarrow>
          (let v = dropWhile js_ws u in
           if k \<noteq> [] \<and> c = CHR ''='' \<and> list_all dot_char v then Some (k, js_trim v) else None))"

definition load_setting :: "string \<Rightarrow> (string, string) jsmap \<Rightarrow> (string, string) jsmap" where
  "load_setting line env =
     (case setting_line line of None \<Rightarrow> env | Some (k, v) \<Rightarrow> if jhas env k then env else jset env k v)"

definition load_settings :: "string option \<Rightarrow> (string, string) jsmap \<Rightarrow> (string, string) jsmap" where
  "load_settings file env =
     (case file of None \<Rightarrow> env | Some text \<Rightarrow> foldl (\<lambda>env line. load_setting line env) env (js_split (CHR 0x0A) text))"

text \<open>\<open>process.env.TELEGRAM_ALLOWED_IDS\<close> as a list, and the mode of the intent store.\<close>

definition operator_ids :: "string option \<Rightarrow> string list" where
  "operator_ids v = filter (\<lambda>s. s \<noteq> []) (map js_trim (js_split (CHR '','') (case v of None \<Rightarrow> [] | Some s \<Rightarrow> s)))"

definition boot_intents :: "string option \<Rightarrow> intent_store" where
  "boot_intents v = create_intents (length (operator_ids v) \<le> 1)"

section \<open>Skills and identities\<close>

text \<open>\<open>Inl\<close> refuses to boot.\<close>

definition boot_skills ::
  "skill list \<times> (string \<times> string) list \<Rightarrow> string + skill list \<times> (string, registry_row \<times> string) jsmap" where
  "boot_skills loaded =
     (case loaded of (skills, errors) \<Rightarrow>
        if errors \<noteq> []
        then Inl (show_nat (length errors) @ '' skill manifest(s) failed to compile; refusing to boot half-configured'')
        else Inr (skills, capability_index skills))"

record issued =
  is_operator_id :: caller
  is_see :: caller
  is_viewer :: caller
  is_tokens :: token_store

text \<open>The three identities, from the random tokens and secrets that are drawn for them.\<close>

definition boot_identities :: "string \<Rightarrow> string \<Rightarrow> string \<Rightarrow> string \<Rightarrow> string \<Rightarrow> string \<Rightarrow> issued" where
  "boot_identities s1 r1 s2 r2 s3 r3 =
     (let (operator, m1) = issue_token ''operator:arif'' [scope_propose, scope_read, scope_decide, scope_ledger, scope_halt] s1 r1
                             (create_tokens []);
          (see, m2) = issue_token ''see:leftovers'' [scope_propose] s2 r2 m1;
          (viewer, m3) = issue_token ''demo:viewer'' [scope_read] s3 r3 m2
      in \<lparr>is_operator_id = operator, is_see = see, is_viewer = viewer, is_tokens = m3\<rparr>)"

text \<open>The identity of the stream that boot dials, when one is configured.\<close>

definition dial_identity :: "string \<Rightarrow> string \<Rightarrow> token_store \<Rightarrow> caller \<times> token_store" where
  "dial_identity s r m = issue_token ''stream:dial'' [scope_propose] s r m"

section \<open>The ledger with its observer\<close>

definition boot_append ::
  "(string \<Rightarrow> string) \<Rightarrow> disk \<Rightarrow> level_map \<Rightarrow> wire \<Rightarrow> string \<Rightarrow> string \<Rightarrow> (string \<times> json) list \<Rightarrow> ledger \<times> bus
     \<Rightarrow> (string + json) \<times> ledger \<times> bus" where
  "boot_append hash d levels w now at' entry x =
     (case ledger_append hash d at' entry (fst x) of
        (Inl msg, l) \<Rightarrow> (Inl msg, l, snd x)
      | (Inr rec, l) \<Rightarrow>
          (Inr rec, l,
           if is_audit_worthy rec then snd (publish w now ''audit'' (ledger_to_audit rec levels) (snd x)) else snd x))"

section \<open>What the setup guarantees\<close>

lemma load_setting_keeps: "map_of env k = Some v \<Longrightarrow> map_of (load_setting line env) k = Some v"
  by (auto simp: load_setting_def jhas_def split: option.split)

text \<open>The environment of the process takes precedence over the file.\<close>

lemma settings_precedence: "map_of env k = Some v \<Longrightarrow> map_of (load_settings file env) k = Some v"
proof -
  have "map_of env k = Some v \<Longrightarrow> map_of (foldl (\<lambda>env line. load_setting line env) env ls) k = Some v" for ls
    by (induction ls arbitrary: env) (simp_all add: load_setting_keeps)
  then show "map_of env k = Some v \<Longrightarrow> ?thesis" by (auto simp: load_settings_def split: option.split)
qed

text \<open>A file with carriage returns sets nothing: the dot does not match them.\<close>

lemma crlf_setting_ignored: "setting_line ''OMODA_PORT=1'' = Some (''OMODA_PORT'', ''1'') \<and>
    setting_line (''OMODA_PORT=1'' @ [CHR 0x0D]) = None"
  by code_simp

lemma boot_append_ledger: "fst (snd (boot_append hash d levels w now at' entry (l, b))) = snd (ledger_append hash d at' entry l)"
  by (auto simp: boot_append_def split: prod.split sum.split)

lemma tokens_of_boot:
  "map_of (is_tokens (boot_identities s1 r1 s2 r2 s3 r3)) t = Some c \<Longrightarrow>
     c \<in> {is_operator_id (boot_identities s1 r1 s2 r2 s3 r3), is_see (boot_identities s1 r1 s2 r2 s3 r3),
          is_viewer (boot_identities s1 r1 s2 r2 s3 r3)}"
  by (auto simp: boot_identities_def issue_token_def create_tokens_def Let_def split: if_splits)

text \<open>Who may decide: one of the callers of a token store, with the scope of decisions.\<close>

definition may_decide :: "token_store \<Rightarrow> caller \<Rightarrow> bool" where
  "may_decide m c = (list_ex (\<lambda>tc. map_of m (fst tc) = Some c) m \<and> scope_decide \<in> set (cl_scopes c))"

lemma only_operator_decides:
  assumes "may_decide (snd (dial_identity s4 r4 (is_tokens (boot_identities s1 r1 s2 r2 s3 r3)))) c"
  shows "cl_id c = ''operator:arif''"
proof -
  let ?b = "boot_identities s1 r1 s2 r2 s3 r3"
  obtain t where "map_of (snd (dial_identity s4 r4 (is_tokens ?b))) t = Some c" "scope_decide \<in> set (cl_scopes c)"
    using assms by (auto simp: may_decide_def list_ex_iff)
  then have "c \<in> {is_operator_id ?b, is_see ?b, is_viewer ?b, fst (dial_identity s4 r4 (is_tokens ?b))}"
    using tokens_of_boot by (fastforce simp: dial_identity_def issue_token_def Let_def split: if_splits)
  with \<open>scope_decide \<in> set (cl_scopes c)\<close> show ?thesis
    by (auto simp: boot_identities_def issue_token_def dial_identity_def scope_decide_def scope_propose_def scope_read_def Let_def)
qed

section \<open>One identity and two people\<close>

fun decided_as :: "string \<Rightarrow> intent_op \<Rightarrow> bool" where
  "decided_as who (Op_decide uuid now at' i a v r c) = (cl_id c = who)"
| "decided_as who op = True"

fun decision_caller :: "intent_op \<Rightarrow> caller option" where
  "decision_caller (Op_decide uuid now at' i a v r c) = Some c"
| "decision_caller op = None"

definition lone :: "string \<Rightarrow> intent_store \<Rightarrow> bool" where
  "lone who s = (\<forall>key. approvers_of key s \<in> {[], [who]})"

lemma lone_step: "lone who s \<Longrightarrow> decided_as who op \<Longrightarrow> lone who (intent_step op s)"
proof (cases op)
  case (Op_decide uuid now at' iid a v r c)
  assume l: "lone who s" and d: "decided_as who op"
  show ?thesis
  proof (cases rule: decide_cases [where uuid = uuid and now = now and at = at' and iid = iid and x = a and verdict = v and reason = r and c = c and s = s])
    case (approved i d' apr settled)
    then have "apr = [who]" using l d Op_decide unfolding lone_def by fastforce
    then show ?thesis using l approved(10) Op_decide by (auto simp: lone_def record_approval_def approvers_of_def)
  qed (use l Op_decide in \<open>auto simp: lone_def record_denial_def approvers_of_def\<close>)
qed (auto simp: lone_def approvers_of_def propose_def update_intent_def await_consent_def Let_def split: option.splits if_splits)

lemma lone_run: "lone who s \<Longrightarrow> list_all (decided_as who) ops \<Longrightarrow> lone who (run_ops ops s)"
  by (induction ops arbitrary: s) (simp_all add: lone_step)


section \<open>An instance\<close>

definition issued_tokens :: token_store where
  "issued_tokens = snd (dial_identity ''s4'' ''r4'' (is_tokens (boot_identities ''s1'' ''r1'' ''s2'' ''r2'' ''s3'' ''r3'')))"

definition arif :: caller where
  "arif = is_operator_id (boot_identities ''s1'' ''r1'' ''s2'' ''r2'' ''s3'' ''r3'')"

lemma arif_id: "cl_id arif = ''operator:arif''" and arif_scopes: "scope_decide \<in> set (cl_scopes arif)"
  by (simp_all add: arif_def boot_identities_def issue_token_def Let_def)

lemma arif_may: "may_decide issued_tokens arif"
  by code_simp

lemma two_listed: "length (operator_ids (Some ''1,2'')) = 2"
  by code_simp

lemma two_operators: "boot_intents (Some ''1,2'') = create_intents False"
  by (simp add: boot_intents_def two_listed)

lemma arif_first:
  "\<exists>d s'. decide ''d'' 1000 ''t'' ''int_1'' ''x'' ''approve'' ''ok'' arif recall_store = (Inr d, s')"
  using arif_scopes
  by (simp add: recall_store_eq decide_def new_intent_def person_def arif_id Let_def approvers_of_def find_action_def recall_id
      recall_kind quorum_for_def scope_decide_def)


end
