(* ===== verification/Stream.thy ===== *)
theory Stream
  imports Intents Ledger
begin

text \<open>
  The WebSocket stream ingress of src/api/stream.js: who may drive a stream, and what becomes of an
  event (rejected, duplicate, debounced, shed or accepted), with the wrapping of dialed frames.

  A raw frame reaches \<open>ingest\<close> as \<open>Inr\<close> of the event that JSON and the types of the schema read
  from it, or \<open>Inl\<close> of the message of the failure; the length rules of the schema are checked here.
  \<open>render\<close> is \<open>JSON.stringify\<close> of a payload, \<open>iso\<close> the rendering of a time; both, as \<open>hmac\<close> and
  \<open>hash\<close>, are parameters.
\<close>

record payload =
  pl_detector :: string
  pl_class :: "string option"
  pl_camera :: "string option"
  pl_confidence :: json
  pl_evidence :: "(string \<times> json) list"
  pl_outcome :: string

record event =
  ev_id :: string
  ev_ts :: int
  ev_sig :: string
  ev_payload :: payload

record primitives =
  pr_hmac :: "string \<Rightarrow> string \<Rightarrow> string"
  pr_hash :: "string \<Rightarrow> string"
  pr_render :: "payload \<Rightarrow> string"
  pr_iso :: "int \<Rightarrow> string"

definition schema_ok :: "event \<Rightarrow> bool" where
  "schema_ok e =
     (ev_id e \<noteq> [] \<and> length (ev_id e) \<le> 200 \<and> ev_sig e \<noteq> [] \<and> pl_detector (ev_payload e) \<noteq> [] \<and>
      pl_class (ev_payload e) \<noteq> Some [] \<and> pl_outcome (ev_payload e) \<noteq> [])"

definition sign_event :: "primitives \<Rightarrow> string \<Rightarrow> string \<Rightarrow> int \<Rightarrow> payload \<Rightarrow> string" where
  "sign_event pr secret event_id ts p =
     ''sha256='' @ pr_hmac pr secret (event_id @ ''.'' @ show_int ts @ ''.'' @ pr_render pr p)"

section \<open>Accepting a socket\<close>

definition accept_socket :: "token_store \<Rightarrow> string option \<Rightarrow> (nat \<times> string) + caller" where
  "accept_socket tokens auth =
     (case (case bearer_of auth of None \<Rightarrow> None | Some b \<Rightarrow> map_of tokens b) of
        None \<Rightarrow> Inl (4401, ''unknown token'')
      | Some c \<Rightarrow>
          if scope_propose \<notin> set (cl_scopes c) then Inl (4403, ''stream requires '' @ scope_propose)
          else if scope_decide \<in> set (cl_scopes c) then Inl (4403, ''a decide-capable token may not drive a stream'')
          else Inr c)"

text \<open>The viewers of src/api/outputs.js need the read scope.\<close>

definition accept_viewer :: "token_store \<Rightarrow> string option \<Rightarrow> (nat \<times> string) + caller" where
  "accept_viewer tokens auth =
     (case (case bearer_of auth of None \<Rightarrow> None | Some b \<Rightarrow> map_of tokens b) of
        None \<Rightarrow> Inl (4401, ''unknown token'')
      | Some c \<Rightarrow>
          if scope_read \<notin> set (cl_scopes c) then Inl (4403, ''output streams require '' @ scope_read) else Inr c)"

section \<open>Ingest\<close>

record debounce =
  db_at :: int
  db_intent :: string
  db_count :: nat

record stream =
  sg_events :: "string expiry_map"
  sg_content :: "string expiry_map"
  sg_last :: "(string, debounce) jsmap"
  sg_inflight :: nat
  sg_intents :: intent_store
  sg_ledger :: ledger

datatype stream_outcome =
    Accepted string
  | Duplicate string
  | Debounced string nat
  | Shed string
  | Rejected string

record stream_limits =
  sl_debounce :: int
  sl_dedupe_max :: nat
  sl_max_inflight :: nat

definition default_limits :: stream_limits where
  "default_limits = \<lparr>sl_debounce = 30000, sl_dedupe_max = 5000, sl_max_inflight = 25\<rparr>"

definition create_stream :: "intent_store \<Rightarrow> ledger \<Rightarrow> stream" where
  "create_stream intents l =
     \<lparr>sg_events = [], sg_content = [], sg_last = [], sg_inflight = 0, sg_intents = intents, sg_ledger = l\<rparr>"

definition release :: "stream \<Rightarrow> stream" where
  "release s = s\<lparr>sg_inflight := sg_inflight s - 1\<rparr>"

definition debounce_key :: "payload \<Rightarrow> string" where
  "debounce_key p =
     pl_detector p @ ''|'' @ (case pl_camera p of None \<Rightarrow> ''-'' | Some c \<Rightarrow> c) @ ''|'' @ (case pl_class p of None \<Rightarrow> ''-'' | Some c \<Rightarrow> c)"

definition shed_entry :: "caller \<Rightarrow> event \<Rightarrow> (string \<times> json) list" where
  "shed_entry c e =
     [(''kind'', JStr ''stream''), (''agent'', JStr (cl_id c)), (''tool'', JStr ''stream.ingest''), (''verb'', JStr ''read''),
      (''outcome'', JStr ''shed''), (''reason'', JStr ''queue full''), (''eventId'', JStr (ev_id e)),
      (''detector'', JStr (pl_detector (ev_payload e)))]"

definition opt_json :: "string option \<Rightarrow> json" where
  "opt_json v = (case v of None \<Rightarrow> JUndef | Some s \<Rightarrow> JStr s)"

definition event_body :: "primitives \<Rightarrow> event \<Rightarrow> body" where
  "event_body pr e =
     \<lparr>bd_source = JStr ''stream'', bd_kind = JStr ''detection'', bd_detector = JStr (pl_detector (ev_payload e)),
      bd_confidence = pl_confidence (ev_payload e), bd_observed = JStr (pr_iso pr (ev_ts e * 1000)),
      bd_evidence = Some (jset (jset (pl_evidence (ev_payload e)) ''camera'' (opt_json (pl_camera (ev_payload e))))
                            ''class'' (opt_json (pl_class (ev_payload e)))),
      bd_outcome = JStr (pl_outcome (ev_payload e)), bd_decision = False\<rparr>"

definition event_envelope :: "primitives \<Rightarrow> caller \<Rightarrow> event \<Rightarrow> int \<Rightarrow> transport" where
  "event_envelope pr c e now =
     \<lparr>tr_source = ''stream'', tr_direction = (if starts_with (cl_id c) ''stream:dial'' then ''outbound-dial'' else ''inbound''),
      tr_modality = ''json'', tr_key = Some (ev_id e), tr_received = pr_iso pr now\<rparr>"

definition content_hash :: "primitives \<Rightarrow> event \<Rightarrow> string" where
  "content_hash pr e = take 24 (pr_hash pr (pr_render pr (ev_payload e)))"

text \<open>What remains when an event is neither rejected nor a duplicate nor debounced.\<close>

definition admit_event ::
  "primitives \<Rightarrow> stream_limits \<Rightarrow> string \<Rightarrow> disk \<Rightarrow> caller \<Rightarrow> int \<Rightarrow> event \<Rightarrow> stream \<Rightarrow> stream_outcome \<times> stream" where
  "admit_event pr lim uuid d c now e s =
     (if sg_inflight s \<ge> sl_max_inflight lim
      then (Shed ''in-flight cap reached'',
            s\<lparr>sg_ledger := snd (ledger_append (pr_hash pr) d (pr_iso pr now) (shed_entry c e) (sg_ledger s))\<rparr>)
      else
        (let events = jset (sg_events s) (ev_id e) (now + signature_window);
             ((intent, dup), store) =
               propose uuid (pr_iso pr now) (Some (ev_id e)) (event_body pr e) c (Some (event_envelope pr c e now)) (sg_intents s)
         in (Accepted intent,
             s\<lparr>sg_events := (if length events > sl_dedupe_max lim then tl events else events),
               sg_content := jset (sg_content s) (content_hash pr e) (now + sl_debounce lim),
               sg_last := jset (sg_last s) (debounce_key (ev_payload e)) \<lparr>db_at = now, db_intent = intent, db_count = 1\<rparr>,
               sg_inflight := Suc (sg_inflight s),
               sg_intents := store\<rparr>)))"

definition ingest ::
  "primitives \<Rightarrow> stream_limits \<Rightarrow> string \<Rightarrow> disk \<Rightarrow> caller \<Rightarrow> int \<Rightarrow> string + event \<Rightarrow> stream \<Rightarrow> stream_outcome \<times> stream" where
  "ingest pr lim uuid d c now raw s =
     (case raw of
        Inl msg \<Rightarrow> (Rejected (''schema: '' @ take 160 msg), s)
      | Inr e \<Rightarrow>
          if \<not> schema_ok e then (Rejected ''schema: length'', s)
          else if \<bar>now - ev_ts e * 1000\<bar> > signature_window then (Rejected ''timestamp outside the accepted window'', s)
          else if ev_sig e \<noteq> sign_event pr (cl_secret c) (ev_id e) (ev_ts e) (ev_payload e)
          then (Rejected ''signature mismatch'', s)
          else
            (let s1 = s\<lparr>sg_events := sweep now (sg_events s), sg_content := sweep now (sg_content s)\<rparr> in
             if jhas (sg_events s1) (ev_id e) then (Duplicate ''event_id already seen'', s1)
             else if jhas (sg_content s1) (content_hash pr e) then (Duplicate ''identical payload inside the window'', s1)
             else
               (case map_of (sg_last s1) (debounce_key (ev_payload e)) of
                  Some prior \<Rightarrow>
                    if now - db_at prior < sl_debounce lim
                    then (Debounced (db_intent prior) (Suc (db_count prior)),
                          s1\<lparr>sg_last := jset (sg_last s1) (debounce_key (ev_payload e)) (prior\<lparr>db_count := Suc (db_count prior)\<rparr>),
                             sg_events := jset (sg_events s1) (ev_id e) (now + signature_window)\<rparr>)
                    else admit_event pr lim uuid d c now e s1
                | None \<Rightarrow> admit_event pr lim uuid d c now e s1)))"

section \<open>Frames of a dialed stream\<close>

text \<open>
  \<open>wrap\<close>: a frame is a payload, or an envelope whose event id and integral time stamp are kept;
  the event is signed with the dialer's own secret.  \<open>counter\<close> numbers the frames without an id.
\<close>

record frame =
  fm_event_id :: "string option"
  fm_ts :: "int option"
  fm_payload :: payload

definition wrap_frame :: "primitives \<Rightarrow> string \<Rightarrow> int \<Rightarrow> frame \<Rightarrow> nat \<Rightarrow> event \<times> nat" where
  "wrap_frame pr secret now f counter =
     (let ts = (case fm_ts f of Some t \<Rightarrow> t | None \<Rightarrow> now div 1000);
          own = (case fm_event_id f of None \<Rightarrow> True | Some i \<Rightarrow> i = []);
          i = (if own then ''dial-'' @ take 16 (pr_hash pr (pr_render pr (fm_payload f))) @ ''-'' @ show_nat counter
               else the (fm_event_id f))
      in (\<lparr>ev_id = i, ev_ts = ts, ev_sig = sign_event pr secret i ts (fm_payload f), ev_payload = fm_payload f\<rparr>,
          if own then Suc counter else counter))"

definition handle_frame ::
  "primitives \<Rightarrow> stream_limits \<Rightarrow> string \<Rightarrow> disk \<Rightarrow> caller \<Rightarrow> int \<Rightarrow> frame option \<Rightarrow> stream \<times> nat \<Rightarrow> stream_outcome \<times> stream \<times> nat" where
  "handle_frame pr lim uuid d c now f s =
     (case f of
        None \<Rightarrow> (Rejected ''frame is not a JSON object'', s)
      | Some f \<Rightarrow>
          (let (e, n) = wrap_frame pr (cl_secret c) now f (snd s);
               (out, s') = ingest pr lim uuid d c now (Inr e) (fst s)
           in (out, s', n)))"

text \<open>The delay before a redial doubles up to its maximum.\<close>

definition next_backoff :: "int \<Rightarrow> int \<Rightarrow> int" where
  "next_backoff limit backoff = min (backoff * 2) limit"

end
