(* ===== verification/Dialer.thy ===== *)
theory Dialer
  imports Stream Bus
begin

text \<open>
  The sockets of the stream service: the dialer of src/api/stream.js and its twin in src/coco/live.js, event by
  event, and the decision of the upgrade handler.

  A socket and a timer are numbers.  A closed socket reports its closing later, as an event of its own; the
  variable \<open>timer\<close> of the code holds only the timer that was set last.
\<close>

section \<open>One dialer\<close>

record dialer =
  dl_running :: bool
  dl_backoff :: int
  dl_timer :: "nat option"
  dl_ws :: "nat option"
  dl_live :: "nat list"
  dl_pending :: "(nat \<times> int) list"
  dl_made :: nat
  dl_set :: nat

record dial_limits =
  di_reconnect :: int
  di_max :: int

definition default_dial :: dial_limits where
  "default_dial = \<lparr>di_reconnect = 5000, di_max = 60000\<rparr>"

definition create_dialer :: "dial_limits \<Rightarrow> dialer" where
  "create_dialer lim =
     \<lparr>dl_running = False, dl_backoff = di_reconnect lim, dl_timer = None, dl_ws = None, dl_live = [], dl_pending = [], dl_made = 0,
      dl_set = 0\<rparr>"

definition dial_connect :: "dialer \<Rightarrow> dialer" where
  "dial_connect s = s\<lparr>dl_ws := Some (dl_made s), dl_live := dl_made s # dl_live s, dl_made := Suc (dl_made s)\<rparr>"

definition dial_start :: "dialer \<Rightarrow> dialer" where
  "dial_start s = dial_connect (s\<lparr>dl_running := True\<rparr>)"

definition dial_clear :: "dialer \<Rightarrow> dialer" where
  "dial_clear s = s\<lparr>dl_pending := filter (\<lambda>p. Some (fst p) \<noteq> dl_timer s) (dl_pending s)\<rparr>"

definition dial_stop :: "dialer \<Rightarrow> dialer" where
  "dial_stop s = dial_clear (s\<lparr>dl_running := False\<rparr>)"

definition dial_closed :: "dial_limits \<Rightarrow> nat \<Rightarrow> dialer \<Rightarrow> dialer" where
  "dial_closed lim k s =
     (if k \<notin> set (dl_live s) then s
      else
        (let s = s\<lparr>dl_live := removeAll k (dl_live s)\<rparr> in
         if \<not> dl_running s then s
         else s\<lparr>dl_pending := dl_pending s @ [(dl_set s, dl_backoff s)], dl_timer := Some (dl_set s), dl_set := Suc (dl_set s),
                dl_backoff := next_backoff (di_max lim) (dl_backoff s)\<rparr>))"

definition dial_fires :: "nat \<Rightarrow> dialer \<Rightarrow> dialer" where
  "dial_fires t s =
     (if t \<notin> fst ` set (dl_pending s) then s
      else
        (let s = s\<lparr>dl_pending := filter (\<lambda>p. fst p \<noteq> t) (dl_pending s)\<rparr> in
         if dl_running s then dial_connect s else s))"

datatype dialer_event = Dial_start | Dial_stop | Dial_opened nat | Dial_closed nat | Dial_fires nat

fun dialer_step :: "dial_limits \<Rightarrow> dialer_event \<Rightarrow> dialer \<Rightarrow> dialer" where
  "dialer_step lim Dial_start s = dial_start s"
| "dialer_step lim Dial_stop s = dial_stop s"
| "dialer_step lim (Dial_opened k) s = (if k \<in> set (dl_live s) then s\<lparr>dl_backoff := di_reconnect lim\<rparr> else s)"
| "dialer_step lim (Dial_closed k) s = dial_closed lim k s"
| "dialer_step lim (Dial_fires t) s = dial_fires t s"

text \<open>A start is orderly if the dialer is stopped and the closing of its last socket has arrived.\<close>

fun orderly :: "dialer_event \<Rightarrow> dialer \<Rightarrow> bool" where
  "orderly Dial_start s = (\<not> dl_running s \<and> dl_live s = [])"
| "orderly e s = True"

inductive dial_reach :: "dial_limits \<Rightarrow> dialer \<Rightarrow> bool" for lim where
  dial_created: "dial_reach lim (create_dialer lim)"
| dial_stepped: "dial_reach lim s \<Longrightarrow> orderly e s \<Longrightarrow> dial_reach lim (dialer_step lim e s)"

definition dial_inv :: "dial_limits \<Rightarrow> dialer \<Rightarrow> bool" where
  "dial_inv lim s =
     (di_reconnect lim \<le> dl_backoff s \<and> dl_backoff s \<le> di_max lim \<and>
      (if dl_running s
       then (\<exists>k. dl_live s = [k] \<and> dl_pending s = []) \<or>
            (\<exists>t d. dl_live s = [] \<and> dl_pending s = [(t, d)] \<and> dl_timer s = Some t \<and> di_reconnect lim \<le> d \<and> d \<le> di_max lim)
       else dl_pending s = [] \<and> (dl_live s = [] \<or> (\<exists>k. dl_live s = [k]))))"

lemmas dial_simps = dial_connect_def dial_start_def dial_clear_def dial_stop_def dial_closed_def dial_fires_def next_backoff_def

lemma dial_step_inv:
  assumes "0 < di_reconnect lim" and "di_reconnect lim \<le> di_max lim" and "dial_inv lim s" and "orderly e s"
  shows "dial_inv lim (dialer_step lim e s)"
  using assms by (cases e) (auto simp: dial_inv_def dial_simps Let_def split: if_splits)

lemma dial_reach_inv:
  assumes "0 < di_reconnect lim" and "di_reconnect lim \<le> di_max lim" and "dial_reach lim s"
  shows "dial_inv lim s"
  using assms(3)
proof induction
  case dial_created
  show ?case using assms(1,2) by (simp add: create_dialer_def dial_inv_def)
next
  case (dial_stepped s e)
  show ?case by (rule dial_step_inv [OF assms(1,2) dial_stepped.IH dial_stepped.hyps(2)])
qed

text \<open>An orderly dialer holds one connection and never gives up: while it runs there is one open socket, or one
  redial pending whose delay lies between the two limits, and never both; once stopped no redial is pending.\<close>

theorem dialer_one_connection:
  assumes "0 < di_reconnect lim" and "di_reconnect lim \<le> di_max lim" and "dial_reach lim s"
  shows "length (dl_live s) \<le> 1 \<and>
    (if dl_running s
     then length (dl_live s) + length (dl_pending s) = 1 \<and> list_all (\<lambda>p. di_reconnect lim \<le> snd p \<and> snd p \<le> di_max lim) (dl_pending s)
     else dl_pending s = [])"
  using dial_reach_inv [OF assms] by (auto simp: dial_inv_def split: if_splits)

theorem dialer_one_connection_witness:
  "dl_pending (dialer_step default_dial (Dial_closed 0) (dialer_step default_dial Dial_start (create_dialer default_dial))) = [(0, 5000)] \<and>
   length (dl_live (dialer_step default_dial (Dial_closed 0) (dialer_step default_dial Dial_start (create_dialer default_dial)))) \<le> 1"
proof -
  have r: "dial_reach default_dial (dialer_step default_dial (Dial_closed 0) (dialer_step default_dial Dial_start (create_dialer default_dial)))"
    by (intro dial_stepped dial_created) (simp_all add: create_dialer_def)
  have "0 < di_reconnect default_dial" "di_reconnect default_dial \<le> di_max default_dial" by (simp_all add: default_dial_def)
  from dialer_one_connection [OF this r] show ?thesis
    by (simp add: create_dialer_def default_dial_def dial_simps)
qed

text \<open>Restarted before the closing of its old socket arrived, a dialer ends up with two connections, each of which redials
  by itself from then on.\<close>

definition hasty_restart :: dialer where
  "hasty_restart =
     fold (dialer_step default_dial) [Dial_start, Dial_opened 0, Dial_stop, Dial_start, Dial_closed 0, Dial_fires 0]
       (create_dialer default_dial)"

lemma hasty_restart_doubles: "dl_live hasty_restart = [2, 1] \<and> dl_running hasty_restart"
  by (simp add: hasty_restart_def create_dialer_def default_dial_def dial_simps Let_def)

text \<open>Nor does a stop cancel every redial then: only the timer set last is cleared.\<close>

lemma stop_leaves_timers:
  "dl_pending (fold (dialer_step default_dial) [Dial_closed 2, Dial_closed 1, Dial_stop] hasty_restart) \<noteq> []"
  by (simp add: hasty_restart_def create_dialer_def default_dial_def dial_simps Let_def)

section \<open>The pair of dialers of the live camera client\<close>

text \<open>\<open>createCocoLive\<close>: one flag for all dialers, two of which every start adds.\<close>

record camera_dials =
  cm_running :: bool
  cm_dials :: "dialer list"

definition camera_start :: "dial_limits \<Rightarrow> camera_dials \<Rightarrow> camera_dials" where
  "camera_start lim s =
     (let fresh = dial_start (create_dialer lim)
      in \<lparr>cm_running = True, cm_dials = map (\<lambda>d. d\<lparr>dl_running := True\<rparr>) (cm_dials s) @ [fresh, fresh]\<rparr>)"

definition camera_stop :: "camera_dials \<Rightarrow> camera_dials" where
  "camera_stop s = \<lparr>cm_running = False, cm_dials = map dial_stop (cm_dials s)\<rparr>"

definition camera_event :: "dial_limits \<Rightarrow> nat \<Rightarrow> dialer_event \<Rightarrow> camera_dials \<Rightarrow> camera_dials" where
  "camera_event lim i e s = s\<lparr>cm_dials := (cm_dials s)[i := dialer_step lim e (cm_dials s ! i)]\<rparr>"

definition camera_sockets :: "camera_dials \<Rightarrow> nat" where
  "camera_sockets s = sum_list (map (\<lambda>d. length (dl_live d)) (cm_dials s))"

text \<open>A restart revives the dialer of a socket whose closing had not arrived: three connections instead of two.\<close>

lemma camera_restart_revives:
  "camera_sockets
     (camera_event default_dial 0 (Dial_fires 0) (camera_event default_dial 0 (Dial_closed 0) (camera_event default_dial 1 (Dial_closed 0)
       (camera_start default_dial (camera_stop (camera_start default_dial \<lparr>cm_running = False, cm_dials = []\<rparr>)))))) = 3"
  by (simp add: camera_event_def camera_start_def camera_stop_def camera_sockets_def create_dialer_def default_dial_def dial_simps Let_def)

section \<open>The upgrade handler\<close>

record outputs =
  op_tokens :: token_store
  op_open :: bool

datatype upgrade = Destroyed | Unauthorized string | Viewer_of string | Producer caller

definition unauthorized :: "string \<Rightarrow> upgrade" where
  "unauthorized reason = Unauthorized (''HTTP/1.1 401 Unauthorized'' @ [CHR 0x0D, CHR 0x0A, CHR 0x0D, CHR 0x0A] @ reason)"

definition upgrade_for :: "outputs option \<Rightarrow> token_store \<Rightarrow> string \<Rightarrow> string \<Rightarrow> string option \<Rightarrow> upgrade" where
  "upgrade_for outs tokens path pathname auth =
     (case (case outs of None \<Rightarrow> None | Some o' \<Rightarrow> map_option (\<lambda>t. (o', t)) (output_topic_for pathname)) of
        Some (o', topic) \<Rightarrow>
          (if \<not> op_open o'
           then (case accept_viewer (op_tokens o') auth of Inl (code, reason) \<Rightarrow> unauthorized reason | Inr c \<Rightarrow> Viewer_of topic)
           else Viewer_of topic)
      | None \<Rightarrow>
          if pathname \<noteq> path then Destroyed
          else (case accept_socket tokens auth of Inl (code, reason) \<Rightarrow> unauthorized reason | Inr c \<Rightarrow> Producer c))"

text \<open>Who becomes a producer holds a token to propose and none to decide; who becomes a viewer gets one of the five
  topics, by a token to read unless the outputs are open.\<close>

lemma upgrade_producer:
  "upgrade_for outs tokens path pathname auth = Producer c \<Longrightarrow>
     pathname = path \<and> (\<exists>b. bearer_of auth = Some b \<and> map_of tokens b = Some c) \<and>
     scope_propose \<in> set (cl_scopes c) \<and> scope_decide \<notin> set (cl_scopes c)"
  by (auto simp: upgrade_for_def accept_socket_def unauthorized_def split: option.splits if_splits sum.splits)

lemma upgrade_viewer:
  "upgrade_for outs tokens path pathname auth = Viewer_of topic \<Longrightarrow>
     output_topic_for pathname = Some topic \<and>
     (\<exists>o'. outs = Some o' \<and>
        (op_open o' \<or> (\<exists>b c. bearer_of auth = Some b \<and> map_of (op_tokens o') b = Some c \<and> scope_read \<in> set (cl_scopes c))))"
  by (auto simp: upgrade_for_def accept_viewer_def accept_socket_def unauthorized_def split: option.splits if_splits sum.splits)

end
