(* ===== verification/Gateway.thy ===== *)
theory Gateway
  imports Modality Narrate Ledger Json_Roundtrip
begin

text \<open>
  The client of the agent gateway, src/gateway/openclaw.js: the identity of the device and the payload it
  signs, the connect parameters, and the frame exchange that answers each request by its id.

  The keys (\<open>spki\<close>, the DER form of the public key of a PEM text), SHA-256 and the signature are
  parameters.  A promise is its outcome, set once: by the answer, by the timer of \<open>withTimeout\<close>, or by
  the close of the socket, whichever comes first.
\<close>

section \<open>The device\<close>

definition ed25519_prefix :: string where
  "ed25519_prefix =
     [CHR 0x30, CHR 0x2A, CHR 0x30, CHR 0x05, CHR 0x06, CHR 0x03, CHR 0x2B, CHR 0x65, CHR 0x70, CHR 0x03, CHR 0x21, CHR 0x00]"

definition strip_padding :: "string \<Rightarrow> string" where
  "strip_padding s = rev (dropWhile (\<lambda>c. c = CHR ''='') (rev s))"

definition base64_url :: "string \<Rightarrow> string" where
  "base64_url bytes =
     strip_padding (map (\<lambda>c. if c = CHR ''+'' then CHR ''-'' else if c = CHR ''/'' then CHR ''_'' else c) (base64 bytes))"

definition raw_public_key :: "string \<Rightarrow> string" where
  "raw_public_key spki =
     (if length spki = length ed25519_prefix + 32 \<and> take (length ed25519_prefix) spki = ed25519_prefix
      then drop (length ed25519_prefix) spki else spki)"

record auth_params =
  ap_device :: string
  ap_client :: string
  ap_mode :: string
  ap_role :: string
  ap_scopes :: "string list"
  ap_signed :: int
  ap_token :: "string option"
  ap_nonce :: json
  ap_platform :: "string option"
  ap_family :: "string option"

definition trimmed :: "string option \<Rightarrow> string" where
  "trimmed v = (case v of None \<Rightarrow> [] | Some s \<Rightarrow> js_trim s)"

text \<open>What \<open>join\<close> makes of the nonce, which is whatever the gateway sent.\<close>

definition joined :: "json \<Rightarrow> string" where
  "joined v = (if nullish v then [] else js_string v)"

definition payload_fields :: "auth_params \<Rightarrow> string list" where
  "payload_fields p =
     [''v3'', ap_device p, ap_client p, ap_mode p, ap_role p, js_join '','' (ap_scopes p), show_int (ap_signed p),
      (case ap_token p of None \<Rightarrow> [] | Some t \<Rightarrow> t), joined (ap_nonce p), trimmed (ap_platform p), trimmed (ap_family p)]"

definition device_payload :: "auth_params \<Rightarrow> string" where
  "device_payload p = js_join ''|'' (payload_fields p)"

record identity =
  dv_id :: string
  dv_public :: string
  dv_pem :: string
  dv_source :: string

text \<open>The key files, by path.  \<open>pem\<close> is the key that is generated when none is found.\<close>

definition key_at :: "string option \<Rightarrow> (string, string) jsmap \<Rightarrow> string option" where
  "key_at path keys = (case path of None \<Rightarrow> None | Some p \<Rightarrow> if p = [] then None else map_of keys p)"

definition identity_of :: "(string \<Rightarrow> string + string) \<Rightarrow> (string \<Rightarrow> string) \<Rightarrow> string \<Rightarrow> string \<Rightarrow> string + identity" where
  "identity_of spki sha pem source =
     (case spki pem of
        Inl err \<Rightarrow> Inl err
      | Inr der \<Rightarrow>
          Inr \<lparr>dv_id = sha (raw_public_key der), dv_public = base64_url (raw_public_key der), dv_pem = pem, dv_source = source\<rparr>)"

definition has_text :: "string option \<Rightarrow> bool" where
  "has_text v = (case v of None \<Rightarrow> False | Some s \<Rightarrow> s \<noteq> [])"

definition resolve_identity ::
  "(string \<Rightarrow> string + string) \<Rightarrow> (string \<Rightarrow> string) \<Rightarrow> disk \<Rightarrow> string \<Rightarrow> string option \<Rightarrow> string option \<Rightarrow> (string, string) jsmap
     \<Rightarrow> (string + identity) \<times> (string, string) jsmap" where
  "resolve_identity spki sha d fresh configured path keys =
     (if has_text configured then (identity_of spki sha (the configured) ''configured'', keys)
      else
        (let found = key_at path keys in
         if has_text found then (identity_of spki sha (the found) ''persisted'', keys)
         else if \<not> has_text path then (identity_of spki sha fresh ''ephemeral'', keys)
         else
           (case d of
              Disk_fails msg part \<Rightarrow> (Inl msg, if part = [] then keys else jset keys (the path) part)
            | Disk_ok \<Rightarrow> (identity_of spki sha fresh ''generated'', jset keys (the path) fresh))))"

section \<open>The connect parameters\<close>

record connect_opts =
  cn_nonce :: json
  cn_identity :: "identity option"
  cn_client :: string
  cn_mode :: string
  cn_version :: string
  cn_role :: string
  cn_scopes :: "string list"
  cn_platform :: string
  cn_family :: "string option"
  cn_token :: "string option"
  cn_device_token :: "string option"
  cn_password :: "string option"
  cn_signed :: int

definition protocol_version :: int where
  "protocol_version = 4"

definition default_opts :: "string \<Rightarrow> json \<Rightarrow> identity option \<Rightarrow> int \<Rightarrow> connect_opts" where
  "default_opts platform nonce ident now =
     \<lparr>cn_nonce = nonce, cn_identity = ident, cn_client = ''gateway-client'', cn_mode = ''backend'', cn_version = ''paperclip'',
      cn_role = ''operator'', cn_scopes = [''operator.admin''], cn_platform = platform, cn_family = None, cn_token = None,
      cn_device_token = None, cn_password = None, cn_signed = now\<rparr>"

definition opt_field :: "string \<Rightarrow> string option \<Rightarrow> (string \<times> json) list" where
  "opt_field k v = (if has_text v then [(k, JStr (the v))] else [])"

definition connect_auth :: "connect_opts \<Rightarrow> json" where
  "connect_auth c =
     (if has_text (cn_token c) \<or> has_text (cn_password c) \<or> has_text (cn_device_token c)
      then JObj (opt_field ''token'' (cn_token c) @ opt_field ''deviceToken'' (cn_device_token c) @ opt_field ''password'' (cn_password c))
      else JUndef)"

definition signed_params :: "connect_opts \<Rightarrow> identity \<Rightarrow> auth_params" where
  "signed_params c i =
     \<lparr>ap_device = dv_id i, ap_client = cn_client c, ap_mode = cn_mode c, ap_role = cn_role c, ap_scopes = cn_scopes c,
      ap_signed = cn_signed c, ap_token = cn_token c, ap_nonce = cn_nonce c, ap_platform = Some (cn_platform c), ap_family = cn_family c\<rparr>"

definition sign_payload :: "(string \<Rightarrow> string \<Rightarrow> string) \<Rightarrow> string \<Rightarrow> string \<Rightarrow> string" where
  "sign_payload sign pem payload = base64_url (sign pem payload)"

definition connect_device :: "(string \<Rightarrow> string \<Rightarrow> string) \<Rightarrow> connect_opts \<Rightarrow> identity \<Rightarrow> json" where
  "connect_device sign c i =
     JObj [(''id'', JStr (dv_id i)), (''publicKey'', JStr (dv_public i)),
           (''signature'', JStr (sign_payload sign (dv_pem i) (device_payload (signed_params c i)))),
           (''signedAt'', JNum (cn_signed c)), (''nonce'', cn_nonce c)]"

definition connect_params :: "(string \<Rightarrow> string \<Rightarrow> string) \<Rightarrow> connect_opts \<Rightarrow> json" where
  "connect_params sign c =
     JObj ([(''minProtocol'', JNum protocol_version), (''maxProtocol'', JNum protocol_version),
            (''client'', JObj ([(''id'', JStr (cn_client c)), (''version'', JStr (cn_version c)), (''platform'', JStr (cn_platform c))] @
               opt_field ''deviceFamily'' (cn_family c) @ [(''mode'', JStr (cn_mode c))])),
            (''role'', JStr (cn_role c)), (''scopes'', JArr (map JStr (cn_scopes c))), (''auth'', connect_auth c)] @
           (case cn_identity c of None \<Rightarrow> [] | Some i \<Rightarrow> [(''device'', connect_device sign c i)]))"

section \<open>The exchange\<close>

record gw_error =
  ge_message :: string
  ge_code :: json
  ge_details :: json

definition gw_failure :: "string \<Rightarrow> gw_error" where
  "gw_failure msg = \<lparr>ge_message = msg, ge_code = JUndef, ge_details = JUndef\<rparr>"

record gateway =
  gw_socket :: bool
  gw_pending :: "string list"
  gw_outcomes :: "(string, gw_error + json) jsmap"
  gw_challenge :: "(gw_error + json) option"
  gw_events :: "json list"
  gw_sent :: "json list"

definition create_gateway :: "bool \<Rightarrow> string + gateway" where
  "create_gateway has_impl =
     (if \<not> has_impl then Inl ''createGatewayClient requires a WebSocket implementation''
      else Inr \<lparr>gw_socket = False, gw_pending = [], gw_outcomes = [], gw_challenge = None, gw_events = [], gw_sent = []\<rparr>)"

definition settle_request :: "string \<Rightarrow> gw_error + json \<Rightarrow> gateway \<Rightarrow> gateway" where
  "settle_request i out g = (if jhas (gw_outcomes g) i then g else g\<lparr>gw_outcomes := jset (gw_outcomes g) i out\<rparr>)"

definition settle_challenge :: "gw_error + json \<Rightarrow> gateway \<Rightarrow> gateway" where
  "settle_challenge out g = (if gw_challenge g = None then g\<lparr>gw_challenge := Some out\<rparr> else g)"

text \<open>What a response resolves or rejects its request with.\<close>

definition response_outcome :: "json \<Rightarrow> gw_error + json" where
  "response_outcome frame =
     (if obj_get frame ''ok'' = JBool False
      then Inl \<lparr>ge_message = js_string (js_coalesce (obj_get (obj_get frame ''error'') ''message'') (JStr ''gateway request failed'')),
                ge_code = obj_get (obj_get frame ''error'') ''code'', ge_details = obj_get (obj_get frame ''error'') ''details''\<rparr>
      else Inr (js_coalesce (js_coalesce (obj_get frame ''payload'') (obj_get frame ''result'')) (JObj [])))"

definition null_type :: string where
  "null_type = ''Cannot read properties of null (reading 'type')''"

text \<open>\<open>handle\<close>, without the optional observer of the frames; the frame \<open>null\<close> makes it throw.\<close>

definition gw_handle :: "string \<Rightarrow> gateway \<Rightarrow> (string + unit) \<times> gateway" where
  "gw_handle raw g =
     (case json_parse raw of
        None \<Rightarrow> (Inr (), g)
      | Some frame \<Rightarrow>
          if frame = JNull then (Inl null_type, g)
          else if obj_get frame ''type'' = JStr ''event'' then
            (let g' = g\<lparr>gw_events := gw_events g @ [frame]\<rparr> in
             (Inr (), if obj_get frame ''event'' = JStr ''connect.challenge''
                      then settle_challenge (Inr (obj_get (obj_get frame ''payload'') ''nonce'')) g' else g'))
          else if obj_get frame ''type'' = JStr ''res'' then
            (case obj_get frame ''id'' of
               JStr i \<Rightarrow>
                 if i \<in> set (gw_pending g)
                 then (Inr (), settle_request i (response_outcome frame) (g\<lparr>gw_pending := remove1 i (gw_pending g)\<rparr>))
                 else (Inr (), g)
             | _ \<Rightarrow> (Inr (), g))
          else (Inr (), g))"

definition fail_all :: "gw_error \<Rightarrow> gateway \<Rightarrow> gateway" where
  "fail_all err g =
     settle_challenge (Inl err) ((foldl (\<lambda>g i. settle_request i (Inl err) g) g (gw_pending g))\<lparr>gw_pending := []\<rparr>)"

definition gw_close :: "int \<Rightarrow> string \<Rightarrow> gateway \<Rightarrow> gateway" where
  "gw_close code why g = fail_all (gw_failure (''gateway closed ('' @ show_int code @ ''): '' @ why)) g"

text \<open>\<open>request\<close> up to the promise it returns; \<open>send\<close> is what the socket's send throws, if it does.\<close>

definition gw_request :: "string \<Rightarrow> string \<Rightarrow> json \<Rightarrow> string option \<Rightarrow> gateway \<Rightarrow> (string + string) \<times> gateway" where
  "gw_request i meth params send g =
     (if \<not> gw_socket g then (Inl ''gateway not connected'', g)
      else
        (let frame = JObj [(''type'', JStr ''req''), (''id'', JStr i), (''method'', JStr meth), (''params'', params)];
             g' = g\<lparr>gw_pending := (if i \<in> set (gw_pending g) then gw_pending g else gw_pending g @ [i])\<rparr>
         in case send of
              None \<Rightarrow> (Inr i, g'\<lparr>gw_sent := gw_sent g' @ [frame]\<rparr>)
            | Some msg \<Rightarrow> (Inr i, settle_request i (Inl (gw_failure msg)) g')))"

text \<open>The timer of a request: its promise is rejected, its resolver stays.\<close>

definition gw_timeout :: "string \<Rightarrow> string \<Rightarrow> gateway \<Rightarrow> gateway" where
  "gw_timeout i meth g = settle_request i (Inl (gw_failure (''gateway '' @ meth @ '' timeout''))) g"

datatype socket_event = Sock_open | Sock_error string | Sock_close int

text \<open>\<open>open\<close>: the socket is there at once; the result is that of the first event, or of the timer.\<close>

definition gw_open :: "socket_event option \<Rightarrow> gateway \<Rightarrow> (string + unit) \<times> gateway" where
  "gw_open ev g =
     (case ev of
        None \<Rightarrow> Inl ''gateway websocket open timeout''
      | Some Sock_open \<Rightarrow> Inr ()
      | Some (Sock_error msg) \<Rightarrow> Inl msg
      | Some (Sock_close code) \<Rightarrow> Inl (''gateway closed before open ('' @ show_int code @ '')''),
      g\<lparr>gw_socket := True\<rparr>)"

text \<open>\<open>awaitChallenge\<close>, when the timer fires or the challenge has settled.\<close>

definition await_challenge :: "gateway \<Rightarrow> gw_error + json" where
  "await_challenge g = (case gw_challenge g of None \<Rightarrow> Inl (gw_failure ''gateway connect challenge timeout'') | Some out \<Rightarrow> out)"

section \<open>Pairing\<close>

definition pairing_codes :: "string list" where
  "pairing_codes = [''NOT_PAIRED'', ''PAIRING_REQUIRED'', ''DEVICE_IDENTITY_REQUIRED'', ''DEVICE_NOT_PAIRED'']"

definition is_pairing_error :: "gw_error \<Rightarrow> bool" where
  "is_pairing_error e =
     list_ex (\<lambda>v. map js_upper_char (js_string v) \<in> set pairing_codes) (filter truthy [ge_code e, obj_get (ge_details e) ''code''])"

end
