(* ===== verification/Gateway_Claims.thy ===== *)
theory Gateway_Claims
  imports Gateway
begin

text \<open>
  What the gateway client guarantees: the signed payload determines the fields it was built from, the
  device keeps its identity, and in every interleaving of requests, frames, timers and closes a
  request is answered by the response to it and by nothing else.
\<close>

section \<open>The signed payload\<close>

lemma split_join: "xs \<noteq> [] \<Longrightarrow> list_all (\<lambda>x. c \<notin> set x) xs \<Longrightarrow> js_split c (js_join [c] xs) = xs"
  by (induction "[c]" xs rule: js_join.induct) (simp_all add: js_split_no_sep js_split_append)

lemma join_inj:
  assumes "js_join [c] xs = js_join [c] ys" and "xs \<noteq> []" and "ys \<noteq> []"
    and "list_all (\<lambda>x. c \<notin> set x) xs" and "list_all (\<lambda>x. c \<notin> set x) ys"
  shows "xs = ys"
  using assms split_join by metis

text \<open>The separators of the payload do not occur in the fields.\<close>

definition clean_params :: "auth_params \<Rightarrow> bool" where
  "clean_params p = (list_all (\<lambda>x. CHR ''|'' \<notin> set x) (payload_fields p) \<and> ap_scopes p \<noteq> [] \<and>
     list_all (\<lambda>x. CHR '','' \<notin> set x) (ap_scopes p))"

lemma show_int_inj_json: "show_int i = show_int j \<Longrightarrow> i = j"
  using json_str_inj [of "JNum i" "JNum j"] by simp

text \<open>One signature, one request to connect: two parameter sets whose fields are free of the separators
  produce the same signed payload only if they agree on everything the payload stands for, the
  device, the client, its mode and role, every scope in order, the time, the token, the nonce and the platform.\<close>

theorem payload_binds:
  assumes "clean_params p" and "clean_params q" and "device_payload p = device_payload q"
  shows "ap_device p = ap_device q \<and> ap_client p = ap_client q \<and> ap_mode p = ap_mode q \<and> ap_role p = ap_role q \<and>
    ap_scopes p = ap_scopes q \<and> ap_signed p = ap_signed q \<and>
    (case ap_token p of None \<Rightarrow> [] | Some t \<Rightarrow> t) = (case ap_token q of None \<Rightarrow> [] | Some t \<Rightarrow> t) \<and>
    joined (ap_nonce p) = joined (ap_nonce q) \<and> trimmed (ap_platform p) = trimmed (ap_platform q) \<and>
    trimmed (ap_family p) = trimmed (ap_family q)"
proof -
  have "payload_fields r \<noteq> []" for r by (simp add: payload_fields_def)
  then have eq: "payload_fields p = payload_fields q"
    by (intro join_inj [where c = "CHR ''|''"]) (use assms in \<open>simp_all add: device_payload_def clean_params_def\<close>)
  then have "js_join [CHR '',''] (ap_scopes p) = js_join [CHR '',''] (ap_scopes q)" by (simp add: payload_fields_def)
  then have "ap_scopes p = ap_scopes q"
    by (rule join_inj) (use assms in \<open>simp_all add: clean_params_def\<close>)
  then show ?thesis using eq by (simp add: payload_fields_def show_int_inj_json)
qed

definition demo_identity :: identity where
  "demo_identity = \<lparr>dv_id = ''ab12'', dv_public = ''pk'', dv_pem = ''pem'', dv_source = ''configured''\<rparr>"

definition demo_signed :: auth_params where
  "demo_signed = signed_params (default_opts ''linux'' (JStr ''n1'') (Some demo_identity) 1000) demo_identity"

theorem payload_binds_witness:
  "device_payload demo_signed = ''v3|ab12|gateway-client|backend|operator|operator.admin|1000||n1|linux|'' \<and>
   (case ap_token (demo_signed\<lparr>ap_token := Some []\<rparr>) of None \<Rightarrow> [] | Some t \<Rightarrow> t) = (case ap_token demo_signed of None \<Rightarrow> [] | Some t \<Rightarrow> t)"
proof -
  have c: "clean_params demo_signed" "clean_params (demo_signed\<lparr>ap_token := Some []\<rparr>)" by code_simp+
  have "device_payload demo_signed = ''v3|ab12|gateway-client|backend|operator|operator.admin|1000||n1|linux|''" by code_simp
  moreover have "device_payload (demo_signed\<lparr>ap_token := Some []\<rparr>) = device_payload demo_signed" by code_simp
  ultimately show ?thesis using payload_binds [OF c(2,1)] by blast
qed

section \<open>The identity of the device\<close>

text \<open>A device keeps its identity: once it was resolved with a key file, every later resolution with that file
  yields the same id and the same key, read back instead of generated, whatever key would be generated then.\<close>

theorem identity_persists:
  assumes "resolve_identity spki sha d fresh None (Some path) keys = (Inr i, keys')" and "path \<noteq> []" and "fresh \<noteq> []"
  shows "resolve_identity spki sha d' fresh' None (Some path) keys' = (Inr (i\<lparr>dv_source := ''persisted''\<rparr>), keys')"
  using assms
  by (auto simp: resolve_identity_def identity_of_def has_text_def key_at_def Let_def
      split: disk.splits sum.splits option.splits if_splits)

definition demo_spki :: "string \<Rightarrow> string + string" where
  "demo_spki pem = Inr (ed25519_prefix @ take 32 (pem @ replicate 32 CHR ''k''))"

theorem identity_persists_witness:
  "resolve_identity demo_spki rev Disk_ok ''other'' None (Some ''key'') (snd (resolve_identity demo_spki rev Disk_ok ''pem'' None (Some ''key'') [])) =
     (Inr (\<lparr>dv_id = replicate 29 CHR ''k'' @ ''mep'', dv_public = base64_url (''pem'' @ replicate 29 CHR ''k''), dv_pem = ''pem'',
       dv_source = ''persisted''\<rparr>), [(''key'', ''pem'')])"
proof -
  have r: "resolve_identity demo_spki rev Disk_ok ''pem'' None (Some ''key'') [] =
    (Inr \<lparr>dv_id = replicate 29 CHR ''k'' @ ''mep'', dv_public = base64_url (''pem'' @ replicate 29 CHR ''k''), dv_pem = ''pem'',
       dv_source = ''generated''\<rparr>, [(''key'', ''pem'')])"
    by code_simp
  from identity_persists [OF r] show ?thesis unfolding r by simp
qed

section \<open>Requests and their answers\<close>

datatype gw_event =
    Ev_request string string json "string option"
  | Ev_frame string
  | Ev_timeout string string
  | Ev_closed int string

fun gw_step :: "gw_event \<Rightarrow> gateway \<Rightarrow> gateway" where
  "gw_step (Ev_request i meth params send) g = snd (gw_request i meth params send g)"
| "gw_step (Ev_frame raw) g = snd (gw_handle raw g)"
| "gw_step (Ev_timeout i meth) g = gw_timeout i meth g"
| "gw_step (Ev_closed code why) g = gw_close code why g"

fun requested :: "gw_event list \<Rightarrow> string list" where
  "requested [] = []"
| "requested (Ev_request i meth params send # evs) = i # requested evs"
| "requested (ev # evs) = requested evs"

text \<open>
  The histories of an open client: request ids are fresh (they are random UUIDs), and a timer belongs
  to a request.
\<close>

definition possible :: "gw_event list \<Rightarrow> gw_event \<Rightarrow> bool" where
  "possible evs ev =
     (case ev of
        Ev_request i meth params send \<Rightarrow> i \<notin> set (requested evs)
      | Ev_timeout i meth \<Rightarrow> i \<in> set (requested evs)
      | _ \<Rightarrow> True)"

definition opened :: gateway where
  "opened = \<lparr>gw_socket = True, gw_pending = [], gw_outcomes = [], gw_challenge = None, gw_events = [], gw_sent = []\<rparr>"

inductive gw_reach :: "gw_event list \<Rightarrow> gateway \<Rightarrow> bool" where
  start: "gw_reach [] opened"
| step: "gw_reach evs g \<Longrightarrow> possible evs ev \<Longrightarrow> gw_reach (evs @ [ev]) (gw_step ev g)"

text \<open>A frame is the response to a request that gives it this value.\<close>

definition responds :: "string \<Rightarrow> string \<Rightarrow> json \<Rightarrow> bool" where
  "responds raw i v =
     (case json_parse raw of
        None \<Rightarrow> False
      | Some frame \<Rightarrow> obj_get frame ''type'' = JStr ''res'' \<and> obj_get frame ''id'' = JStr i \<and> response_outcome frame = Inr v)"

definition answered :: "gw_event list \<Rightarrow> string \<Rightarrow> json \<Rightarrow> bool" where
  "answered evs i v = (\<exists>pre raw post. evs = pre @ Ev_frame raw # post \<and> i \<in> set (requested pre) \<and> responds raw i v)"

definition gw_inv :: "gw_event list \<Rightarrow> gateway \<Rightarrow> bool" where
  "gw_inv evs g =
     (gw_socket g \<and> distinct (gw_pending g) \<and> set (gw_pending g) \<subseteq> set (requested evs) \<and>
      (\<forall>i \<in> set (requested evs). i \<in> set (gw_pending g) \<or> jhas (gw_outcomes g) i) \<and>
      (\<forall>i v. map_of (gw_outcomes g) i = Some (Inr v) \<longrightarrow> answered evs i v))"

lemma requested_append [simp]: "requested (xs @ ys) = requested xs @ requested ys"
  by (induction xs rule: requested.induct) auto

lemma answered_more: "answered evs i v \<Longrightarrow> answered (evs @ [ev]) i v"
  by (force simp: answered_def)

lemma settle_fields [simp]:
  "gw_socket (settle_request i out g) = gw_socket g" "gw_pending (settle_request i out g) = gw_pending g"
  by (simp_all add: settle_request_def)

lemma settle_outcomes:
  "map_of (gw_outcomes (settle_request i out g)) j =
     (if j = i \<and> \<not> jhas (gw_outcomes g) i then Some out else map_of (gw_outcomes g) j)"
  by (simp add: settle_request_def)

lemma settle_has [simp]: "jhas (gw_outcomes (settle_request i out g)) j \<longleftrightarrow> j = i \<or> jhas (gw_outcomes g) j"
  by (auto simp: settle_request_def)

lemma settle_all_fields:
  "gw_socket (foldl (\<lambda>g i. settle_request i (Inl err) g) g is) = gw_socket g \<and>
   (jhas (gw_outcomes (foldl (\<lambda>g i. settle_request i (Inl err) g) g is)) j \<longleftrightarrow> j \<in> set is \<or> jhas (gw_outcomes g) j)"
  by (induction "is" arbitrary: g) auto

lemma settle_all_values:
  "map_of (gw_outcomes (foldl (\<lambda>g i. settle_request i (Inl err) g) g is)) j = Some (Inr v) \<longleftrightarrow>
     map_of (gw_outcomes g) j = Some (Inr v)"
proof (induction "is" arbitrary: g)
  case (Cons i "is")
  have "map_of (gw_outcomes (settle_request i (Inl err) g)) j = Some (Inr v) \<longleftrightarrow> map_of (gw_outcomes g) j = Some (Inr v)"
    by (auto simp: settle_outcomes jhas_def)
  then show ?case using Cons by simp
qed simp

lemma challenge_fields [simp]:
  "gw_socket (settle_challenge out g) = gw_socket g" "gw_pending (settle_challenge out g) = gw_pending g"
  "gw_outcomes (settle_challenge out g) = gw_outcomes g"
  by (simp_all add: settle_challenge_def)

lemma gw_inv_request:
  assumes "gw_inv evs g" and "i \<notin> set (requested evs)"
  shows "gw_inv (evs @ [Ev_request i meth params send]) (snd (gw_request i meth params send g))"
proof -
  have s: "gw_socket g" "i \<notin> set (gw_pending g)" using assms by (auto simp: gw_inv_def)
  have a: "answered evs j v \<Longrightarrow> answered (evs @ [Ev_request i meth params send]) j v" for j v by (rule answered_more)
  show ?thesis
    using assms s a
    by (cases send) (auto simp: gw_inv_def gw_request_def Let_def settle_outcomes split: if_splits)
qed

lemma gw_inv_settle:
  assumes "gw_inv evs g" and "requested [ev] = []"
    and "case out of Inl e \<Rightarrow> True | Inr v \<Rightarrow> answered (evs @ [ev]) i v"
  shows "gw_inv (evs @ [ev]) (settle_request i out g)"
  using assms answered_more [of evs _ _ ev]
  by (auto simp: gw_inv_def settle_outcomes split: if_splits sum.splits)

lemma gw_inv_idle:
  assumes "gw_inv evs g" and "requested [ev] = []"
    and "gw_socket g' = gw_socket g" "gw_pending g' = gw_pending g" "gw_outcomes g' = gw_outcomes g"
  shows "gw_inv (evs @ [ev]) g'"
  using assms answered_more [of evs _ _ ev] by (auto simp: gw_inv_def)

lemma gw_inv_respond:
  assumes "gw_inv evs g" and "json_parse raw = Some frame" and "obj_get frame ''type'' = JStr ''res''"
    and "obj_get frame ''id'' = JStr i" and "i \<in> set (gw_pending g)"
  shows "gw_inv (evs @ [Ev_frame raw]) (settle_request i (response_outcome frame) (g\<lparr>gw_pending := remove1 i (gw_pending g)\<rparr>))"
proof -
  have "answered (evs @ [Ev_frame raw]) i v" if "response_outcome frame = Inr v" for v
    unfolding answered_def responds_def using assms that by (intro exI [of _ evs] exI [of _ raw] exI [of _ "[]"]) (auto simp: gw_inv_def)
  then show ?thesis
    using assms answered_more [of evs _ _ "Ev_frame raw"]
    by (auto simp: gw_inv_def settle_outcomes dest: notin_set_remove1 split: if_splits)
qed

lemma gw_inv_frame: "gw_inv evs g \<Longrightarrow> gw_inv (evs @ [Ev_frame raw]) (snd (gw_handle raw g))"
  using gw_inv_respond [of evs g raw] gw_inv_idle [of evs g "Ev_frame raw"]
  by (auto simp: gw_handle_def Let_def settle_challenge_def split: option.split json.split)

lemma gw_inv_close: "gw_inv evs g \<Longrightarrow> gw_inv (evs @ [Ev_closed code why]) (gw_close code why g)"
  using answered_more [of evs _ _ "Ev_closed code why"]
  by (auto simp: gw_inv_def gw_close_def fail_all_def settle_all_fields settle_all_values)

lemma gw_reach_inv: "gw_reach evs g \<Longrightarrow> gw_inv evs g"
proof (induction rule: gw_reach.induct)
  case start
  then show ?case by (simp add: gw_inv_def opened_def jhas_def)
next
  case (step evs g ev)
  then show ?case
    by (cases ev) (auto simp: possible_def gw_timeout_def gw_inv_request gw_inv_frame gw_inv_close gw_inv_settle)
qed

text \<open>C32. A request is answered only by its response: in every interleaving of requests, frames, timers and closes,
  whenever the promise of a request is resolved with a value, a frame came in after that request was
  sent that is a response, carries its id, does not report a failure and gives exactly this value.\<close>

theorem request_answered:
  assumes "gw_reach evs g" and "map_of (gw_outcomes g) i = Some (Inr v)"
  shows "answered evs i v"
  using gw_reach_inv [OF assms(1)] assms(2) by (simp add: gw_inv_def)

lemma settle_keeps: "map_of (gw_outcomes g) i = Some out \<Longrightarrow> map_of (gw_outcomes (settle_request j x g)) i = Some out"
  by (auto simp: settle_outcomes jhas_def)

lemma settle_all_keeps:
  "map_of (gw_outcomes g) i = Some out \<Longrightarrow> map_of (gw_outcomes (foldl (\<lambda>g j. settle_request j x g) g is)) i = Some out"
  by (induction "is" arbitrary: g) (simp_all add: settle_keeps)

lemma outcome_stable: "map_of (gw_outcomes g) i = Some out \<Longrightarrow> map_of (gw_outcomes (gw_step ev g)) i = Some out"
  by (cases ev) (auto simp: gw_request_def gw_handle_def gw_timeout_def gw_close_def fail_all_def Let_def
      intro!: settle_keeps settle_all_keeps split: option.split json.split)

lemma outcome_stable_run:
  "map_of (gw_outcomes g) i = Some out \<Longrightarrow> map_of (gw_outcomes (foldl (\<lambda>g ev. gw_step ev g) g later)) i = Some out"
  by (induction later arbitrary: g) (simp_all add: outcome_stable)

text \<open>No request hangs: once the socket has closed, every request sent so far has its outcome, whatever was
  answered, timed out or lost before, and that outcome is final: no later event changes it.\<close>

theorem close_settles:
  assumes "gw_reach evs g" and "i \<in> set (requested evs)"
  shows "\<exists>out. \<forall>later. map_of (gw_outcomes (foldl (\<lambda>g ev. gw_step ev g) (gw_step (Ev_closed code why) g) later)) i = Some out"
proof -
  have "jhas (gw_outcomes (gw_close code why g)) i"
    using gw_reach_inv [OF assms(1)] assms(2) by (auto simp: gw_inv_def gw_close_def fail_all_def settle_all_fields)
  then obtain out where "map_of (gw_outcomes (gw_step (Ev_closed code why) g)) i = Some out" by (auto simp: jhas_def)
  then show ?thesis using outcome_stable_run by blast
qed

definition demo_exchange :: "gw_event list" where
  "demo_exchange =
     [Ev_request ''r1'' ''connect'' JUndef None, Ev_request ''r2'' ''agents.list'' (JObj []) None, Ev_timeout ''r2'' ''agents.list'',
      Ev_frame ''{\"type\":\"res\",\"id\":\"r1\",\"ok\":true,\"payload\":7}'']"

definition demo_gateway :: gateway where
  "demo_gateway = foldl (\<lambda>g ev. gw_step ev g) opened demo_exchange"

fun possible_run :: "gw_event list \<Rightarrow> gw_event list \<Rightarrow> bool" where
  "possible_run evs [] = True"
| "possible_run evs (ev # later) = (possible evs ev \<and> possible_run (evs @ [ev]) later)"

lemma gw_reach_run:
  "gw_reach evs g \<Longrightarrow> possible_run evs later \<Longrightarrow> gw_reach (evs @ later) (foldl (\<lambda>g ev. gw_step ev g) g later)"
proof (induction later arbitrary: evs g)
  case (Cons ev later)
  then have "gw_reach (evs @ [ev]) (gw_step ev g)" by (auto intro: gw_reach.step)
  from Cons.IH [OF this] Cons.prems(2) show ?case by simp
qed simp

lemma demo_reach: "gw_reach demo_exchange demo_gateway"
proof -
  have "possible_run [] demo_exchange" by (simp add: demo_exchange_def possible_def)
  from gw_reach_run [OF gw_reach.start this] show ?thesis by (simp add: demo_gateway_def)
qed

theorem request_answered_witness:
  "map_of (gw_outcomes demo_gateway) ''r1'' = Some (Inr (JNum 7)) \<and> answered demo_exchange ''r1'' (JNum 7)"
proof -
  have o: "map_of (gw_outcomes demo_gateway) ''r1'' = Some (Inr (JNum 7))" by code_simp
  from o request_answered [OF demo_reach o] show ?thesis by blast
qed

theorem close_settles_witness:
  "map_of (gw_outcomes demo_gateway) ''r2'' = Some (Inl (gw_failure ''gateway agents.list timeout'')) \<and>
   (\<exists>out. \<forall>later. map_of (gw_outcomes (foldl (\<lambda>g ev. gw_step ev g) (gw_step (Ev_closed 1006 ''gone'') demo_gateway) later)) ''r2'' = Some out)"
proof -
  have "map_of (gw_outcomes demo_gateway) ''r2'' = Some (Inl (gw_failure ''gateway agents.list timeout''))" by code_simp
  moreover have "''r2'' \<in> set (requested demo_exchange)" by (simp add: demo_exchange_def)
  ultimately show ?thesis using close_settles [OF demo_reach] by blast
qed

end
