(* ===== verification/Judge_Claims.thy ===== *)
theory Judge_Claims
  imports Judge
begin

text \<open>
  What the judge guarantees over a history: one intent per camera and type of incident for as long as the
  incident is open, and an incident without the model only on deterministic evidence of contact.

  A history interleaves observations with the ends of the judgments that were awaiting the model
  (\<open>Jop_conclude\<close>, with what the inference came back with).
\<close>

datatype judge_op =
    Jop_observe string string json
  | Jop_conclude string string json "json list" "string list" "infer_error + completion"

fun op_observation :: "judge_op \<Rightarrow> json" where
  "op_observation (Jop_observe uuid at' ob) = ob"
| "op_observation (Jop_conclude uuid at' ob ctx signals reply) = ob"

record judge_env =
  je_limit :: nat
  je_hosted :: "string option"
  je_local :: bool
  je_triggers :: "trigger list option"

fun judge_step :: "judge_env \<Rightarrow> judge_op \<Rightarrow> judge_state \<times> intent_store \<Rightarrow> (judge_outcome \<times> entry list) \<times> judge_state \<times> intent_store" where
  "judge_step e (Jop_observe uuid at' ob) (s, store) =
     (let (v, es, s', store') = judge_begin (je_limit e) uuid at' (je_triggers e) ob s store in ((v, es), s', store'))"
| "judge_step e (Jop_conclude uuid at' ob ctx signals reply) (s, store) =
     (let (v, es, s', store') = judge_finish (\<lambda>q. reply) (je_hosted e) (je_local e) uuid at' (je_triggers e) ob ctx signals s store
      in ((Verdict v, es), s', store'))"

fun judge_trace :: "judge_env \<Rightarrow> judge_op list \<Rightarrow> judge_state \<times> intent_store \<Rightarrow> (json \<times> judge_outcome \<times> entry list) list" where
  "judge_trace e [] x = []"
| "judge_trace e (op # ops) x =
     (let (r, y) = judge_step e op x in (op_observation op, r) # judge_trace e ops y)"

fun judge_run :: "judge_env \<Rightarrow> judge_op list \<Rightarrow> judge_state \<times> intent_store \<Rightarrow> judge_state \<times> intent_store" where
  "judge_run e [] x = x"
| "judge_run e (op # ops) x = judge_run e ops (snd (judge_step e op x))"

definition incident_key :: "json \<Rightarrow> json \<Rightarrow> string" where
  "incident_key ob kind = camera_of ob @ ''|'' @ js_string kind"

text \<open>The step opened an intent for the key; its entries say that the intent was cleared.\<close>

definition opens :: "string \<Rightarrow> json \<times> judge_outcome \<times> entry list \<Rightarrow> bool" where
  "opens key t = (case fst (snd t) of Verdict (Incident intent kind sev signals tr act) \<Rightarrow> incident_key (fst t) kind = key | _ \<Rightarrow> False)"

definition clears :: "string \<Rightarrow> entry \<Rightarrow> bool" where
  "clears intent en = (obj_get (JObj en) ''tool'' = JStr ''judge.resolve'' \<and> obj_get (JObj en) ''intentId'' = JStr intent)"

lemma opens_iff:
  "opens key (ob, v, es) \<longleftrightarrow> (case v of Verdict (Incident intent kind sev signals tr act) \<Rightarrow> incident_key ob kind = key | _ \<Rightarrow> False)"
  by (simp add: opens_def split: judge_outcome.split verdict.split)

section \<open>One step\<close>

definition still_open :: "string \<Rightarrow> string \<Rightarrow> judge_state \<Rightarrow> bool" where
  "still_open key intent s = (\<exists>st. map_of (jd_open s) key = Some st \<and> oi_intent st = intent)"

lemma quiet_keeps:
  assumes "map_of m key = Some st" and "\<not> list_ex (clears (oi_intent st)) (snd (advance_quiet limit camera m))"
  shows "\<exists>st'. map_of (fst (advance_quiet limit camera m)) key = Some st' \<and> oi_intent st' = oi_intent st"
  using assms
proof (induction limit camera m rule: advance_quiet.induct)
  case (2 limit camera k st1 m)
  obtain m' es where r: "advance_quiet limit camera m = (m', es)" by fastforce
  have c: "clears (oi_intent st1) (judge_entry ''judge.resolve'' ''update'' ''cleared'' (JStr w) (JStr (oi_intent st1)))" for w
    by (simp add: clears_def judge_entry_def)
  show ?case using 2 r c by (auto simp: Let_def split: if_splits)
qed simp

lemma apply_keeps:
  assumes "still_open key intent s"
  shows "case judge_apply uuid at' triggers ob signals j s store of (v, es, s', store') \<Rightarrow>
    still_open key intent s' \<and> \<not> opens key (ob, Verdict v, es)"
  using assms
  by (auto simp: judge_apply_def still_open_def opens_iff incident_key_def Let_def split: option.splits prod.splits if_splits)

lemma begin_keeps:
  assumes "still_open key intent s"
    and "judge_begin limit uuid at' triggers ob s store = (v, es, s', store')" and "\<not> list_ex (clears intent) es"
  shows "still_open key intent s' \<and> \<not> opens key (ob, v, es)"
proof -
  let ?s1 = "s\<lparr>jd_stats := (jd_stats s)\<lparr>js_observations := Suc (js_observations (jd_stats s))\<rparr>\<rparr>"
  let ?s2 = "?s1\<lparr>jd_stats := (jd_stats ?s1)\<lparr>js_candidates := Suc (js_candidates (jd_stats ?s1))\<rparr>\<rparr>"
  let ?sig = "observed_signals triggers ob"
  have o: "still_open key intent ?s2" using assms(1) by (simp add: still_open_def)
  consider "?sig = []" | "?sig \<noteq> []" "jd_inflight s \<or> trigger_hit triggers ob = None"
    | r phrase where "?sig \<noteq> []" "\<not> jd_inflight s" "trigger_hit triggers ob = Some (r, phrase)" by (cases "trigger_hit triggers ob") auto
  then show ?thesis
  proof cases
    case 1
    then have v: "v = Verdict Nominal" "es = snd (advance_quiet limit (camera_of ob) (jd_open s))"
      "jd_open s' = fst (advance_quiet limit (camera_of ob) (jd_open s))"
      using assms(2) by (auto simp: judge_begin_def Let_def split: prod.splits)
    then show ?thesis using assms(1,3) quiet_keeps [of "jd_open s" key _ limit "camera_of ob"]
      by (auto simp: still_open_def opens_iff)
  next
    case 2
    then show ?thesis using assms(1,2) by (auto simp: judge_begin_def Let_def still_open_def opens_iff split: if_splits)
  next
    case (3 r phrase)
    obtain v1 es1 s1 store1 where a: "judge_apply uuid at' triggers ob ?sig (trigger_judgment r phrase) ?s2 store = (v1, es1, s1, store1)"
      by (metis prod_cases4)
    then have "v = Verdict v1" "s' = s1" using assms(2) 3 by (auto simp: judge_begin_def Let_def)
    with apply_keeps [OF o, where uuid = uuid and at' = at' and triggers = triggers and ob = ob and signals = ?sig and j = "trigger_judgment r phrase" and store = store] a show ?thesis by (simp add: opens_iff)
  qed
qed

lemma finish_keeps:
  assumes "still_open key intent s"
    and "judge_finish infer env local uuid at' triggers ob ctx signals s store = (v, es, s', store')"
  shows "still_open key intent s' \<and> \<not> opens key (ob, Verdict v, es)"
proof -
  obtain j es1 b where j: "judge_candidate infer env local ctx signals = (j, es1, b)" by (metis prod_cases3)
  let ?s1 = "s\<lparr>jd_inflight := False, jd_stats := (jd_stats s)\<lparr>js_inferences := js_inferences (jd_stats s) + (if b then 1 else 0)\<rparr>\<rparr>"
  have "still_open key intent ?s1" using assms(1) by (simp add: still_open_def)
  from apply_keeps [OF this, where uuid = uuid and at' = at' and triggers = triggers and ob = ob and signals = signals and j = j and store = store] assms(2) j show ?thesis
    by (auto simp: judge_finish_def opens_iff split: prod.splits)
qed

text \<open>C26. One intent per incident: while an incident of a camera and a type is open, no history of
  observations and judgments opens a second intent for it, however they interleave, and it stays
  open under its first intent until the record of its clearing.\<close>

theorem one_intent_per_incident:
  assumes "still_open key intent (fst x)"
    and "list_all (\<lambda>t. \<not> list_ex (clears intent) (snd (snd t))) (judge_trace e ops x)"
  shows "still_open key intent (fst (judge_run e ops x)) \<and> list_all (\<lambda>t. \<not> opens key t) (judge_trace e ops x)"
  using assms
proof (induction ops arbitrary: x)
  case (Cons op ops)
  obtain s store where x: "x = (s, store)" by (cases x)
  obtain v es y where st: "judge_step e op x = ((v, es), y)" by (metis surj_pair)
  have n: "\<not> list_ex (clears intent) es" using Cons.prems(2) st by simp
  have "still_open key intent (fst y) \<and> \<not> opens key (op_observation op, v, es)"
    using st Cons.prems(1) n x
    by (cases op) (auto dest: begin_keeps finish_keeps split: prod.splits)
  with Cons st show ?case by simp
qed simp

section \<open>Without the model\<close>

text \<open>When no local model can be used or the inference fails, a candidate is judged an incident exactly if a
  signal of contact fired, the judgment says that it is degraded, and one entry records it.\<close>

lemma degraded_conservative:
  assumes "\<not> local \<or> (\<forall>q. \<exists>err. infer q = Inl err)"
  shows "case judge_candidate infer env local ctx signals of (j, es, inferred) \<Rightarrow>
    (truthy (obj_get j ''is_incident'') \<longleftrightarrow>
       ''interaction:contact_visible'' \<in> set signals \<or> ''changes:new_vehicle_contact'' \<in> set signals) \<and>
    obj_get j ''degraded'' = JBool True \<and> length es = 1 \<and> \<not> inferred"
proof -
  have n: "\<not> is_sensitive (JStr []) False" by code_simp
  obtain r where r: "route env \<lparr>rq_task = Classify_task, rq_payload = JStr [], rq_multimodal = False,
      rq_hosted = True, rq_local = local, rq_declared = False\<rparr> = Inr r"
    using classify_routes by blast
  then have "local \<or> rt_model r = None" using n by (cases local) (auto simp: route_cases)
  moreover have "infer q \<noteq> Inr out" if "local" for q out using assms that by (metis Inl_Inr_False)
  ultimately show ?thesis
    using assms r
    by (auto simp: judge_candidate_def degraded_verdict_def judged_def Let_def split: sum.split option.split)
qed

definition open_state :: judge_state where
  "open_state = create_judge\<lparr>jd_open := [(''north|traffic-accident'', \<lparr>oi_intent = ''int_1'', oi_occurrences = 1, oi_quiet = 0\<rparr>)]\<rparr>"

definition demo_judge_env :: judge_env where
  "demo_judge_env = \<lparr>je_limit = 3, je_hosted = None, je_local = False, je_triggers = None\<rparr>"

definition demo_contact :: json where
  "demo_contact =
     JObj [(''camera_id'', JStr ''north''), (''visible_interactions'', JArr [JObj [(''contact_visible'', JBool True)]])]"

definition demo_judge_ops :: "judge_op list" where
  "demo_judge_ops =
     [Jop_observe ''u2'' ''t'' demo_contact,
      Jop_conclude ''u3'' ''t'' demo_contact [demo_contact] [''interaction:contact_visible''] (Inl (Inference_error ''refused'' None None)),
      Jop_observe ''u4'' ''t'' (JObj [(''camera_id'', JStr ''north'')])]"

theorem one_intent_per_incident_witness:
  "judge_trace demo_judge_env demo_judge_ops (open_state, create_intents True) \<noteq> [] \<and>
   still_open ''north|traffic-accident'' ''int_1'' (fst (judge_run demo_judge_env demo_judge_ops (open_state, create_intents True)))"
proof -
  have o: "still_open ''north|traffic-accident'' ''int_1'' (fst (open_state, create_intents True))"
    by (simp add: still_open_def open_state_def)
  have c: "list_all (\<lambda>t. \<not> list_ex (clears ''int_1'') (snd (snd t)))
      (judge_trace demo_judge_env demo_judge_ops (open_state, create_intents True))" by code_simp
  have "judge_trace demo_judge_env demo_judge_ops (open_state, create_intents True) \<noteq> []"
    by (simp add: demo_judge_ops_def split: prod.split)
  with one_intent_per_incident [OF o c] show ?thesis by blast
qed

end
