(* ===== verification/Openshell.thy ===== *)
theory Openshell
  imports Policy_Port
begin

text \<open>
  The on-box policy port of src/policy/openshell.js: the live policy is read and written through
  two CLIs, each delta is tagged with its action and stamped with an expiry, and a revert verifies
  itself by reading the policy again.

  The CLIs are the parameter \<open>exec\<close> (command, arguments, input, and the sandbox they act on), YAML
  the parameters \<open>yparse\<close> and \<open>ystring\<close> over a type \<open>'y\<close> of texts.  A policy document is its network
  policies and whatever else it holds (\<open>'d\<close>), which is carried along.
\<close>

type_synonym 'd policy_doc = "policies \<times> 'd"

record 'y cli_result =
  cl_code :: int
  cl_out :: 'y
  cl_err :: string

record ('y, 'd, 'x) shell =
  sh_sandbox :: string
  sh_exec :: "string \<Rightarrow> string list \<Rightarrow> 'y option \<Rightarrow> 'x \<Rightarrow> 'y cli_result \<times> 'x"
  sh_parse :: "'y \<Rightarrow> string + 'd policy_doc"
  sh_string :: "'d policy_doc \<Rightarrow> 'y"
  sh_dry :: bool
  sh_ttl :: int

record open_delta =
  od_id :: string
  od_request :: request
  od_expires :: int
  od_decision :: "string option"

record 'x shell_state =
  ss_open :: "(json, open_delta) jsmap"
  ss_box :: 'x

definition cli_error :: "'y cli_result \<Rightarrow> string" where
  "cli_error r = (if js_trim (cl_err r) = [] then show_int (cl_code r) else js_trim (cl_err r))"

definition read_policy :: "('y, 'd, 'x) shell \<Rightarrow> 'x \<Rightarrow> (string + 'd policy_doc) \<times> 'x" where
  "read_policy sh x =
     (case sh_exec sh ''nemoclaw'' [sh_sandbox sh, ''policy-get''] None x of
        (r, x') \<Rightarrow>
          (if cl_code r \<noteq> 0 then Inl (''policy-get failed: '' @ cli_error r)
           else (case sh_parse sh (cl_out r) of
                   Inl msg \<Rightarrow> Inl (''policy get returned unparseable yaml: '' @ msg)
                 | Inr doc \<Rightarrow> Inr doc), x'))"

definition write_policy :: "('y, 'd, 'x) shell \<Rightarrow> 'd policy_doc \<Rightarrow> 'x \<Rightarrow> (string + unit) \<times> 'x" where
  "write_policy sh doc x =
     (if sh_dry sh then (Inr (), x)
      else
        (case sh_exec sh ''openshell'' [''policy'', ''set'', ''--policy'', ''-'', ''--wait'', sh_sandbox sh]
                (Some (sh_string sh doc)) x of
           (r, x') \<Rightarrow> (if cl_code r \<noteq> 0 then Inl (''policy set failed: '' @ cli_error r) else Inr (), x')))"

definition shell_check :: "('y, 'd, 'x) shell \<Rightarrow> request \<Rightarrow> 'x \<Rightarrow> (string + verdict) \<times> 'x" where
  "shell_check sh rq x =
     (case read_policy sh x of
        (Inl msg, x') \<Rightarrow> (Inl msg, x')
      | (Inr doc, x') \<Rightarrow> (check_policies (fst doc) rq, x'))"

definition shell_delta_id :: "action \<Rightarrow> string" where
  "shell_delta_id a = ''omoda-delta-'' @ js_string (ac_id a)"

text \<open>\<open>endpointFor\<close> is the first endpoint of the host, the one \<open>push_rule\<close> extends.\<close>

definition shell_apply ::
  "('y, 'd, 'x) shell \<Rightarrow> int \<Rightarrow> string option \<Rightarrow> action \<Rightarrow> 'x shell_state \<Rightarrow> (string + unit) \<times> 'x shell_state" where
  "shell_apply sh now decision a s =
     (case ac_request a of
        None \<Rightarrow> (Inl ''applyDelta needs action.request {host, method, path}'', s)
      | Some rq \<Rightarrow>
          if rq_host rq = [] \<or> rq_method rq = [] \<or> rq_path rq = []
          then (Inl ''applyDelta needs action.request {host, method, path}'', s)
          else
            (case read_policy sh (ss_box s) of
               (Inl msg, x) \<Rightarrow> (Inl msg, s\<lparr>ss_box := x\<rparr>)
             | (Inr doc, x) \<Rightarrow>
                 (case endpoints_for (fst doc) (rq_host rq) of
                    [] \<Rightarrow> (Inl (''refusing to widen an undeclared host: '' @ rq_host rq), s\<lparr>ss_box := x\<rparr>)
                  | ep # _ \<Rightarrow>
                      if ep_protocol ep \<noteq> ''rest''
                      then (Inl (''endpoint '' @ rq_host rq @ '' is not protocol:rest; a scoped delta cannot be enforced''), s\<lparr>ss_box := x\<rparr>)
                      else
                        (let i = shell_delta_id a;
                             doc' = (push_rule (rq_host rq) \<lparr>ru_method = rq_method rq, ru_path = rq_path rq, ru_delta = Some i\<rparr> (fst doc), snd doc)
                         in case write_policy sh doc' x of
                              (Inl msg, x') \<Rightarrow> (Inl msg, s\<lparr>ss_box := x'\<rparr>)
                            | (Inr _, x') \<Rightarrow>
                                (Inr (), \<lparr>ss_open = jset (ss_open s) (ac_id a)
                                            \<lparr>od_id = i, od_request = rq, od_expires = now + sh_ttl sh, od_decision = decision\<rparr>,
                                          ss_box = x'\<rparr>)))))"

text \<open>The record of the delta is dropped before the verification reads the policy again.\<close>

definition still_grants_msg :: "open_delta \<Rightarrow> string" where
  "still_grants_msg d =
     ''delta '' @ od_id d @ '' still grants '' @ rq_method (od_request d) @ '' '' @ rq_host (od_request d)
       @ rq_path (od_request d) @ '' after revert''"

definition shell_revert :: "('y, 'd, 'x) shell \<Rightarrow> json \<Rightarrow> 'x shell_state \<Rightarrow> (string + unit) \<times> 'x shell_state" where
  "shell_revert sh k s =
     (case map_of (ss_open s) k of
        None \<Rightarrow> (Inr (), s)
      | Some d \<Rightarrow>
          (case read_policy sh (ss_box s) of
             (Inl msg, x) \<Rightarrow> (Inl msg, s\<lparr>ss_box := x\<rparr>)
           | (Inr doc, x) \<Rightarrow>
               (case write_policy sh (drop_delta (od_id d) (fst doc), snd doc) x of
                  (Inl msg, x') \<Rightarrow> (Inl msg, s\<lparr>ss_box := x'\<rparr>)
                | (Inr _, x') \<Rightarrow>
                    (let open' = jdel (ss_open s) k in
                     if sh_dry sh then (Inr (), \<lparr>ss_open = open', ss_box = x'\<rparr>)
                     else
                       (case shell_check sh (od_request d) x' of
                          (Inl msg, x'') \<Rightarrow> (Inl msg, \<lparr>ss_open = open', ss_box = x''\<rparr>)
                        | (Inr v, x'') \<Rightarrow>
                            (if vd_allowed v then Inl (still_grants_msg d) else Inr (), \<lparr>ss_open = open', ss_box = x''\<rparr>))))))"

text \<open>A sweep stops at the first revert that throws.\<close>

fun revert_each :: "('y, 'd, 'x) shell \<Rightarrow> json list \<Rightarrow> 'x shell_state \<Rightarrow> (string + unit) \<times> 'x shell_state" where
  "revert_each sh [] s = (Inr (), s)"
| "revert_each sh (k # ks) s =
     (case shell_revert sh k s of
        (Inl msg, s') \<Rightarrow> (Inl msg, s')
      | (Inr _, s') \<Rightarrow> revert_each sh ks s')"

definition expire_stale :: "('y, 'd, 'x) shell \<Rightarrow> int \<Rightarrow> 'x shell_state \<Rightarrow> (string + nat) \<times> 'x shell_state" where
  "expire_stale sh now s =
     (let stale = map fst (filter (\<lambda>kd. od_expires (snd kd) \<le> now) (ss_open s)) in
      case revert_each sh stale s of
        (Inl msg, s') \<Rightarrow> (Inl msg, s')
      | (Inr _, s') \<Rightarrow> (Inr (length stale), s'))"

definition revert_all :: "('y, 'd, 'x) shell \<Rightarrow> 'x shell_state \<Rightarrow> (string + nat) \<times> 'x shell_state" where
  "revert_all sh s =
     (let ids = map fst (ss_open s) in
      case revert_each sh ids s of
        (Inl msg, s') \<Rightarrow> (Inl msg, s')
      | (Inr _, s') \<Rightarrow> (Inr (length ids), s'))"

section \<open>What the code relies on\<close>

text \<open>
  The documented round trip of the CLIs: \<open>policy-get\<close> prints the live policy and changes nothing,
  \<open>policy set --wait\<close> makes the document it is given the live policy, and YAML reads back what it
  wrote.  \<open>live\<close> is the policy of a sandbox.
\<close>

definition faithful_cli :: "('y, 'd, 'x) shell \<Rightarrow> ('x \<Rightarrow> 'd policy_doc) \<Rightarrow> bool" where
  "faithful_cli sh live =
     ((\<forall>x. \<exists>out err. sh_exec sh ''nemoclaw'' [sh_sandbox sh, ''policy-get''] None x = (\<lparr>cl_code = 0, cl_out = out, cl_err = err\<rparr>, x)
         \<and> sh_parse sh out = Inr (live x)) \<and>
      (\<forall>d x. \<exists>r x'. sh_exec sh ''openshell'' [''policy'', ''set'', ''--policy'', ''-'', ''--wait'', sh_sandbox sh] (Some (sh_string sh d)) x
         = (r, x') \<and> cl_code r = 0 \<and> live x' = d))"

lemma faithful_read: "faithful_cli sh live \<Longrightarrow> read_policy sh x = (Inr (live x), x)"
  unfolding faithful_cli_def read_policy_def
  by (drule conjunct1, drule spec [of _ x]) auto

lemma faithful_write:
  assumes "faithful_cli sh live" and "\<not> sh_dry sh"
  obtains x' where "write_policy sh d x = (Inr (), x')" "live x' = d"
proof -
  obtain r x' where "sh_exec sh ''openshell'' [''policy'', ''set'', ''--policy'', ''-'', ''--wait'', sh_sandbox sh] (Some (sh_string sh d)) x
      = (r, x')" "cl_code r = 0" "live x' = d"
    using assms(1) unfolding faithful_cli_def by blast
  then show thesis using that assms(2) by (simp add: write_policy_def)
qed

lemma faithful_check: "faithful_cli sh live \<Longrightarrow> shell_check sh rq x = (check_policies (fst (live x)) rq, x)"
  by (simp add: shell_check_def faithful_read)

lemma shell_revert_faithful:
  assumes f: "faithful_cli sh live" "\<not> sh_dry sh" and k: "map_of (ss_open s) k = Some d"
    and r: "rest_policies (drop_delta (od_id d) (fst (live (ss_box s))))"
  obtains x' where "live x' = (drop_delta (od_id d) (fst (live (ss_box s))), snd (live (ss_box s)))"
    "shell_revert sh k s =
       (if grants (drop_delta (od_id d) (fst (live (ss_box s)))) (od_request d) then Inl (still_grants_msg d) else Inr (),
        \<lparr>ss_open = jdel (ss_open s) k, ss_box = x'\<rparr>)"
proof -
  let ?doc = "(drop_delta (od_id d) (fst (live (ss_box s))), snd (live (ss_box s)))"
  obtain x' where w: "write_policy sh ?doc (ss_box s) = (Inr (), x')" "live x' = ?doc"
    by (rule faithful_write [OF f])
  obtain v where v: "check_policies (fst ?doc) (od_request d) = Inr v" "vd_allowed v = grants (fst ?doc) (od_request d)"
    using check_policies_total [of "fst ?doc" "od_request d"] r by auto
  then show thesis
    using that [OF w(2)]
    by (simp add: shell_revert_def k faithful_read [OF f(1)] w(1) faithful_check [OF f(1)] w(2) f(2) Let_def)
qed

lemma shell_apply_faithful:
  assumes "faithful_cli sh live" and "\<not> sh_dry sh" and "ac_request a = Some rq"
    and "shell_apply sh now dec a s = (Inr u, s1)"
  shows "live (ss_box s1) = (push_rule (rq_host rq) \<lparr>ru_method = rq_method rq, ru_path = rq_path rq, ru_delta = Some (shell_delta_id a)\<rparr>
             (fst (live (ss_box s))), snd (live (ss_box s))) \<and>
     endpoints_for (fst (live (ss_box s))) (rq_host rq) \<noteq> [] \<and>
     ss_open s1 = jset (ss_open s) (ac_id a)
        \<lparr>od_id = shell_delta_id a, od_request = rq, od_expires = now + sh_ttl sh, od_decision = dec\<rparr>"
proof -
  let ?doc = "(push_rule (rq_host rq) \<lparr>ru_method = rq_method rq, ru_path = rq_path rq, ru_delta = Some (shell_delta_id a)\<rparr>
     (fst (live (ss_box s))), snd (live (ss_box s)))"
  obtain x' where w: "write_policy sh ?doc (ss_box s) = (Inr (), x')" "live x' = ?doc"
    by (rule faithful_write [OF assms(1,2)])
  show ?thesis
    using assms(4) w by (auto simp: shell_apply_def assms(3) faithful_read [OF assms(1)] Let_def split: if_splits list.splits)
qed

text \<open>C16. A delta on the box is undone exactly: when an application under a tag that is not yet in the
  live policy succeeded, the revert makes the live policy what it was and forgets the delta; it
  reports success if the policy without the delta refuses the request, and otherwise, when the
  baseline grants it by itself, the revert throws although nothing was left open.\<close>

theorem shell_bracket:
  assumes "faithful_cli sh live" and "\<not> sh_dry sh" and "rest_policies (fst (live (ss_box s)))"
    and "tag_free (shell_delta_id a) (fst (live (ss_box s)))" and "ac_request a = Some rq"
    and "shell_apply sh now dec a s = (Inr u, s1)"
  shows "(grants (fst (live (ss_box s1))) x \<longleftrightarrow> grants (fst (live (ss_box s))) x \<or>
            rq_host x = rq_host rq \<and> rq_method x = rq_method rq \<and> path_matches (rq_path rq) (rq_path x) = Some True) \<and>
         live (ss_box (snd (shell_revert sh (ac_id a) s1))) = live (ss_box s) \<and>
         \<not> jhas (ss_open (snd (shell_revert sh (ac_id a) s1))) (ac_id a) \<and>
         (fst (shell_revert sh (ac_id a) s1) = Inr () \<longleftrightarrow> \<not> grants (fst (live (ss_box s))) rq)"
proof -
  note ap = shell_apply_faithful [OF assms(1,2,5,6)]
  let ?d = "\<lparr>od_id = shell_delta_id a, od_request = rq, od_expires = now + sh_ttl sh, od_decision = dec\<rparr>"
  have k: "map_of (ss_open s1) (ac_id a) = Some ?d" using ap by simp
  have dr: "drop_delta (od_id ?d) (fst (live (ss_box s1))) = fst (live (ss_box s))"
    using ap drop_delta_push [OF assms(4)] by simp
  obtain x' where "live x' = (drop_delta (od_id ?d) (fst (live (ss_box s1))), snd (live (ss_box s1)))"
    "shell_revert sh (ac_id a) s1 =
       (if grants (drop_delta (od_id ?d) (fst (live (ss_box s1)))) (od_request ?d) then Inl (still_grants_msg ?d) else Inr (),
        \<lparr>ss_open = jdel (ss_open s1) (ac_id a), ss_box = x'\<rparr>)"
    by (rule shell_revert_faithful [OF assms(1,2) k]) (simp only: dr assms(3))
  then have "live (ss_box (snd (shell_revert sh (ac_id a) s1))) = live (ss_box s) \<and>
      \<not> jhas (ss_open (snd (shell_revert sh (ac_id a) s1))) (ac_id a) \<and>
      (fst (shell_revert sh (ac_id a) s1) = Inr () \<longleftrightarrow> \<not> grants (fst (live (ss_box s))) rq)"
    unfolding dr using ap by (simp add: prod_eq_iff jhas_def)
  moreover have "grants (fst (live (ss_box s1))) x \<longleftrightarrow> grants (fst (live (ss_box s))) x \<or>
      rq_host x = rq_host rq \<and> rq_method x = rq_method rq \<and> path_matches (rq_path rq) (rq_path x) = Some True"
    using ap by (auto simp: grants_push_rule)
  ultimately show ?thesis by blast
qed

text \<open>A sandbox whose state is its live policy, with documents for texts.\<close>

definition mem_shell :: "(unit policy_doc, unit, unit policy_doc) shell" where
  "mem_shell =
     \<lparr>sh_sandbox = ''omoda'',
      sh_exec = (\<lambda>cmd args inp x. case inp of
          None \<Rightarrow> (\<lparr>cl_code = 0, cl_out = x, cl_err = []\<rparr>, x)
        | Some d \<Rightarrow> (\<lparr>cl_code = 0, cl_out = x, cl_err = []\<rparr>, d)),
      sh_parse = Inr, sh_string = (\<lambda>d. d), sh_dry = False, sh_ttl = 120000\<rparr>"

lemma mem_faithful: "faithful_cli mem_shell (\<lambda>x. x)"
  by (simp add: faithful_cli_def mem_shell_def)

theorem shell_bracket_witness:
  "faithful_cli mem_shell (\<lambda>x. x) \<and>
   (\<exists>s1. shell_apply mem_shell 0 None city_action \<lparr>ss_open = [], ss_box = (city_policies, ())\<rparr> = (Inr (), s1) \<and>
     shell_revert mem_shell (JStr ''a1'') s1 = (Inr (), \<lparr>ss_open = [], ss_box = (city_policies, ())\<rparr>))"
proof -
  let ?s = "\<lparr>ss_open = [], ss_box = (city_policies, ())\<rparr>"
  have "\<exists>s1. shell_apply mem_shell 0 None city_action ?s = (Inr (), s1)"
    by (simp add: shell_apply_def read_policy_def write_policy_def mem_shell_def Let_def bare_action_def city_policies_def endpoints_for_def)
  then obtain s1 where s1: "shell_apply mem_shell 0 None city_action ?s = (Inr (), s1)" by blast
  have t: "tag_free (shell_delta_id city_action) (fst (city_policies, ()))"
    by (simp add: tag_free_def all_rules_def city_policies_def)
  have b: "(grants (fst (ss_box s1)) city_post \<longleftrightarrow> grants (fst (ss_box ?s)) city_post \<or>
            rq_host city_post = rq_host city_post \<and> rq_method city_post = rq_method city_post \<and> path_matches (rq_path city_post) (rq_path city_post) = Some True) \<and>
         ss_box (snd (shell_revert mem_shell (ac_id city_action) s1)) = ss_box ?s \<and>
         \<not> jhas (ss_open (snd (shell_revert mem_shell (ac_id city_action) s1))) (ac_id city_action) \<and>
         (fst (shell_revert mem_shell (ac_id city_action) s1) = Inr () \<longleftrightarrow> \<not> grants (fst (ss_box ?s)) city_post)"
    by (rule shell_bracket [OF mem_faithful, of ?s city_action city_post 0 None "()" s1 city_post])
      (use s1 t rest_city in \<open>simp_all add: mem_shell_def\<close>)
  have o: "ss_open s1 = [(JStr ''a1'', \<lparr>od_id = shell_delta_id city_action, od_request = city_post, od_expires = 120000, od_decision = None\<rparr>)]"
    using shell_apply_faithful [OF mem_faithful _ _ s1] by (simp add: mem_shell_def bare_action_def)
  then have "ss_open (snd (shell_revert mem_shell (ac_id city_action) s1)) = []"
    by (simp add: shell_revert_def read_policy_def write_policy_def shell_check_def mem_shell_def jdel_def Let_def bare_action_def
        split: prod.split sum.split)
  with b s1 mem_faithful show ?thesis
    by (simp add: grants_def city_policies_def endpoints_for_def bare_action_def) (simp add: prod_eq_iff)
qed

text \<open>A failed revert is forgotten: the delta's record is dropped before the verification, so when a
  revert throws because the request is still granted, the next revert, and the sweep of all open
  deltas behind it, report success and change nothing.\<close>

theorem shell_failed_revert_forgotten:
  assumes "shell_revert sh k s = (Inl (still_grants_msg d), s1)" and "map_of (ss_open s) k = Some d"
    and "faithful_cli sh live" and "\<not> sh_dry sh" and "ss_open s = [(k, d)]"
    and "rest_policies (drop_delta (od_id d) (fst (live (ss_box s))))"
  shows "grants (fst (live (ss_box s1))) (od_request d) \<and> shell_revert sh k s1 = (Inr (), s1) \<and> revert_all sh s1 = (Inr 0, s1)"
proof -
  obtain x' where x: "live x' = (drop_delta (od_id d) (fst (live (ss_box s))), snd (live (ss_box s)))"
    "shell_revert sh k s =
       (if grants (drop_delta (od_id d) (fst (live (ss_box s)))) (od_request d) then Inl (still_grants_msg d) else Inr (),
        \<lparr>ss_open = jdel (ss_open s) k, ss_box = x'\<rparr>)"
    by (rule shell_revert_faithful [OF assms(3,4,2,6)])
  then have "s1 = \<lparr>ss_open = [], ss_box = x'\<rparr>" "grants (fst (live x')) (od_request d)"
    using assms(1,5) by (auto simp: jdel_def split: if_splits)
  then show ?thesis by (simp add: shell_revert_def revert_all_def)
qed

definition stuck_delta :: open_delta where
  "stuck_delta =
     \<lparr>od_id = ''omoda-delta-a1'', od_request = \<lparr>rq_method = ''GET'', rq_host = ''city'', rq_path = ''/dispatch/x''\<rparr>,
      od_expires = 0, od_decision = None\<rparr>"

theorem shell_failed_revert_forgotten_witness:
  "\<exists>s1. shell_revert mem_shell (JStr ''a1'') \<lparr>ss_open = [(JStr ''a1'', stuck_delta)], ss_box = (city_policies, ())\<rparr>
        = (Inl (still_grants_msg stuck_delta), s1) \<and>
     grants (fst (ss_box s1)) (od_request stuck_delta) \<and> revert_all mem_shell s1 = (Inr 0, s1)"
proof -
  let ?s = "\<lparr>ss_open = [(JStr ''a1'', stuck_delta)], ss_box = (city_policies, ())\<rparr>"
  have k: "map_of (ss_open ?s) (JStr ''a1'') = Some stuck_delta" by simp
  have "tag_free (od_id stuck_delta) city_policies" by (simp add: tag_free_def all_rules_def city_policies_def)
  then have dr: "drop_delta (od_id stuck_delta) city_policies = city_policies" by (rule drop_delta_free)
  have g: "grants city_policies (od_request stuck_delta)"
    using path_matches_tree [of "''/dispatch''" "''/dispatch/x''"]
    by (simp add: grants_def city_policies_def endpoints_for_def stuck_delta_def plain_path_def dot_char_def)
  have r: "rest_policies (drop_delta (od_id stuck_delta) (fst (ss_box ?s)))" by (simp add: dr rest_city)
  have d: "\<not> sh_dry mem_shell" by (simp add: mem_shell_def)
  obtain x' where "shell_revert mem_shell (JStr ''a1'') ?s =
       (if grants (drop_delta (od_id stuck_delta) (fst (ss_box ?s))) (od_request stuck_delta) then Inl (still_grants_msg stuck_delta) else Inr (),
        \<lparr>ss_open = jdel (ss_open ?s) (JStr ''a1''), ss_box = x'\<rparr>)"
    by (rule shell_revert_faithful [OF mem_faithful d k r])
  then obtain s1 where s1: "shell_revert mem_shell (JStr ''a1'') ?s = (Inl (still_grants_msg stuck_delta), s1)"
    using g by (simp add: dr)
  have o: "ss_open ?s = [(JStr ''a1'', stuck_delta)]" by simp
  from shell_failed_revert_forgotten [OF s1 k mem_faithful d o r] s1 show ?thesis by blast
qed

end
