(* ===== verification/Orchestrator.thy ===== *)
theory Orchestrator
  imports Judge Knowledge Audit_Stream Bus
begin

text \<open>
  L0, the orchestrator of src/orchestrator.js: it turns a proposed intent into one declared action
  awaiting consent, and reviews every observation of the cameras.

  Ledger entries and bus events are listed in the order in which they are written; each write is
  best effort.  The retrieval of context is the argument \<open>knowledge\<close> (\<open>None\<close>: no store, or it threw),
  the message to the operator the argument \<open>escalate\<close>.
\<close>

section \<open>Routing tables\<close>

definition l1_by_incident :: "(string, string) jsmap" where
  "l1_by_incident =
     [(''traffic-accident'', ''accident-agent''), (''fire'', ''fire-agent''), (''fallen-signage'', ''roadside''),
      (''road-maintenance'', ''roadside''), (''utility-hazard'', ''utility-agent''), (''public-warning'', ''comms-agent''),
      (''other'', ''roadside'')]"

definition l1_from_signals :: "string list \<Rightarrow> string option" where
  "l1_from_signals signals =
     (if (list_ex (\<lambda>x. starts_with x ''vehicle:smoke_or_fire'') signals \<or> ''description:danger_lexicon'' \<in> set signals) \<and>
         (list_ex (\<lambda>x. js_includes x ''smoke_or_fire'') signals \<or> ''followup:danger_true'' \<in> set signals)
      then Some ''fire-agent''
      else if list_ex (\<lambda>x. starts_with x ''interaction:contact'' \<or> starts_with x ''changes:new_vehicle_contact'' \<or> starts_with x ''vehicle:'') signals
      then Some ''accident-agent''
      else if list_ex (\<lambda>x. starts_with x ''sign:'' \<or> starts_with x ''object:'' \<or> starts_with x ''road:'') signals
      then Some ''roadside'' else None)"

section \<open>An intent becomes an action\<close>

datatype route_result =
    Not_routed string
  | Routed string string string string

definition l0_entry :: "string \<Rightarrow> string \<Rightarrow> json \<Rightarrow> string \<Rightarrow> entry" where
  "l0_entry tool outcome why intent =
     [(''kind'', JStr ''orchestrator''), (''agent'', JStr ''l0''), (''verb'', JStr ''read''), (''tool'', JStr tool),
      (''outcome'', JStr outcome), (''reason'', why), (''intentId'', JStr intent)]"

definition destructive :: "verb \<Rightarrow> bool" where
  "destructive v = (v = Update \<or> v = Delete)"

definition action_of :: "int \<Rightarrow> intent \<Rightarrow> registry_row \<Rightarrow> action" where
  "action_of now i row =
     (bare_action (rg_tool row) (rg_verb row))
       \<lparr>ac_impact := impacts_json (rg_impact row), ac_declared := True,
        ac_id := JStr (''l0-'' @ take 12 (in_id i) @ ''-'' @ show_int now),
        ac_agent := JStr (rg_agent row), ac_intent := JStr (in_id i),
        ac_request :=
          (if rg_grant row = [] then None
           else Some \<lparr>rq_method = (if rg_verb row = Read then ''GET'' else ''POST''),
                      rq_host = (case rg_egress row of None \<Rightarrow> [] | Some e \<Rightarrow> eg_host e),
                      rq_path = (case rg_egress row of None \<Rightarrow> ''/'' | Some e \<Rightarrow> eg_path e)\<rparr>),
        ac_inverse := (if destructive (rg_verb row) then JObj [(''kind'', JStr ''restore''), (''of'', JStr (rg_tool row))] else JUndef)\<rparr>"

definition retrieved_context :: "(string \<Rightarrow> hit list option) \<Rightarrow> intent \<Rightarrow> string" where
  "retrieved_context knowledge i =
     (case knowledge (js_string (js_coalesce (in_outcome i) (JStr []))) of None \<Rightarrow> [] | Some hits \<Rightarrow> context_block hits)"

definition stage_of :: "registry_row \<Rightarrow> string" where
  "stage_of row = (case consent_kind (rg_verb row) (impacts_json (rg_impact row)) of None \<Rightarrow> ''none'' | Some k \<Rightarrow> k)"

definition on_intent ::
  "(completion_request \<Rightarrow> infer_error + completion) \<Rightarrow> string option \<Rightarrow> registry \<Rightarrow> (string \<Rightarrow> hit list option) \<Rightarrow> bool \<Rightarrow> bool
     \<Rightarrow> (intent \<Rightarrow> action \<Rightarrow> string + unit) option \<Rightarrow> int \<Rightarrow> intent \<Rightarrow> intent_store \<Rightarrow> route_result \<times> entry list \<times> intent_store" where
  "on_intent infer env reg knowledge local hosted escalate now i store =
     (if in_actions i \<noteq> [] then (Not_routed ''already routed'', [], store)
      else if in_kind i = JStr ''demo''
      then (Not_routed ''demo intent, escalated directly by the admin dashboard'', [], store)
      else
        (case plan_action infer env reg i local hosted (retrieved_context knowledge i) of
           Inl (Plan_refused msg tool) \<Rightarrow>
             (Not_routed msg, [l0_entry ''l0.route'' ''refused'' (JStr (take 160 msg)) (in_id i)], store)
         | Inl (Plan_failed msg) \<Rightarrow>
             (Not_routed msg, [l0_entry ''l0.route'' ''error'' (JStr (take 160 msg)) (in_id i)], store)
         | Inr p \<Rightarrow>
             (case pn_tool p of
                None \<Rightarrow>
                  (Not_routed (pn_reason p), [l0_entry ''l0.route'' ''no-tool'' (JStr (take 160 (pn_reason p))) (in_id i)], store)
              | Some tool \<Rightarrow>
                  (case lookup_tool reg tool of
                     None \<Rightarrow> (Not_routed ''undeclared'', [], store)
                   | Some (row, skill) \<Rightarrow>
                       (let a = action_of now i row;
                            stage = stage_of row;
                            (seen, store') = await_consent (in_id i) a store;
                            routed = l0_entry ''l0.route'' ''routed'' (JStr (tool @ '' -> '' @ stage)) (in_id i);
                            asked = (case escalate of
                                       None \<Rightarrow> []
                                     | Some send \<Rightarrow>
                                         if stage = ''none'' then []
                                         else (case send i a of
                                                 Inr u \<Rightarrow> [l0_entry ''l0.escalate'' ''escalated''
                                                            (JStr (tool @ '' -> '' @ stage @ '' (operator asked)'')) (in_id i)]
                                               | Inl msg \<Rightarrow> [l0_entry ''l0.escalate'' ''escalation-failed'' (JStr (take 160 msg)) (in_id i)]))
                        in (Routed tool (rg_agent row) stage (''l0-'' @ take 12 (in_id i) @ ''-'' @ show_int now),
                            routed # asked, store'))))))"

text \<open>The tool of a plan is declared, so the branch without a row is not taken.\<close>

lemma planned_row:
  assumes "plan_action infer env reg i local hosted context = Inr p" and "pn_tool p = Some tool"
  obtains row skill where "lookup_tool reg tool = Some (row, skill)"
  using plan_action_tool [OF assms] by (auto simp: is_declared_def jhas_def lookup_tool_def)

section \<open>Frames\<close>

record review =
  rv_verdict :: verdict
  rv_l1 :: "string option"
  rv_signals :: "string list"
  rv_inferred :: bool

fun verdict_incident :: "verdict \<Rightarrow> (json \<times> string) option" where
  "verdict_incident (Incident intent kind severity signals trigger act) = Some (kind, intent)"
| "verdict_incident (Attached intent n signals) = Some (JUndef, intent)"
| "verdict_incident v = None"

text \<open>\<open>L1_BY_INCIDENT[type] ?? deterministic ?? "roadside"\<close>; an attached verdict carries no type.\<close>

definition l1_for :: "json \<Rightarrow> string list \<Rightarrow> string" where
  "l1_for kind signals =
     (case (case kind of JStr k \<Rightarrow> map_of l1_by_incident k | _ \<Rightarrow> None) of
        Some a \<Rightarrow> a
      | None \<Rightarrow> (case l1_from_signals signals of Some a \<Rightarrow> a | None \<Rightarrow> ''roadside''))"

definition review_entry :: "json \<Rightarrow> string \<Rightarrow> string \<Rightarrow> json \<Rightarrow> entry" where
  "review_entry kind l1 intent trigger =
     l0_entry ''l0.review'' ''routed-to-l1'' (JStr (js_string (js_coalesce kind (JStr ''?'')) @ '' -> '' @ l1)) intent @
     [(''triggerPhrase'', trigger)]"

text \<open>The events of a new incident: one on the agent topic, then the hand-offs on the audit topic.\<close>

definition incident_events :: "level_map \<Rightarrow> verdict \<Rightarrow> string \<Rightarrow> (string \<times> entry) list" where
  "incident_events levels v l1 =
     (case v of
        Incident intent kind severity signals trigger act \<Rightarrow>
          (''agent'', [(''agentRoutedTo'', JStr l1), (''incident'', js_coalesce kind JNull), (''action'', opt_str act),
                       (''trigger'', opt_str trigger), (''intentId'', JStr intent)]) #
          (case narrate_response (case kind of JStr k \<Rightarrow> Some k | _ \<Rightarrow> None) (Some l1) (JStr intent) levels of
             None \<Rightarrow> []
           | Some evs \<Rightarrow> map (\<lambda>ev. (''audit'', handoff_to_audit ev levels)) evs)
      | _ \<Rightarrow> [])"

text \<open>\<open>reviewObservation\<close> behind the judge: what L0 makes of its verdict.\<close>

definition review_verdict :: "level_map \<Rightarrow> json \<Rightarrow> verdict \<Rightarrow> review \<times> entry list \<times> (string \<times> entry) list" where
  "review_verdict levels obs v =
     (let signals = candidate_signals obs in
      case verdict_incident v of
        Some (kind, intent) \<Rightarrow>
          (let l1 = l1_for kind signals;
               trigger = (case v of Incident _ _ _ _ t _ \<Rightarrow> opt_str t | _ \<Rightarrow> JNull)
           in (\<lparr>rv_verdict = v, rv_l1 = Some l1, rv_signals = signals, rv_inferred = True\<rparr>,
               [review_entry kind l1 intent trigger], incident_events levels v l1))
      | None \<Rightarrow> (\<lparr>rv_verdict = v, rv_l1 = None, rv_signals = signals, rv_inferred = (signals \<noteq> [])\<rparr>, [], []))"

section \<open>L0 cannot raise its own privilege\<close>

lemma on_intent_store:
  "snd (snd (on_intent infer env reg knowledge local hosted escalate now i store)) = store \<or>
   (\<exists>tool row skill. lookup_tool reg tool = Some (row, skill) \<and> in_actions i = [] \<and>
      snd (snd (on_intent infer env reg knowledge local hosted escalate now i store)) =
        snd (await_consent (in_id i) (action_of now i row) store))"
proof (cases "in_actions i \<noteq> [] \<or> in_kind i = JStr ''demo''")
  case False
  let ?plan = "plan_action infer env reg i local hosted (retrieved_context knowledge i)"
  show ?thesis
  proof (cases "\<exists>p tool row skill. ?plan = Inr p \<and> pn_tool p = Some tool \<and> lookup_tool reg tool = Some (row, skill)")
    case True
    then obtain p tool row skill where "?plan = Inr p" "pn_tool p = Some tool" "lookup_tool reg tool = Some (row, skill)" by blast
    with False have "snd (snd (on_intent infer env reg knowledge local hosted escalate now i store)) =
        snd (await_consent (in_id i) (action_of now i row) store)"
      by (simp add: on_intent_def Let_def split: prod.split)
    with \<open>lookup_tool reg tool = Some (row, skill)\<close> False show ?thesis by blast
  next
    case none: False
    then show ?thesis using False by (auto simp: on_intent_def split: sum.split plan_error.split option.split)
  qed
qed (auto simp: on_intent_def)

text \<open>What the action of a registry row is to the broker.\<close>

lemma action_of_row:
  "ac_verb (action_of now i row) = rg_verb row" "ac_tool (action_of now i row) = Some (rg_tool row)"
  "ac_impact (action_of now i row) = impacts_json (rg_impact row)" "ac_declared (action_of now i row)"
  "ac_intent (action_of now i row) = JStr (in_id i)"
  by (simp_all add: action_of_def bare_action_def)

lemma registry_of_skills:
  assumes "lookup_tool (capability_index skills) tool = Some (row, skill)"
    and "\<forall>s \<in> set skills. sk_registry s = compile_registry (sk_manifest s)"
  obtains s c where "s \<in> set skills" and "c \<in> set (mf_capabilities (sk_manifest s))"
    and "row = registry_of (sk_manifest s) c" and "cp_tool c = tool"
proof -
  from capability_index_tools [OF assms(1) [unfolded lookup_tool_def]] obtain s where
    s: "s \<in> set skills" "row \<in> set (sk_registry s)" "rg_tool row = tool" by blast
  with assms(2) obtain c where "c \<in> set (mf_capabilities (sk_manifest s))" "row = registry_of (sk_manifest s) c"
    by (auto simp: compile_registry_def)
  then show ?thesis using that s by (auto simp: registry_of_def)
qed

text \<open>C25. L0 selects and never raises its own privilege: whatever the model replies, whatever knowledge
  is retrieved and whether or not the operator can be asked, routing an intent leaves the intent
  store as it is, or adds to that one intent a single action awaiting consent, whose tool, verb and
  impact are those of a capability that a skill manifest declares; no decision is added, and no
  other intent changes.\<close>

theorem l0_no_escalation:
  fixes skills :: "skill list"
  assumes "\<forall>s \<in> set skills. sk_registry s = compile_registry (sk_manifest s)"
    and "on_intent infer env (capability_index skills) knowledge local hosted escalate now i store = (res, es, store')"
    and "map_of (st_by_id store) (in_id i) = Some i"
  shows "store' = store \<or>
    (\<exists>a i' s c. s \<in> set skills \<and> c \<in> set (mf_capabilities (sk_manifest s)) \<and>
       ac_tool a = Some (cp_tool c) \<and> ac_verb a = cp_verb c \<and> ac_impact a = impacts_json (cp_impact c) \<and>
       map_of (st_by_id store') (in_id i) = Some i' \<and> in_actions i' = [a] \<and> in_decisions i' = in_decisions i \<and>
       in_state i' = Awaiting_consent \<and>
       (\<forall>k. k \<noteq> in_id i \<longrightarrow> map_of (st_by_id store') k = map_of (st_by_id store) k) \<and>
       st_final store' = st_final store \<and> st_approvers store' = st_approvers store)"
proof -
  from on_intent_store [of infer env "capability_index skills" knowledge local hosted escalate now i store] assms(2)
  consider "store' = store" | tool row skill where "lookup_tool (capability_index skills) tool = Some (row, skill)"
      "in_actions i = []" "store' = snd (await_consent (in_id i) (action_of now i row) store)"
    by auto
  then show ?thesis
  proof cases
    case (2 tool row skill)
    obtain s c where c: "s \<in> set skills" "c \<in> set (mf_capabilities (sk_manifest s))" "row = registry_of (sk_manifest s) c"
      using registry_of_skills [OF 2(1) assms(1)] by metis
    let ?i = "i\<lparr>in_state := Awaiting_consent, in_actions := [action_of now i row]\<rparr>"
    have s': "store' = store\<lparr>st_by_id := jset (st_by_id store) (in_id i) ?i\<rparr>"
      using 2(2,3) assms(3) by (simp add: await_consent_def Let_def)
    have "ac_tool (action_of now i row) = Some (cp_tool c)" "ac_verb (action_of now i row) = cp_verb c"
      "ac_impact (action_of now i row) = impacts_json (cp_impact c)"
      by (simp_all add: action_of_row c(3) registry_of_def)
    with c(1,2) show ?thesis unfolding s'
      by (intro disjI2 exI [of _ "action_of now i row"] exI [of _ ?i] exI [of _ s] exI [of _ c]) simp
  qed simp
qed

definition demo_skill :: skill where
  "demo_skill =
     \<lparr>sk_path = ''s'', sk_manifest = sample_manifest, sk_level = mf_level sample_manifest, sk_grants = grants_for 3,
      sk_instructions = None, sk_fragment = \<lparr>fr_name = [], fr_description = [], fr_policies = [], fr_read = [], fr_write = []\<rparr>,
      sk_consent = compile_consent sample_manifest, sk_registry = compile_registry sample_manifest\<rparr>"

definition demo_model :: "completion_request \<Rightarrow> infer_error + completion" where
  "demo_model q =
     Inr \<lparr>co_text = JStr ''Use {\"tool\":\"dispatch.ems\",\"reason\":\"r\"}'', co_model = JNull, co_endpoint = [], co_latency = 1,
          co_usage = JNull, co_finish = JNull\<rparr>"

definition demo_intents :: intent_store where
  "demo_intents = (create_intents False)\<lparr>st_by_id := [(''int_1'', leaky_intent)]\<rparr>"

definition demo_routing :: "route_result \<times> entry list \<times> intent_store" where
  "demo_routing = on_intent demo_model None (capability_index [demo_skill]) (\<lambda>q. None) True True None 7 leaky_intent demo_intents"

lemma demo_routed:
  "fst demo_routing = Routed ''dispatch.ems'' ''dispatch'' ''approval'' ''l0-int_1-7'' \<and> snd (snd demo_routing) \<noteq> demo_intents"
  by code_simp

theorem l0_no_escalation_witness:
  "\<exists>es store' i'. demo_routing = (Routed ''dispatch.ems'' ''dispatch'' ''approval'' ''l0-int_1-7'', es, store') \<and>
     map_of (st_by_id store') ''int_1'' = Some i' \<and> length (in_actions i') = 1 \<and> in_decisions i' = [] \<and> in_state i' = Awaiting_consent"
proof -
  obtain res es store' where r: "demo_routing = (res, es, store')" by (cases demo_routing) auto
  have k: "\<forall>s \<in> set [demo_skill]. sk_registry s = compile_registry (sk_manifest s)" by (simp add: demo_skill_def)
  have i: "map_of (st_by_id demo_intents) (in_id leaky_intent) = Some leaky_intent"
    by (simp add: demo_intents_def leaky_intent_def)
  have d: "res = Routed ''dispatch.ems'' ''dispatch'' ''approval'' ''l0-int_1-7''" and s: "store' \<noteq> demo_intents"
    using demo_routed unfolding r by simp_all
  have l: "in_id leaky_intent = ''int_1''" "in_decisions leaky_intent = []" by (simp_all add: leaky_intent_def)
  from l0_no_escalation [OF k r [unfolded demo_routing_def] i] s obtain a i' where
    "map_of (st_by_id store') ''int_1'' = Some i'" "in_actions i' = [a]" "in_decisions i' = []" "in_state i' = Awaiting_consent"
    unfolding l by blast
  then show ?thesis unfolding r d by auto
qed

end
