(* ===== verification/Recorder.thy ===== *)
theory Recorder
  imports Judge Ledger_Durable
begin

text \<open>
  The training recorder of src/training/recorder.js: while it is active it labels each observation of the
  bus and appends it as one line to the file of its session.

  The file system is a map from paths to contents.  The bus delivers an event only while the
  recorder is subscribed, which is while it is active (\<open>observe\<close>).
\<close>

section \<open>Labels\<close>

record capture =
  cp_label :: string
  cp_incident :: json
  cp_phrase :: json
  cp_l1 :: json
  cp_signals :: json
  cp_verdict :: json
  cp_text :: json

definition event_text :: "json \<Rightarrow> json" where
  "event_text ev = js_coalesce (js_coalesce (obj_get ev ''description'') (obj_get ev ''scene_description'')) (JStr [])"

definition phrase_hit :: "trigger list option \<Rightarrow> json \<Rightarrow> (trigger \<times> string) option" where
  "phrase_hit triggers text =
     (case triggers of
        None \<Rightarrow> None
      | Some rules \<Rightarrow> (case trigger_match rules text of None \<Rightarrow> None | Some hit \<Rightarrow> hit))"

definition label_of :: "trigger list option \<Rightarrow> json \<Rightarrow> capture" where
  "label_of triggers ev =
     (let text = event_text ev;
          hit = phrase_hit triggers text;
          v = obj_get ev ''verdict'';
          of_hit = (\<lambda>f. case hit of None \<Rightarrow> JNull | Some h \<Rightarrow> JStr (f h))
      in \<lparr>cp_label =
             (if v = JStr ''incident'' \<or> v = JStr ''attached'' \<or> hit \<noteq> None then ''action''
              else if v = JStr ''judged-nominal'' \<or> has_length (obj_get ev ''signals'') \<or> obj_get ev ''danger_signal'' = JBool True
              then ''borderline'' else ''normal''),
           cp_incident = js_coalesce (obj_get ev ''incidentType'') (of_hit (\<lambda>h. tg_incident (fst h))),
           cp_phrase = of_hit snd, cp_l1 = of_hit (\<lambda>h. tg_agent (fst h)),
           cp_signals = js_coalesce (obj_get ev ''signals'') (JArr []), cp_verdict = js_coalesce v JNull, cp_text = text\<rparr>)"

definition capture_row :: "string \<Rightarrow> capture \<Rightarrow> json" where
  "capture_row at' c =
     JObj [(''at'', JStr at'), (''label'', JStr (cp_label c)), (''incidentType'', cp_incident c), (''triggerPhrase'', cp_phrase c),
           (''l1'', cp_l1 c), (''signals'', cp_signals c), (''verdict'', cp_verdict c), (''text'', cp_text c)]"

section \<open>The recorder\<close>

record tally =
  ty_action :: nat
  ty_borderline :: nat
  ty_normal :: nat
  ty_total :: nat

definition zero_tally :: tally where
  "zero_tally = \<lparr>ty_action = 0, ty_borderline = 0, ty_normal = 0, ty_total = 0\<rparr>"

definition count_label :: "string \<Rightarrow> tally \<Rightarrow> tally" where
  "count_label l t =
     (let t' = t\<lparr>ty_total := Suc (ty_total t)\<rparr> in
      if l = ''action'' then t'\<lparr>ty_action := Suc (ty_action t')\<rparr>
      else if l = ''borderline'' then t'\<lparr>ty_borderline := Suc (ty_borderline t')\<rparr>
      else t'\<lparr>ty_normal := Suc (ty_normal t')\<rparr>)"

record recorder =
  rd_active :: bool
  rd_file :: "string option"
  rd_started :: "string option"
  rd_tally :: tally
  rd_triggers :: "trigger list option"
  rd_dir :: string

type_synonym files = "(string, string) jsmap"

definition create_recorder :: "trigger list option \<Rightarrow> string \<Rightarrow> recorder" where
  "create_recorder triggers dir =
     \<lparr>rd_active = False, rd_file = None, rd_started = None, rd_tally = zero_tally, rd_triggers = triggers, rd_dir = dir\<rparr>"

definition content :: "files \<Rightarrow> string \<Rightarrow> string" where
  "content fs path = (case map_of fs path of None \<Rightarrow> [] | Some t \<Rightarrow> t)"

text \<open>\<open>appendFileSync\<close>; a failing disk may have written a part.\<close>

definition append_file :: "disk \<Rightarrow> string \<Rightarrow> string \<Rightarrow> files \<Rightarrow> bool \<times> files" where
  "append_file d path text fs =
     (case d of
        Disk_ok \<Rightarrow> (True, jset fs path (content fs path @ text))
      | Disk_fails msg part \<Rightarrow> (False, if part = [] then fs else jset fs path (content fs path @ part)))"

text \<open>The subscriber: a fault of the disk is swallowed and not counted.\<close>

definition record_observation :: "disk \<Rightarrow> string \<Rightarrow> json \<Rightarrow> recorder \<times> files \<Rightarrow> recorder \<times> files" where
  "record_observation d at' ev s =
     (let c = label_of (rd_triggers (fst s)) ev in
      case rd_file (fst s) of
        None \<Rightarrow> s
      | Some path \<Rightarrow>
          (case append_file d path (json_str (capture_row at' c) @ [newline]) (snd s) of
             (True, fs) \<Rightarrow> ((fst s)\<lparr>rd_tally := count_label (cp_label c) (rd_tally (fst s))\<rparr>, fs)
           | (False, fs) \<Rightarrow> (fst s, fs)))"

definition observe :: "disk \<Rightarrow> string \<Rightarrow> json \<Rightarrow> recorder \<times> files \<Rightarrow> recorder \<times> files" where
  "observe d at' ev s = (if rd_active (fst s) then record_observation d at' ev s else s)"

definition session_path :: "string \<Rightarrow> string \<Rightarrow> string" where
  "session_path dir at' =
     dir @ ''/training-live-'' @ map (\<lambda>c. if c = CHR '':'' \<or> c = CHR ''.'' then CHR ''-'' else c) at' @ ''.jsonl''"

text \<open>\<open>start\<close>: \<open>mk\<close> is what making the directory throws, if it does; the result tells the file and \<open>already\<close>.\<close>

definition start_recorder :: "string option \<Rightarrow> string \<Rightarrow> string \<Rightarrow> recorder \<Rightarrow> (string + string option \<times> bool) \<times> recorder" where
  "start_recorder mk at1 at2 r =
     (if rd_active r then (Inr (rd_file r, True), r)
      else
        (case mk of
           Some msg \<Rightarrow> (Inl msg, r)
         | None \<Rightarrow>
             (let path = session_path (rd_dir r) at1
              in (Inr (Some path, False), r\<lparr>rd_file := Some path, rd_started := Some at2, rd_active := True\<rparr>))))"

text \<open>\<open>stop\<close>: the file and the tally, or \<open>already\<close> (\<open>None\<close>).\<close>

definition stop_recorder :: "recorder \<Rightarrow> (string option \<times> tally) option \<times> recorder" where
  "stop_recorder r =
     (if \<not> rd_active r then (None, r) else (Some (rd_file r, rd_tally r), r\<lparr>rd_active := False\<rparr>))"

definition recorder_status :: "recorder \<Rightarrow> bool \<times> string option \<times> string option \<times> tally" where
  "recorder_status r = (rd_active r, rd_file r, rd_started r, rd_tally r)"

section \<open>What a session leaves on the disk\<close>

text \<open>A session: the observations with their time stamps.\<close>

definition observe_all :: "(string \<times> json) list \<Rightarrow> recorder \<times> files \<Rightarrow> recorder \<times> files" where
  "observe_all evs s = foldl (\<lambda>s ev. observe Disk_ok (fst ev) (snd ev) s) s evs"

definition rows_of :: "trigger list option \<Rightarrow> (string \<times> json) list \<Rightarrow> json list" where
  "rows_of triggers evs = map (\<lambda>ev. capture_row (fst ev) (label_of triggers (snd ev))) evs"

definition count_labels :: "string list \<Rightarrow> tally \<Rightarrow> tally" where
  "count_labels ls t = foldl (\<lambda>t l. count_label l t) t ls"

definition labels_of :: "trigger list option \<Rightarrow> (string \<times> json) list \<Rightarrow> string list" where
  "labels_of triggers evs = map (\<lambda>ev. cp_label (label_of triggers (snd ev))) evs"

lemma observe_all_files:
  "rd_active r \<Longrightarrow> rd_file r = Some path \<Longrightarrow>
     (case observe_all evs (r, fs) of (r', fs') \<Rightarrow>
        content fs' path = content fs path @ file_of (rows_of (rd_triggers r) evs) \<and>
        r' = r\<lparr>rd_tally := count_labels (labels_of (rd_triggers r) evs) (rd_tally r)\<rparr>)"
proof (induction evs arbitrary: r fs)
  case Nil
  then show ?case by (simp add: observe_all_def rows_of_def file_of_def count_labels_def labels_of_def)
next
  case (Cons ev evs)
  obtain at' e where ev: "ev = (at', e)" by (cases ev)
  let ?c = "label_of (rd_triggers r) e"
  let ?t = "json_str (capture_row at' ?c) @ [newline]"
  let ?r = "r\<lparr>rd_tally := count_label (cp_label ?c) (rd_tally r)\<rparr>"
  let ?fs = "jset fs path (content fs path @ ?t)"
  have "observe_all (ev # evs) (r, fs) = observe_all evs (?r, ?fs)"
    using Cons.prems by (simp add: observe_all_def observe_def record_observation_def append_file_def ev Let_def del: json_str.simps)
  moreover have "content ?fs path = content fs path @ ?t" by (simp add: content_def del: json_str.simps)
  ultimately show ?case using Cons.IH [of ?r ?fs] Cons.prems
    by (simp add: rows_of_def file_of_def count_labels_def labels_of_def ev case_prod_unfold del: json_str.simps)
qed

lemma count_labels_total:
  "ty_total (count_labels ls t) = ty_total t + length ls \<and> ty_action (count_labels ls t) = ty_action t + count_list ls ''action'' \<and>
   ty_borderline (count_labels ls t) = ty_borderline t + count_list ls ''borderline''"
  by (induction ls arbitrary: t) (auto simp: count_labels_def count_label_def Let_def)

lemma wf_obj_get: "wf_json (JObj kvs) \<Longrightarrow> obj_get (JObj kvs) k = JUndef \<or> wf_json (obj_get (JObj kvs) k)"
  by (auto simp: list_all_iff split: option.split dest!: map_of_SomeD)

lemma wf_coalesce: "v = JUndef \<or> wf_json v \<Longrightarrow> wf_json d \<Longrightarrow> wf_json (js_coalesce v d)"
  by (auto simp: js_coalesce_def)

lemma wf_coalesce2: "v = JUndef \<or> wf_json v \<Longrightarrow> d = JUndef \<or> wf_json d \<Longrightarrow> js_coalesce v d = JUndef \<or> wf_json (js_coalesce v d)"
  by (auto simp: js_coalesce_def)

lemma wf_capture_row: "wf_json (JObj kvs) \<Longrightarrow> wf_json (capture_row at' (label_of triggers (JObj kvs)))"
proof -
  assume w: "wf_json (JObj kvs)"
  note g = wf_obj_get [OF w]
  have "wf_json (event_text (JObj kvs))" unfolding event_text_def by (intro wf_coalesce wf_coalesce2 g) simp
  moreover have "wf_json (js_coalesce (obj_get (JObj kvs) k) d)" if "wf_json d" for k d using g that by (rule wf_coalesce)
  moreover have "wf_json (case h of None \<Rightarrow> JNull | Some x \<Rightarrow> JStr (f x))" for h :: "(trigger \<times> string) option" and f by (cases h) auto
  ultimately show ?thesis by (simp add: capture_row_def label_of_def Let_def del: obj_get.simps)
qed

lemma lines_of_rows: "filter (\<lambda>w. w \<noteq> []) (js_split newline (file_of rs)) = map json_str rs"
  by (rule lines_file_of)

text \<open>What a session captures can be read back: when a fresh session observes events, its file read line
  by line parses to exactly their labelled rows in order, one line each, whatever their text holds,
  and the tally has grown by one per row, and per label.\<close>

theorem capture_roundtrip:
  assumes "\<not> rd_active r" and "start_recorder None at1 at2 r = (Inr (Some path, already), r1)" and "content fs path = []"
    and "list_all (\<lambda>(at', ev). \<exists>kvs. ev = JObj kvs \<and> wf_json ev) evs"
  shows "(case observe_all evs (r1, fs) of (r2, fs2) \<Rightarrow>
    map json_parse (filter (\<lambda>w. w \<noteq> []) (js_split newline (content fs2 path))) = map Some (rows_of (rd_triggers r) evs) \<and>
    ty_total (rd_tally r2) = ty_total (rd_tally r) + length evs \<and>
    ty_action (rd_tally r2) = ty_action (rd_tally r) + count_list (labels_of (rd_triggers r) evs) ''action'' \<and>
    ty_borderline (rd_tally r2) = ty_borderline (rd_tally r) + count_list (labels_of (rd_triggers r) evs) ''borderline'')"
proof -
  have r1: "rd_active r1" "rd_file r1 = Some path" "rd_triggers r1 = rd_triggers r" "rd_tally r1 = rd_tally r"
    using assms(1,2) by (auto simp: start_recorder_def Let_def)
  have "list_all wf_json (rows_of (rd_triggers r) evs)"
    using assms(4) by (auto simp: rows_of_def list_all_iff split: prod.splits intro!: wf_capture_row)
  then have "map json_parse (map json_str (rows_of (rd_triggers r) evs)) = map Some (rows_of (rd_triggers r) evs)"
    by (auto simp: list_all_iff json_parse_str)
  then show ?thesis
    using observe_all_files [OF r1(1,2), where evs = evs and fs = fs] r1 assms(3) count_labels_total
    by (auto simp: lines_of_rows labels_of_def simp del: json_str.simps)
qed

text \<open>The tally that \<open>stop\<close> reports covers the sessions before as well.\<close>

lemma tally_carries_over:
  assumes "start_recorder None at1 at2 r = (Inr (Some path, False), r1)"
  shows "map_option (\<lambda>x. ty_total (snd x)) (fst (stop_recorder (fst (observe_all evs (r1, fs))))) = Some (ty_total (rd_tally r) + length evs)"
proof -
  have r1: "rd_active r1" "rd_file r1 = Some path" "rd_tally r1 = rd_tally r"
    using assms by (auto simp: start_recorder_def Let_def split: if_splits)
  then show ?thesis
    using observe_all_files [OF r1(1,2), where evs = evs and fs = fs] count_labels_total
    by (auto simp: stop_recorder_def labels_of_def split: prod.splits)
qed

definition demo_captures :: "(string \<times> json) list" where
  "demo_captures =
     [(''t1'', JObj [(''description'', JStr (''two'' @ [newline] @ ''lines'')), (''verdict'', JStr ''incident'')]),
      (''t2'', JObj [(''scene_description'', JStr ''quiet''), (''verdict'', JStr ''judged-nominal'')])]"

definition demo_recorder :: recorder where
  "demo_recorder = snd (start_recorder None ''2026-01-01T00:00:00.000Z'' ''s'' (create_recorder None ''var''))"

theorem capture_roundtrip_witness:
  "(case observe_all demo_captures (demo_recorder, []) of (r2, fs2) \<Rightarrow>
     map json_parse (filter (\<lambda>w. w \<noteq> []) (js_split newline (content fs2 ''var/training-live-2026-01-01T00-00-00-000Z.jsonl''))) =
       map Some (rows_of None demo_captures) \<and>
     ty_total (rd_tally r2) = 2 \<and> ty_action (rd_tally r2) = 1 \<and> ty_borderline (rd_tally r2) = 1)"
proof -
  let ?r = "create_recorder None ''var''"
  have s: "start_recorder None ''2026-01-01T00:00:00.000Z'' ''s'' ?r =
      (Inr (Some ''var/training-live-2026-01-01T00-00-00-000Z.jsonl'', False), demo_recorder)"
    by (simp add: demo_recorder_def start_recorder_def create_recorder_def session_path_def Let_def)
  have a: "\<not> rd_active ?r" by (simp add: create_recorder_def)
  have c: "content [] ''var/training-live-2026-01-01T00-00-00-000Z.jsonl'' = []" by (simp add: content_def)
  have w: "list_all (\<lambda>(at', ev). \<exists>kvs. ev = JObj kvs \<and> wf_json ev) demo_captures" by (simp add: demo_captures_def)
  have l: "labels_of None demo_captures = [''action'', ''borderline'']" by code_simp
  have n: "length demo_captures = 2" by (simp add: demo_captures_def)
  have z: "rd_tally ?r = zero_tally" "rd_triggers ?r = None" by (simp_all add: create_recorder_def)
  show ?thesis using capture_roundtrip [OF a s c w] by (auto simp: l n z zero_tally_def)
qed

end
