(* ===== verification/Portal.thy ===== *)
theory Portal
  imports Api_Server Boot Recorder
begin

text \<open>
  The rest of the admin portal in src/api/server.js: deploying an agent, the demonstration and the training
  controls, and the pages, in front of the routes of \<open>Api_Server\<close>.

  The skills directory is a map from the names of its subdirectories to the manifest file in them.  YAML
  is a parameter: \<open>caps\<close> reads a list of capabilities (\<open>None\<close> when the text is no list, \<open>Inl\<close> inside when
  an element does not fit the schema) and \<open>yaml_of\<close> renders a manifest.  A page is named with the
  message it shows; the pages on the ledger are the rows they show.
\<close>

section \<open>State\<close>

record 'v portal =
  pt_api :: "'v api_state"
  pt_skills :: "(string, string) jsmap"
  pt_recorder :: "recorder option"
  pt_applied :: nat

record portal_env =
  pv_caps :: "string \<Rightarrow> string + (string + capability list) option"
  pv_yaml_of :: "manifest \<Rightarrow> string"
  pv_mkdir :: "string option"
  pv_has_demo :: bool
  pv_registry :: registry
  pv_escalate :: "(intent \<Rightarrow> action \<Rightarrow> string + unit) option"
  pv_stamp :: string
  pv_ms :: string

section \<open>Deploying an agent\<close>

text \<open>\<open>form.get(k)?.trim()\<close>.\<close>

definition form_trim :: "http_request \<Rightarrow> string \<Rightarrow> string" where
  "form_trim r k = js_trim (form_text r k)"

definition form_capabilities :: "portal_env \<Rightarrow> http_request \<Rightarrow> string + (string + capability list)" where
  "form_capabilities v r =
     (let raw = form_trim r ''capabilities'' in
      if raw = [] then Inr (Inr [])
      else
        (case pv_caps v raw of
           Inl msg \<Rightarrow> Inl (''capabilities is not valid YAML: '' @ take 200 msg)
         | Inr None \<Rightarrow> Inl ''capabilities must be a YAML list''
         | Inr (Some caps) \<Rightarrow> Inr caps))"

text \<open>\<open>Number(form.get("level") ?? 2)\<close>; \<open>None\<close> is a number that is no integer.\<close>

definition form_level :: "http_request \<Rightarrow> int option" where
  "form_level r = (case map_of (hr_form r) ''level'' of None \<Rightarrow> Some 2 | Some t \<Rightarrow> header_number (Some t))"

definition form_manifest :: "http_request \<Rightarrow> int \<Rightarrow> capability list \<Rightarrow> manifest" where
  "form_manifest r lv caps =
     \<lparr>mf_skill = form_trim r ''skill'', mf_agent = form_trim r ''agent'',
      mf_description = (if form_trim r ''description'' = [] then None else Some (form_trim r ''description'')),
      mf_level = lv, mf_inference = (map_of (hr_form r) ''inference'' = Some ''yes''), mf_capabilities = caps,
      mf_read = [], mf_write = [], mf_binaries = []\<rparr>"

text \<open>The gate of the loader: \<open>Inl\<close> is what the page reports.\<close>

definition deploy_manifest :: "portal_env \<Rightarrow> http_request \<Rightarrow> string + manifest" where
  "deploy_manifest v r =
     (case form_capabilities v r of
        Inl err \<Rightarrow> Inl err
      | Inr (Inl issue) \<Rightarrow> Inl (take 400 issue)
      | Inr (Inr caps) \<Rightarrow>
          (case form_level r of
             None \<Rightarrow> Inl ''schema''
           | Some lv \<Rightarrow>
               (case parse_manifest (form_manifest r lv caps) of
                  Inl issues \<Rightarrow> Inl (take 400 (js_join ''; '' issues))
                | Inr m \<Rightarrow> Inr m)))"

definition skill_text :: "portal_env \<Rightarrow> manifest \<Rightarrow> string \<Rightarrow> string" where
  "skill_text v m instructions =
     ''---'' @ [CHR 0x0A] @ pv_yaml_of v m @ ''---'' @ [CHR 0x0A] @ (if instructions = [] then [] else instructions @ [CHR 0x0A])"

definition deploy_entry :: "'v api_env \<Rightarrow> manifest \<Rightarrow> bool \<Rightarrow> (string \<times> json) list" where
  "deploy_entry e m now =
     [(''kind'', JStr ''ui''), (''agent'', JStr (case pe_operator e of None \<Rightarrow> ''admin'' | Some c \<Rightarrow> cl_id c)),
      (''tool'', JStr ''ui.agent.deploy''), (''verb'', JStr ''create''), (''outcome'', JStr ''deployed''),
      (''reason'', JStr (mf_skill m @ '' level='' @ show_int (mf_level m) @ '' applyNow='' @ (if now then ''true'' else ''false'')))]"

text \<open>The write: a failing disk leaves the directory with what it wrote of the file.\<close>

definition write_skill :: "portal_env \<Rightarrow> disk \<Rightarrow> string \<Rightarrow> string \<Rightarrow> (string, string) jsmap \<Rightarrow> (string + unit) \<times> (string, string) jsmap" where
  "write_skill v d skill text dirs =
     (case pv_mkdir v of
        Some msg \<Rightarrow> (Inl msg, dirs)
      | None \<Rightarrow>
          (case d of
             Disk_fails msg partial \<Rightarrow> (Inl msg, jset dirs skill partial)
           | Disk_ok \<Rightarrow> (Inr (), jset dirs skill text)))"

definition deploy :: "'v api_env \<Rightarrow> portal_env \<Rightarrow> http_request \<Rightarrow> 'v portal \<Rightarrow> (string + reply) \<times> 'v portal" where
  "deploy e v r s =
     (case deploy_manifest v r of
        Inl err \<Rightarrow> (Inr (422, B_page ''agent-new'' err), s)
      | Inr m \<Rightarrow>
          if jhas (pt_skills s) (mf_skill m)
          then (Inr (422, B_page ''agent-new'' (''skill \"'' @ mf_skill m @ ''\" already exists; deploys never overwrite an enabled agent'')), s)
          else
            (case write_skill v (pe_disk e) (mf_skill m) (skill_text v m (form_trim r ''instructions'')) (pt_skills s) of
               (Inl msg, dirs) \<Rightarrow> (Inr (500, B_page ''agent-new'' (''write failed: '' @ msg)), s\<lparr>pt_skills := dirs\<rparr>)
             | (Inr _, dirs) \<Rightarrow>
                 (let now = (map_of (hr_form r) ''apply_now'' = Some ''yes'') in
                  case pe_append e (deploy_entry e m now) (ap_ledger (pt_api s)) of
                    (Inl msg, l) \<Rightarrow>
                      (Inr (503, B_page ''text'' ''ledger unavailable; refusing to deploy unlogged''),
                       s\<lparr>pt_skills := dirs, pt_api := (pt_api s)\<lparr>ap_ledger := l\<rparr>\<rparr>)
                  | (Inr _, l) \<Rightarrow>
                      (Inr (303, B_redirect (''/ui?deployed='' @ mf_skill m)),
                       s\<lparr>pt_skills := dirs, pt_api := (pt_api s)\<lparr>ap_ledger := l\<rparr>,
                         pt_applied := (if now then Suc (pt_applied s) else pt_applied s)\<rparr>))))"

section \<open>The demonstration and training controls\<close>

definition ui_demo :: "'v api_env \<Rightarrow> portal_env \<Rightarrow> http_request \<Rightarrow> 'v portal \<Rightarrow> (string + reply) \<times> 'v portal" where
  "ui_demo e v r s =
     (case demo_trigger (pv_registry v) (pv_escalate v) (pe_append e) (pe_uuid e) (pe_at e) (pv_ms v) (pv_stamp v)
             (case map_of (hr_form r) ''tool'' of None \<Rightarrow> ''null'' | Some t \<Rightarrow> t) (ap_intents (pt_api s), ap_ledger (pt_api s)) of
        (out, store, l) \<Rightarrow>
          (Inr (case out of
                  Inl msg \<Rightarrow> (422, B_page ''demo'' (''escalation failed: '' @ take 200 msg))
                | Inr (Inl why) \<Rightarrow> (422, B_page ''demo'' why)
                | Inr (Inr (tool, consent, iid)) \<Rightarrow> (200, B_page ''demo'' iid)),
           s\<lparr>pt_api := (pt_api s)\<lparr>ap_intents := store, ap_ledger := l\<rparr>\<rparr>))"

definition ui_training_start :: "'v api_env \<Rightarrow> portal_env \<Rightarrow> recorder \<Rightarrow> 'v portal \<Rightarrow> (string + reply) \<times> 'v portal" where
  "ui_training_start e v rd s =
     (case start_recorder (pv_mkdir v) (pe_at e) (pe_at e) rd of
        (Inl msg, rd') \<Rightarrow> (Inl msg, s\<lparr>pt_recorder := Some rd'\<rparr>)
      | (Inr (file, already), rd') \<Rightarrow>
          (Inr (200, B_page ''training'' (case file of None \<Rightarrow> [] | Some f \<Rightarrow> f)), s\<lparr>pt_recorder := Some rd'\<rparr>))"

definition ui_training_stop :: "recorder \<Rightarrow> 'v portal \<Rightarrow> (string + reply) \<times> 'v portal" where
  "ui_training_stop rd s =
     (case stop_recorder rd of
        (out, rd') \<Rightarrow>
          (Inr (200, B_page ''training'' (case out of None \<Rightarrow> ''already'' | Some (file, t) \<Rightarrow> (case file of None \<Rightarrow> [] | Some f \<Rightarrow> f))),
           s\<lparr>pt_recorder := Some rd'\<rparr>))"

section \<open>The pages\<close>

definition some_param :: "http_request \<Rightarrow> string \<Rightarrow> json" where
  "some_param r k = (if truthy (param r k) then param r k else JUndef)"

definition audit_query :: "http_request \<Rightarrow> query" where
  "audit_query r =
     \<lparr>q_since = some_param r ''since'', q_tier = some_param r ''tier'', q_agent = some_param r ''agent'', q_verb = some_param r ''verb'',
      q_impact = JUndef, q_intent = some_param r ''intent'', q_outcome = some_param r ''outcome'', q_kind = JUndef, q_limit = 0\<rparr>"

definition page_query :: query where
  "page_query =
     \<lparr>q_since = JUndef, q_tier = JUndef, q_agent = JUndef, q_verb = JUndef, q_impact = JUndef, q_intent = JUndef,
      q_outcome = JUndef, q_kind = JUndef, q_limit = 0\<rparr>"

definition missing :: "bool \<Rightarrow> string \<Rightarrow> string \<Rightarrow> reply" where
  "missing has what page = (if has then (200, B_page page []) else (503, B_page ''text'' (what @ '' not configured'')))"

definition portal_page :: "'v api_env \<Rightarrow> portal_env \<Rightarrow> http_request \<Rightarrow> 'v portal \<Rightarrow> reply option" where
  "portal_page e v r s =
     (let p = hr_path r; a = pt_api s in
      if hr_method r \<noteq> ''GET'' then None
      else if p = ''/ui'' then Some (200, B_page ''skills'' (case map_of (hr_query r) ''deployed'' of None \<Rightarrow> [] | Some d \<Rightarrow> d))
      else if p = ''/ui/agents/new'' then Some (200, B_page ''agent-new'' [])
      else if p = ''/ui/knowledge'' then Some (missing (ap_docs a \<noteq> None) ''knowledge store'' ''knowledge'')
      else if p = ''/ui/intents'' then Some (200, B_page ''intents'' [])
      else if p = ''/ui/ledger'' then Some (200, B_ledger (rows page_query 200 (ap_ledger a)) (ledger_verify (pe_hash e) (ap_ledger a)))
      else if p = ''/ui/audit''
      then Some (200, B_ledger (rows (audit_query r) (limit_of r 500) (ap_ledger a)) (ledger_verify (pe_hash e) (ap_ledger a)))
      else if p = ''/ui/triggers'' then Some (missing (ap_triggers a \<noteq> None) ''trigger store'' ''triggers'')
      else if p = ''/ui/demo'' then Some (missing (pv_has_demo v) ''demo control'' ''demo'')
      else if p = ''/ui/training'' then Some (missing (pt_recorder s \<noteq> None) ''training recorder'' ''training'')
      else None)"

section \<open>The handler\<close>

definition portal_form ::
  "'v api_env \<Rightarrow> http_request \<Rightarrow> 'v portal \<Rightarrow> (string + reply) \<times> 'v portal \<Rightarrow> (string + reply) \<times> 'v portal" where
  "portal_form e r s res =
     (case read_body r of
        Inl err \<Rightarrow> (Inl (ae_message err), s)
      | Inr raw \<Rightarrow> if bad_csrf e r then (Inr (403, B_page ''text'' ''bad csrf token''), s) else res)"

definition portal_post :: "'v api_env \<Rightarrow> portal_env \<Rightarrow> http_request \<Rightarrow> 'v portal \<Rightarrow> ((string + reply) \<times> 'v portal) option" where
  "portal_post e v r s =
     (if hr_method r \<noteq> ''POST'' then None
      else if hr_path r = ''/ui/agents/new'' then Some (portal_form e r s (deploy e v r s))
      else if hr_path r = ''/ui/demo/trigger'' then
        Some (if \<not> pv_has_demo v then (Inr (missing False ''demo control'' ''demo''), s) else portal_form e r s (ui_demo e v r s))
      else if hr_path r = ''/ui/training/start'' then
        Some (case pt_recorder s of None \<Rightarrow> (Inr (missing False ''training recorder'' ''training''), s)
              | Some rd \<Rightarrow> portal_form e r s (ui_training_start e v rd s))
      else if hr_path r = ''/ui/training/stop'' then
        Some (case pt_recorder s of None \<Rightarrow> (Inr (missing False ''training recorder'' ''training''), s)
              | Some rd \<Rightarrow> portal_form e r s (ui_training_stop rd s))
      else None)"

definition portal_request :: "'v api_env \<Rightarrow> portal_env \<Rightarrow> http_request \<Rightarrow> 'v portal \<Rightarrow> (string + reply) \<times> 'v portal" where
  "portal_request e v r s =
     (if in_portal (hr_path r) \<and> is_admin e r
      then
        (case portal_page e v r s of
           Some rep \<Rightarrow> (Inr rep, s)
         | None \<Rightarrow>
             (case portal_post e v r s of
                Some res \<Rightarrow> res
              | None \<Rightarrow> (case handle_request (\<lambda>e r a. None) e r (pt_api s) of (res, a) \<Rightarrow> (res, s\<lparr>pt_api := a\<rparr>))))
      else (case handle_request (\<lambda>e r a. None) e r (pt_api s) of (res, a) \<Rightarrow> (res, s\<lparr>pt_api := a\<rparr>)))"

end
