(* ===== verification/Json_Pretty.thy ===== *)
theory Json_Pretty
  imports Json_Roundtrip
begin

text \<open>
  \<open>JSON.stringify(v, null, 2)\<close>, the rendering with line breaks that the audit page shows: it parses back to the value.
\<close>

definition line :: "nat \<Rightarrow> string" where
  "line d = CHR 0x0A # replicate (2 * d) CHR '' ''"

fun json_pretty :: "nat \<Rightarrow> json \<Rightarrow> string" where
  "json_pretty d (JArr xs) =
     (if xs = [] then ''[]''
      else ''['' @ line (Suc d) @ js_join ('','' @ line (Suc d)) (map (json_pretty (Suc d)) xs) @ line d @ '']'')"
| "json_pretty d (JObj kvs) =
     (if filter (\<lambda>(k, v). v \<noteq> JUndef) kvs = [] then ''{}''
      else ''{'' @ line (Suc d)
           @ js_join ('','' @ line (Suc d)) (map (\<lambda>(k, v). json_quote k @ '': '' @ json_pretty (Suc d) v) (filter (\<lambda>(k, v). v \<noteq> JUndef) kvs))
           @ line d @ ''}'')"
| "json_pretty d v = json_str v"

abbreviation pretty_member :: "nat \<Rightarrow> string \<times> json \<Rightarrow> string" where
  "pretty_member d kv \<equiv> json_quote (fst kv) @ '': '' @ json_pretty d (snd kv)"

section \<open>White space\<close>

abbreviation blank :: "string \<Rightarrow> bool" where
  "blank w \<equiv> list_all json_ws w"

lemma blank_line [simp]: "blank (line d)"
  by (auto simp: line_def json_ws_def list_all_iff)

lemma num_end_line [simp]: "num_end (line d @ r)"
  by (simp add: line_def num_end_def is_digit_def)

lemma skip_ws_blank [simp]: "blank w \<Longrightarrow> skip_ws (w @ r) = skip_ws r"
  by (induction w) auto

lemma pval_blank: "blank w \<Longrightarrow> pval n (w @ r) = pval n r"
  by (cases n) simp_all

lemma pmembers_blank: "blank w \<Longrightarrow> pmembers n acc (w @ r) = pmembers n acc r"
  by (cases n) simp_all

lemma json_pretty_head: "\<exists>c s. json_pretty d v = c # s \<and> \<not> json_ws c \<and> c \<noteq> CHR '']'' \<and> c \<noteq> CHR ''}''"
proof (cases v)
  case (JNum i)
  then show ?thesis using json_str_head [of v] by simp
qed (auto simp: json_quote_def json_ws_def)

lemma skip_ws_pretty [simp]: "skip_ws (json_pretty d v @ r) = json_pretty d v @ r"
  using json_pretty_head [of d v] by auto

section \<open>The round trip\<close>

lemma pelems_pretty:
  assumes "\<And>v n r. v \<in> set xs \<Longrightarrow> length (f v) < n \<Longrightarrow> num_end r \<Longrightarrow> pval n (f v @ r) = Some (v, r)"
    and "xs \<noteq> []" and "length (js_join ('','' @ line d) (map f xs)) + 1 < n"
  shows "pelems n acc (line d @ js_join ('','' @ line d) (map f xs) @ line e @ CHR '']'' # r) = Some (JArr (acc @ xs), r)"
  using assms
proof (induction xs arbitrary: n acc)
  case Nil
  then show ?case by simp
next
  case (Cons v xs)
  from Cons.prems(3) obtain m where n: "n = Suc m" by (cases n) auto
  have lv: "length (f v) < m" using Cons.prems(3) n by (auto simp: join_Cons)
  show ?case
  proof (cases "xs = []")
    case True
    with Cons.prems(1) [of v m "line e @ CHR '']'' # r"] lv show ?thesis by (simp add: n pval_blank)
  next
    case False
    let ?rest = "line d @ js_join ('','' @ line d) (map f xs) @ line e @ CHR '']'' # r"
    have "pval m (f v @ CHR '','' # ?rest) = Some (v, CHR '','' # ?rest)"
      using Cons.prems(1) lv by simp
    moreover have "pelems m (acc @ [v]) ?rest = Some (JArr ((acc @ [v]) @ xs), r)"
      using Cons.prems False n by (intro Cons.IH) (auto simp: join_Cons)
    ultimately show ?thesis using False by (simp add: n join_Cons pval_blank)
  qed
qed

lemma pmembers_pretty:
  assumes "\<And>kv n r. kv \<in> set kvs \<Longrightarrow> length (f (snd kv)) < n \<Longrightarrow> num_end r \<Longrightarrow> pval n (f (snd kv) @ r) = Some (snd kv, r)"
    and "kvs \<noteq> []" and "distinct (map fst (acc @ kvs))"
    and "length (js_join ('','' @ line d) (map (\<lambda>kv. json_quote (fst kv) @ '': '' @ f (snd kv)) kvs)) + 1 < n"
  shows "pmembers n acc (line d @ js_join ('','' @ line d) (map (\<lambda>kv. json_quote (fst kv) @ '': '' @ f (snd kv)) kvs)
      @ line e @ CHR ''}'' # r) = Some (JObj (acc @ kvs), r)"
  using assms
proof (induction kvs arbitrary: n acc)
  case Nil
  then show ?case by simp
next
  case (Cons kv kvs)
  obtain k v where kv: "kv = (k, v)" by (cases kv)
  from Cons.prems(4) obtain m where n: "n = Suc m" by (cases n) auto
  have lv: "length (f v) < m" using Cons.prems(4) n by (auto simp: join_Cons kv)
  have "\<not> jhas acc k" using Cons.prems(3) kv by (auto simp: jhas_iff_key)
  then have acc: "jset acc k v = acc @ [kv]" using kv by (simp add: jset_fresh)
  have sp: "pval m (CHR '' '' # t) = pval m t" for t using pval_blank [of "[CHR '' '']" m t] by (simp add: json_ws_def)
  show ?case
  proof (cases "kvs = []")
    case True
    with Cons.prems(1) [of kv m "line e @ CHR ''}'' # r"] lv acc show ?thesis
      by (simp add: n kv json_quote_def pstr_quoted sp)
  next
    case False
    let ?rest = "line d @ js_join ('','' @ line d) (map (\<lambda>kv. json_quote (fst kv) @ '': '' @ f (snd kv)) kvs) @ line e @ CHR ''}'' # r"
    have "pval m (f v @ CHR '','' # ?rest) = Some (v, CHR '','' # ?rest)"
      using Cons.prems(1) [of kv] lv kv by simp
    moreover have "pmembers m (acc @ [kv]) ?rest = Some (JObj ((acc @ [kv]) @ kvs), r)"
      using Cons.prems False n by (intro Cons.IH) (auto simp: join_Cons)
    ultimately show ?thesis using False acc
      by (simp add: n kv join_Cons json_quote_def pstr_quoted sp)
  qed
qed

lemma pval_open:
  assumes "blank w" and "c \<noteq> CHR '']''" and "c \<noteq> CHR ''}''" and "\<not> json_ws c"
  shows "pval (Suc n) (CHR ''['' # w @ c # s) = pelems n [] (w @ c # s)"
    "pval (Suc n) (CHR ''{'' # w @ c # s) = pmembers n [] (w @ c # s)"
  using assms by simp_all

lemma pval_pretty:
  "wf_json v \<Longrightarrow> length (json_pretty d v) < n \<Longrightarrow> num_end r \<Longrightarrow> pval n (json_pretty d v @ r) = Some (v, r)"
proof (induction v arbitrary: d n r)
  case (JArr xs)
  then obtain m where n: "n = Suc m" by (cases n) auto
  show ?case
  proof (cases "xs = []")
    case True
    then show ?thesis by (simp add: n json_ws_def)
  next
    case False
    let ?b = "js_join ('','' @ line (Suc d)) (map (json_pretty (Suc d)) xs)"
    have "pelems m [] (line (Suc d) @ ?b @ line d @ CHR '']'' # r) = Some (JArr ([] @ xs), r)"
      using JArr False n by (intro pelems_pretty) (auto simp: list_all_iff)
    moreover obtain c s where c: "?b = c # s" "\<not> json_ws c" "c \<noteq> CHR '']''" "c \<noteq> CHR ''}''"
      using json_pretty_head [of "Suc d" "hd xs"] False by (cases xs) (auto simp: join_Cons simp del: json_pretty.simps)
    moreover have "json_pretty d (JArr xs) @ r = CHR ''['' # line (Suc d) @ ?b @ line d @ CHR '']'' # r"
      using False by simp
    ultimately show ?thesis using pval_open(1) [of "line (Suc d)" c m] by (simp only: n append.simps blank_line) simp
  qed
next
  case (JObj kvs)
  then obtain m where n: "n = Suc m" by (cases n) auto
  have all: "list_all (\<lambda>kv. wf_json (snd kv)) kvs" using JObj.prems by simp
  note fd = filter_defined [OF all]
  show ?case
  proof (cases "kvs = []")
    case True
    then show ?thesis by (simp add: n json_ws_def)
  next
    case False
    let ?b = "js_join ('','' @ line (Suc d)) (map (pretty_member (Suc d)) kvs)"
    have eq: "json_pretty d (JObj kvs) = CHR ''{'' # line (Suc d) @ ?b @ line d @ ''}''"
      using False fd by (simp add: case_prod_unfold)
    have "pmembers m [] (line (Suc d) @ ?b @ line d @ CHR ''}'' # r) = Some (JObj ([] @ kvs), r)"
    proof (rule pmembers_pretty)
      fix kv n r assume "kv \<in> set kvs" "length (json_pretty (Suc d) (snd kv)) < n" "num_end r"
      then show "pval n (json_pretty (Suc d) (snd kv) @ r) = Some (snd kv, r)"
        using JObj.IH [of kv "snd kv"] all by (auto simp: list_all_iff snds.simps)
    qed (use JObj.prems False n eq in \<open>auto simp del: json_pretty.simps\<close>)
    moreover obtain s where c: "?b = CHR 0x22 # s"
      using False by (cases kvs) (auto simp: join_Cons json_quote_def)
    ultimately show ?thesis using pval_open(2) [of "line (Suc d)" "CHR 0x22" m] by (simp only: n eq append.simps append_assoc blank_line) simp
  qed
qed (simp_all only: json_pretty.simps pval_json_str)

text \<open>The page shows a record without loss.\<close>

lemma json_parse_pretty: "wf_json v \<Longrightarrow> json_parse (json_pretty 0 v) = Some v"
  using pval_pretty [of v 0 "Suc (length (json_pretty 0 v))" "[]"] by (simp add: json_parse_def)

end
