(* ===== verification/Pages.thy ===== *)
theory Pages
  imports Portal Narrate Json_Pretty
begin

text \<open>
  The pages of the admin portal: src/web/ui.js.

  A page is what \<open>createElement\<close> is given: a value, an array of children, or an element with its tag, its
  properties and its children; \<open>Layout\<close> is a function that is applied.  How React writes a tree out as text is not
  under src/ and not modelled: the definitions stop where \<open>renderToStaticMarkup\<close> is called.  A page that throws
  is \<open>Inl\<close> of the message.  The characters above 255 in the texts (a dash, an arrow, three dots) are
  arguments, as is the text that \<open>String\<close> gives of an inherited property.
\<close>

section \<open>Elements\<close>

type_synonym props = "(string \<times> json) list"

datatype node = Value json | Nodes "node list" | Element string props "node list"

abbreviation wording :: "string \<Rightarrow> node" where
  "wording s \<equiv> Value (JStr s)"

abbreviation nothing :: node where
  "nothing \<equiv> Value JNull"

abbreviation cls :: "string \<Rightarrow> string \<times> json" where
  "cls s \<equiv> (''className'', JStr s)"

abbreviation attr :: "string \<Rightarrow> string \<Rightarrow> string \<times> json" where
  "attr k s \<equiv> (k, JStr s)"

record glyphs =
  gl_dash :: string
  gl_arrow :: string
  gl_dots :: string
  gl_inherited :: "string \<Rightarrow> string"

definition ui_css :: string where
  "ui_css = js_join [CHR 0x0A]
     [[],
      '':root{--bg:#0f1115;--panel:#171a21;--line:#252a34;--fg:#e6e9ef;--dim:#8b94a7;'',
      ''--ok:#3fb950;--warn:#d29922;--bad:#f85149;--acc:#58a6ff;--mono:ui-monospace,SFMono-Regular,Menlo,monospace}'',
      ''*{box-sizing:border-box}'',
      ''body{margin:0;background:var(--bg);color:var(--fg);font:14px/1.5 ui-sans-serif,system-ui,-apple-system,sans-serif}'',
      ''header{border-bottom:1px solid var(--line);padding:14px 22px;display:flex;gap:22px;align-items:baseline}'',
      ''header h1{font-size:15px;margin:0;letter-spacing:.02em}'',
      ''header nav a{color:var(--dim);text-decoration:none;margin-right:16px}'',
      ''header nav a.on,header nav a:hover{color:var(--acc)}'',
      ''main{padding:22px;max-width:1180px}'',
      ''h2{font-size:13px;text-transform:uppercase;letter-spacing:.08em;color:var(--dim);margin:26px 0 10px}'',
      ''table{width:100%;border-collapse:collapse;background:var(--panel);border:1px solid var(--line);border-radius:8px;overflow:hidden}'',
      ''th{text-align:left;font-size:11px;text-transform:uppercase;letter-spacing:.06em;color:var(--dim);'',
      ''padding:9px 12px;border-bottom:1px solid var(--line);font-weight:600}'',
      ''td{padding:9px 12px;border-bottom:1px solid var(--line);vertical-align:top}'',
      ''tr:last-child td{border-bottom:none}'',
      ''code,.mono{font-family:var(--mono);font-size:12px}'',
      ''.pill{display:inline-block;padding:1px 8px;border-radius:999px;font-size:11px;font-weight:600;border:1px solid}'',
      ''.pill.ok{color:var(--ok);border-color:#1c3f26;background:#0d1f13}'',
      ''.pill.warn{color:var(--warn);border-color:#463a12;background:#221a06}'',
      ''.pill.bad{color:var(--bad);border-color:#4a1f1d;background:#25100f}'',
      ''.pill.dim{color:var(--dim);border-color:var(--line);background:#12151b}'',
      ''.empty{color:var(--dim);padding:16px;background:var(--panel);border:1px dashed var(--line);border-radius:8px}'',
      ''form.inline{display:flex;gap:8px;align-items:center;margin:0}'',
      ''input[type=text]{background:#0c0e12;border:1px solid var(--line);color:var(--fg);'',
      ''padding:6px 9px;border-radius:6px;font-size:12px;min-width:250px;font-family:inherit}'',
      ''textarea,select{background:#0c0e12;border:1px solid var(--line);color:var(--fg);'',
      ''padding:8px 10px;border-radius:6px;font-size:12px;font-family:var(--mono);width:100%}'',
      ''form.stack{display:flex;flex-direction:column;gap:12px;max-width:760px;background:var(--panel);'',
      ''border:1px solid var(--line);border-radius:8px;padding:18px}'',
      ''form.stack label{font-size:11px;text-transform:uppercase;letter-spacing:.06em;color:var(--dim);font-weight:600}'',
      ''.err{color:var(--bad);background:#25100f;border:1px solid #4a1f1d;border-radius:8px;padding:10px 14px;font-size:12px}'',
      ''.okbox{color:var(--ok);background:#0d1f13;border:1px solid #1c3f26;border-radius:8px;padding:10px 14px;font-size:12px}'',
      ''button{background:#1f6feb;border:0;color:#fff;padding:6px 12px;border-radius:6px;font-size:12px;'',
      ''font-weight:600;cursor:pointer}'',
      ''button.deny{background:#3a1d1c;color:var(--bad)}'',
      ''.note{color:var(--dim);font-size:12px;margin:6px 0 0}'',
      ''.scroll{overflow-x:auto;border-radius:8px}'',
      ''.filters{display:flex;flex-wrap:wrap;gap:10px;align-items:end;margin:0 0 14px}'',
      ''.filters .f{display:flex;flex-direction:column;gap:4px}'',
      ''.filters label{font-size:10px;text-transform:uppercase;letter-spacing:.06em;color:var(--dim);font-weight:600}'',
      ''.filters input{min-width:120px}'',
      ''details.raw>summary{cursor:pointer;color:var(--acc);font-size:11px;list-style:none}'',
      ''details.raw pre{background:#0c0e12;border:1px solid var(--line);border-radius:6px;padding:10px;'',
      ''overflow-x:auto;font-family:var(--mono);font-size:11px;color:var(--dim);margin:6px 0 0;white-space:pre-wrap;word-break:break-word}'',
      ''td.small{font-size:11px}'',
      []]"

definition pill :: "json \<Rightarrow> string \<Rightarrow> node" where
  "pill v kind = Element ''span'' [cls (''pill '' @ kind)] [Value v]"

abbreviation tag_pill :: "string \<Rightarrow> string \<Rightarrow> node" where
  "tag_pill s kind \<equiv> pill (JStr s) kind"

definition nav_link :: "string \<Rightarrow> string \<Rightarrow> string \<Rightarrow> string \<Rightarrow> node" where
  "nav_link active href name label =
     Element ''a'' [attr ''href'' href, cls (if active = name then ''on'' else [])] [wording label]"

definition Layout :: "string \<Rightarrow> string \<Rightarrow> node list \<Rightarrow> node" where
  "Layout title active children =
     Element ''html'' [attr ''lang'' ''en'']
       [Element ''head'' []
          [Element ''meta'' [attr ''charSet'' ''utf-8''] [],
           Element ''meta'' [attr ''name'' ''viewport'', attr ''content'' ''width=device-width,initial-scale=1''] [],
           Element ''title'' [] [wording (''OMODA '' @ title)],
           Element ''style'' [(''dangerouslySetInnerHTML'', JObj [(''__html'', JStr ui_css)])] []],
        Element ''body'' []
          [Element ''header'' []
             [Element ''h1'' [] [wording ''OMODA''],
              Element ''nav'' []
                [nav_link active ''/ui'' ''skills'' ''Skills'',
                 nav_link active ''/ui/intents'' ''intents'' ''Intents'',
                 nav_link active ''/ui/ledger'' ''ledger'' ''Ledger'',
                 nav_link active ''/ui/audit'' ''audit'' ''Audit'',
                 nav_link active ''/ui/training'' ''training'' ''Training'',
                 nav_link active ''/ui/demo'' ''demo'' ''Demo'',
                 nav_link active ''/ui/agents/new'' ''deploy'' ''Deploy agent'',
                 nav_link active ''/ui/knowledge'' ''knowledge'' ''Knowledge'',
                 nav_link active ''/ui/triggers'' ''triggers'' ''Triggers'']],
           Element ''main'' [] [Nodes children]]]"

definition head_row :: "string list \<Rightarrow> node" where
  "head_row cols = Element ''thead'' [] [Element ''tr'' [] [Nodes (map (\<lambda>c. Element ''th'' [attr ''key'' c] [wording c]) cols)]]"

definition note_p :: "node list \<Rightarrow> node" where
  "note_p kids = Element ''p'' [cls ''note''] kids"

definition err_box :: "string option \<Rightarrow> node" where
  "err_box e = (case e of None \<Rightarrow> nothing | Some s \<Rightarrow> if s = [] then nothing else Element ''div'' [cls ''err''] [wording s])"

definition hidden_input :: "string \<Rightarrow> json \<Rightarrow> node" where
  "hidden_input name v = Element ''input'' [attr ''type'' ''hidden'', attr ''name'' name, (''value'', v)] []"

section \<open>Skills, intents and the ledger\<close>

definition consentPill :: "string \<Rightarrow> node" where
  "consentPill consent =
     (if consent = ''none'' then tag_pill ''autonomous'' ''ok''
      else if consent = ''two-person'' then tag_pill ''two-person'' ''bad''
      else tag_pill consent ''warn'')"

definition skill_row :: "registry_row \<Rightarrow> node" where
  "skill_row r =
     Element ''tr'' [attr ''key'' (rg_tool r)]
       [Element ''td'' [cls ''mono''] [wording (rg_tool r)],
        Element ''td'' [] [Value (verb_value (rg_verb r))],
        Element ''td'' []
          [if rg_impact r \<noteq> []
           then Nodes (map (\<lambda>i. Element ''span'' [attr ''key'' (impact_name i)] [tag_pill (impact_name i) ''warn'', wording '' '']) (rg_impact r))
           else Element ''span'' [cls ''mono''] [wording ''-'']],
        Element ''td'' [cls ''mono''] [wording (rg_grant r)],
        Element ''td'' [] [consentPill (rg_consent r)]]"

definition skill_section :: "skill \<Rightarrow> node" where
  "skill_section s =
     Element ''div'' [attr ''key'' (mf_skill (sk_manifest s)), (''style'', JObj [(''marginBottom'', JNum 26)])]
       [Element ''h2'' [] [wording (mf_skill (sk_manifest s) @ ''  ''), tag_pill (mf_agent (sk_manifest s)) ''dim''],
        Element ''table'' []
          [head_row [''Tool'', ''Verb'', ''Impact'', ''OpenShell grant'', ''Consent''],
           Element ''tbody'' [] [Nodes (map skill_row (sk_registry s))]],
        note_p [wording ''Compiled from the manifest. A write carrying impact grants GET only; the write method appears solely while a decision is live.'']]"

definition SkillsPage :: "skill list \<Rightarrow> string option \<Rightarrow> node" where
  "SkillsPage skills deployed =
     Layout ''skills'' ''skills''
       [(case deployed of
           None \<Rightarrow> nothing
         | Some d \<Rightarrow>
             if d = [] then nothing
             else Element ''div'' [cls ''okbox'']
               [wording (''Agent \"'' @ d @ ''\" deployed. If you chose apply-now the service is restarting and this page reflects it in a few seconds; otherwise it applies on the next restart.'')]),
        Element ''h2'' [] [wording ''Enabled skills''],
        (if skills = [] then Element ''div'' [cls ''empty''] [wording ''No skills enabled.'']
         else Nodes [Nodes (map skill_section skills)])]"

definition pending :: "intent \<Rightarrow> bool" where
  "pending i = (in_state i = Awaiting_consent \<or> in_state i = Proposed)"

definition first_action :: "intent \<Rightarrow> json" where
  "first_action i = js_coalesce (case in_actions i of [] \<Rightarrow> JUndef | a # as \<Rightarrow> ac_id a) (JStr ''act-1'')"

definition decide_form :: "string \<Rightarrow> intent \<Rightarrow> node" where
  "decide_form csrf i =
     Element ''form'' [cls ''inline'', attr ''method'' ''POST'', attr ''action'' ''/ui/decide'']
       [hidden_input ''csrf'' (JStr csrf),
        hidden_input ''intent_id'' (JStr (in_id i)),
        hidden_input ''action_id'' (first_action i),
        Element ''input'' [attr ''type'' ''text'', attr ''name'' ''reason'', attr ''placeholder'' ''reason (required)'', (''required'', JBool True)] [],
        Element ''button'' [attr ''type'' ''submit'', attr ''name'' ''verdict'', attr ''value'' ''approve''] [wording ''Approve''],
        Element ''button'' [attr ''type'' ''submit'', attr ''name'' ''verdict'', attr ''value'' ''deny'', cls ''deny''] [wording ''Deny'']]"

definition intent_row :: "string \<Rightarrow> intent \<Rightarrow> node" where
  "intent_row csrf i =
     Element ''tr'' [attr ''key'' (in_id i)]
       [Element ''td'' [cls ''mono''] [wording (take 14 (in_id i))],
        Element ''td'' [] [wording (in_proposed_by i)],
        Element ''td'' [] [Value (js_coalesce (in_detector i) (JStr ''-''))],
        Element ''td'' [] [Value (js_coalesce (in_outcome i) (JStr ''-''))],
        Element ''td'' []
          [if in_state i = Awaiting_consent then tag_pill ''awaiting consent'' ''warn'' else tag_pill (state_name (in_state i)) ''dim''],
        Element ''td'' [] [decide_form csrf i]]"

definition IntentsPage :: "intent list \<Rightarrow> string \<Rightarrow> node" where
  "IntentsPage intents csrf =
     (let pend = filter pending intents in
      Layout ''intents'' ''intents''
        [Element ''h2'' [] [wording ''Intents''],
         (if pend = [] then Element ''div'' [cls ''empty''] [wording ''Nothing awaiting a decision.'']
          else Element ''table'' []
            [head_row [''Intent'', ''Source'', ''Detector'', ''Requested'', ''State'', ''Decide''],
             Element ''tbody'' [] [Nodes (map (intent_row csrf) pend)]]),
         note_p [wording ''A decision is recorded against one action and expires. The proposer cannot decide its own intent.'']])"

definition chain_pill :: "string \<Rightarrow> chain \<Rightarrow> node" where
  "chain_pill broken c =
     (case c of
        Chain_ok n \<Rightarrow> tag_pill (''chain verifies, '' @ show_nat n @ '' entries'') ''ok''
      | Chain_broken at' why \<Rightarrow> tag_pill (broken @ '' at '' @ js_string at') ''bad'')"

definition or_dash :: "json \<Rightarrow> json" where
  "or_dash v = js_coalesce v (JStr ''-'')"

definition ledger_row :: "json \<Rightarrow> node" where
  "ledger_row e =
     Element ''tr'' [(''key'', obj_get e ''seq'')]
       [Element ''td'' [cls ''mono''] [Value (obj_get e ''seq'')],
        Element ''td'' [] [Value (or_dash (obj_get e ''agent''))],
        Element ''td'' [cls ''mono''] [Value (or_dash (obj_get e ''tool''))],
        Element ''td'' [] [Value (or_dash (obj_get e ''verb''))],
        Element ''td'' []
          [if obj_get e ''tier'' = JStr ''prohibited'' then tag_pill ''prohibited'' ''bad''
           else if obj_get e ''tier'' = JStr ''consequential'' then tag_pill ''consequential'' ''warn''
           else pill (or_dash (js_coalesce (obj_get e ''tier'') (obj_get e ''kind''))) ''dim''],
        Element ''td'' [cls ''mono''] [wording (take 34 (js_string (or_dash (obj_get e ''authority''))))],
        Element ''td'' [] [Value (or_dash (obj_get e ''outcome''))]]"

definition LedgerPage :: "json list \<Rightarrow> chain \<Rightarrow> node" where
  "LedgerPage entries c =
     Layout ''ledger'' ''ledger''
       [Element ''h2'' [] [wording ''Action ledger  '', chain_pill ''chain broken'' c],
        (if entries = [] then Element ''div'' [cls ''empty''] [wording ''No actions recorded yet.'']
         else Element ''table'' []
           [head_row [''#'', ''Agent'', ''Tool'', ''Verb'', ''Tier'', ''Authority'', ''Outcome''],
            Element ''tbody'' [] [Nodes (map ledger_row (rev entries))]]),
        note_p [wording ''Written and fsynced before each action runs, so a crash between deciding and acting still leaves evidence.'']]"

section \<open>Training and demonstration\<close>

definition row_of_two :: "node \<Rightarrow> node \<Rightarrow> node" where
  "row_of_two a b = Element ''tr'' [] [Element ''td'' [] [a], Element ''td'' [cls ''mono''] [b]]"

definition count :: "nat \<Rightarrow> node" where
  "count n = Value (JNum (int n))"

definition stop_form :: "string \<Rightarrow> node" where
  "stop_form csrf =
     Element ''form'' [cls ''inline'', attr ''method'' ''post'', attr ''action'' ''/ui/training/stop'']
       [hidden_input ''csrf'' (JStr csrf), Element ''button'' [cls ''deny'', attr ''type'' ''submit''] [wording ''Stop capture'']]"

definition start_form :: "string \<Rightarrow> node" where
  "start_form csrf =
     Element ''form'' [cls ''inline'', attr ''method'' ''post'', attr ''action'' ''/ui/training/start'']
       [hidden_input ''csrf'' (JStr csrf), Element ''button'' [attr ''type'' ''submit''] [wording ''Start capture'']]"

definition stopped_text :: "(string option \<times> tally) option \<Rightarrow> string" where
  "stopped_text out =
     (let t = (case out of None \<Rightarrow> zero_tally | Some (file, t) \<Rightarrow> t) in
      ''Stopped. '' @ show_nat (ty_total t) @ '' rows captured ''
      @ ''(action '' @ show_nat (ty_action t) @ '', borderline '' @ show_nat (ty_borderline t)
      @ '', normal '' @ show_nat (ty_normal t) @ ''). ''
      @ ''File: '' @ (case Option.bind out fst of None \<Rightarrow> ''-'' | Some f \<Rightarrow> f))"

definition okbox :: "string \<Rightarrow> node" where
  "okbox s = Element ''div'' [cls ''okbox''] [wording s]"

text \<open>\<open>stopped\<close> is what \<open>stop\<close> returned (\<open>Some None\<close> if nothing was being recorded).\<close>

definition TrainingPage ::
  "string \<Rightarrow> recorder option \<Rightarrow> string option \<Rightarrow> (string option \<times> tally) option option \<Rightarrow> node" where
  "TrainingPage csrf status added stopped =
     (let active = (case status of None \<Rightarrow> False | Some r \<Rightarrow> rd_active r);
          file = (case status of None \<Rightarrow> None | Some r \<Rightarrow> rd_file r);
          t = (case status of None \<Rightarrow> zero_tally | Some r \<Rightarrow> rd_tally r)
      in Layout ''training'' ''training''
        [Element ''h2'' [] [wording ''Agent training capture  '', if active then tag_pill ''recording'' ''ok'' else tag_pill ''idle'' ''dim''],
         note_p
           [wording ''Records every frame description flowing in from the video stream, labeled the way L0 judges it, '',
            wording ''to a JSONL file you can train the take-action triggers on. Reads the live triggers, so labels '',
            wording ''reflect the current configuration. Start before a run, stop when done, then pull the file from '',
            Element ''code'' [] [wording ''var/training/''], wording ''.''],
         (case stopped of None \<Rightarrow> nothing | Some out \<Rightarrow> okbox (stopped_text out)),
         (case added of None \<Rightarrow> nothing | Some f \<Rightarrow> if f = [] then nothing else okbox (''Recording started. Writing to '' @ f)),
         Element ''div''
           [(''style'', JObj [(''display'', JStr ''flex''), (''gap'', JNum 12), (''alignItems'', JStr ''center''), (''margin'', JStr ''14px 0'')])]
           [if active then stop_form csrf else start_form csrf,
            (case file of
               None \<Rightarrow> nothing
             | Some f \<Rightarrow> if active \<and> f \<noteq> [] then Element ''span'' [cls ''note''] [wording ''writing to '', Element ''code'' [] [wording f]] else nothing)],
         Element ''table'' []
           [head_row [''This session'', ''Rows''],
            Element ''tbody'' []
              [row_of_two (wording ''action (L0 would route to an L1)'') (count (ty_action t)),
               row_of_two (wording ''borderline (signals, judged not an incident)'') (count (ty_borderline t)),
               row_of_two (wording ''normal'') (count (ty_normal t)),
               row_of_two (Element ''strong'' [] [wording ''total'']) (Element ''strong'' [] [count (ty_total t)])]],
         note_p
           [wording ''Borderline rows are the richest for tuning: signals fired but no trigger word matched, '',
            wording ''so they surface phrases worth adding. Feed footage that describes hazards in new words to grow this set.'']])"

definition impacts_text :: "registry_row \<Rightarrow> string" where
  "impacts_text g = js_join ''+'' (map impact_name (rg_impact g))"

definition gated_option :: "glyphs \<Rightarrow> registry_row \<Rightarrow> node" where
  "gated_option gl g =
     Element ''option'' [attr ''key'' (rg_tool g), attr ''value'' (rg_tool g)]
       [wording (rg_tool g @ ''  '' @ gl_dash gl @ ''  '' @ js_string (verb_value (rg_verb g))
             @ (if rg_impact g \<noteq> [] then '' ['' @ impacts_text g @ '']'' else []) @ ''  '' @ gl_arrow gl @ ''  '' @ rg_consent g)]"

definition gated_row :: "registry_row \<Rightarrow> node" where
  "gated_row g =
     Element ''tr'' [attr ''key'' (rg_tool g)]
       [Element ''td'' [cls ''mono''] [wording (rg_tool g)],
        Element ''td'' [] [Value (verb_value (rg_verb g))],
        Element ''td'' [cls ''small''] [wording (if impacts_text g = [] then ''-'' else impacts_text g)],
        Element ''td'' [] [if rg_consent g = ''two-person'' then tag_pill ''two-person'' ''bad'' else tag_pill (rg_consent g) ''warn''],
        Element ''td'' [] [wording (rg_agent g)]]"

definition demo_form :: "glyphs \<Rightarrow> string \<Rightarrow> registry_row list \<Rightarrow> node" where
  "demo_form gl csrf gated =
     Element ''form'' [cls ''stack'', attr ''method'' ''post'', attr ''action'' ''/ui/demo/trigger'']
       [hidden_input ''csrf'' (JStr csrf),
        Element ''label'' [attr ''htmlFor'' ''tool''] [wording ''Gated tool to escalate''],
        Element ''select'' [attr ''id'' ''tool'', attr ''name'' ''tool''] [Nodes (map (gated_option gl) gated)],
        Element ''button'' [attr ''type'' ''submit''] [wording ''Send Approve/Deny to Telegram'']]"

definition DemoPage ::
  "glyphs \<Rightarrow> string \<Rightarrow> registry_row list \<Rightarrow> bool \<Rightarrow> (string \<times> string \<times> string) option \<Rightarrow> string option \<Rightarrow> node" where
  "DemoPage gl csrf gated configured sent error =
     Layout ''demo'' ''demo''
       [Element ''h2'' []
          [wording ''Trigger a dangerous action  '',
           if configured then tag_pill ''Telegram ready'' ''ok'' else tag_pill ''Telegram not configured'' ''bad''],
        note_p
          [wording ''Sends a real Approve/Deny to the operator's phone for a chosen gated tool, through the same '',
           wording ''escalation path a live incident uses. The write stays absent from policy until you tap. '',
           wording ''Use it to show OpenShell-protected actions in real time.''],
        err_box error,
        (case sent of
           None \<Rightarrow> nothing
         | Some (tool, consent, iid) \<Rightarrow>
             okbox (''Sent to the operator. `'' @ tool @ ''` ('' @ consent @ '') is awaiting a tap. intent: '' @ iid)),
        (if \<not> configured
         then Element ''div'' [cls ''empty'']
           [wording ''Telegram is not configured on this deployment, so no approval can be sent. Set TELEGRAM_BOT_TOKEN and TELEGRAM_ALLOWED_IDS.'']
         else if gated = [] then Element ''div'' [cls ''empty''] [wording ''No gated tools are declared.'']
         else demo_form gl csrf gated),
        Element ''h2'' [] [wording ''The gated tools''],
        Element ''table'' []
          [head_row [''Tool'', ''Verb'', ''Impact'', ''Consent'', ''Agent''],
           Element ''tbody'' [] [Nodes (map gated_row gated)]]]"

section \<open>The audit trail\<close>

text \<open>The rank of an agent; a name that is no string throws.\<close>

definition orgTier :: "glyphs \<Rightarrow> json \<Rightarrow> level_map \<Rightarrow> string + node" where
  "orgTier gl agent levels =
     (if \<not> truthy agent then Inr (tag_pill ''-'' ''dim'')
      else
        (case agent of
           JStr a \<Rightarrow>
             Inr (case level_for (Some a) levels of
                    Lv n \<Rightarrow> tag_pill (CHR ''L'' # show_nat n) (if n = 0 then ''warn'' else ''dim'')
                  | Lv_operator \<Rightarrow> tag_pill ''operator'' ''dim''
                  | Lv_input \<Rightarrow> tag_pill ''input'' ''dim''
                  | Lv_inherited \<Rightarrow> tag_pill (gl_inherited gl a) ''dim''
                  | Lv_none \<Rightarrow> tag_pill ''-'' ''dim'')
         | _ \<Rightarrow> Inl ''agent.startsWith is not a function''))"

definition shorten :: "glyphs \<Rightarrow> nat \<Rightarrow> json \<Rightarrow> string" where
  "shorten gl n v =
     (if nullish v then ''-''
      else if length (js_string v) > n then take n (js_string v) @ gl_dots gl
      else js_string v)"

text \<open>\<open>s.replace("T", " ")\<close> and \<open>s.replace(/\.\d+Z$/, "Z")\<close>.\<close>

fun replace_first :: "char \<Rightarrow> char \<Rightarrow> string \<Rightarrow> string" where
  "replace_first a b [] = []"
| "replace_first a b (c # s) = (if c = a then b # s else c # replace_first a b s)"

definition drop_fraction :: "string \<Rightarrow> string" where
  "drop_fraction s =
     (case rev s of
        z # r \<Rightarrow>
          (if z = CHR ''Z'' \<and> takeWhile is_digit r \<noteq> [] \<and> starts_with (dropWhile is_digit r) ''.''
           then rev (tl (dropWhile is_digit r)) @ ''Z'' else s)
      | [] \<Rightarrow> s)"

definition audit_time :: "json \<Rightarrow> string + string" where
  "audit_time at' =
     (if \<not> truthy at' then Inr ''-''
      else (case at' of JStr s \<Rightarrow> Inr (drop_fraction (replace_first CHR ''T'' CHR '' '' s)) | _ \<Rightarrow> Inl ''e.at.replace is not a function''))"

definition audit_impact :: "json \<Rightarrow> string + string" where
  "audit_impact v =
     (case js_coalesce v (JArr []) of
        JArr xs \<Rightarrow>
          (let s = js_join ''+'' (map (\<lambda>x. if nullish x then [] else js_string x) xs) in Inr (if s = [] then ''-'' else s))
      | _ \<Rightarrow> Inl ''(e.impact ?? []).join is not a function'')"

definition authority_pill :: "glyphs \<Rightarrow> json \<Rightarrow> node" where
  "authority_pill gl v =
     (let kind = js_string (or_dash v) in
      if starts_with kind ''decision'' then tag_pill ''operator'' ''ok''
      else if kind = ''envelope'' then tag_pill ''envelope'' ''dim''
      else if kind = ''pending'' then tag_pill ''pending'' ''warn''
      else if kind = ''denied'' \<or> kind = ''prohibited'' \<or> kind = ''incident'' then tag_pill kind ''bad''
      else tag_pill (shorten gl 16 (JStr kind)) ''dim'')"

definition raw_details :: "json \<Rightarrow> node" where
  "raw_details e =
     Element ''details'' [cls ''raw''] [Element ''summary'' [] [wording ''raw''], Element ''pre'' [] [wording (json_pretty 0 e)]]"

definition audit_cells :: "glyphs \<Rightarrow> json \<Rightarrow> string \<Rightarrow> node \<Rightarrow> string \<Rightarrow> node" where
  "audit_cells gl e time tier impact =
     Element ''tr'' [(''key'', obj_get e ''seq'')]
       [Element ''td'' [cls ''mono''] [Value (obj_get e ''seq'')],
        Element ''td'' [cls ''mono small''] [wording time],
        Element ''td'' [] [Value (or_dash (obj_get e ''agent''))],
        Element ''td'' [] [tier],
        Element ''td'' [cls ''mono small''] [Value (or_dash (obj_get e ''tool''))],
        Element ''td'' [] [Value (or_dash (obj_get e ''verb''))],
        Element ''td'' [cls ''small''] [wording impact],
        Element ''td'' [cls ''small''] [Value (or_dash (obj_get e ''triggerPhrase''))],
        Element ''td'' [] [authority_pill gl (obj_get e ''authority'')],
        Element ''td'' [cls ''small''] [Value (or_dash (obj_get e ''decidedBy''))],
        Element ''td'' []
          [if obj_get e ''outcome'' = JStr ''refused'' then tag_pill ''refused'' ''bad''
           else if obj_get e ''outcome'' = JStr ''executed'' then tag_pill ''executed'' ''ok''
           else tag_pill (shorten gl 16 (or_dash (obj_get e ''outcome''))) ''dim''],
        Element ''td'' [cls ''mono small''] [wording (shorten gl 14 (obj_get e ''intentId''))],
        Element ''td'' [cls ''mono small''] [wording (shorten gl 26 (obj_get e ''target''))],
        Element ''td'' [cls ''mono small''] [wording (shorten gl 10 (obj_get e ''argsHash''))],
        Element ''td'' [cls ''mono small''] [wording (shorten gl 10 (obj_get e ''hash''))],
        Element ''td'' [] [raw_details e]]"

definition audit_row :: "glyphs \<Rightarrow> level_map \<Rightarrow> json \<Rightarrow> string + node" where
  "audit_row gl levels e =
     (case audit_time (obj_get e ''at'') of
        Inl msg \<Rightarrow> Inl msg
      | Inr time \<Rightarrow>
          (case orgTier gl (obj_get e ''agent'') levels of
             Inl msg \<Rightarrow> Inl msg
           | Inr tier \<Rightarrow>
               (case audit_impact (obj_get e ''impact'') of
                  Inl msg \<Rightarrow> Inl msg
                | Inr impact \<Rightarrow> Inr (audit_cells gl e time tier impact))))"

text \<open>\<open>map\<close> with a function that may throw.\<close>

fun map_throws :: "('a \<Rightarrow> string + 'b) \<Rightarrow> 'a list \<Rightarrow> string + 'b list" where
  "map_throws f [] = Inr []"
| "map_throws f (x # xs) =
     (case f x of Inl msg \<Rightarrow> Inl msg | Inr y \<Rightarrow> (case map_throws f xs of Inl msg \<Rightarrow> Inl msg | Inr ys \<Rightarrow> Inr (y # ys)))"

definition filter_field :: "(string, string) jsmap \<Rightarrow> string \<Rightarrow> string \<Rightarrow> string \<Rightarrow> node" where
  "filter_field filters name label ph =
     Element ''div'' [cls ''f'']
       [Element ''label'' [] [wording label],
        Element ''input''
          [attr ''type'' ''text'', attr ''name'' name, attr ''defaultValue'' (case map_of filters name of None \<Rightarrow> [] | Some v \<Rightarrow> v),
           attr ''placeholder'' ph] []]"

definition audit_filters :: "(string, string) jsmap \<Rightarrow> node" where
  "audit_filters filters =
     Element ''form'' [cls ''filters'', attr ''method'' ''get'', attr ''action'' ''/ui/audit'']
       [filter_field filters ''intent'' ''Intent id'' ''int-...'',
        filter_field filters ''agent'' ''Agent'' ''emergency-dispatch'',
        filter_field filters ''tier'' ''Tier'' ''consequential'',
        filter_field filters ''outcome'' ''Outcome'' ''executed'',
        filter_field filters ''verb'' ''Verb'' ''create'',
        filter_field filters ''since'' ''Since (ISO)'' ''2026-08-16'',
        Element ''div'' [cls ''f''] [Element ''label'' [] [wording [CHR 0xA0]], Element ''button'' [attr ''type'' ''submit''] [wording ''Filter'']],
        Element ''div'' [cls ''f'']
          [Element ''label'' [] [wording [CHR 0xA0]], Element ''a'' [attr ''href'' ''/ui/audit'', cls ''note''] [wording ''clear'']]]"

definition audit_columns :: "string list" where
  "audit_columns =
     [''#'', ''Time'', ''Agent'', ''Tier'', ''Tool'', ''Verb'', ''Impact'', ''Trigger'', ''Authority'', ''By'', ''Outcome'', ''Intent'',
      ''Target'', ''Args'', ''Hash'', []]"

definition AuditPage :: "glyphs \<Rightarrow> json list \<Rightarrow> chain \<Rightarrow> (string, string) jsmap \<Rightarrow> level_map \<Rightarrow> string + node" where
  "AuditPage gl entries c filters levels =
     (case map_throws (audit_row gl levels) (rev entries) of
        Inl msg \<Rightarrow> Inl msg
      | Inr shown \<Rightarrow>
          Inr (Layout ''audit'' ''audit''
            [Element ''h2'' [] [wording ''Audit trail  '', chain_pill ''CHAIN BROKEN'' c],
             note_p
               [wording ''The full audit database: every ledgered agent action, hash-chained and fsynced before it ran. '',
                wording ''The dashboard shows a condensed live stream (/v1/out/audit); this page is the deep record behind the admin login.''],
             audit_filters filters,
             (if entries = [] then Element ''div'' [cls ''empty''] [wording ''No matching audit records.'']
              else Element ''div'' [cls ''scroll'']
                [Element ''table'' [] [head_row audit_columns, Element ''tbody'' [] [Nodes shown]]]),
             note_p
               [wording (''Showing '' @ show_nat (length entries)
                     @ '' record(s). Filters narrow the ledger query; the raw record under each row is the exact hash-chained entry. ''),
                wording ''Reason / why: '',
                wording (if entries = [] then ''-'' else shorten gl 80 (obj_get (last entries) ''reason''))]]))"

section \<open>Deploying an agent\<close>

definition level_options :: "(string \<times> string) list" where
  "level_options =
     [(''0'', ''L0 orchestrator: reasons over every request, holds inference, no tools''),
      (''1'', ''L1 domain expert: domain-scoped inference, directs its L2s, no tools''),
      (''2'', ''L2 worker (default): tools for non-dangerous work, NO inference''),
      (''3'', ''L3 tool specialist: pure connectivity, no inference, no task context'')]"

definition caps_placeholder :: string where
  "caps_placeholder = js_join [CHR 0x0A]
     [''- tool: example.records.read'',
      ''  verb: read'',
      ''  impact: []'',
      ''  egress: { host: api.example.com, path: \"/v1/records/**\" }'',
      ''- tool: example.records.create'',
      ''  verb: create'',
      ''  impact: [financial]'',
      ''  egress: { host: api.example.com, path: \"/v1/records\" }'']"

definition text_input :: "string \<Rightarrow> bool \<Rightarrow> string \<Rightarrow> string option \<Rightarrow> node" where
  "text_input name required ph v =
     Element ''input''
       ([attr ''type'' ''text'', attr ''name'' name] @ (if required then [(''required'', JBool True)] else [])
        @ [attr ''placeholder'' ph] @ (case v of None \<Rightarrow> [] | Some s \<Rightarrow> [attr ''defaultValue'' s])) []"

definition label_for :: "string \<Rightarrow> node" where
  "label_for s = Element ''label'' [] [wording s]"

definition submit_button :: "string \<Rightarrow> node" where
  "submit_button s = Element ''button'' [attr ''type'' ''submit''] [wording s]"

definition deploy_form :: "string \<Rightarrow> (string, string) jsmap \<Rightarrow> node" where
  "deploy_form csrf prefill =
     (let val = (\<lambda>k d. case map_of prefill k of None \<Rightarrow> d | Some v \<Rightarrow> v) in
      Element ''form'' [cls ''stack'', attr ''method'' ''POST'', attr ''action'' ''/ui/agents/new'']
        [hidden_input ''csrf'' (JStr csrf),
         label_for ''Skill name (kebab-case, becomes skills/<name>/)'',
         text_input ''skill'' True ''invoice-chaser'' (Some (val ''skill'' [])),
         label_for ''Agent name (kebab-case, the domain identity)'',
         text_input ''agent'' True ''finance'' (Some (val ''agent'' [])),
         label_for ''Level'',
         Element ''select'' [attr ''name'' ''level'', attr ''defaultValue'' (val ''level'' ''2'')]
           [Nodes (map (\<lambda>(v, t). Element ''option'' [attr ''key'' v, attr ''value'' v] [wording t]) level_options)],
         label_for ''Inference grant (levels 0 and 1 only; refused otherwise)'',
         Element ''select'' [attr ''name'' ''inference'', attr ''defaultValue'' (val ''inference'' ''no'')]
           [Element ''option'' [attr ''value'' ''no''] [wording ''no''], Element ''option'' [attr ''value'' ''yes''] [wording ''yes'']],
         label_for ''Description (one line)'',
         text_input ''description'' False ''Chases overdue invoices'' (Some (val ''description'' [])),
         label_for ''Capabilities (YAML list; levels 0 and 1 leave this empty)'',
         Element ''textarea''
           [attr ''name'' ''capabilities'', (''rows'', JNum 10), attr ''placeholder'' caps_placeholder,
            attr ''defaultValue'' (val ''capabilities'' [])] [],
         label_for ''Instructions (prose the agent reads; becomes the md body)'',
         Element ''textarea''
           [attr ''name'' ''instructions'', (''rows'', JNum 6), attr ''placeholder'' ''What this agent is for, and how it should behave.'',
            attr ''defaultValue'' (val ''instructions'' [])] [],
         Element ''label'' []
           [Element ''input''
              [attr ''type'' ''checkbox'', attr ''name'' ''apply_now'', attr ''value'' ''yes'',
               (''style'', JObj [(''width'', JStr ''auto''), (''marginRight'', JNum 8)])] [],
            wording '' apply now (restarts the service so the agent is live immediately)''],
         submit_button ''Deploy agent''])"

definition AgentNewPage :: "string \<Rightarrow> string option \<Rightarrow> (string, string) jsmap \<Rightarrow> node" where
  "AgentNewPage csrf error prefill =
     Layout ''deploy agent'' ''deploy''
       [Element ''h2'' [] [wording ''Deploy a new agent''],
        note_p
          [wording ''This writes one omoda.skill.md and nothing else. The compiler is the only writer of policy: '',
           wording ''the manifest below is its only input, so the agent gets exactly what it declares. '',
           wording ''Writes carrying impact compile to GET-only until a recorded decision; an over-leveled manifest refuses to deploy.''],
        err_box error,
        deploy_form csrf prefill,
        note_p
          [wording ''Every deploy is ledgered. Levels are enforced at compile time: an L2 cannot hold inference, an L3 cannot do local work.'']]"

section \<open>Knowledge and triggers\<close>

definition knowledge_form :: "string \<Rightarrow> node" where
  "knowledge_form csrf =
     Element ''form'' [cls ''stack'', attr ''method'' ''POST'', attr ''action'' ''/ui/knowledge'']
       [hidden_input ''csrf'' (JStr csrf),
        label_for ''Document name'',
        text_input ''name'' True ''incident-runbook-v2'' None,
        label_for ''Content (paste the text; it is chunked, embedded and ledgered)'',
        Element ''textarea''
          [attr ''name'' ''text'', (''rows'', JNum 10), (''required'', JBool True), attr ''placeholder'' ''Paste the document text here.''] [],
        submit_button ''Add to knowledge'']"

definition document_row :: "'v document \<Rightarrow> node" where
  "document_row d =
     Element ''tr'' [attr ''key'' (kd_id d)]
       [Element ''td'' [] [wording (kd_name d)],
        Element ''td'' [cls ''mono''] [count (length (kd_chunks d))],
        Element ''td'' []
          [if starts_with (kd_backend d) ''nemotron'' then tag_pill ''nemotron-embed'' ''ok'' else tag_pill (kd_backend d) ''dim''],
        Element ''td'' [cls ''mono''] [wording (take 19 (kd_at d))]]"

text \<open>\<open>added\<close>: the name, the number of chunks, the backend (absent for a duplicate) and whether it was one.\<close>

definition KnowledgePage ::
  "string \<Rightarrow> 'v document list \<Rightarrow> string \<Rightarrow> string option \<Rightarrow> (string \<times> nat \<times> string option \<times> bool) option \<Rightarrow> node" where
  "KnowledgePage csrf docs backend error added =
     Layout ''knowledge'' ''knowledge''
       [Element ''h2'' []
          [wording ''Knowledge (the proxy layer's retrieval store)  '',
           if starts_with backend ''nemotron'' then tag_pill ''NeMo Retriever embeddings, on-box'' ''ok'' else tag_pill backend ''warn''],
        note_p
          [wording ''Documents uploaded here are retrieved as context for L1 domain inference. '',
           wording ''Embedded by nvidia/llama-nemotron-embed-1b-v2 on the box when it is up; term scoring otherwise, and the badge says which.''],
        err_box error,
        (case added of
           None \<Rightarrow> nothing
         | Some (name, chunks, by, duplicate) \<Rightarrow>
             okbox (''Stored \"'' @ name @ ''\": '' @ show_nat chunks @ '' chunk(s) via ''
                    @ (case by of None \<Rightarrow> ''undefined'' | Some b \<Rightarrow> b) @ (if duplicate then '' (already known)'' else []) @ ''.'')),
        knowledge_form csrf,
        (if docs = []
         then Element ''div'' [cls ''empty'', (''style'', JObj [(''marginTop'', JNum 18)])] [wording ''No documents yet.'']
         else Element ''table'' [(''style'', JObj [(''marginTop'', JNum 18)])]
           [head_row [''Name'', ''Chunks'', ''Backend'', ''Added''],
            Element ''tbody'' [] [Nodes (map document_row docs)]])]"

definition remove_form :: "string \<Rightarrow> trigger \<Rightarrow> node" where
  "remove_form csrf r =
     Element ''form'' [cls ''inline'', attr ''method'' ''POST'', attr ''action'' ''/ui/triggers/delete'']
       [hidden_input ''csrf'' (JStr csrf), hidden_input ''id'' (JStr (tg_id r)),
        Element ''button'' [attr ''type'' ''submit'', cls ''deny''] [wording ''Remove'']]"

definition trigger_row :: "string \<Rightarrow> trigger \<Rightarrow> node" where
  "trigger_row csrf r =
     Element ''tr'' [attr ''key'' (tg_id r)]
       [Element ''td'' [] [Nodes (map (\<lambda>p. Element ''span'' [attr ''key'' p] [tag_pill p ''warn'', wording '' '']) (tg_phrases r))],
        Element ''td'' [cls ''mono''] [wording (tg_incident r)],
        Element ''td'' [] [tag_pill (tg_agent r) ''dim''],
        Element ''td'' [] [wording (if tg_action r = [] then ''-'' else tg_action r)],
        Element ''td'' [] [remove_form csrf r]]"

definition add_form :: "string \<Rightarrow> string list \<Rightarrow> node" where
  "add_form csrf agents =
     Element ''form'' [cls ''stack'', attr ''method'' ''POST'', attr ''action'' ''/ui/triggers'']
       [hidden_input ''csrf'' (JStr csrf),
        label_for ''Phrases (comma-separated; a match on any routes to the L1 below)'',
        text_input ''phrases'' True ''overturned, rollover, vehicle on its side'' None,
        label_for ''Incident type'',
        text_input ''incidentType'' False ''traffic-accident'' None,
        label_for ''Routes to L1 agent'',
        Element ''select'' [attr ''name'' ''l1'']
          [Nodes (map (\<lambda>a. Element ''option'' [attr ''key'' a, attr ''value'' a] [wording a]) agents)],
        label_for ''Action (what that L1 coordinates)'',
        text_input ''action'' False ''coordinate the accident response'' None,
        submit_button ''Add trigger'']"

definition TriggersPage :: "string \<Rightarrow> trigger list \<Rightarrow> string list \<Rightarrow> string option \<Rightarrow> string option \<Rightarrow> node" where
  "TriggersPage csrf rules agents error added =
     Layout ''triggers'' ''triggers''
       [Element ''h2'' [] [wording ''Take-action triggers  '', tag_pill (show_nat (length rules) @ '' rule(s)'') ''dim''],
        note_p
          [wording ''L0 checks every observation's text against these phrases first, deterministically. '',
           wording ''A hit routes straight to the named L1 agent, no inference. Text that matches nothing '',
           wording ''and shows no other signal is ignored; anything ambiguous goes to the model to infer.''],
        err_box error,
        (case added of
           None \<Rightarrow> nothing
         | Some a \<Rightarrow> if a = [] then nothing else okbox (''Added a trigger for \"'' @ a @ ''\".'')),
        (if rules = [] then Element ''div'' [cls ''empty''] [wording ''No triggers configured.'']
         else Element ''table'' []
           [head_row [''Phrases'', ''Incident'', ''Routes to (L1)'', ''Action'', []],
            Element ''tbody'' [] [Nodes (map (trigger_row csrf) rules)]]),
        Element ''h2'' [(''style'', JObj [(''marginTop'', JNum 28)])] [wording ''Add a trigger''],
        add_form csrf agents,
        note_p
          [wording ''Stored in the ingest layer and read on every frame. The L1 you choose decides downstream via inference; dangerous steps are gated by OpenShell.'']]"

section \<open>What the server renders\<close>

text \<open>The calls of \<open>render\<close> in src/api/server.js, with what each page is given beside the token.\<close>

datatype 'v page =
    Page_skills "skill list" "string option"
  | Page_intents "intent list"
  | Page_ledger "json list" chain
  | Page_audit "json list" chain "(string, string) jsmap" level_map
  | Page_training "recorder option" "string option" "(string option \<times> tally) option option"
  | Page_demo "registry_row list" bool "(string \<times> string \<times> string) option" "string option"
  | Page_agent_new "string option" "(string, string) jsmap"
  | Page_knowledge "'v document list" string "string option" "(string \<times> nat \<times> string option \<times> bool) option"
  | Page_triggers "trigger list" "string list" "string option" "string option"

fun show_page :: "glyphs \<Rightarrow> string \<Rightarrow> 'v page \<Rightarrow> string + node" where
  "show_page gl csrf (Page_skills skills deployed) = Inr (SkillsPage skills deployed)"
| "show_page gl csrf (Page_intents intents) = Inr (IntentsPage intents csrf)"
| "show_page gl csrf (Page_ledger entries c) = Inr (LedgerPage entries c)"
| "show_page gl csrf (Page_audit entries c filters levels) = AuditPage gl entries c filters levels"
| "show_page gl csrf (Page_training status added stopped) = Inr (TrainingPage csrf status added stopped)"
| "show_page gl csrf (Page_demo gated configured sent error) = Inr (DemoPage gl csrf gated configured sent error)"
| "show_page gl csrf (Page_agent_new error prefill) = Inr (AgentNewPage csrf error prefill)"
| "show_page gl csrf (Page_knowledge docs backend error added) = Inr (KnowledgePage csrf docs backend error added)"
| "show_page gl csrf (Page_triggers rules agents error added) = Inr (TriggersPage csrf rules agents error added)"

record view_env =
  vw_skills :: "skill list"
  vw_agents :: "string list"
  vw_gated :: "registry_row list"
  vw_backend :: string

definition view_filters :: "http_request \<Rightarrow> (string, string) jsmap" where
  "view_filters r =
     concat (map (\<lambda>k. case map_of (hr_query r) k of None \<Rightarrow> [] | Some v \<Rightarrow> [(k, v)])
       [''intent'', ''agent'', ''tier'', ''outcome'', ''verb'', ''since''])"

text \<open>What a \<open>GET\<close> of the portal shows, beside \<open>portal_page\<close>, which has only its name.\<close>

definition portal_view :: "'v api_env \<Rightarrow> portal_env \<Rightarrow> view_env \<Rightarrow> http_request \<Rightarrow> 'v portal \<Rightarrow> 'v page option" where
  "portal_view e v w r s =
     (let p = hr_path r; a = pt_api s in
      if hr_method r \<noteq> ''GET'' then None
      else if p = ''/ui'' then Some (Page_skills (vw_skills w) (map_of (hr_query r) ''deployed''))
      else if p = ''/ui/agents/new'' then Some (Page_agent_new None [])
      else if p = ''/ui/knowledge'' then map_option (\<lambda>docs. Page_knowledge (map snd docs) (vw_backend w) None None) (ap_docs a)
      else if p = ''/ui/intents'' then Some (Page_intents (map snd (st_by_id (ap_intents a))))
      else if p = ''/ui/ledger''
      then Some (Page_ledger (rows page_query 200 (ap_ledger a)) (ledger_verify (pe_hash e) (ap_ledger a)))
      else if p = ''/ui/audit''
      then Some (Page_audit (rows (audit_query r) (limit_of r 500) (ap_ledger a)) (ledger_verify (pe_hash e) (ap_ledger a))
                   (view_filters r)
                   (skill_level_map (map (\<lambda>k. (mf_agent (sk_manifest k), Some (nat (sk_level k)))) (vw_skills w))))
      else if p = ''/ui/triggers'' then map_option (\<lambda>ts. Page_triggers (ts_rules ts) (vw_agents w) None None) (ap_triggers a)
      else if p = ''/ui/demo''
      then (if pv_has_demo v then Some (Page_demo (vw_gated w) (pv_escalate v \<noteq> None) None None) else None)
      else if p = ''/ui/training'' then map_option (\<lambda>rd. Page_training (Some rd) None None) (pt_recorder s)
      else None)"

lemma portal_view_page:
  "portal_view e v w r s = Some p \<Longrightarrow> \<exists>b. portal_page e v r s = Some (200, b)"
  by (auto simp: portal_view_def portal_page_def missing_def Let_def split: if_splits)

end
