(* ===== verification/Portal_Claims.thy ===== *)
theory Portal_Claims
  imports Portal
begin

text \<open>
  What a deployment through the portal guarantees, and what is left behind when the ledger refuses it.
\<close>

section \<open>The front matter is read back\<close>

lemma dash_prefix:
  assumes "starts_with (s @ t) p" and "\<not> starts_with s p"
  shows "s = take (length s) p \<and> length s < length p"
  using assms by (auto simp: starts_with_iff_prefix prefix_def append_eq_append_conv2)

lemma front_short:
  "s = take (length s) [CHR 0x0D, CHR 0x0A, CHR ''-'', CHR ''-'', CHR ''-''] \<Longrightarrow> length s < 5 \<Longrightarrow> front_body s = None"
  by (cases s rule: front_body.cases; simp)
    (auto simp: starts_with_def less_Suc_eq numeral_eq_Suc)

lemma front_short_LF:
  "s = take (length s) [CHR 0x0A, CHR ''-'', CHR ''-'', CHR ''-''] \<Longrightarrow> length s < 4 \<Longrightarrow> front_body s = None"
  by (cases s rule: front_body.cases; simp)
    (auto simp: starts_with_def less_Suc_eq numeral_eq_Suc)

lemma starts_with_length: "starts_with s p \<Longrightarrow> length p \<le> length s"
  by (auto simp: starts_with_iff_prefix prefix_def)

lemma front_body_append: "front_body s = Some (f, r) \<Longrightarrow> front_body (s @ t) = Some (f, r @ t)"
proof (induction s arbitrary: f)
  case (Cons c s)
  let ?cr = "[CHR 0x0D, CHR 0x0A, CHR ''-'', CHR ''-'', CHR ''-'']" and ?lf = "[CHR 0x0A, CHR ''-'', CHR ''-'', CHR ''-'']"
  have cr: "starts_with ((c # s) @ t) ?cr \<Longrightarrow> starts_with (c # s) ?cr"
    using dash_prefix [of "c # s" t ?cr] front_short [of "c # s"] Cons.prems by fastforce
  have lf: "starts_with ((c # s) @ t) ?lf \<Longrightarrow> starts_with (c # s) ?lf"
    using dash_prefix [of "c # s" t ?lf] front_short_LF [of "c # s"] Cons.prems by fastforce
  have up: "starts_with (c # s) p \<Longrightarrow> starts_with ((c # s) @ t) p" for p
    unfolding starts_with_iff_prefix by (rule prefix_prefix)
  consider "starts_with (c # s) ?cr" | "\<not> starts_with (c # s) ?cr" "starts_with (c # s) ?lf"
    | "\<not> starts_with (c # s) ?cr" "\<not> starts_with (c # s) ?lf" by blast
  then show ?case
  proof cases
    case 1
    then show ?thesis using Cons.prems up [OF 1] starts_with_length [OF 1] by auto
  next
    case 2
    then show ?thesis using Cons.prems cr up [OF 2(2)] starts_with_length [OF 2(2)] by auto
  next
    case 3
    with Cons.prems obtain f' where f: "f = c # f'" "front_body s = Some (f', r)" by auto
    from Cons.IH [OF f(2)] 3 cr lf f(1) show ?thesis by auto
  qed
qed simp

text \<open>What is relied on of YAML for a manifest: its rendering is lines, none of which starts with the three
  dashes, and reads back as the manifest.\<close>

definition yaml_reads_back :: "portal_env \<Rightarrow> (string \<Rightarrow> string + manifest) \<Rightarrow> manifest \<Rightarrow> bool" where
  "yaml_reads_back v yaml m =
     (case rev (pv_yaml_of v m) of
        [] \<Rightarrow> False
      | c # y \<Rightarrow> c = CHR 0x0A \<and> front_body (rev y @ [CHR 0x0A, CHR ''-'', CHR ''-'', CHR ''-'']) = Some (rev y, []) \<and>
          yaml (rev y) = Inr m)"

lemma skill_text_parsed:
  assumes "yaml_reads_back v yaml m"
  shows "\<exists>y body. parse_skill_markdown (skill_text v m instructions) = Some (y, body) \<and> yaml y = Inr m"
proof -
  obtain y where y: "pv_yaml_of v m = y @ [CHR 0x0A]" "front_body (y @ [CHR 0x0A, CHR ''-'', CHR ''-'', CHR ''-'']) = Some (y, [])"
      "yaml y = Inr m"
    using assms by (auto simp: yaml_reads_back_def split: list.splits)
  let ?rest = "[CHR 0x0A] @ (if instructions = [] then [] else instructions @ [CHR 0x0A])"
  have "drop 3 (skill_text v m instructions) = CHR 0x0A # y @ [CHR 0x0A, CHR ''-'', CHR ''-'', CHR ''-''] @ ?rest"
    by (simp add: skill_text_def y(1))
  moreover have "starts_with (skill_text v m instructions) ''---''" by (simp add: skill_text_def starts_with_def)
  moreover have "front_body (y @ [CHR 0x0A, CHR ''-'', CHR ''-'', CHR ''-''] @ ?rest) = Some (y, ?rest)"
    using front_body_append [OF y(2), of ?rest] by simp
  ultimately show ?thesis using y(3) by (simp add: parse_skill_markdown_def opt_char_def starts_with_def Let_def)
qed

section \<open>A deployment\<close>

lemma write_skill_dirs:
  "write_skill v d skill text dirs = (res, dirs') \<Longrightarrow> \<not> jhas dirs skill \<Longrightarrow>
     dirs' = dirs \<or> (\<exists>t. dirs' = dirs @ [(skill, t)] \<and> (if d = Disk_ok then t = text else True))"
  by (auto simp: write_skill_def jset_fresh split: option.splits disk.splits)

lemma deploy_skills:
  assumes "pt_skills (snd (deploy e v r s)) \<noteq> pt_skills s"
  obtains m t where "deploy_manifest v r = Inr m" "\<not> jhas (pt_skills s) (mf_skill m)"
    "pt_skills (snd (deploy e v r s)) = pt_skills s @ [(mf_skill m, t)]"
    "if pe_disk e = Disk_ok then t = skill_text v m (form_trim r ''instructions'') else True"
proof -
  obtain m where m: "deploy_manifest v r = Inr m" "\<not> jhas (pt_skills s) (mf_skill m)"
    using assms by (auto simp: deploy_def split: sum.splits if_splits)
  obtain res dirs where w: "write_skill v (pe_disk e) (mf_skill m) (skill_text v m (form_trim r ''instructions'')) (pt_skills s) = (res, dirs)"
    by fastforce
  have "pt_skills (snd (deploy e v r s)) = dirs"
    using m w by (auto simp: deploy_def Let_def split: sum.split prod.split)
  with write_skill_dirs [OF w m(2)] assms m that show thesis by (metis (no_types, lifting))
qed

lemma controls_skills [simp]:
  "pt_skills (snd (ui_demo e v r s)) = pt_skills s"
  "pt_skills (snd (ui_training_start e v rd s)) = pt_skills s"
  "pt_skills (snd (ui_training_stop rd s)) = pt_skills s"
  by (auto simp: ui_demo_def ui_training_start_def ui_training_stop_def split: prod.split sum.split)

lemma form_skills:
  "pt_skills (snd (portal_form e r s res)) \<noteq> pt_skills s \<Longrightarrow> \<not> bad_csrf e r \<and> snd (portal_form e r s res) = snd res"
  by (auto simp: portal_form_def split: sum.splits if_splits)

lemma form_keeps: "pt_skills (snd res) = pt_skills s \<Longrightarrow> pt_skills (snd (portal_form e r s res)) = pt_skills s"
  by (auto simp: portal_form_def split: sum.splits)

lemma api_skills: "pt_skills (snd (case handle_request f e r a of (res, a') \<Rightarrow> (res, s\<lparr>pt_api := a'\<rparr>))) = pt_skills s"
  by (simp split: prod.split)

lemma portal_skills:
  assumes "pt_skills (snd (portal_request e v r s)) \<noteq> pt_skills s"
  shows "in_portal (hr_path r) \<and> is_admin e r \<and> hr_method r = ''POST'' \<and> hr_path r = ''/ui/agents/new'' \<and> \<not> bad_csrf e r \<and>
    snd (portal_request e v r s) = snd (deploy e v r s)"
proof -
  have p: "in_portal (hr_path r)" "is_admin e r" "portal_page e v r s = None"
    using assms by (auto simp: portal_request_def api_skills split: if_splits option.splits)
  then obtain res where res: "portal_post e v r s = Some res" "portal_request e v r s = res"
    using assms by (auto simp: portal_request_def api_skills split: option.splits)
  then have "pt_skills (snd res) \<noteq> pt_skills s" using assms by simp
  with res(1) have "hr_method r = ''POST'' \<and> hr_path r = ''/ui/agents/new'' \<and> res = portal_form e r s (deploy e v r s)"
    by (auto simp: portal_post_def form_keeps split: if_splits option.splits)
  with p res \<open>pt_skills (snd res) \<noteq> pt_skills s\<close> form_skills show ?thesis by metis
qed

text \<open>C29. A deployment passes every gate and overwrites nothing: if a request changes the skills
  directory, it is the deployment form, sent by the admin with the token of the page; the manifest passed the schema
  and the level rules of the loader; the only change is one new entry under a name that was not taken; and
  if the disk took the write, the loader accepts that file, as the skill of exactly this manifest.\<close>

theorem deploy_gated:
  assumes "pt_skills (snd (portal_request e v r s)) \<noteq> pt_skills s"
    and "\<And>m. deploy_manifest v r = Inr m \<Longrightarrow> yaml_reads_back v yaml m" and "ends_with path ''.md''"
  shows "is_admin e r \<and> \<not> bad_csrf e r \<and> hr_method r = ''POST'' \<and> hr_path r = ''/ui/agents/new'' \<and>
    (\<exists>m text. deploy_manifest v r = Inr m \<and> parse_manifest m = Inr m \<and> mf_skill m \<notin> fst ` set (pt_skills s) \<and>
       pt_skills (snd (portal_request e v r s)) = pt_skills s @ [(mf_skill m, text)] \<and>
       (if pe_disk e = Disk_ok
        then map_sum fst sk_manifest (load_skill collate zod yaml (path, text)) = Inr m else True))"
proof -
  note p = portal_skills [OF assms(1)]
  then have "pt_skills (snd (deploy e v r s)) \<noteq> pt_skills s" using assms(1) by metis
  then obtain m t where m: "deploy_manifest v r = Inr m" "\<not> jhas (pt_skills s) (mf_skill m)"
    "pt_skills (snd (deploy e v r s)) = pt_skills s @ [(mf_skill m, t)]"
    "if pe_disk e = Disk_ok then t = skill_text v m (form_trim r ''instructions'') else True"
    by (rule deploy_skills)
  have g: "parse_manifest m = Inr m"
    using m(1) by (auto simp: deploy_manifest_def parse_manifest_Inr split: sum.splits option.splits)
  obtain y body where y: "parse_skill_markdown (skill_text v m (form_trim r ''instructions'')) = Some (y, body)" "yaml y = Inr m"
    using skill_text_parsed [OF assms(2) [OF m(1)]] by blast
  have "map_sum fst sk_manifest (load_skill collate zod yaml (path, skill_text v m (form_trim r ''instructions''))) = Inr m"
    using assms(3) y g by (simp add: load_skill_def compile_fragment_def)
  with p m g show ?thesis by (intro conjI exI [of _ m] exI [of _ t]) (auto simp: jhas_iff_key)
qed

text \<open>The refusal of the ledger comes too late: the file of the agent is written by then, and stays.\<close>

lemma unlogged_deploy_stays:
  assumes "deploy_manifest v r = Inr m" and "\<not> jhas (pt_skills s) (mf_skill m)" and "pv_mkdir v = None" and "pe_disk e = Disk_ok"
    and "pe_append e (deploy_entry e m (map_of (hr_form r) ''apply_now'' = Some ''yes'')) (ap_ledger (pt_api s)) = (Inl msg, l)"
  shows "fst (deploy e v r s) = Inr (503, B_page ''text'' ''ledger unavailable; refusing to deploy unlogged'') \<and>
    map_of (pt_skills (snd (deploy e v r s))) (mf_skill m) = Some (skill_text v m (form_trim r ''instructions''))"
  using assms by (simp add: deploy_def write_skill_def Let_def)

section \<open>An instance\<close>

definition deploy_request :: http_request where
  "deploy_request =
     \<lparr>hr_method = ''POST'', hr_path = ''/ui/agents/new'', hr_query = [],
      hr_headers = \<lparr>hd_auth = Some ''Basic :'', hd_timestamp = None, hd_signature = None\<rparr>, hr_idem = None, hr_size = 40, hr_body = [],
      hr_form = [(''csrf'', ''x''), (''skill'', ''ops''), (''agent'', ''ops''), (''level'', ''0'')]\<rparr>"

definition deploy_env :: "unit api_env" where
  "deploy_env =
     \<lparr>pe_hmac = (\<lambda>k t. k), pe_hash = (\<lambda>s. s), pe_b64 = (\<lambda>s. s), pe_admin = ([], []), pe_csrf = ''x'', pe_operator = None,
      pe_tokens = create_tokens [], pe_append = (\<lambda>entry l. (Inr JNull, l)), pe_why = (\<lambda>s. s), pe_embedder = None,
      pe_disk = Disk_ok, pe_now = 7000, pe_at = ''t'', pe_uuid = ''1''\<rparr>"

definition demo_portal_env :: portal_env where
  "demo_portal_env =
     \<lparr>pv_caps = (\<lambda>s. Inr None), pv_yaml_of = (\<lambda>m. ''skill: '' @ mf_skill m @ [CHR 0x0A]), pv_mkdir = None, pv_has_demo = False,
      pv_registry = [], pv_escalate = None, pv_stamp = ''s'', pv_ms = ''0''\<rparr>"

definition demo_portal :: "unit portal" where
  "demo_portal =
     \<lparr>pt_api = \<lparr>ap_intents = create_intents True, ap_ledger = empty_ledger, ap_nonces = [], ap_limiter = [], ap_triggers = None,
        ap_docs = None\<rparr>, pt_skills = [], pt_recorder = None, pt_applied = 0\<rparr>"

lemma demo_deploy_manifest:
  "deploy_manifest demo_portal_env deploy_request = Inr (form_manifest deploy_request 0 [])"
  by code_simp

lemma demo_reads_back:
  "yaml_reads_back demo_portal_env (\<lambda>y. Inr (form_manifest deploy_request 0 [])) (form_manifest deploy_request 0 [])"
  unfolding yaml_reads_back_def demo_portal_env_def form_manifest_def by (simp add: deploy_request_def form_trim_def form_text_def
    js_trim_def js_trim_start_def js_ws_def starts_with_def)

lemma demo_deployed:
  "map fst (pt_skills (snd (portal_request deploy_env demo_portal_env deploy_request demo_portal))) = [''ops'']"
proof -
  have a: "is_admin deploy_env deploy_request" by code_simp
  have s: "mf_skill (form_manifest deploy_request 0 []) = ''ops''" by code_simp
  have f: "hr_method deploy_request = ''POST''" "hr_path deploy_request = ''/ui/agents/new''" "hr_size deploy_request = 40"
    "map_of (hr_form deploy_request) ''csrf'' = Some ''x''" "pe_csrf deploy_env = ''x''" "pv_mkdir demo_portal_env = None"
    "pe_disk deploy_env = Disk_ok" "pe_append deploy_env = (\<lambda>entry l. (Inr JNull, l))" "pt_skills demo_portal = []"
    by (simp_all add: deploy_request_def deploy_env_def demo_portal_env_def demo_portal_def)
  have "in_portal ''/ui/agents/new''" by code_simp
  then have "portal_request deploy_env demo_portal_env deploy_request demo_portal = deploy deploy_env demo_portal_env deploy_request demo_portal"
    using a by (simp add: portal_request_def portal_page_def portal_post_def portal_form_def read_body_def body_limit_def bad_csrf_def f Let_def)
  then show ?thesis
    by (simp add: deploy_def demo_deploy_manifest s write_skill_def jhas_def f Let_def)
qed

theorem deploy_gated_witness:
  "map fst (pt_skills (snd (portal_request deploy_env demo_portal_env deploy_request demo_portal))) = [''ops''] \<and>
   (\<exists>text. map_sum fst sk_manifest (load_skill id concat (\<lambda>y. Inr (form_manifest deploy_request 0 [])) (''omoda.skill.md'', text)) =
      (Inr (form_manifest deploy_request 0 []) :: string + manifest))"
proof -
  have c: "pt_skills (snd (portal_request deploy_env demo_portal_env deploy_request demo_portal)) \<noteq> pt_skills demo_portal"
    using demo_deployed by (auto simp: demo_portal_def)
  have y: "yaml_reads_back demo_portal_env (\<lambda>y. Inr (form_manifest deploy_request 0 [])) m"
    if "deploy_manifest demo_portal_env deploy_request = Inr m" for m
    using that demo_deploy_manifest demo_reads_back by simp
  have d: "pe_disk deploy_env = Disk_ok" by (simp add: deploy_env_def)
  have e: "ends_with ''omoda.skill.md'' ''.md''" by code_simp
  from deploy_gated [OF c y e, of id concat] show ?thesis
    using demo_deployed d demo_deploy_manifest by auto
qed

end
