(* ===== verification/Pages_Claims.thy ===== *)
theory Pages_Claims
  imports Pages Portal_Claims
begin

text \<open>
  What the pages of the portal offer: markup that carries no script whatever it shows, and forms that the
  server takes.
\<close>

section \<open>Elements of a page\<close>

fun elements :: "node \<Rightarrow> (string \<times> props) list" where
  "elements (Value v) = []"
| "elements (Nodes ns) = concat (map elements ns)"
| "elements (Element t ps ns) = (t, ps) # concat (map elements ns)"

definition page_tags :: "string list" where
  "page_tags =
     [''html'', ''head'', ''meta'', ''title'', ''style'', ''body'', ''header'', ''h1'', ''h2'', ''nav'', ''a'', ''main'', ''div'', ''span'', ''p'',
      ''code'', ''strong'', ''table'', ''thead'', ''tbody'', ''tr'', ''th'', ''td'', ''form'', ''input'', ''button'', ''label'', ''select'',
      ''option'', ''textarea'', ''details'', ''summary'', ''pre'']"

definition plain_props :: "string list" where
  "plain_props =
     [''key'', ''className'', ''lang'', ''charSet'', ''name'', ''content'', ''style'', ''type'', ''value'', ''placeholder'', ''required'',
      ''method'', ''htmlFor'', ''id'', ''rows'', ''defaultValue'']"

definition portal_links :: "string list" where
  "portal_links =
     [''/ui'', ''/ui/intents'', ''/ui/ledger'', ''/ui/audit'', ''/ui/training'', ''/ui/demo'', ''/ui/agents/new'', ''/ui/knowledge'',
      ''/ui/triggers'']"

definition form_paths :: "string list" where
  "form_paths =
     [''/ui/decide'', ''/ui/training/stop'', ''/ui/training/start'', ''/ui/demo/trigger'', ''/ui/agents/new'', ''/ui/knowledge'',
      ''/ui/triggers/delete'', ''/ui/triggers'']"

text \<open>A property is inert if it is no event handler, an address only of the portal, and markup only of the style sheet.\<close>

definition inert_prop :: "string \<Rightarrow> string \<times> json \<Rightarrow> bool" where
  "inert_prop t p =
     (if fst p = ''dangerouslySetInnerHTML'' then t = ''style'' \<and> snd p = JObj [(''__html'', JStr ui_css)]
      else if fst p = ''href'' then list_ex (\<lambda>l. snd p = JStr l) portal_links
      else if fst p = ''action'' then snd p = JStr ''/ui/audit'' \<or> list_ex (\<lambda>l. snd p = JStr l) form_paths
      else fst p \<in> set plain_props)"

definition inert :: "string \<times> props \<Rightarrow> bool" where
  "inert el = (fst el \<in> set page_tags \<and> list_all (inert_prop (fst el)) (snd el))"

fun tame :: "node \<Rightarrow> bool" where
  "tame (Value v) = True"
| "tame (Nodes ns) = list_all tame ns"
| "tame (Element t ps ns) = (inert (t, ps) \<and> list_all tame ns)"

lemma tame_elements: "tame n \<longleftrightarrow> list_all inert (elements n)"
  by (induction n) (auto simp: list_all_iff)

lemmas inert_simps = inert_def inert_prop_def page_tags_def plain_props_def portal_links_def form_paths_def

lemma tame_map [simp]: "list_all tame (map f xs) = (\<forall>x \<in> set xs. tame (f x))"
  by (auto simp: list_all_iff)

lemma tame_pill [simp]: "tame (pill v k)"
  by (simp add: pill_def inert_simps)

lemma tame_parts [simp]:
  "tame (head_row cols)" "tame (err_box err)" "tame (hidden_input n v)" "tame (okbox s)" "tame (count k)" "tame (label_for s)"
  "tame (submit_button s)" "tame (text_input n q ph d)" "tame (filter_field fs n l ph)" "tame (raw_details x)"
  "list_all tame kids \<Longrightarrow> tame (note_p kids)" "tame a \<Longrightarrow> tame b \<Longrightarrow> tame (row_of_two a b)"
  by (auto simp: head_row_def err_box_def hidden_input_def okbox_def count_def label_for_def submit_button_def text_input_def
      filter_field_def raw_details_def note_p_def row_of_two_def inert_simps split: option.splits)

lemma tame_nav [simp]: "href \<in> set portal_links \<Longrightarrow> tame (nav_link active href name label)"
  by (auto simp: nav_link_def inert_def inert_prop_def list_ex_iff page_tags_def plain_props_def)

lemma tame_Layout [simp]: "tame (Layout title active kids) = list_all tame kids"
  by (simp add: Layout_def inert_simps nav_link_def)

lemma tame_forms [simp]:
  "tame (decide_form csrf i)" "tame (stop_form csrf)" "tame (start_form csrf)" "tame (knowledge_form csrf)" "tame (remove_form csrf r)"
  "tame (audit_filters fs)"
  by (simp_all add: decide_form_def stop_form_def start_form_def knowledge_form_def remove_form_def audit_filters_def inert_simps)

lemma tame_option_forms [simp]: "tame (demo_form gl csrf gated)" "tame (add_form csrf agents)" "tame (deploy_form csrf prefill)"
  by (simp_all add: demo_form_def gated_option_def add_form_def deploy_form_def Let_def inert_simps case_prod_beta)

lemma tame_rows [simp]:
  "tame (skill_row r)" "tame (intent_row csrf i)" "tame (ledger_row e)" "tame (gated_row g)" "tame (document_row d)"
  "tame (trigger_row csrf tr)"
  by (simp_all add: skill_row_def consentPill_def intent_row_def ledger_row_def gated_row_def document_row_def trigger_row_def inert_simps)

lemma tame_skill_section [simp]: "tame (skill_section k)"
  by (simp add: skill_section_def inert_simps)

lemma tame_chain_pill [simp]: "tame (chain_pill b c)"
  by (simp add: chain_pill_def split: chain.split)

lemma tame_orgTier: "orgTier gl a levels = Inr n \<Longrightarrow> tame n"
  by (cases a) (auto simp: orgTier_def split: if_splits level.splits)

lemma tame_authority [simp]: "tame (authority_pill gl v)"
  by (simp add: authority_pill_def Let_def)

lemma tame_audit_cells [simp]: "tame tier \<Longrightarrow> tame (audit_cells gl e time tier impact)"
  by (simp add: audit_cells_def inert_simps)

lemma tame_audit_row: "audit_row gl levels e = Inr n \<Longrightarrow> tame n"
  by (auto simp: audit_row_def dest: tame_orgTier split: sum.splits)

lemma map_throws_rows: "map_throws f xs = Inr ys \<Longrightarrow> list_all2 (\<lambda>x y. f x = Inr y) xs ys"
  by (induction xs arbitrary: ys) (auto split: sum.splits)

lemma map_throws_each:
  assumes "map_throws f xs = Inr ys" and "\<And>x y. f x = Inr y \<Longrightarrow> Q y"
  shows "list_all Q ys"
  using map_throws_rows [OF assms(1)] assms(2) by (auto simp: list_all_length list_all2_conv_all_nth)

lemma tame_audit_rows: "map_throws (audit_row gl levels) es = Inr ns \<Longrightarrow> list_all tame ns"
  using map_throws_each tame_audit_row by blast

lemma tame_audit: "AuditPage gl entries c filters levels = Inr n \<Longrightarrow> tame n"
  by (auto simp: AuditPage_def inert_simps dest: tame_audit_rows split: sum.splits)

lemma tame_page:
  assumes "show_page gl csrf p = Inr n"
  shows "tame n"
proof (cases p)
  case (Page_audit entries c filters levels)
  with assms tame_audit show ?thesis by auto
next
  case (Page_training status added stopped)
  with assms show ?thesis by (auto simp: TrainingPage_def Let_def inert_simps split: option.splits)
next
  case (Page_demo gated configured sent error)
  with assms show ?thesis by (auto simp: DemoPage_def inert_simps split: option.splits)
next
  case (Page_knowledge docs backend error added)
  with assms show ?thesis by (auto simp: KnowledgePage_def inert_simps split: option.splits)
qed (use assms in \<open>auto simp: SkillsPage_def IntentsPage_def LedgerPage_def AgentNewPage_def TriggersPage_def Let_def inert_simps
    split: option.splits\<close>)

text \<open>C37. Whatever the pages show, what they are made of is inert: every tag is of a fixed list without scripts, frames or
  embedded objects, no property is an event handler, every link and form target is a constant path of the portal, and the only
  markup that is not escaped is the constant style sheet.\<close>

theorem pages_inert:
  assumes "show_page gl csrf p = Inr n"
  shows "list_all inert (elements n)"
  using tame_page [OF assms] by (simp add: tame_elements)

definition plain_glyphs :: glyphs where
  "plain_glyphs = \<lparr>gl_dash = ''-'', gl_arrow = ''>'', gl_dots = ''..'', gl_inherited = (\<lambda>a. a)\<rparr>"

definition hostile_page :: "nat page" where
  "hostile_page =
     Page_audit [JObj [(''seq'', JNum 1), (''at'', JStr ''2026-08-16T10:00:00.123Z''), (''agent'', JStr ''<script>'')]] (Chain_ok 1) [] []"

theorem pages_inert_witness: "\<exists>n. show_page plain_glyphs ''t'' hostile_page = Inr n \<and> list_all inert (elements n)"
proof -
  obtain n where n: "show_page plain_glyphs ''t'' hostile_page = Inr n"
    by (simp add: hostile_page_def AuditPage_def audit_row_def audit_time_def orgTier_def audit_impact_def js_coalesce_def Let_def)
  with pages_inert [OF n] show ?thesis by blast
qed

section \<open>Forms\<close>

fun forms :: "node \<Rightarrow> node list" where
  "forms (Value v) = []"
| "forms (Nodes ns) = concat (map forms ns)"
| "forms (Element t ps ns) = (if t = ''form'' then [Element t ps ns] else []) @ concat (map forms ns)"

text \<open>The named controls of a form in the order of the document; a hidden one with its value.\<close>

definition control :: "string \<Rightarrow> props \<Rightarrow> (string \<times> string option) list" where
  "control t ps =
     (if t \<notin> {''input'', ''textarea'', ''select'', ''button''} then []
      else (case map_of ps ''name'' of
              Some (JStr name) \<Rightarrow>
                [(name, if map_of ps ''type'' = Some (JStr ''hidden'') then map_option js_string (map_of ps ''value'') else None)]
            | _ \<Rightarrow> []))"

fun controls :: "node \<Rightarrow> (string \<times> string option) list" where
  "controls (Value v) = []"
| "controls (Nodes ns) = concat (map controls ns)"
| "controls (Element t ps ns) = control t ps @ concat (map controls ns)"

text \<open>A browser submits a form by its method to its target, its controls in order: the hidden ones with their values, any
  other with what was entered, or not at all (an unchecked box, a button that was not pressed).\<close>

fun filled :: "(string \<times> string option) list \<Rightarrow> (string \<times> string) list \<Rightarrow> bool" where
  "filled [] fs = (fs = [])"
| "filled ((k, Some v) # cs) fs = (case fs of [] \<Rightarrow> False | f # gs \<Rightarrow> f = (k, v) \<and> filled cs gs)"
| "filled ((k, None) # cs) fs = (filled cs fs \<or> (case fs of [] \<Rightarrow> False | f # gs \<Rightarrow> fst f = k \<and> filled cs gs))"

fun submits :: "node \<Rightarrow> http_request \<Rightarrow> bool" where
  "submits (Element t ps ns) r =
     (t = ''form'' \<and> hr_method r = ''POST'' \<and> map_of ps ''method'' \<in> {Some (JStr ''POST''), Some (JStr ''post'')} \<and>
      map_of ps ''action'' = Some (JStr (hr_path r)) \<and> filled (controls (Element t ps ns)) (hr_form r))"
| "submits n r = False"

text \<open>A form of the portal posts to a route of it and begins with the token, or it gets the audit page and does not carry it.\<close>

fun sound_form :: "string \<Rightarrow> node \<Rightarrow> bool" where
  "sound_form csrf (Element t ps ns) =
     (if map_of ps ''method'' \<in> {Some (JStr ''POST''), Some (JStr ''post'')}
      then list_ex (\<lambda>l. map_of ps ''action'' = Some (JStr l)) form_paths \<and>
           (\<exists>cs. controls (Element t ps ns) = (''csrf'', Some csrf) # cs)
      else map_of ps ''action'' = Some (JStr ''/ui/audit'') \<and> ''csrf'' \<notin> fst ` set (controls (Element t ps ns)))"
| "sound_form csrf n = False"

lemma concat_nothing [simp]: "concat (map (\<lambda>x. []) xs) = []"
  by (induction xs) auto

lemma control_simps [simp]:
  "control t (attr ''type'' ''hidden'' # attr ''name'' k # (''value'', v) # ps) = (if t \<in> {''input'', ''textarea'', ''select'', ''button''} then [(k, Some (js_string v))] else [])"
  by (simp add: control_def)

lemma controls_parts [simp]:
  "controls (hidden_input k v) = [(k, Some (js_string v))]" "controls (label_for s) = []" "controls (submit_button s) = []"
  "controls (text_input k q ph d) = [(k, None)]" "controls (filter_field fs k l ph) = [(k, None)]"
  by (auto simp: hidden_input_def label_for_def submit_button_def text_input_def filter_field_def control_def split: option.split)

lemma sound_forms:
  "sound_form csrf (decide_form csrf i)" "sound_form csrf (stop_form csrf)" "sound_form csrf (start_form csrf)"
  "sound_form csrf (knowledge_form csrf)" "sound_form csrf (remove_form csrf r)" "sound_form csrf (demo_form gl csrf gated)"
  "sound_form csrf (add_form csrf agents)" "sound_form csrf (deploy_form csrf prefill)" "sound_form csrf (audit_filters fs)"
  by (simp_all add: decide_form_def stop_form_def start_form_def knowledge_form_def remove_form_def demo_form_def add_form_def
      deploy_form_def audit_filters_def form_paths_def control_def Let_def)

lemma forms_parts [simp]:
  "forms (pill v k) = []" "forms (head_row cols) = []" "forms (err_box err) = []" "forms (hidden_input n v) = []" "forms (okbox s) = []"
  "forms (count c) = []" "forms (label_for s) = []" "forms (submit_button s) = []" "forms (text_input n q ph d) = []"
  "forms (filter_field fs n l ph) = []" "forms (raw_details x) = []" "forms (nav_link active href name label) = []"
  "forms (note_p kids) = concat (map forms kids)" "forms (row_of_two a b) = forms a @ forms b"
  by (auto simp: pill_def head_row_def err_box_def hidden_input_def okbox_def count_def label_for_def submit_button_def text_input_def
      filter_field_def raw_details_def nav_link_def note_p_def row_of_two_def comp_def split: option.splits)

lemma forms_Layout [simp]: "forms (Layout title active kids) = concat (map forms kids)"
  by (simp add: Layout_def)

lemma forms_of_forms [simp]:
  "forms (decide_form csrf i) = [decide_form csrf i]" "forms (stop_form csrf) = [stop_form csrf]"
  "forms (start_form csrf) = [start_form csrf]" "forms (knowledge_form csrf) = [knowledge_form csrf]"
  "forms (remove_form csrf r) = [remove_form csrf r]" "forms (audit_filters fs) = [audit_filters fs]"
  "forms (demo_form gl csrf gated) = [demo_form gl csrf gated]" "forms (add_form csrf agents) = [add_form csrf agents]"
  "forms (deploy_form csrf prefill) = [deploy_form csrf prefill]"
  by (simp_all add: decide_form_def stop_form_def start_form_def knowledge_form_def remove_form_def audit_filters_def demo_form_def
      gated_option_def add_form_def deploy_form_def Let_def comp_def case_prod_beta)

lemma forms_rows [simp]:
  "forms (skill_row r) = []" "forms (intent_row csrf i) = [decide_form csrf i]" "forms (ledger_row e) = []" "forms (gated_row g) = []"
  "forms (document_row d) = []" "forms (trigger_row csrf tr) = [remove_form csrf tr]" "forms (chain_pill b c) = []"
  by (simp_all add: skill_row_def consentPill_def intent_row_def ledger_row_def gated_row_def document_row_def trigger_row_def
      chain_pill_def comp_def split: chain.split)

lemma forms_skill_section [simp]: "forms (skill_section k) = []"
  by (simp add: skill_section_def comp_def)

lemma forms_orgTier: "orgTier gl a levels = Inr n \<Longrightarrow> forms n = []"
  by (cases a) (auto simp: orgTier_def split: if_splits level.splits)

lemma forms_authority [simp]: "forms (authority_pill gl v) = []"
  by (simp add: authority_pill_def Let_def)

lemma forms_audit_row: "audit_row gl levels e = Inr n \<Longrightarrow> forms n = []"
  by (auto simp: audit_row_def audit_cells_def dest: forms_orgTier split: sum.splits)

lemma forms_audit_rows: "map_throws (audit_row gl levels) es = Inr ns \<Longrightarrow> concat (map forms ns) = []"
  using map_throws_each [where Q = "\<lambda>n. forms n = []"] forms_audit_row by (fastforce simp: list_all_iff)

text \<open>Which forms a page has.\<close>

fun page_forms :: "glyphs \<Rightarrow> string \<Rightarrow> 'v page \<Rightarrow> node list" where
  "page_forms gl csrf (Page_intents intents) = map (decide_form csrf) (filter pending intents)"
| "page_forms gl csrf (Page_audit entries c filters levels) = [audit_filters filters]"
| "page_forms gl csrf (Page_training status added stopped) =
     [if (case status of None \<Rightarrow> False | Some r \<Rightarrow> rd_active r) then stop_form csrf else start_form csrf]"
| "page_forms gl csrf (Page_demo gated configured sent error) = (if configured \<and> gated \<noteq> [] then [demo_form gl csrf gated] else [])"
| "page_forms gl csrf (Page_agent_new error prefill) = [deploy_form csrf prefill]"
| "page_forms gl csrf (Page_knowledge docs backend error added) = [knowledge_form csrf]"
| "page_forms gl csrf (Page_triggers rules agents error added) = map (remove_form csrf) rules @ [add_form csrf agents]"
| "page_forms gl csrf p = []"

lemma forms_IntentsPage: "forms (IntentsPage intents csrf) = map (decide_form csrf) (filter pending intents)"
  by (simp add: IntentsPage_def Let_def comp_def concat_map_singleton)

lemma forms_audit: "AuditPage gl entries c filters levels = Inr n \<Longrightarrow> forms n = [audit_filters filters]"
  by (auto simp: AuditPage_def comp_def dest: forms_audit_rows split: sum.splits)

lemma forms_page:
  assumes "show_page gl csrf p = Inr n"
  shows "forms n = page_forms gl csrf p"
proof (cases p)
  case (Page_audit entries c filters levels)
  with assms forms_audit show ?thesis by auto
next
  case (Page_intents intents)
  with assms forms_IntentsPage show ?thesis by auto
next
  case (Page_training status added stopped)
  with assms show ?thesis by (auto simp: TrainingPage_def Let_def comp_def split: option.splits)
next
  case (Page_demo gated configured sent error)
  with assms show ?thesis by (auto simp: DemoPage_def comp_def split: option.splits)
next
  case (Page_knowledge docs backend error added)
  with assms show ?thesis by (auto simp: KnowledgePage_def comp_def split: option.splits)
qed (use assms in \<open>auto simp: SkillsPage_def LedgerPage_def AgentNewPage_def TriggersPage_def Let_def comp_def concat_map_singleton
    split: option.splits\<close>)

lemma page_forms_sound: "f \<in> set (page_forms gl csrf p) \<Longrightarrow> sound_form csrf f"
  by (cases "(gl, csrf, p)" rule: page_forms.cases) (auto simp: sound_forms split: if_splits)

lemma filled_first: "filled ((k, Some v) # cs) fs \<Longrightarrow> map_of fs k = Some v"
  by (cases fs) auto

lemma sound_submission:
  assumes "sound_form csrf f" and "submits f r"
  shows "hr_method r = ''POST'' \<and> hr_path r \<in> set form_paths \<and> map_of (hr_form r) ''csrf'' = Some csrf"
  using assms by (cases f) (auto simp: list_ex_iff split: if_splits list.splits)

section \<open>What the server does with a submitted form\<close>

lemma guards_passed:
  assumes "map_of (hr_form r) ''csrf'' = Some (pe_csrf e)" and "hr_size r \<le> body_limit"
  shows "with_form e r a x = x" "portal_form e r s y = y"
  using assms by (simp_all add: with_form_def portal_form_def bad_csrf_def read_body_def)

lemma form_paths_in_portal: "p \<in> set form_paths \<Longrightarrow> in_portal p"
  by (auto simp: form_paths_def in_portal_def starts_with_def)

lemma handled_status:
  assumes "map_of (hr_form r) ''csrf'' = Some (pe_csrf e)" and "hr_size r \<le> body_limit"
    and "hr_method r = ''POST''" and "is_admin e r"
    and "hr_path r \<in> {''/ui/decide'', ''/ui/knowledge'', ''/ui/triggers'', ''/ui/triggers/delete''}"
    and "fst (handle_request (\<lambda>e r a. None) e r a) = Inr (status, b)"
  shows "status \<in> {200, 303, 422, 502, 503}"
proof -
  note g = guards_passed(1) [OF assms(1,2)]
  have p: "in_portal (hr_path r)" using assms(5) by (auto simp: in_portal_def starts_with_def)
  from assms(5) consider "hr_path r = ''/ui/decide''" | "hr_path r = ''/ui/knowledge''" | "hr_path r = ''/ui/triggers''"
    | "hr_path r = ''/ui/triggers/delete''" by blast
  then show ?thesis
  proof cases
    case 1
    with assms p show ?thesis
      by (auto simp: handle_request_def ui_decide_def g Let_def split: option.splits prod.splits sum.splits)
  next
    case 2
    with assms p show ?thesis
      by (auto simp: handle_request_def ui_knowledge_def g Let_def split: option.splits prod.splits sum.splits if_splits)
  next
    case 3
    with assms p show ?thesis
      by (auto simp: handle_request_def ui_trigger_add_def g Let_def split: option.splits prod.splits edit.splits)
  next
    case 4
    with assms p show ?thesis
      by (auto simp: handle_request_def ui_trigger_remove_def g Let_def split: option.splits prod.splits edit.splits)
  qed
qed

lemma deploy_status: "fst (deploy e v r s) = Inr (status, b) \<Longrightarrow> status \<in> {303, 422, 500, 503}"
  by (auto simp: deploy_def Let_def split: sum.splits prod.splits if_splits)

lemma ui_demo_status: "fst (ui_demo e v r s) = Inr (status, b) \<Longrightarrow> status \<in> {200, 422}"
  by (auto simp: ui_demo_def split: sum.splits prod.splits)

lemma ui_training_status:
  "fst (ui_training_start e v rd s) = Inr (status, b) \<Longrightarrow> status = 200" "fst (ui_training_stop rd s) = Inr (status, b) \<Longrightarrow> status = 200"
  by (auto simp: ui_training_start_def ui_training_stop_def split: sum.splits prod.splits)


lemma demo_deploy_reply:
  "fst (portal_request deploy_env demo_portal_env deploy_request demo_portal) = Inr (303, B_redirect ''/ui?deployed=ops'')"
proof -
  have a: "is_admin deploy_env deploy_request" by code_simp
  have k: "mf_skill (form_manifest deploy_request 0 []) = ''ops''" by code_simp
  have p: "in_portal ''/ui/agents/new''" by code_simp
  have "hr_method deploy_request = ''POST''" "hr_path deploy_request = ''/ui/agents/new''" "hr_size deploy_request = 40"
    "map_of (hr_form deploy_request) ''csrf'' = Some ''x''" "pe_csrf deploy_env = ''x''" "pv_mkdir demo_portal_env = None"
    "pe_disk deploy_env = Disk_ok" "pe_append deploy_env = (\<lambda>entry l. (Inr JNull, l))" "pt_skills demo_portal = []"
    by (simp_all add: deploy_request_def deploy_env_def demo_portal_env_def demo_portal_def)
  then show ?thesis
    using a p k by (simp add: portal_request_def portal_page_def portal_post_def portal_form_def read_body_def body_limit_def
        bad_csrf_def deploy_def demo_deploy_manifest write_skill_def jhas_def Let_def)
qed


lemma controls_decide_form:
  "controls (decide_form csrf i) =
     [(''csrf'', Some csrf), (''intent_id'', Some (in_id i)), (''action_id'', Some (js_string (first_action i))), (''reason'', None),
      (''verdict'', None), (''verdict'', None)]"
  by (simp add: decide_form_def control_def)

lemma submitted_decision:
  assumes "submits (decide_form csrf i) r"
  shows "hr_method r = ''POST'' \<and> hr_path r = ''/ui/decide'' \<and> map_of (hr_form r) ''csrf'' = Some csrf \<and>
    map_of (hr_form r) ''intent_id'' = Some (in_id i) \<and> map_of (hr_form r) ''action_id'' = Some (js_string (first_action i))"
proof -
  have "filled (controls (decide_form csrf i)) (hr_form r)" and "hr_method r = ''POST'' \<and> hr_path r = ''/ui/decide''"
    using assms by (auto simp: decide_form_def)
  then show ?thesis by (auto simp: controls_decide_form split: list.splits)
qed

definition decided_by_form :: "'v api_env \<Rightarrow> http_request \<Rightarrow> caller \<Rightarrow> intent \<Rightarrow> intent_store \<Rightarrow> intent_store" where
  "decided_by_form e r operator i store =
     snd (decide (pe_uuid e) (pe_now e) (pe_at e) (in_id i) (js_string (first_action i))
            (case map_of (hr_form r) ''verdict'' of None \<Rightarrow> ''null'' | Some x \<Rightarrow> x) (form_text r ''reason'') operator store)"

lemma ui_decide_store:
  assumes "submits (decide_form (pe_csrf e) i) r" and "hr_size r \<le> body_limit" and "pe_operator e = Some operator"
  shows "ap_intents (snd (ui_decide e r a)) = decided_by_form e r operator i (ap_intents a)"
proof -
  note d = submitted_decision [OF assms(1)]
  show ?thesis
    using d assms(3) guards_passed(1) [of r e] assms(2)
    by (auto simp: ui_decide_def decided_by_form_def Let_def split: prod.splits sum.splits)
qed

lemma decide_request:
  assumes "hr_method r = ''POST''" and "hr_path r = ''/ui/decide''" and "is_admin e r"
  shows "pt_api (snd (portal_request e v r s)) = snd (ui_decide e r (pt_api s))"
  using assms by (auto simp: portal_request_def portal_page_def portal_post_def in_portal_def handle_request_def starts_with_def
      split: prod.splits)

text \<open>C39. The page of intents offers a decision on every pending intent and on nothing else: its forms are one for each, in order, and
  whatever is submitted from one of them later is the decision of the configured operator on the first action of that intent.\<close>

theorem intents_page_decides:
  assumes "portal_view e v w r0 s0 = Some (Page_intents intents)" and "show_page gl (pe_csrf e) (Page_intents intents) = Inr n"
  shows "forms n = map (decide_form (pe_csrf e))
      (filter (\<lambda>i. in_state i \<in> {Awaiting_consent, Proposed}) (map snd (st_by_id (ap_intents (pt_api s0))))) \<and>
    (\<forall>i r s operator.
       submits (decide_form (pe_csrf e) i) r \<longrightarrow> is_admin e r \<longrightarrow> hr_size r \<le> body_limit \<longrightarrow> pe_operator e = Some operator \<longrightarrow>
         ap_intents (pt_api (snd (portal_request e v r s))) = decided_by_form e r operator i (ap_intents (pt_api s)))"
proof (intro conjI allI impI)
  have "intents = map snd (st_by_id (ap_intents (pt_api s0)))"
    using assms(1) by (auto simp: portal_view_def Let_def split: if_splits option.splits)
  moreover have "pending = (\<lambda>i. in_state i \<in> {Awaiting_consent, Proposed})" by (auto simp: pending_def fun_eq_iff)
  ultimately show "forms n = map (decide_form (pe_csrf e))
      (filter (\<lambda>i. in_state i \<in> {Awaiting_consent, Proposed}) (map snd (st_by_id (ap_intents (pt_api s0)))))"
    using assms(2) forms_IntentsPage by auto
next
  fix i r s operator
  assume a: "submits (decide_form (pe_csrf e) i) r" "is_admin e r" "hr_size r \<le> body_limit" "pe_operator e = Some operator"
  with submitted_decision [OF a(1)] decide_request [of r e v s] ui_decide_store [OF a(1,3,4), of "pt_api s"]
  show "ap_intents (pt_api (snd (portal_request e v r s))) = decided_by_form e r operator i (ap_intents (pt_api s))" by simp
qed

definition page_env :: "unit api_env" where
  "page_env = deploy_env\<lparr>pe_operator := Some \<lparr>cl_id = ''operator'', cl_token = [], cl_secret = [], cl_scopes = []\<rparr>\<rparr>"

definition page_intent :: intent where
  "page_intent =
     new_intent ''1'' ''t''
       \<lparr>bd_source = JUndef, bd_kind = JUndef, bd_detector = JUndef, bd_confidence = JUndef, bd_observed = JUndef, bd_evidence = None,
        bd_outcome = JStr ''clear the road'', bd_decision = False\<rparr>
       \<lparr>cl_id = ''cam'', cl_token = [], cl_secret = [], cl_scopes = []\<rparr> None"

definition page_portal :: "unit portal" where
  "page_portal =
     demo_portal\<lparr>pt_api := (pt_api demo_portal)\<lparr>ap_intents := (create_intents True)\<lparr>st_by_id := [(''int_1'', page_intent)]\<rparr>\<rparr>\<rparr>"

definition deny_request :: http_request where
  "deny_request =
     deploy_request\<lparr>hr_path := ''/ui/decide'',
       hr_form := [(''csrf'', ''x''), (''intent_id'', ''int_1''), (''action_id'', ''act-1''), (''reason'', ''no''), (''verdict'', ''deny'')]\<rparr>"

definition intents_request :: http_request where
  "intents_request = deploy_request\<lparr>hr_method := ''GET'', hr_path := ''/ui/intents''\<rparr>"

lemma page_intent_simps: "in_id page_intent = ''int_1''" "pending page_intent" "first_action page_intent = JStr ''act-1''"
  "in_proposed_by page_intent = ''cam''" "in_actions page_intent = []"
  by (simp_all add: page_intent_def new_intent_def pending_def first_action_def js_coalesce_def)

theorem intents_page_decides_witness:
  "map_option in_state (map_of (st_by_id (ap_intents (pt_api (snd (portal_request page_env demo_portal_env deny_request page_portal))))) ''int_1'')
     = Some Denied"
proof -
  let ?w = "\<lparr>vw_skills = [], vw_agents = [], vw_gated = [], vw_backend = ''lexical''\<rparr>"
  have v: "portal_view page_env demo_portal_env ?w intents_request page_portal = Some (Page_intents [page_intent])"
    by (simp add: portal_view_def intents_request_def page_portal_def)
  have n: "show_page plain_glyphs (pe_csrf page_env) (Page_intents [page_intent] :: unit page) = Inr (IntentsPage [page_intent] (pe_csrf page_env))"
    by simp
  have sub: "submits (decide_form (pe_csrf page_env) page_intent) deny_request"
    by (simp add: decide_form_def page_env_def deploy_env_def deny_request_def deploy_request_def control_def page_intent_simps)
  have adm: "is_admin page_env deny_request" by code_simp
  have sz: "hr_size deny_request \<le> body_limit" by (simp add: deny_request_def deploy_request_def body_limit_def)
  have "ap_intents (pt_api (snd (portal_request page_env demo_portal_env deny_request page_portal))) =
      decided_by_form page_env deny_request (the (pe_operator page_env)) page_intent (ap_intents (pt_api page_portal))"
    using intents_page_decides [OF v n] sub adm sz by (simp add: page_env_def)
  then show ?thesis
    by (simp add: decided_by_form_def page_intent_simps page_portal_def decide_def find_action_def action_kind_def deny_request_def
        form_text_def js_trim_def js_ws_def page_env_def create_intents_def record_denial_def Let_def)
qed

lemma decide_settled:
  "decision_key iid act \<in> set (st_final store) \<Longrightarrow> snd (decide uuid now at' iid act verdict reason c store) = store"
  by (simp add: decide_def Let_def split: option.split)

lemma approval_recorded:
  assumes "decide uuid now at' iid act ''approve'' reason c store = (Inr d, store')" and "dc_settled d = JBool True"
  obtains i approvers where "store' = record_approval (decision_key iid act) iid i approvers True d store"
  using assms by (auto simp: decide_def mk_decision_def Let_def split: option.splits if_splits)

text \<open>An approval that settles leaves its intent pending, so the page offers the same decision again; whoever submits it, it changes
  nothing.\<close>

lemma approved_still_offered:
  assumes "decide uuid now at' iid act ''approve'' reason c store = (Inr d, store')" and "dc_settled d = JBool True"
  shows "(\<exists>i. map_of (st_by_id store') iid = Some i \<and> pending i) \<and>
    snd (decide uuid2 now2 at2 iid act verdict2 reason2 c2 store') = store'"
proof -
  obtain i approvers where r: "store' = record_approval (decision_key iid act) iid i approvers True d store"
    using approval_recorded [OF assms] by blast
  have "decision_key iid act \<in> set (st_final store')" by (simp add: r record_approval_def)
  moreover have "\<exists>i. map_of (st_by_id store') iid = Some i \<and> pending i" by (simp add: r record_approval_def pending_def)
  ultimately show ?thesis by (simp add: decide_settled)
qed

text \<open>An intent whose first action is settled cannot be decided from the page any more, whatever actions it has besides.\<close>

lemma first_action_only:
  assumes "decision_key (in_id i) (js_string (first_action i)) \<in> set (st_final store)"
  shows "decided_by_form e r operator i store = store"
  using assms by (simp add: decided_by_form_def decide_settled)

section \<open>What the audit page shows\<close>

text \<open>The texts of the elements of a tag, in the order of the document.\<close>

fun texts_in :: "string \<Rightarrow> node \<Rightarrow> string list" where
  "texts_in tag (Value v) = []"
| "texts_in tag (Nodes ns) = concat (map (texts_in tag) ns)"
| "texts_in tag (Element t ps ns) =
     (if t = tag then (case ns of [Value v] \<Rightarrow> [js_string v] | _ \<Rightarrow> []) else concat (map (texts_in tag) ns))"

lemma pre_parts [simp]:
  "texts_in ''pre'' (pill v k) = []" "texts_in ''pre'' (head_row cols) = []" "texts_in ''pre'' (filter_field fs n l ph) = []"
  "texts_in ''pre'' (chain_pill b c) = []" "texts_in ''pre'' (note_p kids) = concat (map (texts_in ''pre'') kids)"
  "texts_in ''pre'' (raw_details x) = [json_pretty 0 x]" "texts_in ''pre'' (nav_link active href name label) = []"
  by (simp_all add: pill_def head_row_def filter_field_def chain_pill_def note_p_def raw_details_def nav_link_def comp_def
      split: chain.split)

lemma pre_Layout [simp]: "texts_in ''pre'' (Layout title active kids) = concat (map (texts_in ''pre'') kids)"
  by (simp add: Layout_def)

lemma pre_filters [simp]: "texts_in ''pre'' (audit_filters fs) = []"
  by (simp add: audit_filters_def)

lemma pre_orgTier: "orgTier gl a levels = Inr n \<Longrightarrow> texts_in ''pre'' n = []"
  by (cases a) (auto simp: orgTier_def split: if_splits level.splits)

lemma pre_authority [simp]: "texts_in ''pre'' (authority_pill gl v) = []"
  by (simp add: authority_pill_def Let_def)

lemma pre_audit_row: "audit_row gl levels e = Inr n \<Longrightarrow> texts_in ''pre'' n = [json_pretty 0 e]"
  by (auto simp: audit_row_def audit_cells_def dest: pre_orgTier split: sum.splits)

lemma pre_audit_rows: "map_throws (audit_row gl levels) es = Inr ns \<Longrightarrow> concat (map (texts_in ''pre'') ns) = map (json_pretty 0) es"
  by (induction es arbitrary: ns) (auto dest: pre_audit_row split: sum.splits)

lemma pre_audit: "AuditPage gl entries c filters levels = Inr n \<Longrightarrow> texts_in ''pre'' n = map (json_pretty 0) (rev entries)"
  by (cases "entries = []") (auto simp: AuditPage_def dest: pre_audit_rows split: sum.splits)


definition shown_record :: json where
  "shown_record = JObj [(''seq'', JNum 1), (''at'', JStr ''2026-08-16T10:00:00.123Z''), (''agent'', JStr ''<script>'')]"

definition audit_request :: http_request where
  "audit_request = deploy_request\<lparr>hr_method := ''GET'', hr_path := ''/ui/audit''\<rparr>"

definition audit_portal :: "unit portal" where
  "audit_portal = demo_portal\<lparr>pt_api := (pt_api demo_portal)\<lparr>ap_ledger := empty_ledger\<lparr>lg_mem := [shown_record]\<rparr>\<rparr>\<rparr>"

lemma audit_rows: "rows (audit_query audit_request) (limit_of audit_request 500) (ap_ledger (pt_api audit_portal)) = [shown_record]"
  by (simp add: rows_def audit_query_def some_param_def param_def audit_request_def deploy_request_def limit_of_def header_number_def
      ledger_query_def field_filter_def js_last_n_def audit_portal_def)


end
