(* ===== verification/Scripts.thy ===== *)
theory Scripts
  imports Gateway
begin

text \<open>
  The operator's scripts: the probe and pairing of scripts/gateway-pair.mjs and the dependency gate of scripts/compliance-check.mjs.

  What a gateway answers is a parameter, one answer for each session and request.  What is printed is left out.
  A record of the ledger that cannot be written is only reported, so a run gives the records it attempts.
\<close>

section \<open>Arguments\<close>

text \<open>\<open>flag\<close>: the argument behind \<open>--name\<close>, \<open>true\<close> if there is none or it is another flag.\<close>

fun arg_after :: "string \<Rightarrow> string list \<Rightarrow> json option" where
  "arg_after name [] = None"
| "arg_after name (a # as) =
     (if a = ''--'' @ name
      then Some (case as of [] \<Rightarrow> JBool True | b # bs \<Rightarrow> if starts_with b ''--'' then JBool True else JStr b)
      else arg_after name as)"

definition flag :: "string list \<Rightarrow> string \<Rightarrow> json \<Rightarrow> json" where
  "flag argv name fallback = (case arg_after name argv of None \<Rightarrow> fallback | Some v \<Rightarrow> v)"

definition env_json :: "(string, string) jsmap \<Rightarrow> string \<Rightarrow> json" where
  "env_json env k = (case map_of env k of None \<Rightarrow> JNull | Some s \<Rightarrow> JStr s)"

record pair_config =
  pc_url :: string
  pc_key :: string
  pc_token :: "string option"
  pc_password :: "string option"
  pc_approve :: bool

fun text_or_null :: "json \<Rightarrow> string option option" where
  "text_or_null (JStr s) = Some (Some s)"
| "text_or_null JNull = Some None"
| "text_or_null v = None"

text \<open>\<open>None\<close>: a flag without its value, whose \<open>true\<close> the script would pass on.\<close>

definition pair_config_of :: "string list \<Rightarrow> (string, string) jsmap \<Rightarrow> pair_config option" where
  "pair_config_of argv env =
     (case (text_or_null (flag argv ''url'' (JStr ''ws://127.0.0.1:18789'')),
            text_or_null (flag argv ''key'' (JStr ''var/device/openclaw-device.key'')),
            text_or_null (flag argv ''token'' (env_json env ''OPENCLAW_GATEWAY_TOKEN'')),
            text_or_null (flag argv ''password'' (env_json env ''OPENCLAW_GATEWAY_PASSWORD''))) of
        (Some (Some url), Some (Some key), Some token, Some password) \<Rightarrow>
          Some \<lparr>pc_url = url, pc_key = key, pc_token = token, pc_password = password, pc_approve = (''--approve'' \<in> set argv)\<rparr>
      | _ \<Rightarrow> None)"

section \<open>One session\<close>

datatype pair_call = Call_connect json | Call_list | Call_approve json

record session_answer =
  sa_open :: "gw_error + unit"
  sa_nonce :: "gw_error + json"
  sa_hello :: "json \<Rightarrow> gw_error + json"

definition pair_opts :: "pair_config \<Rightarrow> string \<Rightarrow> int \<Rightarrow> identity option \<Rightarrow> string list \<Rightarrow> json \<Rightarrow> connect_opts" where
  "pair_opts pc platform now ident scopes nonce =
     (default_opts platform nonce ident now)\<lparr>cn_scopes := scopes, cn_token := pc_token pc, cn_password := pc_password pc\<rparr>"

definition session ::
  "(string \<Rightarrow> string \<Rightarrow> string) \<Rightarrow> (identity option \<Rightarrow> string list \<Rightarrow> json \<Rightarrow> connect_opts) \<Rightarrow> identity option \<Rightarrow> string list
     \<Rightarrow> session_answer \<Rightarrow> (gw_error + json) \<times> pair_call list" where
  "session sign opts ident scopes a =
     (case sa_open a of
        Inl err \<Rightarrow> (Inl err, [])
      | Inr _ \<Rightarrow>
          (case sa_nonce a of
             Inl err \<Rightarrow> (Inl err, [])
           | Inr nonce \<Rightarrow>
               (let params = connect_params sign (opts ident scopes nonce)
                in (sa_hello a params, [Call_connect params]))))"

section \<open>The run\<close>

record pair_world =
  pw_primary :: session_answer
  pw_admin :: session_answer
  pw_list :: "gw_error + json"
  pw_approve :: "json \<Rightarrow> gw_error + json"
  pw_again :: session_answer

type_synonym pair_entry = "(string \<times> json) list"

definition pair_record :: "pair_config \<Rightarrow> string \<Rightarrow> (string \<times> json) list \<Rightarrow> pair_entry" where
  "pair_record pc outcome extra =
     [(''kind'', JStr ''gateway''), (''agent'', JStr ''omoda:integration''), (''tool'', JStr ''openclaw.device.pair''),
      (''verb'', JStr (if pc_approve pc then ''update'' else ''read'')), (''target'', JStr (pc_url pc)), (''outcome'', JStr outcome)] @ extra"

text \<open>The list of methods is filtered when it has a length, which throws if it is no array.\<close>

definition methods_throw :: "json \<Rightarrow> bool" where
  "methods_throw hello =
     (case js_coalesce (obj_get (obj_get hello ''features'') ''methods'') (JArr []) of
        JArr ms \<Rightarrow> False
      | JStr s \<Rightarrow> s \<noteq> []
      | v \<Rightarrow> truthy (obj_get v ''length''))"

definition pending_requests :: "json \<Rightarrow> json list" where
  "pending_requests list = (case obj_get list ''pending'' of JArr ps \<Rightarrow> filter truthy ps | _ \<Rightarrow> [])"

definition matching_request :: "string \<Rightarrow> json list \<Rightarrow> json" where
  "matching_request device ps =
     (case find (\<lambda>p. obj_get p ''deviceId'' = JStr device) ps of
        Some p \<Rightarrow> p
      | None \<Rightarrow> if ps = [] then JUndef else last ps)"

record pair_result =
  pr_calls :: "pair_call list"
  pr_records :: "pair_entry list"
  pr_exit :: nat

definition pair_verify ::
  "(identity option \<Rightarrow> string list \<Rightarrow> json \<Rightarrow> connect_opts) \<Rightarrow> (string \<Rightarrow> string \<Rightarrow> string) \<Rightarrow> pair_config \<Rightarrow> identity \<Rightarrow> pair_world
     \<Rightarrow> pair_result" where
  "pair_verify opts sign pc i w =
     (case session sign opts (Some i) [''operator.admin''] (pw_again w) of
        (Inl err, calls) \<Rightarrow> \<lparr>pr_calls = calls, pr_records = [pair_record pc ''verify-failed'' [(''reason'', JStr (ge_message err))]], pr_exit = 1\<rparr>
      | (Inr hello, calls) \<Rightarrow> \<lparr>pr_calls = calls, pr_records = [pair_record pc ''verified'' []], pr_exit = 0\<rparr>)"

definition behind :: "pair_call list \<Rightarrow> pair_entry list \<Rightarrow> pair_result \<Rightarrow> pair_result" where
  "behind calls records r = r\<lparr>pr_calls := calls @ pr_calls r, pr_records := records @ pr_records r\<rparr>"

definition failed :: "pair_config \<Rightarrow> pair_call list \<Rightarrow> string \<Rightarrow> (string \<times> json) list \<Rightarrow> pair_result" where
  "failed pc calls outcome extra = \<lparr>pr_calls = calls, pr_records = [pair_record pc outcome extra], pr_exit = 1\<rparr>"

definition pair_approval ::
  "(identity option \<Rightarrow> string list \<Rightarrow> json \<Rightarrow> connect_opts) \<Rightarrow> (string \<Rightarrow> string \<Rightarrow> string) \<Rightarrow> pair_config \<Rightarrow> identity \<Rightarrow> pair_world
     \<Rightarrow> pair_result" where
  "pair_approval opts sign pc i w =
     (case pw_list w of
        Inl err \<Rightarrow> failed pc [Call_list] ''error'' [(''reason'', JStr (ge_message err))]
      | Inr list \<Rightarrow>
          (let m = matching_request (dv_id i) (pending_requests list); rid = obj_get m ''requestId'' in
           if \<not> truthy rid then failed pc [Call_list] ''no-request'' []
           else if obj_get m ''deviceId'' \<noteq> JStr (dv_id i)
           then failed pc [Call_list] ''refused'' [(''reason'', JStr ''pending request belongs to another device'')]
           else
             (case pw_approve w rid of
                Inl err \<Rightarrow> failed pc [Call_list, Call_approve rid] ''error'' [(''reason'', JStr (ge_message err))]
              | Inr _ \<Rightarrow>
                  behind [Call_list, Call_approve rid]
                    [pair_record pc ''approved'' [(''deviceId'', JStr (dv_id i)), (''requestId'', rid)]]
                    (pair_verify opts sign pc i w))))"

definition pair_admin ::
  "(identity option \<Rightarrow> string list \<Rightarrow> json \<Rightarrow> connect_opts) \<Rightarrow> (string \<Rightarrow> string \<Rightarrow> string) \<Rightarrow> pair_config \<Rightarrow> identity \<Rightarrow> pair_world
     \<Rightarrow> pair_result" where
  "pair_admin opts sign pc i w =
     (if \<not> has_text (pc_token pc) \<and> \<not> has_text (pc_password pc)
      then failed pc [] ''refused'' [(''reason'', JStr ''no shared credential'')]
      else
        (case session sign opts None [''operator.admin'', ''operator.pairing''] (pw_admin w) of
           (Inl err, calls) \<Rightarrow> failed pc calls ''refused'' [(''reason'', JStr (ge_message err))]
         | (Inr hello, calls) \<Rightarrow> behind calls [] (pair_approval opts sign pc i w)))"

definition pair_run ::
  "(identity option \<Rightarrow> string list \<Rightarrow> json \<Rightarrow> connect_opts) \<Rightarrow> (string \<Rightarrow> string \<Rightarrow> string) \<Rightarrow> pair_config \<Rightarrow> identity \<Rightarrow> pair_world
     \<Rightarrow> pair_result" where
  "pair_run opts sign pc i w =
     (case session sign opts (Some i) [''operator.admin''] (pw_primary w) of
        (Inr hello, calls) \<Rightarrow>
          (if methods_throw hello
           then behind calls [pair_record pc ''connected'' [(''deviceId'', JStr (dv_id i))]]
                  (failed pc [] ''error'' [(''reason'', JStr ''methods.filter is not a function'')])
           else \<lparr>pr_calls = calls, pr_records = [pair_record pc ''connected'' [(''deviceId'', JStr (dv_id i))]], pr_exit = 0\<rparr>)
      | (Inl err, calls) \<Rightarrow>
          (if \<not> is_pairing_error err then failed pc calls ''error'' [(''reason'', JStr (ge_message err))]
           else behind calls [pair_record pc ''pairing-required'' [(''deviceId'', JStr (dv_id i)), (''code'', ge_code err)]]
                  (if \<not> pc_approve pc then \<lparr>pr_calls = [], pr_records = [], pr_exit = 0\<rparr> else pair_admin opts sign pc i w)))"

text \<open>The script with the identity it resolves; the error of a key that cannot be read ends it without a record.\<close>

definition pair_main ::
  "(string \<Rightarrow> string + string) \<Rightarrow> (string \<Rightarrow> string) \<Rightarrow> (string \<Rightarrow> string \<Rightarrow> string) \<Rightarrow> disk \<Rightarrow> string \<Rightarrow> string \<Rightarrow> int \<Rightarrow> pair_config
     \<Rightarrow> pair_world \<Rightarrow> (string, string) jsmap \<Rightarrow> pair_result \<times> (string, string) jsmap" where
  "pair_main spki sha sign d fresh platform now pc w keys =
     (case resolve_identity spki sha d fresh None (Some (pc_key pc)) keys of
        (Inl msg, keys') \<Rightarrow> (\<lparr>pr_calls = [], pr_records = [], pr_exit = 1\<rparr>, keys')
      | (Inr i, keys') \<Rightarrow> (pair_run (pair_opts pc platform now) sign pc i w, keys'))"

definition pair_ledger :: "(pair_entry \<Rightarrow> ledger \<Rightarrow> (string + json) \<times> ledger) \<Rightarrow> pair_result \<Rightarrow> ledger \<Rightarrow> ledger" where
  "pair_ledger app r l = foldl (\<lambda>l entry. snd (app entry l)) l (pr_records r)"

section \<open>What a run does\<close>

lemma session_calls: "session sign opts ident scopes a = (res, calls) \<Longrightarrow> Call_approve rid \<notin> set calls"
  by (auto simp: session_def Let_def split: sum.splits)

lemma verify_calls: "Call_approve rid \<notin> set (pr_calls (pair_verify opts sign pc i w))"
  using session_calls by (auto simp: pair_verify_def split: prod.split sum.split)

lemma matching_own:
  assumes "obj_get (matching_request device ps) ''deviceId'' = JStr device"
  shows "matching_request device ps \<in> set ps"
  using assms by (auto simp: matching_request_def find_Some_iff split: option.splits if_splits)

text \<open>The pairing of the gateway is approved only where the flag asks for it, with a shared credential, after the gateway refused
  this device as not paired, and only the pending request of this device.\<close>

theorem pairing_approves_own:
  assumes "Call_approve rid \<in> set (pr_calls (pair_run opts sign pc i w))"
  shows "pc_approve pc \<and> (has_text (pc_token pc) \<or> has_text (pc_password pc)) \<and>
    (\<exists>err. fst (session sign opts (Some i) [''operator.admin''] (pw_primary w)) = Inl err \<and> is_pairing_error err) \<and>
    (\<exists>list p. pw_list w = Inr list \<and> p \<in> set (pending_requests list) \<and> obj_get p ''deviceId'' = JStr (dv_id i) \<and> rid = obj_get p ''requestId'')"
proof -
  obtain res calls where s: "session sign opts (Some i) [''operator.admin''] (pw_primary w) = (res, calls)" by fastforce
  note n = session_calls [OF s]
  from assms s n obtain err where err: "res = Inl err" "is_pairing_error err" "pc_approve pc"
    and a: "Call_approve rid \<in> set (pr_calls (pair_admin opts sign pc i w))"
    by (cases res) (auto simp: pair_run_def behind_def failed_def split: if_splits)
  obtain res2 calls2 where s2: "session sign opts None [''operator.admin'', ''operator.pairing''] (pw_admin w) = (res2, calls2)" by fastforce
  from a s2 session_calls [OF s2] have c: "has_text (pc_token pc) \<or> has_text (pc_password pc)"
    and b: "Call_approve rid \<in> set (pr_calls (pair_approval opts sign pc i w))"
    by (cases res2; auto simp: pair_admin_def behind_def failed_def split: if_splits)+
  from b verify_calls [of rid opts sign pc i w] obtain list where l: "pw_list w = Inr list"
    and o: "obj_get (matching_request (dv_id i) (pending_requests list)) ''deviceId'' = JStr (dv_id i)"
    and r: "rid = obj_get (matching_request (dv_id i) (pending_requests list)) ''requestId''"
    by (auto simp: pair_approval_def failed_def behind_def Let_def split: sum.splits if_splits)
  from matching_own [OF o] o r l err c s show ?thesis by auto
qed

text \<open>Every attempt leaves a record, and the exit tells of success: the last record of a successful run says connected, verified or, of
  a probe, that pairing is required.\<close>

definition outcome_of :: "pair_entry \<Rightarrow> json" where
  "outcome_of entry = (case map_of entry ''outcome'' of None \<Rightarrow> JUndef | Some v \<Rightarrow> v)"

lemma outcome_record [simp]: "outcome_of (pair_record pc outcome extra) = JStr outcome"
  by (simp add: outcome_of_def pair_record_def)

definition good_end :: "pair_config \<Rightarrow> json \<Rightarrow> bool" where
  "good_end pc v = (v = JStr ''connected'' \<or> v = JStr ''verified'' \<or> (v = JStr ''pairing-required'' \<and> \<not> pc_approve pc))"

definition tells :: "pair_config \<Rightarrow> pair_result \<Rightarrow> bool" where
  "tells pc r = (pr_records r \<noteq> [] \<and> (pr_exit r = 0 \<longleftrightarrow> good_end pc (outcome_of (last (pr_records r)))))"

lemma tells_failed: "\<not> good_end pc (JStr outcome) \<Longrightarrow> tells pc (failed pc calls outcome extra)"
  by (simp add: tells_def failed_def)

lemma tells_behind: "tells pc r \<Longrightarrow> tells pc (behind calls records r)"
  by (simp add: tells_def behind_def)

lemma tells_verify: "tells pc (pair_verify opts sign pc i w)"
  by (auto simp: tells_def pair_verify_def good_end_def split: prod.split sum.split)

lemma tells_approval: "tells pc (pair_approval opts sign pc i w)"
  by (auto simp: pair_approval_def Let_def good_end_def intro!: tells_failed tells_behind tells_verify split: sum.split)

lemma tells_admin: "tells pc (pair_admin opts sign pc i w)"
  by (auto simp: pair_admin_def good_end_def intro!: tells_failed tells_behind tells_approval split: prod.split sum.split)

theorem pairing_recorded: "tells pc (pair_run opts sign pc i w)"
proof -
  have "tells pc (behind calls [pair_record pc ''pairing-required'' x] \<lparr>pr_calls = [], pr_records = [], pr_exit = 0\<rparr>)"
    if "\<not> pc_approve pc" for calls x using that by (simp add: tells_def behind_def good_end_def)
  then show ?thesis
    by (auto simp: pair_run_def good_end_def intro!: tells_failed tells_behind tells_admin split: prod.split sum.split)
       (simp_all add: tells_def good_end_def)
qed

text \<open>A pairing error that is known by its details alone has no code, and puts \<open>undefined\<close> into its record.\<close>

lemma pairing_code_undefined:
  assumes "fst (session sign opts (Some i) [''operator.admin''] (pw_primary w)) = Inl err" and "is_pairing_error err" and "ge_code err = JUndef"
  shows "map_of (hd (pr_records (pair_run opts sign pc i w))) ''code'' = Some JUndef"
  using assms by (cases "session sign opts (Some i) [''operator.admin''] (pw_primary w)")
    (simp add: pair_run_def behind_def pair_record_def)

section \<open>The dependency gate\<close>

record lock_entry =
  le_version :: string
  le_license :: "string option"

text \<open>What the registry tells of a package: the dates of its versions and its license; \<open>None\<close> if it cannot be reached.\<close>

type_synonym package_meta = "(string, string) jsmap \<times> string option"

definition osi_ok :: "string list" where
  "osi_ok = [''MIT'', ''ISC'', ''Apache-2.0'', ''BSD-2-Clause'', ''BSD-3-Clause'', ''0BSD'', ''MPL-2.0'']"

datatype check = Missing | Offline | Checked string string string bool bool

definition check_dependency ::
  "string \<Rightarrow> (string, lock_entry) jsmap \<Rightarrow> (string \<Rightarrow> package_meta option) \<Rightarrow> string \<Rightarrow> check" where
  "check_dependency cutoff lock fetch name =
     (case map_of lock (''node_modules/'' @ name) of
        None \<Rightarrow> Missing
      | Some entry \<Rightarrow>
          (case fetch name of
             None \<Rightarrow> Offline
           | Some (dated, license) \<Rightarrow>
               (let published = take 10 (case map_of dated (le_version entry) of None \<Rightarrow> ''unknown'' | Some t \<Rightarrow> t);
                    lic = (case license of Some l \<Rightarrow> l | None \<Rightarrow> (case le_license entry of None \<Rightarrow> ''unknown'' | Some l \<Rightarrow> l))
                in Checked (le_version entry) published lic (published \<noteq> ''unknown'' \<and> published \<le> cutoff) (lic \<in> set osi_ok))))"

fun check_failed :: "check \<Rightarrow> bool" where
  "check_failed (Checked version published lic date_ok lic_ok) = (\<not> date_ok \<or> \<not> lic_ok)"
| "check_failed c = True"

definition compliance :: "string \<Rightarrow> (string, lock_entry) jsmap \<Rightarrow> (string \<Rightarrow> package_meta option) \<Rightarrow> string list \<Rightarrow> nat \<times> nat" where
  "compliance cutoff lock fetch direct =
     (let n = length (filter check_failed (map (check_dependency cutoff lock fetch) direct)) in (n, if n = 0 then 0 else 1))"

text \<open>The gate passes exactly if every direct dependency is locked, the registry answered for it, the locked version is dated no later
  than the cutoff, and the license is on the list.\<close>

lemma compliance_iff:
  "snd (compliance cutoff lock fetch direct) = 0 \<longleftrightarrow>
     (\<forall>name \<in> set direct. \<exists>v p l. check_dependency cutoff lock fetch name = Checked v p l True True)"
proof -
  have "\<not> check_failed c \<longleftrightarrow> (\<exists>v p l. c = Checked v p l True True)" for c by (cases c) auto
  then show ?thesis by (simp add: compliance_def Let_def filter_empty_conv)
qed

text \<open>The license that is checked is the package's present one: a locked version under another license passes.\<close>

lemma present_license_checked:
  "check_dependency ''2026-08-01'' [(''node_modules/p'', \<lparr>le_version = ''1'', le_license = Some ''BUSL-1.1''\<rparr>)]
     (\<lambda>n. Some ([(''1'', ''2026-01-01'')], Some ''MIT'')) ''p'' = Checked ''1'' ''2026-01-01'' ''MIT'' True True"
  by code_simp

end
