(* ===== verification/Startup.thy ===== *)
theory Startup
  imports Deployment
begin

text \<open>
  The rest of what src/boot.js decides when it starts: where it may listen, which parts it starts for its settings, when the
  operator loop is refused, and the lines it prints.  \<open>env\<close> is the environment behind \<open>load_settings\<close>; what the
  health check of the embedding service answers is a parameter.
\<close>

section \<open>Where it listens\<close>

definition setting :: "(string, string) jsmap \<Rightarrow> string \<Rightarrow> string \<Rightarrow> string" where
  "setting env k d = (case map_of env k of None \<Rightarrow> d | Some v \<Rightarrow> v)"

text \<open>\<open>if (process.env.X)\<close>.\<close>

definition setting_on :: "(string, string) jsmap \<Rightarrow> string \<Rightarrow> string option" where
  "setting_on env k = (case map_of env k of None \<Rightarrow> None | Some v \<Rightarrow> if v = [] then None else Some v)"

record listening =
  ls_port :: "int option"
  ls_stream_port :: "int option"
  ls_host :: string
  ls_stream_host :: string
  ls_sandbox :: "string option"

definition listening_of :: "(string, string) jsmap \<Rightarrow> listening" where
  "listening_of env =
     (let host = setting env ''OMODA_HOST'' ''127.0.0.1'' in
      \<lparr>ls_port = header_number (Some (setting env ''OMODA_PORT'' ''3110'')),
       ls_stream_port = header_number (Some (setting env ''OMODA_STREAM_PORT'' ''3111'')),
       ls_host = host, ls_stream_host = setting env ''OMODA_STREAM_HOST'' host, ls_sandbox = setting_on env ''OMODA_SANDBOX''\<rparr>)"

text \<open>A port that is no decimal integer is refused like one outside the block.\<close>

definition may_bind :: "int option \<Rightarrow> string \<Rightarrow> string + unit" where
  "may_bind port host =
     (case port of
        None \<Rightarrow> Inl ''refusing to bind NaN: outside our block 3100-3199''
      | Some p \<Rightarrow> assert_bindable p host)"

definition boot_gate ::
  "listening \<Rightarrow> skill list \<times> (string \<times> string) list \<Rightarrow> string + skill list \<times> (string, registry_row \<times> string) jsmap" where
  "boot_gate ls loaded =
     (case may_bind (ls_port ls) (ls_host ls) of
        Inl msg \<Rightarrow> Inl msg
      | Inr _ \<Rightarrow>
          (case may_bind (ls_stream_port ls) (ls_stream_host ls) of
             Inl msg \<Rightarrow> Inl msg
           | Inr _ \<Rightarrow> boot_skills loaded))"

section \<open>What it starts\<close>

definition health_url :: "string \<Rightarrow> string" where
  "health_url endpoint =
     (if ends_with endpoint ''/v1/embeddings'' then take (length endpoint - 14) endpoint @ ''/health'' else endpoint)"

text \<open>\<open>probe\<close>: whether the health check answered with success, with the name of the embedder.\<close>

definition retrieval_backend :: "(string \<Rightarrow> bool) \<Rightarrow> string \<Rightarrow> (string, string) jsmap \<Rightarrow> string \<times> bool" where
  "retrieval_backend probe name env =
     (if probe (health_url (setting env ''OMODA_EMBED_ENDPOINT'' ''http://127.0.0.1:3140/v1/embeddings'')) then (name, True)
      else (''lexical (embed server down)'', False))"

definition local_available :: "listening \<Rightarrow> (string, string) jsmap \<Rightarrow> bool" where
  "local_available ls env = (ls_sandbox ls \<noteq> None \<or> setting_on env ''OMODA_LOCAL_MODEL'' \<noteq> None)"

definition hosted_available :: "(string, string) jsmap \<Rightarrow> bool" where
  "hosted_available env = (setting_on env ''OMODA_HOSTED_KEY'' \<noteq> None \<or> setting_on env ''NVIDIA_API_KEY'' \<noteq> None)"

text \<open>The stream that is dialed, and whether its frames go to the COCO adapter instead of the signed envelope.\<close>

definition upstream_plan :: "(string, string) jsmap \<Rightarrow> (string \<times> bool) option" where
  "upstream_plan env =
     map_option (\<lambda>url. (url, js_lower (setting env ''OMODA_STREAM_FORMAT'' []) = ''coco'')) (setting_on env ''OMODA_STREAM_CONNECT'')"

text \<open>The operator loop: off without a token, refused without a list of operators; escalations go to the first of the list.\<close>

datatype telegram_plan = Tg_off | Tg_refused | Tg_live string "string list" string

definition telegram_plan_of :: "(string, string) jsmap \<Rightarrow> telegram_plan" where
  "telegram_plan_of env =
     (case setting_on env ''TELEGRAM_BOT_TOKEN'' of
        None \<Rightarrow> Tg_off
      | Some token \<Rightarrow>
          (case operator_ids (map_of env ''TELEGRAM_ALLOWED_IDS'') of
             [] \<Rightarrow> Tg_refused
           | i # is' \<Rightarrow> Tg_live token (i # is') i))"

section \<open>What it prints\<close>

definition granted_methods :: "fragment \<Rightarrow> string list" where
  "granted_methods merged =
     rev (remdups (rev (map ru_method (concat (map ep_rules (concat (map (gp_endpoints \<circ> snd) (fr_policies merged))))))))"

definition or_text :: "string \<Rightarrow> string \<Rightarrow> string" where
  "or_text s d = (if s = [] then d else s)"

definition banner ::
  "listening \<Rightarrow> (string, string) jsmap \<Rightarrow> string \<Rightarrow> nat \<Rightarrow> nat \<Rightarrow> skill list \<Rightarrow> (string, registry_row \<times> string) jsmap \<Rightarrow> fragment \<Rightarrow> issued
     \<Rightarrow> string list" where
  "banner ls env backend documents rules skills index merged ids =
     (let num = (\<lambda>p. case p of None \<Rightarrow> ''NaN'' | Some n \<Rightarrow> show_int n);
          api = ls_host ls @ '':'' @ num (ls_port ls);
          stream = ls_stream_host ls @ '':'' @ num (ls_stream_port ls);
          gated = filter (\<lambda>r. rg_consent r \<noteq> ''none'') (map (fst \<circ> snd) index) in
      [[], ''OMODA is up.'',
       ''  API     http://'' @ api,
       ''  UI      http://'' @ api @ ''/ui'',
       ''  stream  ws://'' @ stream @ ''/v1/stream''
         @ (case upstream_plan env of
              None \<Rightarrow> []
            | Some (url, coco) \<Rightarrow> '' + dialing '' @ url @ (if coco then '' (coco adapter + judge)'' else [])),
       ''  outputs ws://'' @ stream @ ''/v1/out/{frames,observations,agents,agentic,audit}''
         @ (case setting_on env ''OMODA_COCO_BASE'' of
              None \<Rightarrow> '' (bus only until OMODA_COCO_BASE is set)'' | Some base \<Rightarrow> '' fed by '' @ base),
       ''  audit   condensed stream on /v1/out/audit; full record at http://'' @ api @ ''/ui/audit (admin)'',
       ''  policy  '' @ (case ls_sandbox ls of
                           None \<Rightarrow> ''in-process envelope (no sandbox configured)'' | Some b \<Rightarrow> ''openshell sandbox \"'' @ b @ ''\"''),
       ''  rag     '' @ backend @ '' ('' @ show_nat documents @ '' document(s))'',
       ''  triggers '' @ show_nat rules @ '' take-action rule(s) in the ingest layer; edit at /ui/triggers'',
       ''  training capture at /ui/training (records labeled descriptions to var/training/)'',
       ''  L0      live: reviews every frame (deterministic + inference), routes to an L1 agent, and routes intents to capabilities'',
       ''  tg      '' @ (case telegram_plan_of env of
                           Tg_live token is' chat \<Rightarrow> ''live, operator ids ['' @ js_join '','' is' @ ''], voice via local Omni''
                         | Tg_refused \<Rightarrow> ''configured but IDLE (no allowlist)''
                         | Tg_off \<Rightarrow> ''not configured''),
       [],
       ''  skills  '' @ or_text (js_join '', '' (map (mf_skill \<circ> sk_manifest) skills)) ''none'',
       ''  tools   '' @ show_nat (length index) @ '' declared; anything else is denied'',
       ''  gated   '' @ show_nat (length gated) @ '' require a recorded decision: '' @ js_join '', '' (map rg_tool gated),
       ''  granted '' @ or_text (js_join '', '' (granted_methods merged)) ''nothing'' @ '' across every enabled skill'',
       [],
       ''  SERVICE TOKENS, printed once. Do not commit, do not screenshot.'',
       ''    operator  '' @ cl_token (is_operator_id ids),
       ''      secret  '' @ cl_secret (is_operator_id ids),
       ''    see       '' @ cl_token (is_see ids),
       ''      secret  '' @ cl_secret (is_see ids),
       ''    viewer    '' @ cl_token (is_viewer ids) @ '' (outputs are open; token only needed if outputs.open is turned off)'',
       []])"

section \<open>What holds of it\<close>

text \<open>A system that starts listens inside its block on private addresses, and every skill compiled.\<close>

lemma boot_gate_sound:
  assumes "boot_gate ls loaded = Inr (skills, index)"
  shows "\<exists>p q. ls_port ls = Some p \<and> ls_stream_port ls = Some q \<and> 3100 \<le> p \<and> p \<le> 3199 \<and> 3100 \<le> q \<and> q \<le> 3199 \<and>
    ls_host ls \<notin> {''0.0.0.0'', ''::''} \<and> ls_stream_host ls \<notin> {''0.0.0.0'', ''::''} \<and> snd loaded = [] \<and> skills = fst loaded"
  using assms
  by (auto simp: boot_gate_def may_bind_def assert_bindable_def boot_skills_def split: option.splits if_splits prod.splits)

text \<open>The operator loop runs only for a token and a list of operators, none of them empty, and escalates to one of them.\<close>

lemma telegram_plan_closed:
  assumes "telegram_plan_of env = Tg_live token is' chat"
  shows "token \<noteq> [] \<and> chat \<in> set is' \<and> [] \<notin> set is' \<and> is' = operator_ids (map_of env ''TELEGRAM_ALLOWED_IDS'')"
proof -
  have "[] \<notin> set (operator_ids v)" for v by (simp add: operator_ids_def)
  moreover have "is' = operator_ids (map_of env ''TELEGRAM_ALLOWED_IDS'') \<and> token \<noteq> [] \<and> chat \<in> set is'"
    using assms by (cases "operator_ids (map_of env ''TELEGRAM_ALLOWED_IDS'')")
      (auto simp: telegram_plan_of_def setting_on_def split: option.splits if_splits)
  ultimately show ?thesis by metis
qed

text \<open>A list of blanks and commas trusts nobody.\<close>

lemma blank_list_refused:
  "telegram_plan_of [(''TELEGRAM_BOT_TOKEN'', ''t''), (''TELEGRAM_ALLOWED_IDS'', '' , ,'')] = Tg_refused"
  by code_simp

text \<open>The default settings pass the gate.\<close>

lemma default_listening: "boot_gate (listening_of []) ([], []) = Inr ([], [])"
  by code_simp

end
