(* ===== verification/Stream_Claims.thy ===== *)
theory Stream_Claims
  imports Stream Expiring
begin

text \<open>
  The stream ingress: what an accepted event has passed, that it is accepted once, and how many
  events are in flight.
\<close>

text \<open>One call of the production interface: an ingest of a raw frame at a time, or a release.\<close>

datatype stream_call =
    Ingest string disk caller int "string + event"
  | Release

fun call_time :: "stream_call \<Rightarrow> int option" where
  "call_time (Ingest uuid d c now raw) = Some now"
| "call_time Release = None"

fun stream_step :: "primitives \<Rightarrow> stream_limits \<Rightarrow> stream_call \<Rightarrow> stream \<Rightarrow> stream_outcome option \<times> stream" where
  "stream_step pr lim (Ingest uuid d c now raw) s =
     (let (out, s') = ingest pr lim uuid d c now raw s in (Some out, s'))"
| "stream_step pr lim Release s = (None, release s)"

primrec stream_run :: "primitives \<Rightarrow> stream_limits \<Rightarrow> stream_call list \<Rightarrow> stream \<Rightarrow> stream_outcome option list \<times> stream" where
  "stream_run pr lim [] s = ([], s)"
| "stream_run pr lim (u # us) s =
     (let (out, s1) = stream_step pr lim u s; (outs, s2) = stream_run pr lim us s1 in (out # outs, s2))"

lemma snd_stream_run [simp]: "snd (stream_run pr lim (u # us) s) = snd (stream_run pr lim us (snd (stream_step pr lim u s)))"
  by (simp split: prod.split)

lemma snd_stream_step [simp]:
  "snd (stream_step pr lim (Ingest uuid d c now raw) s) = snd (ingest pr lim uuid d c now raw s)"
  "fst (stream_step pr lim (Ingest uuid d c now raw) s) = Some (fst (ingest pr lim uuid d c now raw s))"
  by (simp_all split: prod.split)

fun is_accepted :: "stream_outcome option \<Rightarrow> bool" where
  "is_accepted (Some (Accepted i)) = True"
| "is_accepted out = False"

section \<open>The guards of an ingest\<close>

definition ingest_guards :: "primitives \<Rightarrow> caller \<Rightarrow> int \<Rightarrow> event \<Rightarrow> bool" where [guards]:
  "ingest_guards pr c now e =
     (schema_ok e \<and> \<bar>now - ev_ts e * 1000\<bar> \<le> signature_window \<and>
      ev_sig e = sign_event pr (cl_secret c) (ev_id e) (ev_ts e) (ev_payload e))"

definition swept :: "int \<Rightarrow> stream \<Rightarrow> stream" where
  "swept now s = s\<lparr>sg_events := sweep now (sg_events s), sg_content := sweep now (sg_content s)\<rparr>"

definition last_of :: "stream \<Rightarrow> payload \<Rightarrow> debounce option" where
  "last_of s p = map_of (sg_last s) (debounce_key p)"

text \<open>The branches of an ingest, as the proofs below use them.\<close>

lemma ingest_guarded:
  assumes "ingest_guards pr c now e"
  shows "ingest pr lim uuid d c now (Inr e) s =
    (if jhas (sg_events (swept now s)) (ev_id e) then (Duplicate ''event_id already seen'', swept now s)
     else if jhas (sg_content (swept now s)) (content_hash pr e) then (Duplicate ''identical payload inside the window'', swept now s)
     else (case last_of s (ev_payload e) of
             Some prior \<Rightarrow>
               if now - db_at prior < sl_debounce lim
               then (Debounced (db_intent prior) (Suc (db_count prior)),
                     (swept now s)\<lparr>sg_last := jset (sg_last s) (debounce_key (ev_payload e)) (prior\<lparr>db_count := Suc (db_count prior)\<rparr>),
                       sg_events := jset (sg_events (swept now s)) (ev_id e) (now + signature_window)\<rparr>)
               else admit_event pr lim uuid d c now e (swept now s)
           | None \<Rightarrow> admit_event pr lim uuid d c now e (swept now s)))"
  using assms by (simp add: ingest_def ingest_guards_def swept_def last_of_def Let_def split: option.split)

lemma ingest_unguarded:
  "\<not> ingest_guards pr c now e \<Longrightarrow> \<exists>r. ingest pr lim uuid d c now (Inr e) s = (Rejected r, s)"
  by (auto simp: ingest_def ingest_guards_def)

lemma admit_room:
  "\<lbrakk>fst (admit_event pr lim uuid d c now e s) = Accepted i\<rbrakk> \<Longrightarrow> sg_inflight s < sl_max_inflight lim"
  by (auto simp: admit_event_def split: if_splits)

lemma admit_inflight:
  "sg_inflight (snd (admit_event pr lim uuid d c now e s)) =
     sg_inflight s + (if is_accepted (Some (fst (admit_event pr lim uuid d c now e s))) then 1 else 0)"
  by (simp add: admit_event_def Let_def split: prod.split)

lemma admit_cap: "sg_inflight s \<le> sl_max_inflight lim \<Longrightarrow> sg_inflight (snd (admit_event pr lim uuid d c now e s)) \<le> sl_max_inflight lim"
  by (simp add: admit_event_def Let_def split: prod.split)

lemma swept_inflight [simp]: "sg_inflight (swept now s) = sg_inflight s"
  by (simp add: swept_def)

lemma ingest_inflight:
  "sg_inflight (snd (ingest pr lim uuid d c now raw s)) =
     sg_inflight s + (if is_accepted (Some (fst (ingest pr lim uuid d c now raw s))) then 1 else 0)"
proof (cases raw)
  case (Inr e)
  show ?thesis
  proof (cases "ingest_guards pr c now e")
    case True
    then show ?thesis using Inr by (simp add: ingest_guarded admit_inflight split: option.split)
  next
    case False
    from ingest_unguarded [OF this, of lim uuid d s] Inr show ?thesis by auto
  qed
qed (simp add: ingest_def)

lemma ingest_cap:
  assumes "sg_inflight s \<le> sl_max_inflight lim"
  shows "sg_inflight (snd (ingest pr lim uuid d c now raw s)) \<le> sl_max_inflight lim"
proof (cases raw)
  case (Inr e)
  show ?thesis
  proof (cases "ingest_guards pr c now e")
    case True
    then show ?thesis using Inr assms by (simp add: ingest_guarded admit_cap split: option.split)
  next
    case False
    from ingest_unguarded [OF this, of lim uuid d s] Inr assms show ?thesis by auto
  qed
qed (simp add: ingest_def assms)

section \<open>In flight\<close>

definition accepted_count :: "stream_outcome option list \<Rightarrow> nat" where
  "accepted_count outs = length (filter is_accepted outs)"

definition release_count :: "stream_call list \<Rightarrow> nat" where
  "release_count us = length (filter (\<lambda>u. u = Release) us)"

lemma stream_run_inflight:
  "sg_inflight s \<le> sl_max_inflight lim \<Longrightarrow>
   sg_inflight s + accepted_count (fst (stream_run pr lim us s)) \<le> sl_max_inflight lim + release_count us"
proof (induction us arbitrary: s)
  case (Cons u us)
  show ?case
  proof (cases u)
    case (Ingest uuid d c now raw)
    obtain out s1 where i: "ingest pr lim uuid d c now raw s = (out, s1)" by fastforce
    with ingest_inflight [of pr lim uuid d c now raw s] ingest_cap [OF Cons.prems, of pr uuid d c now raw]
    have "sg_inflight s1 = sg_inflight s + (if is_accepted (Some out) then 1 else 0)" "sg_inflight s1 \<le> sl_max_inflight lim"
      by auto
    with Cons.IH [of s1] Ingest i show ?thesis
      by (auto simp: accepted_count_def release_count_def split: prod.split if_splits)
  next
    case Release
    have "sg_inflight (release s) \<le> sl_max_inflight lim" using Cons.prems by (simp add: release_def)
    from Cons.IH [OF this] Release show ?thesis
      by (auto simp: accepted_count_def release_count_def release_def split: prod.split)
  qed
qed (simp add: accepted_count_def release_count_def)

section \<open>The duplicate memory\<close>

text \<open>What a step does to the memory of event ids: nothing, or one use of the expiring memory.\<close>

lemma admit_events:
  assumes "length (sg_events s) < sl_dedupe_max lim"
  shows "sg_events (snd (admit_event pr lim uuid d c now e s)) = sg_events s \<or>
         sg_events (snd (admit_event pr lim uuid d c now e s)) = jset (sg_events s) (ev_id e) (now + signature_window)"
proof -
  have "length (jset (sg_events s) (ev_id e) (now + signature_window)) \<le> sl_dedupe_max lim"
    using assms length_jset [of "sg_events s" "ev_id e" "now + signature_window"] by (simp split: if_splits)
  then show ?thesis by (simp add: admit_event_def Let_def split: prod.split)
qed

lemma ingest_events:
  assumes "ingest_guards pr c now e" and "length (sg_events s) < sl_dedupe_max lim"
  shows "\<exists>room. sg_events (snd (ingest pr lim uuid d c now (Inr e) s)) =
           snd (expiry.offer signature_window room now (ev_id e) (sg_events s))"
proof -
  let ?m = "sweep now (sg_events s)"
  have s: "sg_events (swept now s) = ?m" by (simp add: swept_def)
  have le: "length ?m \<le> length (sg_events s)" by (simp add: sweep_def length_dropWhile_le)
  have unmarked: "snd (expiry.offer signature_window False now (ev_id e) (sg_events s)) = ?m"
    by (simp add: expiry.offer_def Let_def)
  show ?thesis
  proof (cases "jhas ?m (ev_id e)")
    case True
    then have "sg_events (snd (ingest pr lim uuid d c now (Inr e) s)) = ?m"
      using s by (simp add: ingest_guarded [OF assms(1)])
    with unmarked show ?thesis by metis
  next
    case new: False
    then have marked: "snd (expiry.offer signature_window True now (ev_id e) (sg_events s)) = jset ?m (ev_id e) (now + signature_window)"
      by (simp add: expiry.offer_def Let_def)
    have "sg_events (snd (ingest pr lim uuid d c now (Inr e) s)) \<in> {?m, jset ?m (ev_id e) (now + signature_window)}"
      using assms admit_events [of "swept now s" lim pr uuid d c now e] s le new
      by (simp add: ingest_guarded split: option.split)
    then consider "sg_events (snd (ingest pr lim uuid d c now (Inr e) s)) = ?m"
      | "sg_events (snd (ingest pr lim uuid d c now (Inr e) s)) = jset ?m (ev_id e) (now + signature_window)" by blast
    then show ?thesis using marked unmarked by cases metis+
  qed
qed

lemma ingest_events_raw:
  assumes "length (sg_events s) < sl_dedupe_max lim"
  shows "sg_events (snd (ingest pr lim uuid d c now raw s)) = sg_events s \<or>
         (\<exists>room k. sg_events (snd (ingest pr lim uuid d c now raw s)) = snd (expiry.offer signature_window room now k (sg_events s)))"
proof (cases raw)
  case (Inr e)
  then show ?thesis
  proof (cases "ingest_guards pr c now e")
    case True
    from ingest_events [OF this assms] Inr show ?thesis by blast
  next
    case False
    from ingest_unguarded [OF this, of lim uuid d s] Inr show ?thesis by auto
  qed
qed (simp add: ingest_def)

lemma offer_length: "length (snd (expiry.offer ttl room now k m)) \<le> Suc (length m)"
proof -
  have "length (sweep now m) \<le> length m" by (simp add: sweep_def length_dropWhile_le)
  then show ?thesis by (simp add: expiry.offer_def Let_def length_jset)
qed

subsection \<open>The order of the memory\<close>

lemma expiry_inv_tl: "expiry_inv ttl t m \<Longrightarrow> expiry_inv ttl t (tl m)"
  by (cases m) (auto simp: expiry_inv_def jwf_def)

lemma expiry_inv_later: "expiry_inv ttl t m \<Longrightarrow> t \<le> now \<Longrightarrow> expiry_inv ttl now m"
  by (force simp: expiry_inv_def)

lemma ingest_expiry:
  assumes "expiry_inv signature_window t (sg_events s)" and "t \<le> now"
  shows "expiry_inv signature_window now (sg_events (snd (ingest pr lim uuid d c now raw s)))"
proof (cases raw)
  case (Inr e)
  have m: "expiry_inv signature_window now (sg_events (swept now s))"
    using expiry_inv_sweep [OF assms] by (simp add: swept_def)
  show ?thesis
  proof (cases "ingest_guards pr c now e")
    case True
    with Inr m show ?thesis
      by (auto simp: ingest_guarded admit_event_def Let_def expiry_inv_mark expiry_inv_tl split: option.split prod.split)
  next
    case False
    from ingest_unguarded [OF this, of lim uuid d s] Inr expiry_inv_later [OF assms] show ?thesis by auto
  qed
qed (simp add: ingest_def expiry_inv_later [OF assms])

definition times_of :: "stream_call list \<Rightarrow> int list" where
  "times_of us = List.map_filter call_time us"

lemma times_of_simps [simp]:
  "times_of [] = []"
  "times_of (Ingest uuid d c now raw # us) = now # times_of us"
  "times_of (Release # us) = times_of us"
  by (simp_all add: times_of_def List.map_filter_def)

lemma run_expiry:
  "expiry_inv signature_window t (sg_events s) \<Longrightarrow> sorted (t # times_of us @ [later]) \<Longrightarrow>
     \<exists>t' \<le> later. expiry_inv signature_window t' (sg_events (snd (stream_run pr lim us s)))"
proof (induction us arbitrary: t s)
  case (Cons u us)
  show ?case
  proof (cases u)
    case (Ingest uuid d c now raw)
    have "expiry_inv signature_window now (sg_events (snd (ingest pr lim uuid d c now raw s)))"
      using ingest_expiry [OF Cons.prems(1)] Cons.prems(2) Ingest by simp
    from Cons.IH [OF this] Cons.prems(2) Ingest show ?thesis by (simp del: stream_run.simps(2) stream_step.simps)
  next
    case Release
    have "expiry_inv signature_window t (sg_events (release s))" using Cons.prems(1) by (simp add: release_def)
    from Cons.IH [OF this] Cons.prems(2) Release show ?thesis by (simp del: stream_run.simps(2))
  qed
qed auto

lemma run_remembers:
  "expiry_inv signature_window t (sg_events s) \<Longrightarrow> sorted (t # times_of us @ [later]) \<Longrightarrow>
     remembers (sg_events s) k later \<Longrightarrow> length (sg_events s) + length us \<le> sl_dedupe_max lim \<Longrightarrow>
     remembers (sg_events (snd (stream_run pr lim us s))) k later"
proof (induction us arbitrary: t s)
  case (Cons u us)
  show ?case
  proof (cases u)
    case (Ingest uuid d c now raw)
    let ?s = "snd (ingest pr lim uuid d c now raw s)"
    have t: "t \<le> now" "now \<le> later" and o: "sorted (now # times_of us @ [later])" using Cons.prems(2) Ingest by auto
    have e: "expiry_inv signature_window now (sg_events ?s)" by (rule ingest_expiry [OF Cons.prems(1) t(1)])
    have "length (sg_events s) < sl_dedupe_max lim" using Cons.prems(4) by simp
    then consider "sg_events ?s = sg_events s" | room k' where "sg_events ?s = snd (expiry.offer signature_window room now k' (sg_events s))"
      using ingest_events_raw [of s lim pr uuid d c now raw] by blast
    then have r: "remembers (sg_events ?s) k later \<and> length (sg_events ?s) \<le> Suc (length (sg_events s))"
    proof cases
      case 1
      then show ?thesis using Cons.prems(3) by simp
    next
      case 2
      then show ?thesis using expiry.offer_live [OF Cons.prems(1) t Cons.prems(3)] offer_length by metis
    qed
    then have "length (sg_events ?s) + length us \<le> sl_dedupe_max lim" using Cons.prems(4) by simp
    from Cons.IH [OF e o conjunct1 [OF r] this] Ingest show ?thesis by (simp del: stream_run.simps(2) stream_step.simps)
  next
    case Release
    have s: "sg_events (release s) = sg_events s" by (simp add: release_def)
    have "remembers (sg_events (snd (stream_run pr lim us (release s)))) k later"
      using Cons.IH [of t "release s"] Cons.prems Release by (simp add: s)
    with Release show ?thesis by (simp del: stream_run.simps(2))
  qed
qed simp

lemma ingest_duplicate:
  assumes "jhas (sweep now (sg_events s)) (ev_id e)"
  shows "\<not> is_accepted (Some (fst (ingest pr lim uuid d c now (Inr e) s)))"
proof (cases "ingest_guards pr c now e")
  case True
  with assms show ?thesis by (simp add: ingest_guarded swept_def)
next
  case False
  from ingest_unguarded [OF this, of lim uuid d s] show ?thesis by auto
qed

lemma ingest_accepted:
  assumes "is_accepted (Some (fst (ingest pr lim uuid d c now (Inr e) s)))"
    and "expiry_inv signature_window t (sg_events s)" and "t \<le> now" and "length (sg_events s) < sl_dedupe_max lim" and "later < now + signature_window"
  shows "remembers (sg_events (snd (ingest pr lim uuid d c now (Inr e) s))) (ev_id e) later"
proof -
  have g: "ingest_guards pr c now e"
    using assms(1) ingest_unguarded [of pr c now e lim uuid d s] by fastforce
  have n: "\<not> jhas (sweep now (sg_events s)) (ev_id e)" using ingest_duplicate assms(1) by blast
  have "length (jset (sweep now (sg_events s)) (ev_id e) (now + signature_window)) \<le> sl_dedupe_max lim"
    using assms(4) n length_dropWhile_le [of "\<lambda>kv. snd kv \<le> now" "sg_events s"] by (simp add: length_jset sweep_def)
  with g n assms(1) have "sg_events (snd (ingest pr lim uuid d c now (Inr e) s)) = jset (sweep now (sg_events s)) (ev_id e) (now + signature_window)"
    by (auto simp: ingest_guarded swept_def admit_event_def Let_def split: option.splits prod.splits if_splits)
  then show ?thesis using assms(5) by (simp add: remembers_def)
qed

section \<open>What the ingress promises\<close>

lemma create_expiry: "expiry_inv signature_window t (sg_events (create_stream intents l))"
  by (simp add: create_stream_def expiry_inv_def jwf_def)


text \<open>The ingress is bounded: over any run from an empty stream the accepted events exceed the
  calls of \<open>release\<close> by at most the in-flight cap.  The production code never calls \<open>release\<close>, so
  in a run without it at most the cap (25 events) is ever accepted and everything later is shed.\<close>

theorem stream_inflight_bounded:
  "accepted_count (fst (stream_run pr lim us (create_stream intents l))) \<le> sl_max_inflight lim + release_count us"
  using stream_run_inflight [of "create_stream intents l" lim pr us] by (simp add: create_stream_def)

definition demo_prims :: primitives where
  "demo_prims = \<lparr>pr_hmac = \<lambda>k t. ''h'', pr_hash = \<lambda>t. ''x'', pr_render = \<lambda>p. ''p'', pr_iso = \<lambda>t. ''t''\<rparr>"

definition demo_event :: event where
  "demo_event = \<lparr>ev_id = ''e1'', ev_ts = 1, ev_sig = ''sha256=h'',
     ev_payload = \<lparr>pl_detector = ''cam'', pl_class = None, pl_camera = None, pl_confidence = JUndef, pl_evidence = [],
       pl_outcome = ''look''\<rparr>\<rparr>"

definition demo_caller :: caller where
  "demo_caller = \<lparr>cl_id = ''stream:cam'', cl_token = ''t'', cl_secret = ''k'', cl_scopes = [''intent:propose'']\<rparr>"

definition demo_stream :: stream where
  "demo_stream = create_stream (create_intents True) empty_ledger"


end
