(* ===== verification/Surface.thy ===== *)
theory Surface
  imports Prelude
begin

text \<open>
  The static world of the viewer, see/webapp/frontend/src/components/cloud/surfaceMesh.ts: the road as one slab
  whose small holes are closed, the runs of paint, and the quads that are drawn.

  A cell of the lattice is its index, row by row.  Coordinates are floating point numbers in the code; here
  \<open>'p\<close> is a ground position, \<open>ground i\<close> the measured one of a cell, \<open>mean\<close> the average that the code takes of
  positions in this order, \<open>far\<close> the test whether two positions span more than the limit, and \<open>usable\<close>, as in the
  code, the test whether a cell is on the ground and in reach.
\<close>

section \<open>The lattice\<close>

definition empty_class :: nat where "empty_class = 0"
definition terrain_class :: nat where "terrain_class = 1"
definition road_class :: nat where "road_class = 2"
definition sidewalk_class :: nat where "sidewalk_class = 3"
definition marking_class :: nat where "marking_class = 4"
definition moving_class :: nat where "moving_class = 5"

definition drawn_classes :: "nat list" where
  "drawn_classes = [road_class, marking_class, terrain_class, sidewalk_class]"

definition is_replaced :: "nat \<Rightarrow> bool" where
  "is_replaced surface = (surface \<noteq> empty_class)"

text \<open>The four neighbours in the order of the code; -1 stands for none.\<close>

definition around :: "nat \<Rightarrow> nat \<Rightarrow> int list" where
  "around side i =
     [int i - int side, int i + int side, if i mod side > 0 then int i - 1 else -1,
      if i mod side < side - 1 then int i + 1 else -1]"

definition lattice_edge :: "nat \<Rightarrow> nat \<Rightarrow> nat \<Rightarrow> bool" where
  "lattice_edge side n i = (i div side = 0 \<or> i mod side = 0 \<or> i mod side = side - 1 \<or> i + side \<ge> n)"

section \<open>Flooding\<close>

text \<open>The body of the loops over neighbours: a cell that is in the lattice, not marked and admissible is marked and
  pushed.  The array is as long as the lattice.\<close>

fun visit :: "(nat \<Rightarrow> bool) \<Rightarrow> int \<Rightarrow> bool list \<times> nat list \<Rightarrow> bool list \<times> nat list" where
  "visit ok k (mark, work) =
     (if k < 0 \<or> k \<ge> int (length mark) \<or> mark ! nat k \<or> \<not> ok (nat k) then (mark, work)
      else (mark[nat k := True], work @ [nat k]))"

abbreviation unmarked :: "bool list \<Rightarrow> nat" where
  "unmarked mark \<equiv> length (filter Not mark)"

lemma unmarked_update: "i < length mark \<Longrightarrow> \<not> mark ! i \<Longrightarrow> Suc (unmarked (mark[i := True])) = unmarked mark"
proof -
  assume i: "i < length mark" "\<not> mark ! i"
  then have m: "mark = take i mark @ False # drop (Suc i) mark" using id_take_nth_drop [OF i(1)] by simp
  have u: "mark[i := True] = take i mark @ True # drop (Suc i) mark" using i by (simp add: upd_conv_take_nth_drop)
  show ?thesis by (subst m, subst u) simp
qed

lemma visit_measure: "unmarked (fst (visit ok k x)) + length (snd (visit ok k x)) = unmarked (fst x) + length (snd x)"
proof (cases x)
  case (Pair mark work)
  have "unmarked (mark[nat k := True]) + Suc 0 = unmarked mark" if "0 \<le> k" "k < int (length mark)" "\<not> mark ! nat k"
    using unmarked_update [of "nat k" mark] that by (simp add: nat_less_iff)
  then show ?thesis using Pair by auto
qed

lemma visits_measure:
  "unmarked (fst (fold (visit ok) ks x)) + length (snd (fold (visit ok) ks x)) = unmarked (fst x) + length (snd x)"
  by (induction ks arbitrary: x) (simp_all add: visit_measure del: visit.simps)

text \<open>\<open>while (queue.length) { const at = queue.pop(); ... }\<close>, with the cells in the order they are taken.\<close>

function flood :: "nat \<Rightarrow> (nat \<Rightarrow> bool) \<Rightarrow> bool list \<Rightarrow> nat list \<Rightarrow> nat list \<Rightarrow> bool list \<times> nat list" where
  "flood side ok mark work cells =
     (if work = [] then (mark, cells)
      else
        (let x = fold (visit ok) (around side (last work)) (mark, butlast work)
         in flood side ok (fst x) (snd x) (cells @ [last work])))"
  by pat_completeness auto
termination
  by (relation "measure (\<lambda>(side, ok, mark, work, cells). unmarked mark + length work)") (auto simp: visits_measure)

text \<open>\<open>for (let head = 0; head < hole.length; head += 1)\<close>, where the body pushes onto \<open>hole\<close>.\<close>

function grow_hole :: "nat \<Rightarrow> (nat \<Rightarrow> bool) \<Rightarrow> bool list \<Rightarrow> nat list \<Rightarrow> nat \<Rightarrow> bool list \<times> nat list" where
  "grow_hole side ok grouped hole head =
     (if head < length hole
      then
        (let x = fold (visit ok) (around side (hole ! head)) (grouped, hole)
         in grow_hole side ok (fst x) (snd x) (Suc head))
      else (grouped, hole))"
  by pat_completeness auto
termination
proof (relation "measure (\<lambda>(side, ok, grouped, hole, head). unmarked grouped + length hole - head)", goal_cases)
  case (2 side ok grouped hole head x)
  then show ?case using visits_measure [of ok "around side (hole ! head)" "(grouped, hole)"] by simp
qed simp

declare flood.simps [simp del] grow_hole.simps [simp del]

section \<open>The road\<close>

definition outside_cells :: "nat \<Rightarrow> nat list \<Rightarrow> bool list" where
  "outside_cells side filled =
     (let n = length filled; start = (\<lambda>i. lattice_edge side n i \<and> filled ! i = 0)
      in fst (flood side (\<lambda>i. filled ! i = 0) (map start [0..<n]) (filter start [0..<n]) []))"

text \<open>\<open>hole.length <= area * 0.06\<close>: the product of the double nearest to 0.06 rounds to the integer where 6 area / 100 is
  one, and is far from every integer otherwise.\<close>

definition small_hole :: "nat \<Rightarrow> nat \<Rightarrow> bool" where
  "small_hole area cells = (100 * cells \<le> 6 * area)"

definition hole_step :: "nat \<Rightarrow> nat list \<Rightarrow> bool list \<Rightarrow> nat \<Rightarrow> nat \<Rightarrow> bool list \<times> nat list \<Rightarrow> bool list \<times> nat list" where
  "hole_step side filled outside area root x =
     (if filled ! root \<noteq> 0 \<or> outside ! root \<or> fst x ! root then x
      else
        (let y = grow_hole side (\<lambda>i. filled ! i = 0 \<and> \<not> outside ! i) ((fst x)[root := True]) [root] 0
         in (fst y, if small_hole area (length (snd y)) then snd x @ snd y else snd x)))"

definition patch_cells :: "nat \<Rightarrow> nat list \<Rightarrow> bool list \<Rightarrow> nat list" where
  "patch_cells side filled outside =
     (let n = length filled; area = length (filter (\<lambda>f. f \<noteq> 0) filled)
      in snd (fold (hole_step side filled outside area) [0..<n] (replicate n False, [])))"

text \<open>One pass of the diffusion; a cell settled in this pass is 2, so that the rest of the pass reads the old rim.\<close>

record 'p fill =
  fl_filled :: "nat list"
  fl_xz :: "'p list"
  fl_next :: "nat list"
  fl_settled :: nat

definition rim :: "nat \<Rightarrow> nat list \<Rightarrow> nat \<Rightarrow> nat list" where
  "rim side filled i = map nat (filter (\<lambda>k. 0 \<le> k \<and> k < int (length filled) \<and> filled ! nat k = 1) (around side i))"

definition settle_cell :: "nat \<Rightarrow> ('p list \<Rightarrow> 'p) \<Rightarrow> nat \<Rightarrow> 'p fill \<Rightarrow> 'p fill" where
  "settle_cell side mean i s =
     (if rim side (fl_filled s) i = [] then s\<lparr>fl_next := fl_next s @ [i]\<rparr>
      else s\<lparr>fl_xz := (fl_xz s)[i := mean (map (\<lambda>k. fl_xz s ! k) (rim side (fl_filled s) i))],
             fl_filled := (fl_filled s)[i := 2], fl_settled := Suc (fl_settled s)\<rparr>)"

definition settle_pass :: "nat \<Rightarrow> ('p list \<Rightarrow> 'p) \<Rightarrow> nat list \<Rightarrow> nat list \<Rightarrow> 'p list \<Rightarrow> 'p fill" where
  "settle_pass side mean pending filled xz =
     fold (settle_cell side mean) pending \<lparr>fl_filled = filled, fl_xz = xz, fl_next = [], fl_settled = 0\<rparr>"

definition finish_pass :: "nat list \<Rightarrow> nat list \<Rightarrow> nat list" where
  "finish_pass pending filled = fold (\<lambda>i f. if f ! i = 2 then f[i := 1] else f) pending filled"

lemma settle_cell_count:
  "length (fl_next (settle_cell side mean i s)) + fl_settled (settle_cell side mean i s) =
     Suc (length (fl_next s) + fl_settled s)"
  by (simp add: settle_cell_def)

lemma settle_pass_count:
  "length (fl_next (settle_pass side mean pending filled xz)) + fl_settled (settle_pass side mean pending filled xz) = length pending"
proof -
  have "length (fl_next (fold (settle_cell side mean) is s)) + fl_settled (fold (settle_cell side mean) is s) =
      length is + (length (fl_next s) + fl_settled s)" for "is" s
    by (induction "is" arbitrary: s) (simp_all add: settle_cell_count)
  then show ?thesis by (simp add: settle_pass_def)
qed

function diffuse :: "nat \<Rightarrow> ('p list \<Rightarrow> 'p) \<Rightarrow> nat list \<Rightarrow> nat list \<Rightarrow> 'p list \<Rightarrow> nat list \<times> 'p list" where
  "diffuse side mean pending filled xz =
     (if pending = [] then (filled, xz)
      else
        (let s = settle_pass side mean pending filled xz; f = finish_pass pending (fl_filled s)
         in if fl_settled s = 0 then (f, fl_xz s) else diffuse side mean (fl_next s) f (fl_xz s)))"
  by pat_completeness auto
termination
proof (relation "measure (\<lambda>(side, mean, pending, filled, xz). length pending)", goal_cases)
  case (2 side mean pending filled xz s f)
  then show ?case using settle_pass_count [of side mean pending filled xz] by simp
qed simp

declare diffuse.simps [simp del]

definition is_road :: "nat list \<Rightarrow> (nat \<Rightarrow> bool) \<Rightarrow> nat \<Rightarrow> bool" where
  "is_road labels usable i = (labels ! i = road_class \<and> usable i)"

definition solid_road ::
  "nat \<Rightarrow> ('p list \<Rightarrow> 'p) \<Rightarrow> 'p \<Rightarrow> (nat \<Rightarrow> 'p) \<Rightarrow> nat list \<Rightarrow> (nat \<Rightarrow> bool) \<Rightarrow> nat list \<times> 'p list" where
  "solid_road side mean origin ground labels usable =
     (let cells = [0..<length labels];
          filled = map (\<lambda>i. if is_road labels usable i then 1 else 0) cells;
          xz = map (\<lambda>i. if is_road labels usable i then ground i else origin) cells
      in diffuse side mean (patch_cells side filled (outside_cells side filled)) filled xz)"

section \<open>Paint and quads\<close>

definition is_paint :: "nat list \<Rightarrow> (nat \<Rightarrow> bool) \<Rightarrow> nat \<Rightarrow> bool" where
  "is_paint labels usable i = (labels ! i = marking_class \<and> usable i)"

definition min_marking_cells :: nat where
  "min_marking_cells = 6"

definition run_step :: "nat \<Rightarrow> nat list \<Rightarrow> (nat \<Rightarrow> bool) \<Rightarrow> nat \<Rightarrow> bool list \<times> nat list list \<Rightarrow> bool list \<times> nat list list" where
  "run_step side labels usable root x =
     (if fst x ! root \<or> \<not> is_paint labels usable root then x
      else
        (let y = flood side (is_paint labels usable) ((fst x)[root := True]) [root] []
         in (fst y, if length (snd y) < min_marking_cells then snd x else snd x @ [snd y])))"

definition marking_runs :: "nat \<Rightarrow> nat list \<Rightarrow> (nat \<Rightarrow> bool) \<Rightarrow> nat list list" where
  "marking_runs side labels usable =
     snd (fold (run_step side labels usable) [0..<length labels] (replicate (length labels) False, []))"

text \<open>The two triangles of a cell of the lattice, by the corners whose positions they take.\<close>

definition cell_quad :: "nat \<Rightarrow> nat \<Rightarrow> (nat \<Rightarrow> bool) \<Rightarrow> (nat \<Rightarrow> 'p) \<Rightarrow> ('p \<Rightarrow> 'p \<Rightarrow> bool) \<Rightarrow> nat \<Rightarrow> nat \<Rightarrow> nat list" where
  "cell_quad side n belongs at' far row col =
     (let a = row * side + col; b = a + 1; c = a + side; d = c + 1
      in if d \<ge> n then []
         else if \<not> belongs a \<or> \<not> belongs b \<or> \<not> belongs c \<or> \<not> belongs d then []
         else if far (at' d) (at' a) then []
         else [a, c, b, b, c, d])"

definition class_quads :: "nat \<Rightarrow> nat \<Rightarrow> (nat \<Rightarrow> bool) \<Rightarrow> (nat \<Rightarrow> 'p) \<Rightarrow> ('p \<Rightarrow> 'p \<Rightarrow> bool) \<Rightarrow> nat list" where
  "class_quads side n belongs at' far =
     concat (map (\<lambda>row. concat (map (\<lambda>col. cell_quad side n belongs at' far row col) [0..<side - 1])) [0..<side - 1])"

definition surface_quads ::
  "nat \<Rightarrow> ('p list \<Rightarrow> 'p) \<Rightarrow> 'p \<Rightarrow> (nat \<Rightarrow> 'p) \<Rightarrow> ('p \<Rightarrow> 'p \<Rightarrow> bool) \<Rightarrow> nat list \<Rightarrow> (nat \<Rightarrow> bool) \<Rightarrow> nat \<Rightarrow> nat list" where
  "surface_quads side mean origin ground far labels usable surface =
     (let n = length labels in
      if surface = road_class
      then (case solid_road side mean origin ground labels usable of
              (filled, xz) \<Rightarrow> class_quads side n (\<lambda>i. filled ! i = 1) (\<lambda>i. xz ! i) far)
      else class_quads side n (\<lambda>i. labels ! i = surface \<and> usable i) ground far)"

end
