(* ===== verification/Surface_Claims.thy ===== *)
theory Surface_Claims
  imports Complex_Main Surface
begin

text \<open>
  The flood fills of the surface mesh compute reachability, the holes of the road are its small enclosed
  components, and the diffusion closes every one of them.
\<close>

section \<open>Searching\<close>

definition marked :: "bool list \<Rightarrow> nat set" where
  "marked m = {i. i < length m \<and> m ! i}"

definition linked :: "nat \<Rightarrow> nat \<Rightarrow> (nat \<Rightarrow> bool) \<Rightarrow> (nat \<times> nat) set" where
  "linked side n ok = {(i, j). int j \<in> set (around side i) \<and> j < n \<and> ok j}"

text \<open>Everything marked but what waits has its successors marked.\<close>

definition settled_but :: "('a \<times> 'a) set \<Rightarrow> 'a set \<Rightarrow> 'a set \<Rightarrow> bool" where
  "settled_but R M W = (\<forall>i\<in>M - W. R `` {i} \<subseteq> M)"

lemma search_step:
  assumes "settled_but R M W" and "x \<in> M" and "M' = M \<union> R `` {x}" and "W - {x} \<union> (M' - M) \<subseteq> W'"
  shows "settled_but R M' W'" and "R\<^sup>* `` M' = R\<^sup>* `` M"
proof -
  show "settled_but R M' W'" using assms unfolding settled_but_def by blast
  have "M' \<subseteq> R\<^sup>* `` M" using assms(2,3) by blast
  then have "R\<^sup>* `` M' \<subseteq> R\<^sup>* `` M" by (metis Image_mono order_refl relcomp_Image rtrancl_idemp_self_comp)
  then show "R\<^sup>* `` M' = R\<^sup>* `` M" using assms(3) by blast
qed

lemma search_done: "settled_but R M {} \<Longrightarrow> R\<^sup>* `` M = M"
  by (rule Image_closed_trancl) (auto simp: settled_but_def)

lemma visit_marked:
  "visit ok k (mark, work) = (m, w) \<Longrightarrow> length m = length mark \<and> marked m = marked mark \<union> {i. int i = k \<and> i < length mark \<and> ok i} \<and>
     (\<exists>new. w = work @ new \<and> distinct new \<and> set new = marked m - marked mark)"
  by (auto simp: marked_def nth_list_update nat_less_iff split: if_splits)

lemma visits_marked:
  "fold (visit ok) ks (mark, work) = (m, w) \<Longrightarrow> length m = length mark \<and>
     marked m = marked mark \<union> {i. int i \<in> set ks \<and> i < length mark \<and> ok i} \<and>
     (\<exists>new. w = work @ new \<and> distinct new \<and> set new = marked m - marked mark)"
proof (induction ks arbitrary: mark work)
  case (Cons k ks)
  obtain m1 w1 where v: "visit ok k (mark, work) = (m1, w1)" by fastforce
  from visit_marked [OF v] obtain new1 where 1: "length m1 = length mark"
    "marked m1 = marked mark \<union> {i. int i = k \<and> i < length mark \<and> ok i}" "w1 = work @ new1" "distinct new1"
    "set new1 = marked m1 - marked mark" by blast
  have "fold (visit ok) ks (m1, w1) = (m, w)" using Cons.prems v by simp
  from Cons.IH [OF this] 1(1) obtain new2 where 2: "length m = length m1"
    "marked m = marked m1 \<union> {i. int i \<in> set ks \<and> i < length mark \<and> ok i}" "w = w1 @ new2" "distinct new2"
    "set new2 = marked m - marked m1" by auto
  show ?case using 1 2 by (intro conjI exI [of _ "new1 @ new2"]) auto
qed simp

lemma visits_linked:
  assumes "fold (visit ok) (around side i) (mark, work) = (m, w)"
  obtains new where "length m = length mark" "marked m = marked mark \<union> linked side (length mark) ok `` {i}"
    "w = work @ new" "distinct new" "set new = marked m - marked mark"
  using visits_marked [OF assms] by (auto simp: linked_def)

lemma flood_spec:
  assumes "set work \<subseteq> marked mark" and "settled_but (linked side (length mark) ok) (marked mark) (set work)"
    and "distinct (cells @ work)" and "set cells \<subseteq> marked mark"
  shows "case flood side ok mark work cells of (m, cs) \<Rightarrow>
    length m = length mark \<and> marked m = (linked side (length mark) ok)\<^sup>* `` marked mark \<and>
    set cs = set cells \<union> set work \<union> (marked m - marked mark) \<and> distinct cs"
  using assms
proof (induction side ok mark work cells rule: flood.induct)
  case (1 side ok mark work cells)
  show ?case
  proof (cases "work = []")
    case True
    then show ?thesis using 1(5) search_done [of "linked side (length mark) ok" "marked mark"] 1(3,4)
      by (simp add: flood.simps [of side ok mark "[]"])
  next
    case False
    let ?i = "last work" and ?R = "linked side (length mark) ok"
    obtain m w where v: "fold (visit ok) (around side ?i) (mark, butlast work) = (m, w)" by fastforce
    then obtain new where n: "length m = length mark" "marked m = marked mark \<union> ?R `` {?i}" "w = butlast work @ new"
      "distinct new" "set new = marked m - marked mark" by (rule visits_linked)
    have work: "work = butlast work @ [?i]" using False by simp
    then have sw: "set work = insert ?i (set (butlast work))" by (metis list.simps(15) rotate1.simps(2) set_rotate1)
    have i: "?i \<in> marked mark" using 1(2) False by auto
    have dw: "distinct (butlast work)" "?i \<notin> set (butlast work)" using 1(4) work
      by (metis distinct_append, metis distinct_append not_distinct_conv_prefix)
    note st = search_step [OF 1(3) i n(2), of "set w"]
    have w: "set work - {?i} \<union> (marked m - marked mark) \<subseteq> set w" using n(3,5) sw by auto
    have "case flood side ok m w (cells @ [?i]) of (m', cs) \<Rightarrow>
      length m' = length m \<and> marked m' = (linked side (length m) ok)\<^sup>* `` marked m \<and>
      set cs = set (cells @ [?i]) \<union> set w \<union> (marked m' - marked m) \<and> distinct cs"
    proof (rule 1(1) [OF False refl, unfolded v fst_conv snd_conv])
      show "set w \<subseteq> marked m" using n(2,3,5) 1(2) sw by auto
      show "settled_but (linked side (length m) ok) (marked m) (set w)" using st(1) [OF w] n(1) by simp
      show "distinct ((cells @ [?i]) @ w)" using 1(2,4,5) n(3-5) dw sw i by auto
      show "set (cells @ [?i]) \<subseteq> marked m" using 1(5) i n(2) by auto
    qed
    moreover have "flood side ok mark work cells = flood side ok m w (cells @ [?i])"
      using False v by (simp add: flood.simps [of side ok mark work])
    moreover have "marked m \<subseteq> (linked side (length m) ok)\<^sup>* `` marked m" by auto
    ultimately show ?thesis using n(1,2,3,5) st(2) [OF w] sw by (auto split: prod.splits)
  qed
qed

lemma grow_hole_spec:
  assumes "set hole \<subseteq> marked grouped" and "settled_but (linked side (length grouped) ok) (marked grouped) (set (drop head hole))"
    and "distinct hole"
  shows "case grow_hole side ok grouped hole head of (g, h) \<Rightarrow>
    length g = length grouped \<and> marked g = (linked side (length grouped) ok)\<^sup>* `` marked grouped \<and>
    set h = set hole \<union> (marked g - marked grouped) \<and> distinct h"
  using assms
proof (induction side ok grouped hole head rule: grow_hole.induct)
  case (1 side ok grouped hole head)
  show ?case
  proof (cases "head < length hole")
    case False
    then show ?thesis using search_done [of "linked side (length grouped) ok" "marked grouped"] 1(3,4)
      by (simp add: grow_hole.simps [of side ok grouped hole])
  next
    case True
    let ?i = "hole ! head" and ?R = "linked side (length grouped) ok"
    obtain m w where v: "fold (visit ok) (around side ?i) (grouped, hole) = (m, w)" by fastforce
    then obtain new where n: "length m = length grouped" "marked m = marked grouped \<union> ?R `` {?i}" "w = hole @ new"
      "distinct new" "set new = marked m - marked grouped" by (rule visits_linked)
    have d: "drop head hole = ?i # drop (Suc head) hole" using True by (simp add: Cons_nth_drop_Suc)
    have i: "?i \<in> marked grouped" using 1(2) True by auto
    note st = search_step [OF 1(3) i n(2), of "set (drop (Suc head) w)"]
    have w: "set (drop head hole) - {?i} \<union> (marked m - marked grouped) \<subseteq> set (drop (Suc head) w)"
      using n(3,5) d True by auto
    have "case grow_hole side ok m w (Suc head) of (g, h) \<Rightarrow>
      length g = length m \<and> marked g = (linked side (length m) ok)\<^sup>* `` marked m \<and>
      set h = set w \<union> (marked g - marked m) \<and> distinct h"
    proof (rule 1(1) [OF True refl, unfolded v fst_conv snd_conv])
      show "set w \<subseteq> marked m" using n(2,3,5) 1(2) by auto
      show "settled_but (linked side (length m) ok) (marked m) (set (drop (Suc head) w))" using st(1) [OF w] n(1) by simp
      show "distinct w" using 1(2,4) n(3-5) by auto
    qed
    moreover have "grow_hole side ok grouped hole head = grow_hole side ok m w (Suc head)"
      using True v by (simp add: grow_hole.simps [of side ok grouped hole])
    moreover have "marked m \<subseteq> (linked side (length m) ok)\<^sup>* `` marked m" by auto
    ultimately show ?thesis using n(1,2,3,5) st(2) [OF w] by (auto split: prod.splits)
  qed
qed

section \<open>The lattice is symmetric\<close>

lemma around_sym:
  assumes "0 < side" and "int j \<in> set (around side i)"
  shows "int i \<in> set (around side j)"
proof -
  consider "int j = int i - int side" | "int j = int i + int side" | "i mod side > 0" "int j = int i - 1"
    | "i mod side < side - 1" "int j = int i + 1"
    using assms(2) by (auto simp: around_def split: if_splits)
  then show ?thesis
  proof cases
    case 3
    then have ij: "i = Suc j" by simp
    then have "i mod side = Suc (j mod side)" using 3(1) assms(1) by (auto simp: mod_Suc split: if_splits)
    moreover have "i mod side < side" using assms(1) by simp
    ultimately show ?thesis using ij by (simp add: around_def)
  next
    case 4
    then have ji: "j = Suc i" by simp
    then have "j mod side = Suc (i mod side)" using 4(1) by (auto simp: mod_Suc)
    then show ?thesis using ji by (simp add: around_def)
  qed (auto simp: around_def)
qed

lemma linked_sym: "0 < side \<Longrightarrow> (i, j) \<in> linked side n ok \<Longrightarrow> i < n \<Longrightarrow> ok i \<Longrightarrow> (j, i) \<in> linked side n ok"
  by (simp add: linked_def around_sym)

lemma linked_star_in: "(i, j) \<in> (linked side n ok)\<^sup>* \<Longrightarrow> i < n \<Longrightarrow> ok i \<Longrightarrow> j < n \<and> ok j"
  by (induction rule: rtrancl_induct) (auto simp: linked_def)

lemma linked_star_sym:
  assumes "0 < side" and "(i, j) \<in> (linked side n ok)\<^sup>*" and "i < n" and "ok i"
  shows "(j, i) \<in> (linked side n ok)\<^sup>*"
  using assms(2)
proof (induction rule: rtrancl_induct)
  case (step j k)
  have "j < n \<and> ok j" using linked_star_in [OF step(1) assms(3,4)] .
  then show ?case using linked_sym [OF assms(1) step(2)] step(3) by (meson converse_rtrancl_into_rtrancl)
qed simp

text \<open>The component of a cell among the cells that satisfy \<open>ok\<close>.\<close>

definition component :: "nat \<Rightarrow> nat \<Rightarrow> (nat \<Rightarrow> bool) \<Rightarrow> nat \<Rightarrow> nat set" where
  "component side n ok i = (linked side n ok)\<^sup>* `` {i}"

lemma component_self: "i \<in> component side n ok i"
  by (simp add: component_def)

lemma component_in: "j \<in> component side n ok i \<Longrightarrow> i < n \<Longrightarrow> ok i \<Longrightarrow> j < n \<and> ok j"
  by (auto simp: component_def dest: linked_star_in)

lemma component_eq:
  "0 < side \<Longrightarrow> i < n \<Longrightarrow> ok i \<Longrightarrow> j \<in> component side n ok i \<Longrightarrow> component side n ok j = component side n ok i"
  unfolding component_def using linked_star_sym [of side i j n ok] rtrancl_trans [of i j] rtrancl_trans [of j i] by blast

lemma component_finite: "i < n \<Longrightarrow> ok i \<Longrightarrow> finite (component side n ok i)"
  by (rule finite_subset [of _ "{..<n}"]) (auto dest: component_in)

section \<open>The outside\<close>

definition open_edge :: "nat \<Rightarrow> nat list \<Rightarrow> nat \<Rightarrow> bool" where
  "open_edge side filled i = (lattice_edge side (length filled) i \<and> filled ! i = 0)"

lemma outside_spec:
  assumes "0 < side"
  shows "length (outside_cells side filled) = length filled"
    and "i < length filled \<Longrightarrow> filled ! i = 0 \<Longrightarrow>
      outside_cells side filled ! i \<longleftrightarrow>
        (\<exists>e\<in>component side (length filled) (\<lambda>i. filled ! i = 0) i. lattice_edge side (length filled) e)"
proof -
  let ?n = "length filled" and ?ok = "\<lambda>i. filled ! i = 0"
  let ?mark = "map (open_edge side filled) [0..<?n]" and ?work = "filter (open_edge side filled) [0..<?n]"
  obtain m cs where f: "flood side ?ok ?mark ?work [] = (m, cs)" by fastforce
  have o: "outside_cells side filled = m"
    using f by (simp add: outside_cells_def open_edge_def [abs_def] Let_def)
  have mk: "marked ?mark = set ?work" by (auto simp: marked_def)
  have "case flood side ?ok ?mark ?work [] of (m, cs) \<Rightarrow> length m = length ?mark \<and>
      marked m = (linked side (length ?mark) ?ok)\<^sup>* `` marked ?mark \<and> set cs = set [] \<union> set ?work \<union> (marked m - marked ?mark) \<and> distinct cs"
    by (rule flood_spec) (simp_all add: mk settled_but_def)
  then have m: "length m = ?n" "marked m = (linked side ?n ?ok)\<^sup>* `` {e. e < ?n \<and> open_edge side filled e}"
    using f mk by auto
  show "length (outside_cells side filled) = ?n" using o m by simp
  show "outside_cells side filled ! i \<longleftrightarrow> (\<exists>e\<in>component side ?n ?ok i. lattice_edge side ?n e)"
    if i: "i < ?n" "filled ! i = 0"
  proof -
    have "outside_cells side filled ! i \<longleftrightarrow> i \<in> marked m" using o m(1) i by (simp add: marked_def)
    also have "\<dots> \<longleftrightarrow> (\<exists>e. e < ?n \<and> open_edge side filled e \<and> (e, i) \<in> (linked side ?n ?ok)\<^sup>*)" using m(2) by auto
    also have "\<dots> \<longleftrightarrow> (\<exists>e. e < ?n \<and> open_edge side filled e \<and> (i, e) \<in> (linked side ?n ?ok)\<^sup>*)"
      using linked_star_sym [OF assms, of _ i ?n ?ok] linked_star_sym [OF assms, of i _ ?n ?ok] i
      by (auto simp: open_edge_def)
    also have "\<dots> \<longleftrightarrow> (\<exists>e\<in>component side ?n ?ok i. lattice_edge side ?n e)"
      using linked_star_in [of i _ side ?n ?ok] i by (auto simp: component_def open_edge_def)
    finally show ?thesis .
  qed
qed

section \<open>The holes\<close>

abbreviation free_at :: "nat list \<Rightarrow> nat \<Rightarrow> bool" where
  "free_at filled i \<equiv> filled ! i = 0"

abbreviation hollow_at :: "nat \<Rightarrow> nat list \<Rightarrow> nat \<Rightarrow> bool" where
  "hollow_at side filled i \<equiv> filled ! i = 0 \<and> \<not> outside_cells side filled ! i"

abbreviation gap_of :: "nat \<Rightarrow> nat list \<Rightarrow> nat \<Rightarrow> nat set" where
  "gap_of side filled i \<equiv> component side (length filled) (free_at filled) i"

definition enclosed :: "nat \<Rightarrow> nat list \<Rightarrow> nat \<Rightarrow> bool" where
  "enclosed side filled i =
     (i < length filled \<and> filled ! i = 0 \<and> (\<forall>e\<in>gap_of side filled i. \<not> lattice_edge side (length filled) e))"

lemma enclosed_hollow: "0 < side \<Longrightarrow> i < length filled \<Longrightarrow> hollow_at side filled i \<longleftrightarrow> enclosed side filled i"
  using outside_spec(2) [of side i filled] by (auto simp: enclosed_def)

lemma enclosed_step:
  assumes "0 < side" and "enclosed side filled i" and "j \<in> gap_of side filled i"
  shows "enclosed side filled j"
  using component_eq [OF assms(1) _ _ assms(3)] component_in [OF assms(3)] assms(2) by (auto simp: enclosed_def)

lemma gap_hollow:
  assumes "0 < side" and "enclosed side filled i"
  shows "component side (length filled) (hollow_at side filled) i = gap_of side filled i"
proof
  show "component side (length filled) (hollow_at side filled) i \<subseteq> gap_of side filled i"
    unfolding component_def by (intro Image_mono rtrancl_mono) (auto simp: linked_def)
  have "(i, j) \<in> (linked side (length filled) (hollow_at side filled))\<^sup>*"
    if "(i, j) \<in> (linked side (length filled) (free_at filled))\<^sup>*" for j
    using that
  proof (induction rule: rtrancl_induct)
    case (step j k)
    have k: "k \<in> gap_of side filled i" unfolding component_def using step(1,2) by (auto intro: rtrancl_into_rtrancl)
    have "enclosed side filled k" using enclosed_step [OF assms k] .
    then have "hollow_at side filled k" using enclosed_hollow [OF assms(1)] by (auto simp: enclosed_def)
    then show ?case using step(2,3) by (auto simp: linked_def intro: rtrancl_into_rtrancl)
  qed simp
  then show "gap_of side filled i \<subseteq> component side (length filled) (hollow_at side filled) i" by (auto simp: component_def)
qed

lemma gap_disjoint:
  assumes "0 < side" and "enclosed side filled r" and "r \<notin> G" and "\<forall>i\<in>G. enclosed side filled i \<and> gap_of side filled i \<subseteq> G"
  shows "gap_of side filled r \<inter> G = {}"
proof -
  have "r \<in> G" if "j \<in> gap_of side filled r" "j \<in> G" for j
  proof -
    have "gap_of side filled j = gap_of side filled r"
      using component_eq [OF assms(1) _ _ that(1)] assms(2) by (simp add: enclosed_def)
    then have "r \<in> gap_of side filled j" by (simp add: component_self)
    then show ?thesis using assms(4) that(2) by blast
  qed
  then show ?thesis using assms(3) by blast
qed

lemma grow_hole_gap:
  assumes s: "0 < side" and r: "enclosed side filled r" "r \<notin> marked g" and l: "length g = length filled"
    and c: "\<forall>i\<in>marked g. enclosed side filled i \<and> gap_of side filled i \<subseteq> marked g"
  shows "case grow_hole side (hollow_at side filled) (g[r := True]) [r] 0 of (g', h) \<Rightarrow>
    length g' = length filled \<and> marked g' = marked g \<union> gap_of side filled r \<and> set h = gap_of side filled r \<and> distinct h"
proof -
  let ?R = "linked side (length filled) (hollow_at side filled)" and ?g = "g[r := True]"
  have rl: "r < length g" using r(1) l by (simp add: enclosed_def)
  have m: "marked ?g = insert r (marked g)" using rl by (auto simp: marked_def nth_list_update)
  have gap: "?R\<^sup>* `` {i} = gap_of side filled i" if "enclosed side filled i" for i
    using gap_hollow [OF s that] by (simp add: component_def)
  have R: "?R `` {i} \<subseteq> marked g" if "i \<in> marked g" for i
    using c gap [of i] that by blast
  obtain g' h where gh: "grow_hole side (hollow_at side filled) ?g [r] 0 = (g', h)" by fastforce
  have "case grow_hole side (hollow_at side filled) ?g [r] 0 of (g', h) \<Rightarrow> length g' = length ?g \<and>
      marked g' = (linked side (length ?g) (hollow_at side filled))\<^sup>* `` marked ?g \<and> set h = set [r] \<union> (marked g' - marked ?g) \<and> distinct h"
  proof (rule grow_hole_spec)
    show "settled_but (linked side (length ?g) (hollow_at side filled)) (marked ?g) (set (drop 0 [r]))"
      using R m l by (auto simp: settled_but_def)
  qed (simp_all add: m)
  then have h: "length g' = length filled" "marked g' = ?R\<^sup>* `` insert r (marked g)"
    "set h = insert r (marked g' - insert r (marked g))" "distinct h" using gh m l by simp_all
  have "?R\<^sup>* `` marked g = marked g" by (rule search_done) (use R in \<open>auto simp: settled_but_def\<close>)
  moreover have "?R\<^sup>* `` insert r (marked g) = ?R\<^sup>* `` {r} \<union> ?R\<^sup>* `` marked g" by blast
  ultimately have m': "marked g' = gap_of side filled r \<union> marked g" using h(2) gap [OF r(1)] by simp
  moreover have "gap_of side filled r \<inter> marked g = {}" using gap_disjoint [OF s r(1,2) c] .
  ultimately show ?thesis using gh h component_self [of r side "length filled"] by auto
qed

lemma holes_spec:
  assumes "0 < side" and "k \<le> length filled"
  shows "case fold (hole_step side filled (outside_cells side filled) area) [0..<k] (replicate (length filled) False, []) of (g, patch) \<Rightarrow>
    length g = length filled \<and> (\<forall>i\<in>marked g. enclosed side filled i \<and> gap_of side filled i \<subseteq> marked g) \<and>
    (\<forall>i<k. enclosed side filled i \<longrightarrow> i \<in> marked g) \<and>
    set patch = {i \<in> marked g. small_hole area (card (gap_of side filled i))}"
  using assms(2)
proof (induction k)
  case 0
  then show ?case by (auto simp: marked_def)
next
  case (Suc k)
  obtain g patch where x: "fold (hole_step side filled (outside_cells side filled) area) [0..<k] (replicate (length filled) False, []) = (g, patch)"
    by fastforce
  then have ih: "length g = length filled" "\<forall>i\<in>marked g. enclosed side filled i \<and> gap_of side filled i \<subseteq> marked g"
    "\<forall>i<k. enclosed side filled i \<longrightarrow> i \<in> marked g" "set patch = {i \<in> marked g. small_hole area (card (gap_of side filled i))}"
    using Suc by auto
  have k: "k < length filled" using Suc.prems by simp
  then have e: "hollow_at side filled k \<longleftrightarrow> enclosed side filled k" by (rule enclosed_hollow [OF assms(1)])
  show ?case
  proof (cases "enclosed side filled k \<and> k \<notin> marked g")
    case False
    then have "hole_step side filled (outside_cells side filled) area k (g, patch) = (g, patch)"
      using e k ih(1) by (auto simp: hole_step_def marked_def)
    then show ?thesis using x ih False by (auto simp: less_Suc_eq)
  next
    case True
    obtain g' h where gh: "grow_hole side (hollow_at side filled) (g[k := True]) [k] 0 = (g', h)" by fastforce
    have h: "length g' = length filled" "marked g' = marked g \<union> gap_of side filled k" "set h = gap_of side filled k" "distinct h"
      using grow_hole_gap [OF assms(1) conjunct1 [OF True] conjunct2 [OF True] ih(1,2)] gh by auto
    have "hole_step side filled (outside_cells side filled) area k (g, patch) =
        (g', if small_hole area (length h) then patch @ h else patch)"
      using True e k ih(1) gh by (auto simp: hole_step_def marked_def)
    then have step: "fold (hole_step side filled (outside_cells side filled) area) [0..<Suc k] (replicate (length filled) False, []) =
        (g', if small_hole area (length h) then patch @ h else patch)" using x by simp
    have c: "length h = card (gap_of side filled k)" using h(3,4) distinct_card by metis
    have gap: "gap_of side filled i = gap_of side filled k" if "i \<in> gap_of side filled k" for i
      using component_eq [OF assms(1) _ _ that] True by (simp add: enclosed_def)
    have en: "enclosed side filled i" if "i \<in> gap_of side filled k" for i
      using enclosed_step [OF assms(1) _ that] True by simp
    have "\<forall>i\<in>marked g'. enclosed side filled i \<and> gap_of side filled i \<subseteq> marked g'"
      unfolding h(2) using ih(2) gap en by blast
    moreover have "\<forall>i<Suc k. enclosed side filled i \<longrightarrow> i \<in> marked g'"
      unfolding h(2) using ih(3) component_self [of k] by (auto simp: less_Suc_eq)
    moreover have "set (if small_hole area (length h) then patch @ h else patch) =
        {i \<in> marked g'. small_hole area (card (gap_of side filled i))}"
      unfolding h(2) using ih(4) h(3) c gap by auto
    ultimately show ?thesis using step h(1) by simp
  qed
qed

text \<open>The patch is the small gaps that the road encloses.\<close>

lemma patch_spec:
  assumes "0 < side"
  shows "set (patch_cells side filled (outside_cells side filled)) =
    {i. enclosed side filled i \<and> small_hole (length (filter (\<lambda>f. f \<noteq> 0) filled)) (card (gap_of side filled i))}"
  using holes_spec [OF assms order_refl, of filled "length (filter (\<lambda>f. f \<noteq> 0) filled)"]
  by (auto simp: patch_cells_def enclosed_def Let_def split: prod.splits)

section \<open>The diffusion\<close>

definition ones :: "nat list \<Rightarrow> nat set" where
  "ones f = {k. k < length f \<and> f ! k = 1}"

lemma rim_alt: "rim side f i = map nat (filter (\<lambda>k. 0 \<le> k \<and> nat k \<in> ones f) (around side i))"
  unfolding rim_def ones_def by (rule arg_cong [where f = "map nat"], rule filter_cong) auto

lemma rim_ones: "ones f = ones f' \<Longrightarrow> rim side f i = rim side f' i"
  by (simp add: rim_alt)

lemma set_rim: "set (rim side f i) = {k. int k \<in> set (around side i) \<and> k \<in> ones f}"
proof -
  have "k \<in> set (rim side f i) \<longleftrightarrow> int k \<in> set (around side i) \<and> k \<in> ones f" for k
  proof
    assume "int k \<in> set (around side i) \<and> k \<in> ones f"
    then show "k \<in> set (rim side f i)" unfolding rim_alt set_map set_filter by (intro image_eqI [of _ _ "int k"]) auto
  qed (auto simp: rim_alt)
  then show ?thesis by blast
qed

lemma ones_update: "i \<notin> ones f \<Longrightarrow> ones (f[i := 2]) = ones f"
  by (cases "i < length f") (auto simp: ones_def nth_list_update)

definition pass_inv :: "nat list \<Rightarrow> 'p fill \<Rightarrow> bool" where
  "pass_inv filled s = (length (fl_filled s) = length filled \<and> ones (fl_filled s) = ones filled \<and> length (fl_xz s) = length filled)"

lemma settle_filled: "fl_filled (settle_cell side mean i s) = (if rim side (fl_filled s) i = [] then fl_filled s else (fl_filled s)[i := 2])"
  by (simp add: settle_cell_def)

lemma settle_xz: "fl_xz (settle_cell side mean i s) = (if rim side (fl_filled s) i = [] then fl_xz s
    else (fl_xz s)[i := mean (map (\<lambda>k. fl_xz s ! k) (rim side (fl_filled s) i))])"
  by (simp add: settle_cell_def)

lemma pass_inv_step: "pass_inv filled s \<Longrightarrow> i < length filled \<Longrightarrow> i \<notin> ones filled \<Longrightarrow> pass_inv filled (settle_cell side mean i s)"
  by (auto simp: pass_inv_def settle_filled settle_xz ones_update)

lemma pass_rim: "pass_inv filled s \<Longrightarrow> rim side (fl_filled s) i = rim side filled i"
  by (rule rim_ones) (simp add: pass_inv_def)

lemma settle_cells:
  assumes "pass_inv filled s" and "\<forall>i\<in>set is. i < length filled \<and> i \<notin> ones filled"
    and "s' = fold (settle_cell side mean) is s"
  shows "pass_inv filled s' \<and> fl_next s' = fl_next s @ filter (\<lambda>i. rim side filled i = []) is \<and>
    fl_settled s' = fl_settled s + length (filter (\<lambda>i. rim side filled i \<noteq> []) is) \<and>
    (\<forall>k. fl_filled s' ! k = (if k \<in> set is \<and> rim side filled k \<noteq> [] then 2 else fl_filled s ! k)) \<and>
    (\<forall>k. k \<notin> set is \<longrightarrow> fl_xz s' ! k = fl_xz s ! k)"
  using assms
proof (induction "is" arbitrary: s)
  case (Cons i "is")
  have i: "i < length filled" "i \<notin> ones filled" using Cons.prems by auto
  have inv: "pass_inv filled (settle_cell side mean i s)" using pass_inv_step [OF _ i] Cons.prems by blast
  have ins: "\<forall>i\<in>set is. i < length filled \<and> i \<notin> ones filled" using Cons.prems by auto
  have l: "i < length (fl_filled s)" using Cons.prems(1) i by (simp add: pass_inv_def)
  have s': "s' = fold (settle_cell side mean) is (settle_cell side mean i s)" using Cons.prems by simp
  note r = pass_rim [OF Cons.prems(1)] and ih = Cons.IH [OF inv ins s']
  show ?case
  proof (intro conjI allI impI)
    show "fl_filled s' ! k = (if k \<in> set (i # is) \<and> rim side filled k \<noteq> [] then 2 else fl_filled s ! k)" for k
      using ih r [of side i] l by (auto simp: settle_cell_def nth_list_update)
    show "fl_xz s' ! k = fl_xz s ! k" if "k \<notin> set (i # is)" for k
      using ih that by (auto simp: settle_cell_def)
  qed (use ih r [of side i] in \<open>auto simp: settle_cell_def\<close>)
qed simp

text \<open>A property that holds on the rim and that averages keep holds of every settled position.\<close>

lemma settled_positions:
  assumes "pass_inv filled s" and "\<forall>i\<in>set is. i < length filled \<and> i \<notin> ones filled"
    and "\<And>ps. ps \<noteq> [] \<Longrightarrow> list_all P ps \<Longrightarrow> P (mean ps)" and "\<forall>k\<in>ones filled. P (fl_xz s ! k)"
    and "s' = fold (settle_cell side mean) is s" and "k < length filled"
  shows "P (fl_xz s ! k) \<or> k \<in> set is \<and> rim side filled k \<noteq> [] \<longrightarrow> P (fl_xz s' ! k)"
  using assms(1,2,4,5)
proof (induction "is" arbitrary: s)
  case (Cons i "is")
  let ?t = "settle_cell side mean i s"
  have i: "i < length filled" "i \<notin> ones filled" using Cons.prems by auto
  note r = pass_rim [OF Cons.prems(1), of side i]
  have m: "P (mean (map (\<lambda>k. fl_xz s ! k) (rim side filled i)))" if "rim side filled i \<noteq> []"
    by (rule assms(3)) (use that Cons.prems(3) set_rim [of side filled i] in \<open>auto simp: list_all_iff\<close>)
  have l: "length (fl_xz s) = length filled" using Cons.prems(1) by (simp add: pass_inv_def)
  have t: "P (fl_xz s ! j) \<or> j = i \<and> rim side filled i \<noteq> [] \<longrightarrow> P (fl_xz ?t ! j)" if "j < length filled" for j
    using m r l that i(1) by (auto simp: settle_cell_def nth_list_update)
  have o: "\<forall>k\<in>ones filled. P (fl_xz ?t ! k)" using t Cons.prems(3) by (auto simp: ones_def)
  have s': "s' = fold (settle_cell side mean) is ?t" using Cons.prems(4) by simp
  have "pass_inv filled ?t" using pass_inv_step [OF Cons.prems(1) i] .
  from Cons.IH [OF this _ o s'] Cons.prems(2) t [OF assms(6)] show ?case by auto
qed simp

lemma finish_nth:
  "\<forall>i\<in>set is. i < length f \<Longrightarrow>
    length (finish_pass is f) = length f \<and> finish_pass is f ! k = (if k \<in> set is \<and> f ! k = 2 then 1 else f ! k)"
proof (induction "is" arbitrary: f)
  case (Cons i "is")
  have "finish_pass (i # is) f = finish_pass is (if f ! i = 2 then f[i := 1] else f)" by (simp add: finish_pass_def)
  with Cons.IH [of "if f ! i = 2 then f[i := 1] else f"] Cons.prems show ?case by (auto simp: nth_list_update)
qed (simp add: finish_pass_def)

text \<open>What one pass does to the cells.\<close>

lemma pass_spec:
  fixes xz :: "'p list"
  assumes "\<forall>i\<in>set pending. i < length filled \<and> i \<notin> ones filled" and "length xz = length filled"
    and "s = settle_pass side mean pending filled xz" and "f = finish_pass pending (fl_filled s)"
  shows "length f = length filled" and "length (fl_xz s) = length filled"
    and "ones f = ones filled \<union> {i \<in> set pending. rim side filled i \<noteq> []} \<union> {i \<in> set pending. filled ! i = 2}"
    and "fl_next s = filter (\<lambda>i. rim side filled i = []) pending"
    and "fl_settled s = length (filter (\<lambda>i. rim side filled i \<noteq> []) pending)"
    and "f ! k = (if k \<in> set pending \<and> (rim side filled k \<noteq> [] \<or> filled ! k = 2) then 1 else filled ! k)"
    and "k \<notin> set pending \<Longrightarrow> fl_xz s ! k = xz ! k"
    and "(\<And>ps. ps \<noteq> [] \<Longrightarrow> list_all P ps \<Longrightarrow> P (mean ps)) \<Longrightarrow> \<forall>k\<in>ones filled. P (xz ! k) \<Longrightarrow>
      k \<in> ones filled \<or> k \<in> set pending \<and> rim side filled k \<noteq> [] \<Longrightarrow> P (fl_xz s ! k)"
proof -
  let ?s0 = "\<lparr>fl_filled = filled, fl_xz = xz, fl_next = [], fl_settled = 0\<rparr>"
  have inv: "pass_inv filled ?s0" using assms(2) by (simp add: pass_inv_def)
  have s: "s = fold (settle_cell side mean) pending ?s0" using assms(3) by (simp add: settle_pass_def)
  note c = settle_cells [OF inv assms(1) s]
  have len: "length (fl_filled s) = length filled" using c by (simp add: pass_inv_def)
  have fin: "length f = length (fl_filled s) \<and> f ! k = (if k \<in> set pending \<and> fl_filled s ! k = 2 then 1 else fl_filled s ! k)" for k
    unfolding assms(4) by (rule finish_nth) (use assms(1) len in auto)
  show l: "length f = length filled" using fin len by simp
  show "length (fl_xz s) = length filled" using c by (simp add: pass_inv_def)
  show "fl_next s = filter (\<lambda>i. rim side filled i = []) pending" "fl_settled s = length (filter (\<lambda>i. rim side filled i \<noteq> []) pending)"
    using c by simp_all
  have f: "f ! k = (if k \<in> set pending \<and> (rim side filled k \<noteq> [] \<or> filled ! k = 2) then 1 else filled ! k)" for k
    using c fin [of k] by auto
  show "f ! k = (if k \<in> set pending \<and> (rim side filled k \<noteq> [] \<or> filled ! k = 2) then 1 else filled ! k)" by (rule f)
  show "k \<notin> set pending \<Longrightarrow> fl_xz s ! k = xz ! k" using c by simp
  show "ones f = ones filled \<union> {i \<in> set pending. rim side filled i \<noteq> []} \<union> {i \<in> set pending. filled ! i = 2}"
    using f l assms(1) by (auto simp: ones_def)
  show "P (fl_xz s ! k)" if "\<And>ps. ps \<noteq> [] \<Longrightarrow> list_all P ps \<Longrightarrow> P (mean ps)" "\<forall>k\<in>ones filled. P (xz ! k)"
    "k \<in> ones filled \<or> k \<in> set pending \<and> rim side filled k \<noteq> []"
  proof -
    have "k < length filled" using that(3) assms(1) by (auto simp: ones_def)
    with settled_positions [where P = P and k = k, OF inv assms(1) that(1) _ s] that(2,3) show ?thesis by auto
  qed
qed

text \<open>The diffusion closes everything, if no part of what is pending is cut off from the rest of the road.\<close>

definition never_stuck :: "nat \<Rightarrow> nat set \<Rightarrow> nat set \<Rightarrow> bool" where
  "never_stuck side F D = (\<forall>Q\<subseteq>D. Q \<noteq> {} \<longrightarrow> (\<exists>i\<in>Q. \<exists>k. int k \<in> set (around side i) \<and> k \<in> F \<union> (D - Q)))"

lemma never_stuck_step:
  assumes "never_stuck side F D" and "D = D1 \<union> D2"
  shows "never_stuck side (F \<union> D1) D2"
  unfolding never_stuck_def
proof (intro allI impI)
  fix Q assume Q: "Q \<subseteq> D2" "Q \<noteq> {}"
  then have "Q \<subseteq> D" using assms(2) by blast
  then obtain i k where "i \<in> Q" "int k \<in> set (around side i)" "k \<in> F \<union> (D - Q)"
    using assms(1) Q(2) unfolding never_stuck_def by blast
  moreover have "k \<in> F \<union> D1 \<union> (D2 - Q)" using calculation(3) assms(2) by blast
  ultimately show "\<exists>i\<in>Q. \<exists>k. int k \<in> set (around side i) \<and> k \<in> F \<union> D1 \<union> (D2 - Q)" by blast
qed

lemma diffuse_spec:
  fixes xz :: "'p list"
  assumes "\<And>ps. ps \<noteq> [] \<Longrightarrow> list_all P ps \<Longrightarrow> P (mean ps)"
    and "\<forall>i\<in>set pending. i < length filled \<and> filled ! i = 0" and "length xz = length filled"
    and "never_stuck side (ones filled) (set pending)" and "\<forall>k\<in>ones filled. P (xz ! k)"
  shows "case diffuse side mean pending filled xz of (f', xz') \<Rightarrow>
    length f' = length filled \<and> ones f' = ones filled \<union> set pending \<and>
    (\<forall>k. k \<notin> set pending \<longrightarrow> f' ! k = filled ! k \<and> xz' ! k = xz ! k) \<and> (\<forall>k\<in>ones f'. P (xz' ! k))"
  using assms
proof (induction side mean pending filled xz rule: diffuse.induct)
  case (1 side mean pending filled xz)
  show ?case
  proof (cases "pending = []")
    case True
    then show ?thesis using 1(6) by (simp add: diffuse.simps [of side mean "[]"])
  next
    case False
    define s where "s = settle_pass side mean pending filled xz"
    define f where "f = finish_pass pending (fl_filled s)"
    have p: "\<forall>i\<in>set pending. i < length filled \<and> i \<notin> ones filled" using 1(3) by (auto simp: ones_def)
    note c = pass_spec [OF p 1(4) s_def f_def]
    let ?D = "{i \<in> set pending. rim side filled i \<noteq> []}"
    have o: "ones f = ones filled \<union> ?D" using c(3) 1(3) by auto
    have nx: "set (fl_next s) = set pending - ?D" using c(4) by auto
    obtain i k where "i \<in> set pending" "int k \<in> set (around side i)" "k \<in> ones filled"
      using 1(5) False unfolding never_stuck_def by (metis Diff_cancel Un_empty_right order_refl set_empty)
    then have "i \<in> ?D" using set_rim [of side filled i] by force
    then have pos: "fl_settled s \<noteq> 0" unfolding c(5) by (auto simp: filter_empty_conv)
    have "case diffuse side mean (fl_next s) f (fl_xz s) of (f', xz') \<Rightarrow>
      length f' = length f \<and> ones f' = ones f \<union> set (fl_next s) \<and>
      (\<forall>k. k \<notin> set (fl_next s) \<longrightarrow> f' ! k = f ! k \<and> xz' ! k = fl_xz s ! k) \<and> (\<forall>k\<in>ones f'. P (xz' ! k))"
    proof (rule 1(1) [OF False s_def f_def pos 1(2)])
      show "\<forall>i\<in>set (fl_next s). i < length f \<and> f ! i = 0" using c(1,4,6) 1(3) by auto
      show "never_stuck side (ones f) (set (fl_next s))" unfolding o by (rule never_stuck_step [OF 1(5)]) (use nx in auto)
      show "\<forall>k\<in>ones f. P (fl_xz s ! k)" using c(8) [OF 1(2) 1(6)] o by auto
    qed (use c(1,2) in auto)
    moreover have "diffuse side mean pending filled xz = diffuse side mean (fl_next s) f (fl_xz s)"
      using False pos unfolding s_def f_def by (simp add: diffuse.simps [of side mean pending] Let_def)
    ultimately show ?thesis using o nx c(1,6,7) by (auto split: prod.splits)
  qed
qed

section \<open>The road is one slab\<close>

text \<open>A gap in the road that is to be closed: no part of it is at the edge of the lattice, and it is at most six
  hundredths of the measured road.\<close>

definition closed_gap :: "nat \<Rightarrow> nat list \<Rightarrow> (nat \<Rightarrow> bool) \<Rightarrow> nat \<Rightarrow> bool" where
  "closed_gap side labels usable i =
     (let n = length labels; C = component side n (\<lambda>j. \<not> is_road labels usable j) i in
      \<not> is_road labels usable i \<and> (\<forall>e\<in>C. \<not> lattice_edge side n e) \<and>
      100 * card C \<le> 6 * card {j. j < n \<and> is_road labels usable j})"

lemma linked_cong: "(\<And>j. j < n \<Longrightarrow> ok j = ok' j) \<Longrightarrow> linked side n ok = linked side n ok'"
  by (auto simp: linked_def)

definition measured :: "nat list \<Rightarrow> (nat \<Rightarrow> bool) \<Rightarrow> nat list" where
  "measured labels usable = map (\<lambda>i. if is_road labels usable i then 1 else 0) [0..<length labels]"

lemma measured_simps [simp]:
  "length (measured labels usable) = length labels"
  "i < length labels \<Longrightarrow> measured labels usable ! i = (if is_road labels usable i then 1 else 0)"
  by (simp_all add: measured_def)

lemma measured_area: "length (filter (\<lambda>f. f \<noteq> 0) (measured labels usable)) = card {j. j < length labels \<and> is_road labels usable j}"
proof -
  have "filter ((\<lambda>f. f \<noteq> 0) \<circ> (\<lambda>i. if is_road labels usable i then 1 else 0 :: nat)) [0..<length labels] =
      filter (is_road labels usable) [0..<length labels]" by (rule filter_cong) auto
  moreover have "length (filter (is_road labels usable) [0..<length labels]) = card {j. j < length labels \<and> is_road labels usable j}"
    by (simp add: length_filter_conv_card) (rule arg_cong [where f = card], auto)
  ultimately show ?thesis by (simp add: measured_def filter_map)
qed

lemma closed_gap_alt:
  assumes "i < length labels"
  shows "closed_gap side labels usable i \<longleftrightarrow> enclosed side (measured labels usable) i \<and>
    small_hole (length (filter (\<lambda>f. f \<noteq> 0) (measured labels usable))) (card (gap_of side (measured labels usable) i))"
proof -
  have "linked side (length labels) (free_at (measured labels usable)) = linked side (length labels) (\<lambda>j. \<not> is_road labels usable j)"
    by (rule linked_cong) simp
  then show ?thesis using assms
    unfolding measured_area by (simp add: closed_gap_def enclosed_def small_hole_def component_def Let_def)
qed

lemma patch_never_stuck:
  assumes "0 < side" and "D = {i. enclosed side filled i \<and> small_hole area (card (gap_of side filled i))}"
    and "F = {k. k < length filled \<and> filled ! k \<noteq> 0}"
  shows "never_stuck side F D"
  unfolding never_stuck_def
proof (intro allI impI)
  fix Q assume Q: "Q \<subseteq> D" "Q \<noteq> {}"
  define i where "i = (LEAST i. i \<in> Q)"
  have i: "i \<in> Q" and least: "\<And>j. j < i \<Longrightarrow> j \<notin> Q" unfolding i_def using Q(2) by (auto intro: LeastI dest: not_less_Least)
  have e: "enclosed side filled i" and sm: "small_hole area (card (gap_of side filled i))" using i Q(1) assms(2) by auto
  have "\<not> lattice_edge side (length filled) i" using e component_self unfolding enclosed_def by blast
  then have c: "i mod side > 0" by (simp add: lattice_edge_def)
  then have "i > 0" by (cases i) auto
  then obtain k where k: "i = Suc k" by (cases i) auto
  have l: "k < length filled" using e k by (simp add: enclosed_def)
  have a: "int k \<in> set (around side i)" using c k by (simp add: around_def)
  have "k \<in> F \<union> (D - Q)"
  proof (cases "filled ! k = 0")
    case True
    then have g: "k \<in> gap_of side filled i" using a l unfolding component_def by (auto simp: linked_def)
    have "gap_of side filled k = gap_of side filled i" using component_eq [OF assms(1) _ _ g] e by (simp add: enclosed_def)
    then show ?thesis using enclosed_step [OF assms(1) e g] sm assms(2) least k by auto
  qed (use l assms(3) in simp)
  then show "\<exists>i\<in>Q. \<exists>k. int k \<in> set (around side i) \<and> k \<in> F \<union> (D - Q)" using i a by blast
qed

lemma solid_road_measured:
  "solid_road side mean origin ground labels usable =
     diffuse side mean (patch_cells side (measured labels usable) (outside_cells side (measured labels usable))) (measured labels usable)
       (map (\<lambda>i. if is_road labels usable i then ground i else origin) [0..<length labels])"
  by (simp add: solid_road_def measured_def Let_def)

text \<open>The cells of the slab, by the two sets they come from.\<close>

lemma solid_road_cells:
  assumes "0 < side" and "solid_road side mean origin ground labels usable = (filled, xz)"
    and "\<And>ps. ps \<noteq> [] \<Longrightarrow> list_all P ps \<Longrightarrow> P (mean ps)"
    and "\<And>i. i < length labels \<Longrightarrow> is_road labels usable i \<Longrightarrow> P (ground i)"
  shows "length filled = length labels"
    and "ones filled = {i. i < length labels \<and> (is_road labels usable i \<or> closed_gap side labels usable i)}"
    and "i < length labels \<Longrightarrow> \<not> closed_gap side labels usable i \<Longrightarrow>
      filled ! i = (if is_road labels usable i then 1 else 0) \<and> xz ! i = (if is_road labels usable i then ground i else origin)"
    and "\<forall>k\<in>ones filled. P (xz ! k)"
proof -
  let ?f = "measured labels usable" and ?xz = "map (\<lambda>i. if is_road labels usable i then ground i else origin) [0..<length labels]"
  let ?patch = "patch_cells side ?f (outside_cells side ?f)"
  have o: "ones ?f = {k. k < length ?f \<and> ?f ! k \<noteq> 0}" by (auto simp: ones_def split: if_splits)
  note patch = patch_spec [OF assms(1), of ?f]
  have "case diffuse side mean ?patch ?f ?xz of (f', xz') \<Rightarrow> length f' = length ?f \<and> ones f' = ones ?f \<union> set ?patch \<and>
      (\<forall>k. k \<notin> set ?patch \<longrightarrow> f' ! k = ?f ! k \<and> xz' ! k = ?xz ! k) \<and> (\<forall>k\<in>ones f'. P (xz' ! k))"
  proof (rule diffuse_spec)
    show "\<forall>i\<in>set ?patch. i < length ?f \<and> ?f ! i = 0" unfolding patch by (auto simp: enclosed_def)
    show "never_stuck side (ones ?f) (set ?patch)" by (rule patch_never_stuck [OF assms(1) patch o])
    show "\<forall>k\<in>ones ?f. P (?xz ! k)" using assms(4) by (auto simp: ones_def split: if_splits)
  qed (use assms(3) in simp_all)
  then have d: "length filled = length labels" "ones filled = ones ?f \<union> set ?patch"
    "\<And>k. k \<notin> set ?patch \<Longrightarrow> filled ! k = ?f ! k \<and> xz ! k = ?xz ! k" "\<forall>k\<in>ones filled. P (xz ! k)"
    using assms(2) by (auto simp: solid_road_measured)
  have p: "set ?patch = {i. i < length labels \<and> closed_gap side labels usable i}"
    using patch closed_gap_alt by (auto simp: enclosed_def)
  have r: "ones ?f = {i. i < length labels \<and> is_road labels usable i}" by (auto simp: ones_def split: if_splits)
  show "length filled = length labels" "\<forall>k\<in>ones filled. P (xz ! k)" by (fact d(1), fact d(4))
  show "ones filled = {i. i < length labels \<and> (is_road labels usable i \<or> closed_gap side labels usable i)}"
    using d(2) p r by auto
  show "filled ! i = (if is_road labels usable i then 1 else 0) \<and> xz ! i = (if is_road labels usable i then ground i else origin)"
    if "i < length labels" "\<not> closed_gap side labels usable i"
    using d(3) [of i] p that by simp
qed

text \<open>C33. The road comes out as one slab: a cell is road exactly if it was measured as road or lies in a gap
  that the road encloses and that is no larger than six hundredths of it; measured positions stay, and whatever
  holds of the measured positions and is kept by averages holds of every position of the slab.\<close>

theorem solid_road_closes:
  assumes "0 < side" and "solid_road side mean origin ground labels usable = (filled, xz)"
    and "\<And>ps. ps \<noteq> [] \<Longrightarrow> list_all P ps \<Longrightarrow> P (mean ps)"
    and "\<And>i. i < length labels \<Longrightarrow> is_road labels usable i \<Longrightarrow> P (ground i)" and "i < length labels"
  shows "(filled ! i = 1 \<longleftrightarrow> is_road labels usable i \<or> closed_gap side labels usable i) \<and> filled ! i \<le> 1 \<and>
    (if is_road labels usable i then xz ! i = ground i else True) \<and> (if filled ! i = 1 then P (xz ! i) else True)"
proof -
  have cells: "length filled = length labels"
    "ones filled = {i. i < length labels \<and> (is_road labels usable i \<or> closed_gap side labels usable i)}"
    "\<not> closed_gap side labels usable i \<Longrightarrow>
      filled ! i = (if is_road labels usable i then 1 else 0) \<and> xz ! i = (if is_road labels usable i then ground i else origin)"
    using solid_road_cells(1-3) [OF assms(1,2), of "\<lambda>p. True"] assms(5) by simp_all
  have keeps: "\<forall>k\<in>ones filled. P (xz ! k)" by (rule solid_road_cells(4) [OF assms(1,2)]) (use assms(3,4) in auto)
  have one: "filled ! i = 1 \<longleftrightarrow> is_road labels usable i \<or> closed_gap side labels usable i"
    using cells(1,2) assms(5) by (auto simp: ones_def set_eq_iff)
  moreover have "P (xz ! i)" if "filled ! i = 1" using cells(1) keeps that assms(5) by (simp add: ones_def)
  moreover have "closed_gap side labels usable i \<Longrightarrow> \<not> is_road labels usable i" by (simp add: closed_gap_def Let_def)
  ultimately show ?thesis using cells(3) by (cases "closed_gap side labels usable i") auto
qed

section \<open>Runs of paint and quads\<close>

text \<open>What a flood from one new cell adds to a union of components is the component of the cell.\<close>

lemma flood_component:
  assumes s: "0 < side" and r: "r < length m" "ok r" "r \<notin> marked m"
    and c: "\<forall>i\<in>marked m. i < length m \<and> ok i \<and> component side (length m) ok i \<subseteq> marked m"
  shows "case flood side ok (m[r := True]) [r] [] of (m', cs) \<Rightarrow>
    length m' = length m \<and> marked m' = marked m \<union> component side (length m) ok r \<and> set cs = component side (length m) ok r \<and> distinct cs"
proof -
  let ?R = "linked side (length m) ok" and ?m = "m[r := True]"
  have mk: "marked ?m = insert r (marked m)" using r by (auto simp: marked_def nth_list_update)
  have R: "?R `` {i} \<subseteq> marked m" if "i \<in> marked m" for i using c that unfolding component_def by blast
  obtain m' cs where f: "flood side ok ?m [r] [] = (m', cs)" by fastforce
  have "case flood side ok ?m [r] [] of (m', cs) \<Rightarrow> length m' = length ?m \<and>
      marked m' = (linked side (length ?m) ok)\<^sup>* `` marked ?m \<and> set cs = set [] \<union> set [r] \<union> (marked m' - marked ?m) \<and> distinct cs"
    by (rule flood_spec) (use R mk in \<open>auto simp: settled_but_def\<close>)
  then have h: "length m' = length m" "marked m' = ?R\<^sup>* `` insert r (marked m)" "set cs = insert r (marked m' - insert r (marked m))" "distinct cs"
    using f mk by simp_all
  have "?R\<^sup>* `` marked m = marked m" by (rule search_done) (use R in \<open>auto simp: settled_but_def\<close>)
  moreover have "?R\<^sup>* `` insert r (marked m) = ?R\<^sup>* `` {r} \<union> ?R\<^sup>* `` marked m" by blast
  ultimately have m': "marked m' = component side (length m) ok r \<union> marked m" using h(2) by (simp add: component_def)
  have "component side (length m) ok r \<inter> marked m = {}"
  proof -
    have "r \<in> marked m" if "j \<in> component side (length m) ok r" "j \<in> marked m" for j
      using component_eq [OF s r(1,2) that(1)] component_self [of r side "length m" ok] c that(2) by blast
    then show ?thesis using r(3) by blast
  qed
  then show ?thesis using f h m' component_self [of r side "length m" ok] by auto
qed

text \<open>Every run of paint with enough cells is found, once, and whole.\<close>

lemma marking_runs_spec:
  assumes "0 < side" and "k \<le> length labels"
  shows "case fold (run_step side labels usable) [0..<k] (replicate (length labels) False, []) of (m, runs) \<Rightarrow>
    length m = length labels \<and>
    (\<forall>i\<in>marked m. i < length m \<and> is_paint labels usable i \<and> component side (length m) (is_paint labels usable) i \<subseteq> marked m) \<and>
    (\<forall>i<k. is_paint labels usable i \<longrightarrow> i \<in> marked m) \<and> list_all distinct runs \<and>
    set (map set runs) = {C. \<exists>i\<in>marked m. C = component side (length m) (is_paint labels usable) i \<and> 6 \<le> card C}"
  using assms(2)
proof (induction k)
  case 0
  then show ?case by (auto simp: marked_def)
next
  case (Suc k)
  let ?ok = "is_paint labels usable"
  obtain m runs where x: "fold (run_step side labels usable) [0..<k] (replicate (length labels) False, []) = (m, runs)" by fastforce
  note ih0 = Suc.IH [OF Suc_leD [OF Suc.prems], unfolded x prod.case]
  from ih0 have ih: "length m = length labels" "\<forall>i\<in>marked m. i < length m \<and> ?ok i \<and> component side (length m) ?ok i \<subseteq> marked m"
    "\<forall>i<k. ?ok i \<longrightarrow> i \<in> marked m" "list_all distinct runs"
    "set (map set runs) = {C. \<exists>i\<in>marked m. C = component side (length m) ?ok i \<and> 6 \<le> card C}"
    by blast+
  have k: "k < length m" using Suc.prems ih(1) by simp
  show ?case
  proof (cases "?ok k \<and> k \<notin> marked m")
    case False
    then have "run_step side labels usable k (m, runs) = (m, runs)" using k by (auto simp: run_step_def marked_def)
    then show ?thesis using x ih False by (auto simp: less_Suc_eq)
  next
    case True
    let ?C = "component side (length m) ?ok k"
    obtain m' cs where f: "flood side ?ok (m[k := True]) [k] [] = (m', cs)" by fastforce
    have h: "length m' = length m" "marked m' = marked m \<union> ?C" "set cs = ?C" "distinct cs"
      using flood_component [OF assms(1) k conjunct1 [OF True] conjunct2 [OF True] ih(2)] f by auto
    have "run_step side labels usable k (m, runs) = (m', if length cs < 6 then runs else runs @ [cs])"
      using True k f by (auto simp: run_step_def marked_def min_marking_cells_def)
    then have step: "fold (run_step side labels usable) [0..<Suc k] (replicate (length labels) False, []) =
        (m', if length cs < 6 then runs else runs @ [cs])" using x by simp
    have c: "length cs = card ?C" using h(3,4) distinct_card by metis
    have comp: "component side (length m) ?ok i = ?C" if "i \<in> ?C" for i
      using component_eq [OF assms(1) k _ that] True by simp
    have inside: "i < length m \<and> ?ok i" if "i \<in> ?C" for i using component_in [OF that k] True by simp
    have "\<forall>i\<in>marked m'. i < length m' \<and> ?ok i \<and> component side (length m') ?ok i \<subseteq> marked m'"
      unfolding h(1,2) using ih(2) comp inside by blast
    moreover have "\<forall>i<Suc k. ?ok i \<longrightarrow> i \<in> marked m'" unfolding h(2) using ih(3) component_self [of k] by (auto simp: less_Suc_eq)
    moreover have "set (map set (if length cs < 6 then runs else runs @ [cs])) =
        {C. \<exists>i\<in>marked m'. C = component side (length m') ?ok i \<and> 6 \<le> card C}"
    proof -
      have "{C. \<exists>i\<in>marked m \<union> ?C. C = component side (length m) ?ok i \<and> 6 \<le> card C} =
          {C. \<exists>i\<in>marked m. C = component side (length m) ?ok i \<and> 6 \<le> card C} \<union> {C. C = ?C \<and> 6 \<le> card C}"
        using comp component_self [of k side "length m" ?ok] by blast
      then show ?thesis unfolding h(1,2) using ih(5) h(3) c by auto
    qed
    ultimately show ?thesis using step h(1,4) ih(1,4) by simp
  qed
qed

text \<open>A quad takes cells of its class only, inside the lattice and from two neighbouring columns.\<close>

lemma class_quads_in:
  "k \<in> set (class_quads side n belongs at' far) \<Longrightarrow> k < n \<and> belongs k"
  by (auto simp: class_quads_def cell_quad_def Let_def split: if_splits)

lemma class_quads_length: "length (class_quads side n belongs at' far) \<le> 6 * ((side - 1) * (side - 1))"
proof -
  have q: "length (cell_quad side n belongs at' far row col) \<le> 6" for row col by (simp add: cell_quad_def Let_def)
  have "length (concat (map f xs)) \<le> b * length xs" if "\<And>x. length (f x) \<le> b" for f :: "nat \<Rightarrow> nat list" and b xs
    using that by (induction xs) (auto intro: add_mono)
  then have r: "length (concat (map (\<lambda>col. cell_quad side n belongs at' far row col) [0..<side - 1])) \<le> 6 * (side - 1)" for row
    using q by (metis (no_types, lifting) diff_zero length_upt)
  have "length (concat (map f xs)) \<le> b * length xs" if "\<And>x. length (f x) \<le> b" for f :: "nat \<Rightarrow> nat list" and b xs
    using that by (induction xs) (auto intro: add_mono)
  from this [of "\<lambda>row. concat (map (\<lambda>col. cell_quad side n belongs at' far row col) [0..<side - 1])", OF r, of "[0..<side - 1]"]
  show ?thesis by (simp add: class_quads_def mult.assoc)
qed

text \<open>A closed gap that was measured as another class is drawn twice, as road and as that class; the buffer of the mesh
  has room for each cell of the lattice once.\<close>

lemma patched_drawn_twice:
  assumes "0 < side" and "solid_road side mean origin ground labels usable = (filled, xz)" and "i < length labels"
    and "closed_gap side labels usable i" and "labels ! i = terrain_class" and "usable i"
  shows "filled ! i = 1 \<and> labels ! i = terrain_class \<and> usable i"
  using solid_road_cells(1,2) [OF assms(1,2), of "\<lambda>p. True"] assms(3-6) by (auto simp: ones_def)

section \<open>An instance\<close>

definition block_labels :: "nat list" where
  "block_labels = (replicate 25 road_class)[12 := moving_class]"

definition average :: "rat list \<Rightarrow> rat" where
  "average ps = sum_list ps / of_nat (length ps)"

lemma average_between:
  assumes "ps \<noteq> []" and "list_all (\<lambda>x. a \<le> x \<and> x \<le> b) ps"
  shows "a \<le> average ps \<and> average ps \<le> b"
proof -
  have "of_nat (length ps) * a \<le> sum_list ps \<and> sum_list ps \<le> of_nat (length ps) * b" using assms(2)
    by (induction ps) (auto simp: algebra_simps)
  then show ?thesis using assms(1) by (simp add: average_def divide_simps mult.commute)
qed

lemma block_road: "j < 25 \<Longrightarrow> is_road block_labels (\<lambda>i. True) j \<longleftrightarrow> j \<noteq> 12"
  by (simp add: is_road_def block_labels_def road_class_def moving_class_def nth_list_update)

lemma block_gap: "closed_gap 5 block_labels (\<lambda>i. True) 12"
proof -
  have l: "length block_labels = 25" by (simp add: block_labels_def)
  have "linked 5 25 (\<lambda>j. \<not> is_road block_labels (\<lambda>i. True) j) `` {12} \<subseteq> {12}"
    using block_road by (auto simp: linked_def)
  then have c: "component 5 25 (\<lambda>j. \<not> is_road block_labels (\<lambda>i. True) j) 12 = {12}"
    unfolding component_def by (rule Image_closed_trancl)
  have "{j. j < 25 \<and> is_road block_labels (\<lambda>i. True) j} = {..<25} - {12}" using block_road by auto
  then have "card {j. j < 25 \<and> is_road block_labels (\<lambda>i. True) j} = 24" by simp
  then show ?thesis by (simp add: closed_gap_def l c block_road lattice_edge_def)
qed

theorem solid_road_closes_witness:
  "\<exists>filled xz. solid_road 5 average 99 rat_of_nat block_labels (\<lambda>i. True) = (filled, xz) \<and> filled ! 12 = 1 \<and> 0 \<le> xz ! 12 \<and> xz ! 12 \<le> 24"
proof -
  obtain filled xz where s: "solid_road 5 average 99 rat_of_nat block_labels (\<lambda>i. True) = (filled, xz)" by fastforce
  have five: "0 < (5 :: nat)" by simp
  have g: "0 \<le> rat_of_nat i \<and> rat_of_nat i \<le> 24" if "i < length block_labels" "is_road block_labels (\<lambda>i. True) i" for i
    using that by (simp add: block_labels_def)
  have l: "12 < length block_labels" by (simp add: block_labels_def)
  from solid_road_closes [where P = "\<lambda>x. 0 \<le> x \<and> x \<le> 24", OF five s average_between g l] block_gap s show ?thesis by auto
qed

end
