(* ===== verification/Wire.thy ===== *)
theory Wire
  imports Complex_Main "HOL-Library.Word" "HOL-Library.Log_Nat"
begin

text \<open>
  Bytes and numbers of the viewer's binary messages: little-endian integers, views of a buffer that throw outside of
  its range, single precision numbers by their bits, and the rounding of a quotient that is stored in a
  \<open>Float32Array\<close>.  The machine is little-endian, as every platform of the viewer is.
\<close>

unbundle bit_operations_syntax

section \<open>Little-endian integers\<close>

type_synonym byte = "8 word"
type_synonym f32 = "32 word"

fun le_nat :: "byte list \<Rightarrow> nat" where
  "le_nat [] = 0"
| "le_nat (b # bs) = unat b + 256 * le_nat bs"

fun le_bytes :: "nat \<Rightarrow> nat \<Rightarrow> byte list" where
  "le_bytes 0 v = []"
| "le_bytes (Suc k) v = of_nat (v mod 256) # le_bytes k (v div 256)"

lemma length_le_bytes [simp]: "length (le_bytes k v) = k"
  by (induction k arbitrary: v) simp_all

lemma unat_byte: "unat (of_nat (v mod 256) :: byte) = v mod 256"
  by (simp add: unat_of_nat)

lemma le_nat_bytes: "v < 256 ^ k \<Longrightarrow> le_nat (le_bytes k v) = v"
proof (induction k arbitrary: v)
  case (Suc k)
  then have "v div 256 < 256 ^ k" by (simp add: less_mult_imp_div_less mult.commute)
  with Suc.IH show ?case by (simp add: unat_byte)
qed simp

lemma le_bytes_simps:
  "v < 2 ^ 32 \<Longrightarrow> le_nat (le_bytes 4 v) = v" "v < 2 ^ 16 \<Longrightarrow> le_nat (le_bytes 2 v) = v"
  by (simp_all add: le_nat_bytes)

lemma unat_small_byte: "v < 256 \<Longrightarrow> unat (of_nat v :: byte) = v"
  by (simp add: unat_of_nat)

text \<open>\<open>struct.pack\<close> of an unsigned integer of \<open>k\<close> bytes.\<close>

definition pack_uint :: "nat \<Rightarrow> int \<Rightarrow> string + byte list" where
  "pack_uint k v = (if 0 \<le> v \<and> v < 256 ^ k then Inr (le_bytes k (nat v)) else Inl ''struct.error'')"

definition pack_f32 :: "f32 \<Rightarrow> byte list" where
  "pack_f32 x = le_bytes 4 (unat x)"

section \<open>Views\<close>

text \<open>\<open>new DataView(buffer, off, n)\<close> and \<open>new Uint8Array(buffer, off, n)\<close>; an \<open>Int16Array\<close> also has to start at an even
  offset.\<close>

definition view :: "nat \<Rightarrow> nat \<Rightarrow> byte list \<Rightarrow> string + byte list" where
  "view off n buf = (if off + n \<le> length buf then Inr (take n (drop off buf)) else Inl ''RangeError'')"

fun int16s :: "byte list \<Rightarrow> int list" where
  "int16s (a # b # bs) = sint (of_nat (le_nat [a, b]) :: 16 word) # int16s bs"
| "int16s bs = []"

definition int16_array :: "nat \<Rightarrow> nat \<Rightarrow> byte list \<Rightarrow> string + int list" where
  "int16_array off n buf = (if odd off then Inl ''RangeError'' else map_sum id int16s (view off (2 * n) buf))"

text \<open>The getters, at offsets inside of their view.\<close>

definition get_uint :: "nat \<Rightarrow> nat \<Rightarrow> byte list \<Rightarrow> nat" where
  "get_uint k off v = le_nat (take k (drop off v))"

definition get_f32 :: "nat \<Rightarrow> byte list \<Rightarrow> f32" where
  "get_f32 off v = of_nat (get_uint 4 off v)"

text \<open>Negation of a single precision number: its sign bit.\<close>

definition neg32 :: "f32 \<Rightarrow> f32" where
  "neg32 x = x XOR 0x80000000"

lemma neg32_involutive: "neg32 (neg32 x) = x"
  by (simp add: neg32_def xor.assoc)

fun collect :: "('a \<Rightarrow> string + 'b) \<Rightarrow> 'a list \<Rightarrow> string + 'b list" where
  "collect f [] = Inr []"
| "collect f (x # xs) =
     (case f x of
        Inl err \<Rightarrow> Inl err
      | Inr y \<Rightarrow> (case collect f xs of Inl err \<Rightarrow> Inl err | Inr ys \<Rightarrow> Inr (y # ys)))"

lemma collect_Inr: "(\<And>x. x \<in> set xs \<Longrightarrow> f x = Inr (g x)) \<Longrightarrow> collect f xs = Inr (map g xs)"
  by (induction xs) simp_all

lemma length_int16s: "even (length bs) \<Longrightarrow> length (int16s bs) = length bs div 2"
  by (induction bs rule: int16s.induct) auto

lemma int16s_bytes: "int16s (concat (map (\<lambda>w. le_bytes 2 (unat (w :: 16 word))) ws)) = map sint ws"
proof (induction ws)
  case (Cons w ws)
  have w: "unat w < 2 ^ 16" by (rule order_less_le_trans [OF unsigned_less]) simp
  let ?a = "of_nat (unat w mod 256) :: byte" and ?b = "of_nat (unat w div 256 mod 256) :: byte"
  have ab: "le_bytes 2 (unat w) = [?a, ?b]" by (simp add: numeral_2_eq_2)
  then have "le_nat [?a, ?b] = unat w" using le_bytes_simps(2) [OF w] by (simp only:)
  then have "sint (of_nat (le_nat [?a, ?b]) :: 16 word) = sint w" by simp
  then show ?case using Cons ab by (simp only: map_append list.map concat.simps append.simps int16s.simps)
qed simp

lemma get_f32_pack: "of_nat (le_nat (pack_f32 x)) = x"
proof -
  have "unat x < 2 ^ 32" by (rule order_less_le_trans [OF unsigned_less]) simp
  then show ?thesis by (simp add: pack_f32_def le_bytes_simps)
qed

lemma length_pack_f32 [simp]: "length (pack_f32 x) = 4"
  by (simp add: pack_f32_def)

section \<open>Rounding\<close>

text \<open>Round half to even to \<open>p\<close> significant bits, in the range of the normal numbers.\<close>

definition round_even :: "rat \<Rightarrow> int" where
  "round_even x =
     (let f = \<lfloor>x\<rfloor>; d = x - of_int f
      in if d < 1 / 2 then f else if 1 / 2 < d then f + 1 else if even f then f else f + 1)"

definition binade :: "rat \<Rightarrow> int" where
  "binade x =
     (case quotient_of \<bar>x\<bar> of
        (a, b) \<Rightarrow>
          (let k = int (floorlog 2 (nat a)) - int (floorlog 2 (nat b)) in if 2 powi k \<le> \<bar>x\<bar> then k else k - 1))"

definition round_bits :: "nat \<Rightarrow> rat \<Rightarrow> rat" where
  "round_bits p x = (if x = 0 then 0 else (let u = 2 powi (binade x + 1 - int p) in of_int (round_even (x / u)) * u))"

text \<open>A double that is stored as a single.\<close>

definition single :: "rat \<Rightarrow> rat" where
  "single x = round_bits 24 (round_bits 53 x)"

lemma round_even_error: "\<bar>of_int (round_even x) - x\<bar> \<le> 1 / 2"
  unfolding round_even_def Let_def using floor_correct [of x] by (auto simp: abs_le_iff)

lemma binade_le:
  assumes "x \<noteq> 0"
  shows "2 powi binade x \<le> \<bar>x\<bar>"
proof -
  obtain a b where q: "quotient_of \<bar>x\<bar> = (a, b)" by fastforce
  have b: "0 < b" using quotient_of_denom_pos [OF q] .
  have x: "\<bar>x\<bar> = of_int a / of_int b" using quotient_of_div [OF q] .
  then have "0 < of_int a / (of_int b :: rat)" using assms by simp
  then have a: "0 < a" using b by (simp add: zero_less_divide_iff)
  define la lb where "la = floorlog 2 (nat a)" and "lb = floorlog 2 (nat b)"
  have la: "2 ^ (la - 1) \<le> nat a" "0 < la" using floorlog_bounds [of "nat a" 2] a by (auto simp: la_def floorlog_def)
  have lb: "nat b < 2 ^ lb" using floorlog_bounds [of "nat b" 2] b by (simp add: lb_def)
  have "2 powi (int la - int lb - 1) = 2 ^ (la - 1) / (2 ^ lb :: rat)"
    using la(2) by (simp add: power_int_diff of_nat_diff flip: power_int_of_nat)
  also have "\<dots> \<le> of_int a / of_int b"
  proof (rule frac_le)
    have "(2 :: int) ^ (la - 1) \<le> a" using la(1) a by (metis nat_2 nat_le_eq_zle nat_power_eq numeral_2_eq_2 zero_le_numeral less_imp_le)
    then show "(2 :: rat) ^ (la - 1) \<le> of_int a" by (metis of_int_le_iff of_int_numeral of_int_power)
    have "b < (2 :: int) ^ lb" using lb b by (metis nat_less_iff of_nat_numeral of_nat_power less_imp_le)
    then show "of_int b \<le> (2 :: rat) ^ lb" by (metis less_imp_le of_int_le_iff of_int_numeral of_int_power)
  qed (use a b in auto)
  finally show ?thesis unfolding x [symmetric] binade_def q prod.case Let_def la_def lb_def by simp
qed

lemma round_bits_error: "\<bar>round_bits p x - x\<bar> \<le> \<bar>x\<bar> / 2 ^ p"
proof (cases "x = 0")
  case False
  define u :: rat where "u = 2 powi (binade x + 1 - int p)"
  have u: "0 < u" by (simp add: u_def)
  have "u / 2 = 2 powi binade x / 2 ^ p" by (simp add: u_def power_int_add power_int_diff)
  then have b: "u / 2 \<le> \<bar>x\<bar> / 2 ^ p" using binade_le [OF False] by (simp add: divide_right_mono)
  have "round_bits p x = of_int (round_even (x / u)) * u" using False by (simp only: round_bits_def u_def Let_def if_False)
  then have "round_bits p x - x = (of_int (round_even (x / u)) - x / u) * u" using u by (simp add: algebra_simps)
  then have "\<bar>round_bits p x - x\<bar> = \<bar>of_int (round_even (x / u)) - x / u\<bar> * u" using u by (simp add: abs_mult)
  also have "\<dots> \<le> 1 / 2 * u" using round_even_error [of "x / u"] u by (intro mult_right_mono) auto
  finally show ?thesis using b by linarith
qed (simp add: round_bits_def)

lemma single_error: "\<bar>single x - x\<bar> \<le> \<bar>x\<bar> / 2 ^ 23"
proof -
  let ?y = "round_bits 53 x"
  have y: "\<bar>?y - x\<bar> \<le> \<bar>x\<bar> / 2 ^ 53" by (rule round_bits_error)
  have z: "\<bar>single x - ?y\<bar> \<le> \<bar>?y\<bar> / 2 ^ 24" unfolding single_def by (rule round_bits_error)
  have "\<bar>?y\<bar> \<le> \<bar>x\<bar> + \<bar>x\<bar> / 2 ^ 53" using y by linarith
  then have "\<bar>single x - ?y\<bar> \<le> (\<bar>x\<bar> + \<bar>x\<bar> / 2 ^ 53) / 2 ^ 24" using z by (meson divide_right_mono order_trans zero_le_numeral zero_le_power)
  then have "\<bar>single x - x\<bar> \<le> (\<bar>x\<bar> + \<bar>x\<bar> / 2 ^ 53) / 2 ^ 24 + \<bar>x\<bar> / 2 ^ 53" using y by linarith
  also have "\<dots> \<le> \<bar>x\<bar> / 2 ^ 23" by (simp add: field_simps)
  finally show ?thesis .
qed

end
