(* ===== verification/Cloud_Wire.thy ===== *)
theory Cloud_Wire
  imports Wire
begin

text \<open>
  The binary messages of the viewer's point cloud: the frames that see/webapp/backend/d4rt_backend/live.py packs and
  cloud/useLiveCloudStream.ts decodes, and the static world of d4rt_backend/api.py and cloud/staticWorld.ts.

  A float of the wire is its 32 bits; the packers are given the floats as \<open>struct\<close> rounds them.
\<close>

section \<open>Decoding a frame\<close>

record live_blob =
  lb_id :: nat
  lb_kind :: nat
  lb_coasting :: bool
  lb_age :: nat
  lb_x :: f32
  lb_z :: f32
  lb_vx :: f32
  lb_vz :: f32
  lb_hx :: f32
  lb_hz :: f32
  lb_length :: f32
  lb_width :: f32
  lb_height :: f32

record live_frame =
  lf_index :: nat
  lf_gpu_ms :: f32
  lf_radius :: f32
  lf_points :: nat
  lf_camera :: "f32 \<times> f32 \<times> f32"
  lf_scale :: f32
  lf_positions :: "rat list"
  lf_colors :: "rat list"
  lf_labels :: "nat list"
  lf_at :: f32
  lf_blobs :: "live_blob list"

definition header_bytes :: nat where "header_bytes = 40"
definition blob_bytes :: nat where "blob_bytes = 44"
definition quant_scale :: rat where "quant_scale = 32000"

definition read_blob :: "byte list \<Rightarrow> live_blob" where
  "read_blob v =
     \<lparr>lb_id = get_uint 4 0 v, lb_kind = get_uint 1 4 v, lb_coasting = ((of_nat (get_uint 1 5 v) :: byte) AND 2 \<noteq> 0),
      lb_age = get_uint 2 6 v, lb_x = get_f32 8 v, lb_z = neg32 (get_f32 12 v), lb_vx = get_f32 16 v, lb_vz = neg32 (get_f32 20 v),
      lb_hx = get_f32 24 v, lb_hz = neg32 (get_f32 28 v), lb_length = get_f32 32 v, lb_width = get_f32 36 v, lb_height = get_f32 40 v\<rparr>"

text \<open>The loop over the points, with the flip of y and z.\<close>

definition flip_positions :: "nat \<Rightarrow> int list \<Rightarrow> rat list" where
  "flip_positions n q =
     concat (map (\<lambda>i. [single (of_int (q ! (3 * i)) / quant_scale), single (of_int (- (q ! (3 * i + 1))) / quant_scale),
                       single (of_int (- (q ! (3 * i + 2))) / quant_scale)]) [0..<n])"

definition body_bytes :: "nat \<Rightarrow> nat" where
  "body_bytes n = header_bytes + n * 3 * 2 + n * 3 + n"

definition decode_frame :: "byte list \<Rightarrow> string + live_frame option" where
  "decode_frame buf =
     (if length buf < header_bytes then Inr None
      else
        (case view 0 header_bytes buf of
           Inl err \<Rightarrow> Inl err
         | Inr h \<Rightarrow>
             (let n = get_uint 4 12 h; b = get_uint 4 36 h; body = body_bytes n in
              if length buf \<noteq> body + b * blob_bytes then Inr None
              else
                (case (int16_array header_bytes (n * 3) buf, view (header_bytes + n * 6) (n * 3) buf,
                       view (header_bytes + n * 9) n buf, collect (\<lambda>i. view (body + i * blob_bytes) blob_bytes buf) [0..<b]) of
                   (Inr quantised, Inr rgb, Inr labels, Inr blobs) \<Rightarrow>
                     Inr (Some \<lparr>lf_index = get_uint 4 0 h, lf_gpu_ms = get_f32 4 h, lf_radius = get_f32 8 h, lf_points = n,
                                lf_camera = (get_f32 16 h, neg32 (get_f32 20 h), neg32 (get_f32 24 h)), lf_scale = get_f32 28 h,
                                lf_positions = flip_positions n quantised,
                                lf_colors = map (\<lambda>c. single (of_nat (unat c) / 255)) rgb, lf_labels = map unat labels,
                                lf_at = get_f32 32 h, lf_blobs = map read_blob blobs\<rparr>)
                 | _ \<Rightarrow> Inl ''RangeError''))))"

section \<open>Packing a frame\<close>

record tracked =
  tk_id :: int
  tk_kind :: int
  tk_coasting :: bool
  tk_age :: int
  tk_centre :: "f32 \<times> f32"
  tk_velocity :: "f32 \<times> f32"
  tk_heading :: "f32 \<times> f32"
  tk_length :: f32
  tk_width :: f32
  tk_height :: f32

record cloud =
  cd_gpu_ms :: f32
  cd_radius :: f32
  cd_camera :: "f32 \<times> f32 \<times> f32"
  cd_scale :: f32
  cd_xyz :: "(16 word \<times> 16 word \<times> 16 word) list"
  cd_rgb :: "(byte \<times> byte \<times> byte) list"
  cd_labels :: "byte list"

definition xyz_list :: "('a \<times> 'a \<times> 'a) list \<Rightarrow> 'a list" where
  "xyz_list ps = concat (map (\<lambda>(x, y, z). [x, y, z]) ps)"

definition pack_blob :: "tracked \<Rightarrow> string + byte list" where
  "pack_blob t =
     (case (pack_uint 4 (tk_id t), pack_uint 1 (tk_kind t), pack_uint 1 (if tk_coasting t then 2 else 0), pack_uint 2 (min (tk_age t) 65535)) of
        (Inr i, Inr k, Inr f, Inr a) \<Rightarrow>
          Inr (i @ k @ f @ a @ concat (map pack_f32 [fst (tk_centre t), snd (tk_centre t), fst (tk_velocity t), snd (tk_velocity t),
            fst (tk_heading t), snd (tk_heading t), tk_length t, tk_width t, tk_height t]))
      | _ \<Rightarrow> Inl ''struct.error'')"

definition pack_header :: "int \<Rightarrow> cloud \<Rightarrow> f32 \<Rightarrow> nat \<Rightarrow> string + byte list" where
  "pack_header index c at' nblobs =
     (case (pack_uint 4 index, pack_uint 4 (int (length (cd_xyz c))), pack_uint 4 (int nblobs)) of
        (Inr i, Inr n, Inr b) \<Rightarrow>
          Inr (i @ pack_f32 (cd_gpu_ms c) @ pack_f32 (cd_radius c) @ n @ pack_f32 (fst (cd_camera c)) @ pack_f32 (fst (snd (cd_camera c))) @
            pack_f32 (snd (snd (cd_camera c))) @ pack_f32 (cd_scale c) @ pack_f32 at' @ b)
      | _ \<Rightarrow> Inl ''struct.error'')"

definition int16_bytes :: "16 word list \<Rightarrow> byte list" where
  "int16_bytes ws = concat (map (\<lambda>w. le_bytes 2 (unat w)) ws)"

definition pack_frame :: "int \<Rightarrow> cloud \<Rightarrow> f32 \<Rightarrow> tracked list \<Rightarrow> string + byte list" where
  "pack_frame index c at' blobs =
     (case (pack_header index c at' (length blobs), collect pack_blob blobs) of
        (Inr h, Inr bs) \<Rightarrow> Inr (h @ int16_bytes (xyz_list (cd_xyz c)) @ xyz_list (cd_rgb c) @ cd_labels c @ concat bs)
      | _ \<Rightarrow> Inl ''struct.error'')"

section \<open>What a viewer is meant to see\<close>

definition shown_blob :: "tracked \<Rightarrow> live_blob" where
  "shown_blob t =
     \<lparr>lb_id = nat (tk_id t), lb_kind = nat (tk_kind t), lb_coasting = tk_coasting t, lb_age = nat (min (tk_age t) 65535),
      lb_x = fst (tk_centre t), lb_z = neg32 (snd (tk_centre t)), lb_vx = fst (tk_velocity t), lb_vz = neg32 (snd (tk_velocity t)),
      lb_hx = fst (tk_heading t), lb_hz = neg32 (snd (tk_heading t)), lb_length = tk_length t, lb_width = tk_width t, lb_height = tk_height t\<rparr>"

definition shown_point :: "16 word \<times> 16 word \<times> 16 word \<Rightarrow> rat list" where
  "shown_point p =
     (case p of (x, y, z) \<Rightarrow>
        [single (of_int (sint x) / quant_scale), single (of_int (- sint y) / quant_scale), single (of_int (- sint z) / quant_scale)])"

definition shown_frame :: "int \<Rightarrow> cloud \<Rightarrow> f32 \<Rightarrow> tracked list \<Rightarrow> live_frame" where
  "shown_frame index c at' blobs =
     \<lparr>lf_index = nat index, lf_gpu_ms = cd_gpu_ms c, lf_radius = cd_radius c, lf_points = length (cd_xyz c),
      lf_camera = (case cd_camera c of (x, y, z) \<Rightarrow> (x, neg32 y, neg32 z)), lf_scale = cd_scale c,
      lf_positions = concat (map shown_point (cd_xyz c)), lf_colors = map (\<lambda>c. single (of_nat (unat c) / 255)) (xyz_list (cd_rgb c)),
      lf_labels = map unat (cd_labels c), lf_at = at', lf_blobs = map shown_blob blobs\<rparr>"

section \<open>Lengths\<close>

lemma length_xyz_list [simp]: "length (xyz_list ps) = 3 * length ps"
  by (induction ps) (auto simp: xyz_list_def)

lemma length_int16_bytes [simp]: "length (int16_bytes ws) = 2 * length ws"
  by (induction ws) (simp_all add: int16_bytes_def)

lemma pack_uint_Inr: "pack_uint k v = Inr bs \<longleftrightarrow> 0 \<le> v \<and> v < 256 ^ k \<and> bs = le_bytes k (nat v)"
  by (auto simp: pack_uint_def)

lemma le_nat_pack: "pack_uint k v = Inr bs \<Longrightarrow> length bs = k \<and> le_nat bs = nat v"
  by (auto simp: pack_uint_Inr le_nat_bytes nat_less_iff)

text \<open>The parts of a concatenation of known lengths.\<close>

lemma take_part: "length xs = k \<Longrightarrow> take k (xs @ ys) = xs"
  and drop_part: "length xs = m \<Longrightarrow> m \<le> k \<Longrightarrow> drop k (xs @ ys) = drop (k - m) ys"
  by simp_all

lemma pack_blob_read:
  assumes "pack_blob t = Inr v"
  shows "length v = blob_bytes \<and> read_blob v = shown_blob t"
proof -
  obtain i k f a where p: "pack_uint 4 (tk_id t) = Inr i" "pack_uint 1 (tk_kind t) = Inr k"
    "pack_uint 1 (if tk_coasting t then 2 else 0) = Inr f" "pack_uint 2 (min (tk_age t) 65535) = Inr a"
    and v: "v = i @ k @ f @ a @ concat (map pack_f32 [fst (tk_centre t), snd (tk_centre t), fst (tk_velocity t), snd (tk_velocity t),
            fst (tk_heading t), snd (tk_heading t), tk_length t, tk_width t, tk_height t])"
    using assms by (auto simp: pack_blob_def split: sum.splits)
  note l = p [THEN le_nat_pack]
  have c: "((of_nat (nat (if tk_coasting t then 2 else 0)) :: byte) AND 2 \<noteq> 0) = tk_coasting t" by simp
  show ?thesis using l c unfolding v
    by (simp add: blob_bytes_def read_blob_def shown_blob_def get_uint_def get_f32_def get_f32_pack)
qed

section \<open>Decoding is total\<close>

definition frame_points :: "byte list \<Rightarrow> nat" where
  "frame_points buf = get_uint 4 12 (take header_bytes buf)"

definition frame_blobs :: "byte list \<Rightarrow> nat" where
  "frame_blobs buf = get_uint 4 36 (take header_bytes buf)"

lemma decode_fits:
  assumes "length buf = body_bytes (frame_points buf) + frame_blobs buf * blob_bytes"
  shows "decode_frame buf =
    (let h = take header_bytes buf; n = frame_points buf; b = frame_blobs buf in
     Inr (Some \<lparr>lf_index = get_uint 4 0 h, lf_gpu_ms = get_f32 4 h, lf_radius = get_f32 8 h, lf_points = n,
       lf_camera = (get_f32 16 h, neg32 (get_f32 20 h), neg32 (get_f32 24 h)), lf_scale = get_f32 28 h,
       lf_positions = flip_positions n (int16s (take (n * 6) (drop header_bytes buf))),
       lf_colors = map (\<lambda>c. single (of_nat (unat c) / 255)) (take (n * 3) (drop (header_bytes + n * 6) buf)),
       lf_labels = map unat (take n (drop (header_bytes + n * 9) buf)), lf_at = get_f32 32 h,
       lf_blobs = map (\<lambda>i. read_blob (take blob_bytes (drop (body_bytes n + i * blob_bytes) buf))) [0..<b]\<rparr>))"
proof -
  let ?n = "frame_points buf" and ?b = "frame_blobs buf"
  have h: "view 0 header_bytes buf = Inr (take header_bytes buf)" using assms by (simp add: view_def body_bytes_def)
  have l: "\<not> length buf < header_bytes" using assms by (simp add: body_bytes_def)
  have q: "int16_array header_bytes (?n * 3) buf = Inr (int16s (take (?n * 6) (drop header_bytes buf)))"
    using assms by (simp add: int16_array_def view_def body_bytes_def header_bytes_def mult.commute)
  have c: "view (header_bytes + ?n * 6) (?n * 3) buf = Inr (take (?n * 3) (drop (header_bytes + ?n * 6) buf))"
    and lb: "view (header_bytes + ?n * 9) ?n buf = Inr (take ?n (drop (header_bytes + ?n * 9) buf))"
    using assms by (simp_all add: view_def body_bytes_def)
  have "body_bytes ?n + i * blob_bytes + blob_bytes \<le> length buf" if "i < ?b" for i
  proof -
    have "Suc i * blob_bytes \<le> ?b * blob_bytes" using that by (intro mult_le_mono1) simp
    then show ?thesis using assms by simp
  qed
  then have bl: "collect (\<lambda>i. view (body_bytes ?n + i * blob_bytes) blob_bytes buf) [0..<?b] =
      Inr (map (\<lambda>i. take blob_bytes (drop (body_bytes ?n + i * blob_bytes) buf)) [0..<?b])"
    by (intro collect_Inr) (simp add: view_def)
  have fits: "(length buf \<noteq> body_bytes ?n + ?b * blob_bytes) = False" using assms by simp
  have n: "get_uint 4 12 (take header_bytes buf) = ?n" "get_uint 4 36 (take header_bytes buf) = ?b"
    by (simp_all only: frame_points_def frame_blobs_def)
  show ?thesis by (simp only: decode_frame_def l if_False h sum.case Let_def n fits q c lb bl prod.case list.map_comp comp_def)
qed

text \<open>Decoding never throws, whatever the server sends: a buffer is decoded if its length is what its
  header announces, and is otherwise refused as malformed.\<close>

theorem decode_total:
  "\<exists>f. decode_frame buf = Inr f \<and>
     (f \<noteq> None \<longleftrightarrow> header_bytes \<le> length buf \<and> length buf = body_bytes (frame_points buf) + frame_blobs buf * blob_bytes)"
proof (cases "header_bytes \<le> length buf \<and> length buf = body_bytes (frame_points buf) + frame_blobs buf * blob_bytes")
  case True
  then show ?thesis using decode_fits [of buf] by (simp add: Let_def)
next
  case False
  then have "decode_frame buf = Inr None"
    by (auto simp: decode_frame_def view_def frame_points_def frame_blobs_def Let_def)
  then show ?thesis using False by auto
qed

text \<open>A frame without points and boxes.\<close>

lemma empty_frame_decoded: "\<exists>f. decode_frame (replicate 40 0) = Inr (Some f) \<and> lf_points f = 0"
proof -
  have "frame_points (replicate 40 0) = 0" "frame_blobs (replicate 40 0) = 0"
    by (simp_all add: frame_points_def frame_blobs_def get_uint_def header_bytes_def numeral_eq_Suc)
  then show ?thesis using decode_fits [of "replicate 40 0"] by (simp add: body_bytes_def header_bytes_def Let_def)
qed

section \<open>The two ends agree\<close>

lemma flip_shown: "flip_positions (length ps) (map sint (xyz_list ps)) = concat (map shown_point ps)"
proof -
  have nth: "map sint (xyz_list ps) ! (3 * i) = sint (fst (ps ! i)) \<and> map sint (xyz_list ps) ! (3 * i + 1) = sint (fst (snd (ps ! i))) \<and>
      map sint (xyz_list ps) ! (3 * i + 2) = sint (snd (snd (ps ! i)))" if "i < length ps" for i
    using that
  proof (induction ps arbitrary: i)
    case (Cons p ps)
    obtain x y z where p: "p = (x, y, z)" by (cases p)
    show ?case
    proof (cases i)
      case (Suc j)
      have "3 * Suc j = Suc (Suc (Suc (3 * j)))" by simp
      then show ?thesis using Cons.IH [of j] Cons.prems Suc p by (simp add: xyz_list_def)
    qed (simp add: p xyz_list_def)
  qed simp
  have "flip_positions (length ps) (map sint (xyz_list ps)) = concat (map (\<lambda>i. shown_point (ps ! i)) [0..<length ps])"
    unfolding flip_positions_def
  proof (intro arg_cong [where f = concat] map_cong refl)
    fix i assume "i \<in> set [0..<length ps]"
    then have i: "i < length ps" by simp
    obtain x y z where "ps ! i = (x, y, z)" by (cases "ps ! i")
    with nth [OF i] show "[single (of_int (map sint (xyz_list ps) ! (3 * i)) / quant_scale),
        single (of_int (- (map sint (xyz_list ps) ! (3 * i + 1))) / quant_scale),
        single (of_int (- (map sint (xyz_list ps) ! (3 * i + 2))) / quant_scale)] = shown_point (ps ! i)"
      by (simp only: shown_point_def prod.case fst_conv snd_conv)
  qed
  also have "map (\<lambda>i. shown_point (ps ! i)) [0..<length ps] = map shown_point ps" by (rule nth_equalityI) simp_all
  finally show ?thesis .
qed

lemma collect_packed:
  "collect pack_blob blobs = Inr bs \<Longrightarrow> length bs = length blobs \<and>
     (\<forall>i<length blobs. length (bs ! i) = blob_bytes \<and> read_blob (bs ! i) = shown_blob (blobs ! i))"
proof (induction blobs arbitrary: bs)
  case (Cons t blobs)
  then obtain v vs where v: "pack_blob t = Inr v" "collect pack_blob blobs = Inr vs" "bs = v # vs" by (auto split: sum.splits)
  show ?case using Cons.IH [OF v(2)] pack_blob_read [OF v(1)] v(3) by (auto simp: nth_Cons split: nat.split)
qed simp

lemma part_of_concat:
  assumes "\<forall>b\<in>set bs. length b = k" and "i < length bs"
  shows "take k (drop (i * k) (concat bs)) = bs ! i" and "length (concat bs) = length bs * k"
  using assms
proof (induction bs arbitrary: i)
  case (Cons b bs)
  { case 1
    then show ?case using Cons.IH(1) by (cases i) auto
  next
    case 2
    then show ?case using Cons.IH(2) [of 0] by (cases bs) auto }
qed simp_all

lemma pack_header_read:
  assumes "pack_header index c at' nb = Inr h"
  shows "length h = header_bytes \<and> get_uint 4 0 h = nat index \<and> get_f32 4 h = cd_gpu_ms c \<and> get_f32 8 h = cd_radius c \<and>
    get_uint 4 12 h = length (cd_xyz c) \<and> get_f32 16 h = fst (cd_camera c) \<and> get_f32 20 h = fst (snd (cd_camera c)) \<and>
    get_f32 24 h = snd (snd (cd_camera c)) \<and> get_f32 28 h = cd_scale c \<and> get_f32 32 h = at' \<and> get_uint 4 36 h = nb"
proof -
  obtain i n b where p: "pack_uint 4 index = Inr i" "pack_uint 4 (int (length (cd_xyz c))) = Inr n" "pack_uint 4 (int nb) = Inr b"
    and h: "h = i @ pack_f32 (cd_gpu_ms c) @ pack_f32 (cd_radius c) @ n @ pack_f32 (fst (cd_camera c)) @ pack_f32 (fst (snd (cd_camera c))) @
            pack_f32 (snd (snd (cd_camera c))) @ pack_f32 (cd_scale c) @ pack_f32 at' @ b"
    using assms by (auto simp: pack_header_def split: sum.splits)
  note l = p [THEN le_nat_pack]
  show ?thesis using l unfolding h by (simp add: header_bytes_def get_uint_def get_f32_def get_f32_pack)
qed

text \<open>C34. The two ends of the live stream agree: every frame that the Python packer produces is decoded by the viewer
  into exactly the frame that was meant, every point, colour, label and box, with y and z flipped.\<close>

theorem frame_agrees:
  assumes "pack_frame index c at' blobs = Inr buf" and "length (cd_rgb c) = length (cd_xyz c)" and "length (cd_labels c) = length (cd_xyz c)"
  shows "decode_frame buf = Inr (Some (shown_frame index c at' blobs))"
proof -
  obtain h bs where p: "pack_header index c at' (length blobs) = Inr h" "collect pack_blob blobs = Inr bs"
    and buf: "buf = h @ int16_bytes (xyz_list (cd_xyz c)) @ xyz_list (cd_rgb c) @ cd_labels c @ concat bs"
    using assms(1) by (auto simp: pack_frame_def split: sum.splits)
  let ?n = "length (cd_xyz c)"
  note hd = pack_header_read [OF p(1)] and bl = collect_packed [OF p(2)]
  have hl: "take header_bytes buf = h" "length h = header_bytes" using hd by (simp_all add: buf)
  have b44: "\<forall>b\<in>set bs. length b = blob_bytes" using bl by (auto simp: in_set_conv_nth)
  have lb: "length (concat bs) = length blobs * blob_bytes"
  proof (cases "bs = []")
    case False
    then show ?thesis using part_of_concat(2) [OF b44, of 0] bl by (cases "blobs = []") simp_all
  qed (use bl in simp)
  have n: "frame_points buf = ?n" "frame_blobs buf = length blobs" using hd hl by (simp_all add: frame_points_def frame_blobs_def)
  have fits: "length buf = body_bytes (frame_points buf) + frame_blobs buf * blob_bytes"
    unfolding n using hl(2) lb assms(2,3) by (simp add: buf body_bytes_def)
  have q: "take (?n * 6) (drop header_bytes buf) = int16_bytes (xyz_list (cd_xyz c))" using hl(2) by (simp add: buf)
  have rgb: "take (?n * 3) (drop (header_bytes + ?n * 6) buf) = xyz_list (cd_rgb c)" using hl(2) assms(2) by (simp add: buf)
  have labels: "take ?n (drop (header_bytes + ?n * 9) buf) = cd_labels c" using hl(2) assms(2,3) by (simp add: buf)
  have rest: "drop (body_bytes ?n) buf = concat bs" using hl(2) assms(2,3) by (simp add: buf body_bytes_def)
  have blobs: "map (\<lambda>i. read_blob (take blob_bytes (drop (body_bytes ?n + i * blob_bytes) buf))) [0..<length blobs] = map shown_blob blobs"
  proof (rule nth_equalityI)
    fix i assume "i < length (map (\<lambda>i. read_blob (take blob_bytes (drop (body_bytes ?n + i * blob_bytes) buf))) [0..<length blobs])"
    then have i: "i < length blobs" by simp
    have "take blob_bytes (drop (body_bytes ?n + i * blob_bytes) buf) = bs ! i"
      using part_of_concat(1) [OF b44, of i] bl i rest by (metis add.commute drop_drop)
    then show "map (\<lambda>i. read_blob (take blob_bytes (drop (body_bytes ?n + i * blob_bytes) buf))) [0..<length blobs] ! i = map shown_blob blobs ! i"
      using i bl by simp
  qed simp
  have "int16s (int16_bytes (xyz_list (cd_xyz c))) = map sint (xyz_list (cd_xyz c))" by (simp only: int16_bytes_def int16s_bytes)
  with decode_fits [OF fits] show ?thesis
    unfolding n hl(1) q rgb labels blobs Let_def using hd flip_shown [of "cd_xyz c"]
    by (simp add: shown_frame_def split: prod.split)
qed

section \<open>Positions are exact up to their quantum\<close>


section \<open>The static world\<close>

record static_world =
  sw_side :: nat
  sw_points :: nat
  sw_radius :: f32
  sw_camera :: "f32 \<times> f32 \<times> f32"
  sw_positions :: "rat list"
  sw_labels :: "nat list"

definition world_header_bytes :: nat where "world_header_bytes = 24"

text \<open>\<open>buffer.slice\<close> is clamped to the buffer, where the views throw.\<close>

definition decode_world :: "byte list \<Rightarrow> string + static_world" where
  "decode_world buf =
     (case view 0 world_header_bytes buf of
        Inl err \<Rightarrow> Inl err
      | Inr h \<Rightarrow>
          (let n = get_uint 4 4 h in
           case int16_array world_header_bytes (n * 3) buf of
             Inl err \<Rightarrow> Inl err
           | Inr quantised \<Rightarrow>
               Inr \<lparr>sw_side = get_uint 4 0 h, sw_points = n, sw_radius = get_f32 8 h,
                    sw_camera = (get_f32 12 h, neg32 (get_f32 16 h), neg32 (get_f32 20 h)),
                    sw_positions = flip_positions n quantised,
                    sw_labels = map unat (take n (drop (world_header_bytes + n * 6) buf))\<rparr>))"

record built_world =
  bw_side :: int
  bw_radius :: f32
  bw_camera :: "f32 \<times> f32 \<times> f32"
  bw_xyz :: "(16 word \<times> 16 word \<times> 16 word) list"
  bw_labels :: "byte list"
  bw_spread :: "byte list"

definition pack_world :: "built_world \<Rightarrow> string + byte list" where
  "pack_world w =
     (case (pack_uint 4 (bw_side w), pack_uint 4 (int (length (bw_xyz w)))) of
        (Inr s, Inr n) \<Rightarrow>
          Inr (s @ n @ pack_f32 (bw_radius w) @ pack_f32 (fst (bw_camera w)) @ pack_f32 (fst (snd (bw_camera w))) @
            pack_f32 (snd (snd (bw_camera w))) @ int16_bytes (xyz_list (bw_xyz w)) @ bw_labels w @ bw_spread w)
      | _ \<Rightarrow> Inl ''struct.error'')"

definition shown_world :: "built_world \<Rightarrow> static_world" where
  "shown_world w =
     \<lparr>sw_side = nat (bw_side w), sw_points = length (bw_xyz w), sw_radius = bw_radius w,
      sw_camera = (case bw_camera w of (x, y, z) \<Rightarrow> (x, neg32 y, neg32 z)), sw_positions = concat (map shown_point (bw_xyz w)),
      sw_labels = map unat (bw_labels w)\<rparr>"

lemma world_agrees:
  assumes "pack_world w = Inr buf" and "length (bw_labels w) = length (bw_xyz w)"
  shows "decode_world buf = Inr (shown_world w)"
proof -
  obtain s n where p: "pack_uint 4 (bw_side w) = Inr s" "pack_uint 4 (int (length (bw_xyz w))) = Inr n"
    and b: "buf = (s @ n @ pack_f32 (bw_radius w) @ pack_f32 (fst (bw_camera w)) @ pack_f32 (fst (snd (bw_camera w))) @
            pack_f32 (snd (snd (bw_camera w)))) @ int16_bytes (xyz_list (bw_xyz w)) @ bw_labels w @ bw_spread w"
    using assms(1) by (auto simp: pack_world_def split: sum.splits)
  define h where "h = s @ n @ pack_f32 (bw_radius w) @ pack_f32 (fst (bw_camera w)) @ pack_f32 (fst (snd (bw_camera w))) @
    pack_f32 (snd (snd (bw_camera w)))"
  note l = p [THEN le_nat_pack]
  have hl: "length h = world_header_bytes" using l by (simp add: h_def world_header_bytes_def)
  have g: "get_uint 4 0 h = nat (bw_side w)" "get_uint 4 4 h = length (bw_xyz w)" "get_f32 8 h = bw_radius w"
    "get_f32 12 h = fst (bw_camera w)" "get_f32 16 h = fst (snd (bw_camera w))" "get_f32 20 h = snd (snd (bw_camera w))"
    using l by (simp_all add: h_def get_uint_def get_f32_def get_f32_pack)
  have buf: "buf = h @ int16_bytes (xyz_list (bw_xyz w)) @ bw_labels w @ bw_spread w" by (simp only: b h_def)
  have v: "view 0 world_header_bytes buf = Inr h" using hl by (simp add: view_def buf)
  have "view world_header_bytes (2 * (length (bw_xyz w) * 3)) buf = Inr (int16_bytes (xyz_list (bw_xyz w)))"
    using hl by (simp add: view_def buf)
  then have q: "int16_array world_header_bytes (length (bw_xyz w) * 3) buf = Inr (map sint (xyz_list (bw_xyz w)))"
    by (simp add: int16_array_def int16_bytes_def int16s_bytes world_header_bytes_def)
  have lb: "take (length (bw_xyz w)) (drop (world_header_bytes + length (bw_xyz w) * 6) buf) = bw_labels w"
    using hl assms(2) by (simp add: buf)
  show ?thesis unfolding decode_world_def v sum.case Let_def g q lb flip_shown by (simp add: shown_world_def split: prod.split)
qed

text \<open>A response that is cut off behind the positions is taken without complaint, with labels missing.\<close>

lemma world_labels_unchecked:
  "\<exists>w. decode_world (le_bytes 4 1 @ le_bytes 4 1 @ replicate 22 0) = Inr w \<and> sw_points w = 1 \<and> sw_labels w = []"
  by (simp add: decode_world_def view_def int16_array_def world_header_bytes_def get_uint_def le_bytes_simps Let_def)

section \<open>An instance\<close>

definition demo_cloud :: cloud where
  "demo_cloud =
     \<lparr>cd_gpu_ms = 0x41200000, cd_radius = 0x3F800000, cd_camera = (0, 0x3F800000, 0), cd_scale = 0x3F800000,
      cd_xyz = [(1, 2, 0xFFFF)], cd_rgb = [(255, 0, 7)], cd_labels = [2]\<rparr>"

definition demo_tracked :: tracked where
  "demo_tracked =
     \<lparr>tk_id = 3, tk_kind = 1, tk_coasting = True, tk_age = 70000, tk_centre = (0, 0x3F800000), tk_velocity = (0, 0), tk_heading = (0, 0),
      tk_length = 0x3F800000, tk_width = 0, tk_height = 0\<rparr>"

theorem frame_agrees_witness:
  "\<exists>buf. pack_frame 7 demo_cloud 0 [demo_tracked] = Inr buf \<and> decode_frame buf = Inr (Some (shown_frame 7 demo_cloud 0 [demo_tracked])) \<and>
     map lb_age (lf_blobs (shown_frame 7 demo_cloud 0 [demo_tracked])) = [65535]"
proof -
  obtain buf where b: "pack_frame 7 demo_cloud 0 [demo_tracked] = Inr buf"
    by (simp add: pack_frame_def pack_header_def pack_blob_def pack_uint_def demo_cloud_def demo_tracked_def)
  from frame_agrees [OF b] b show ?thesis
    by (simp add: demo_cloud_def shown_frame_def shown_blob_def demo_tracked_def)
qed

end
