(* ===== verification/Viewer.thy ===== *)
theory Viewer
  imports Json Cloud_Wire
begin

text \<open>
  The sockets of the viewer under see/webapp/frontend/src: composables/useWsJson.ts (one JSON socket with
  reconnection), useLiveStream.ts (boxes aligned to the painted frame), useSceneDescription.ts (the polled description)
  and the state of cloud/useLiveCloudStream.ts.

  A text message is given by what \<open>JSON.parse\<close> makes of it, \<open>None\<close> for a syntax error.  A socket is
  its number; an event carries the number of the socket it comes from, and reaches the code only while the
  handlers of that socket are set.
\<close>

section \<open>One JSON socket\<close>

record ws =
  ws_connected :: bool
  ws_latest :: "json option"
  ws_rate :: nat
  ws_socket :: "nat option"
  ws_timer :: "nat option"
  ws_backoff :: nat
  ws_closed_by_us :: bool
  ws_ticks :: nat
  ws_enabled :: bool
  ws_mounted :: bool
  ws_opened :: nat
  ws_live :: "nat list"

definition reconnect_min :: nat where "reconnect_min = 500"
definition reconnect_max :: nat where "reconnect_max = 5000"

definition schedule_reconnect :: "ws \<Rightarrow> ws" where
  "schedule_reconnect s =
     (if ws_closed_by_us s then s
      else s\<lparr>ws_timer := Some (ws_backoff s), ws_backoff := min reconnect_max (ws_backoff s * 2)\<rparr>)"

text \<open>\<open>fails\<close>: the constructor of the socket throws.\<close>

definition ws_connect :: "bool \<Rightarrow> ws \<Rightarrow> ws" where
  "ws_connect fails s =
     (let s = s\<lparr>ws_closed_by_us := False, ws_timer := None\<rparr> in
      if ws_socket s \<noteq> None then s
      else if fails then schedule_reconnect s
      else s\<lparr>ws_socket := Some (ws_opened s), ws_opened := Suc (ws_opened s), ws_live := ws_opened s # ws_live s\<rparr>)"

definition ws_disconnect :: "ws \<Rightarrow> ws" where
  "ws_disconnect s =
     (let s = s\<lparr>ws_closed_by_us := True, ws_timer := None\<rparr> in
      (case ws_socket s of
         None \<Rightarrow> s
       | Some k \<Rightarrow> s\<lparr>ws_socket := None, ws_live := removeAll k (ws_live s)\<rparr>)\<lparr>ws_connected := False\<rparr>)"

datatype ws_event =
    Ws_enabled bool bool
  | Ws_open nat
  | Ws_text nat "json option"
  | Ws_binary nat
  | Ws_close nat
  | Ws_timer bool
  | Ws_second
  | Ws_unmount

definition ws_message :: "(json \<Rightarrow> bool) \<Rightarrow> json option \<Rightarrow> ws \<Rightarrow> ws" where
  "ws_message valid parsed s =
     (case parsed of
        None \<Rightarrow> s
      | Some v \<Rightarrow> if \<not> valid v then s else s\<lparr>ws_latest := Some v, ws_ticks := Suc (ws_ticks s)\<rparr>)"

fun ws_step :: "(json \<Rightarrow> bool) \<Rightarrow> ws_event \<Rightarrow> ws \<Rightarrow> ws" where
  "ws_step valid (Ws_enabled on fails) s =
     (if \<not> ws_mounted s \<or> ws_enabled s = on then s
      else if on then ws_connect fails (s\<lparr>ws_enabled := on\<rparr>) else ws_disconnect (s\<lparr>ws_enabled := on\<rparr>))"
| "ws_step valid (Ws_open k) s =
     (if ws_socket s = Some k then s\<lparr>ws_connected := True, ws_backoff := reconnect_min\<rparr> else s)"
| "ws_step valid (Ws_text k parsed) s = (if ws_socket s = Some k then ws_message valid parsed s else s)"
| "ws_step valid (Ws_binary k) s = s"
| "ws_step valid (Ws_close k) s =
     (if ws_socket s = Some k
      then schedule_reconnect (s\<lparr>ws_connected := False, ws_socket := None, ws_live := removeAll k (ws_live s)\<rparr>) else s)"
| "ws_step valid (Ws_timer fails) s = (if ws_timer s = None then s else ws_connect fails (s\<lparr>ws_timer := None\<rparr>))"
| "ws_step valid Ws_second s = (if ws_mounted s then s\<lparr>ws_rate := ws_ticks s, ws_ticks := 0\<rparr> else s)"
| "ws_step valid Ws_unmount s = (ws_disconnect s)\<lparr>ws_mounted := False\<rparr>"

definition ws_start :: "bool \<Rightarrow> bool \<Rightarrow> ws" where
  "ws_start on fails =
     (let s = \<lparr>ws_connected = False, ws_latest = None, ws_rate = 0, ws_socket = None, ws_timer = None, ws_backoff = reconnect_min,
               ws_closed_by_us = False, ws_ticks = 0, ws_enabled = on, ws_mounted = True, ws_opened = 0, ws_live = []\<rparr>
      in if on then ws_connect fails s else ws_disconnect s)"

inductive ws_reach :: "(json \<Rightarrow> bool) \<Rightarrow> ws \<Rightarrow> bool" for valid where
  ws_started: "ws_reach valid (ws_start on fails)"
| ws_stepped: "ws_reach valid s \<Longrightarrow> ws_reach valid (ws_step valid e s)"

section \<open>Boxes for the painted frame\<close>

definition is_detection :: "json \<Rightarrow> bool" where
  "is_detection v =
     (case (obj_get v ''seq'', obj_get v ''boxes'') of (JNum n, JArr bs) \<Rightarrow> True | _ \<Rightarrow> False)"

definition is_rgb :: "json \<Rightarrow> bool" where
  "is_rgb v = (case (obj_get v ''seq'', obj_get v ''rgb'') of (JNum n, JStr s) \<Rightarrow> True | _ \<Rightarrow> False)"

definition frame_buffer :: nat where "frame_buffer = 180"

definition buffer_put :: "int \<Rightarrow> 'v \<Rightarrow> (int, 'v) jsmap \<Rightarrow> (int, 'v) jsmap" where
  "buffer_put n v m = (let m = jset m n v in if frame_buffer < length m then jdel m (fst (hd m)) else m)"

definition at_or_before :: "(int, 'v) jsmap \<Rightarrow> int \<Rightarrow> 'v option" where
  "at_or_before m target =
     snd (foldl (\<lambda>best kv. if fst kv \<le> target \<and> fst best < fst kv then (fst kv, Some (snd kv)) else best) (-1, None) m)"

record live_stream =
  lv_enabled :: bool
  lv_want :: bool
  lv_detections :: "(int, json) jsmap"
  lv_displayed :: int
  lv_running :: bool

definition detection_enabled :: "live_stream \<Rightarrow> bool" where
  "detection_enabled s = (lv_enabled s \<and> lv_want s)"

definition on_detection :: "json \<Rightarrow> live_stream \<Rightarrow> live_stream" where
  "on_detection v s =
     (case obj_get v ''seq'' of JNum n \<Rightarrow> s\<lparr>lv_detections := buffer_put n v (lv_detections s)\<rparr> | _ \<Rightarrow> s)"

definition displayed_boxes :: "live_stream \<Rightarrow> json" where
  "displayed_boxes s =
     (case at_or_before (lv_detections s) (lv_displayed s) of None \<Rightarrow> JArr [] | Some v \<Rightarrow> js_coalesce (obj_get v ''boxes'') (JArr []))"

definition commit_displayed :: "int \<Rightarrow> live_stream \<Rightarrow> live_stream" where
  "commit_displayed n s = s\<lparr>lv_displayed := n\<rparr>"

definition toggle_live :: "live_stream \<Rightarrow> live_stream" where
  "toggle_live s = s\<lparr>lv_enabled := \<not> lv_enabled s\<rparr>"

datatype live_control = Pause | Resume | Next_default | Submit_source

text \<open>A control posts to the server and mirrors a confirmed answer; a status outside of 200 to 299 throws.\<close>

definition control_name :: "live_control \<Rightarrow> string" where
  "control_name c =
     (case c of Pause \<Rightarrow> ''Pause failed'' | Resume \<Rightarrow> ''Resume failed'' | Next_default \<Rightarrow> ''Next default failed''
      | Submit_source \<Rightarrow> ''Live source upload failed'')"

definition live_post :: "live_control \<Rightarrow> nat \<Rightarrow> live_stream \<Rightarrow> (string + unit) \<times> live_stream" where
  "live_post c status s =
     (if 200 \<le> status \<and> status < 300 then (Inr (), s\<lparr>lv_running := (c \<noteq> Pause)\<rparr>)
      else (Inl (control_name c @ '' ('' @ show_nat status @ '')''), s))"

section \<open>The description of the scene\<close>

text \<open>\<open>poll\<close> is split at its two awaits: the fetch and the reading of the body.  An aborted request rejects at the await
  it is at.\<close>

datatype poll_phase = At_rest | Fetching | Reading

record scene =
  sn_text :: "string option"
  sn_danger :: bool
  sn_pending :: bool
  sn_phase :: poll_phase
  sn_disposed :: bool
  sn_aborted :: bool
  sn_requests :: nat

definition start_poll :: "scene \<Rightarrow> scene" where
  "start_poll s =
     (if sn_phase s \<noteq> At_rest \<or> sn_disposed s then s
      else s\<lparr>sn_phase := Fetching, sn_pending := True, sn_aborted := False, sn_requests := Suc (sn_requests s)\<rparr>)"

definition end_poll :: "scene \<Rightarrow> scene" where
  "end_poll s = s\<lparr>sn_phase := At_rest, sn_pending := False\<rparr>"

datatype poll_event = Poll_due | Poll_answer bool | Poll_body json | Poll_fails | Scene_reset | Scene_unmount

definition read_description :: "json \<Rightarrow> scene \<Rightarrow> scene" where
  "read_description v s =
     s\<lparr>sn_text := (case obj_get v ''description'' of JStr t \<Rightarrow> Some t | _ \<Rightarrow> sn_text s),
       sn_danger := (obj_get (obj_get v ''followup'') ''answer'' = JBool True)\<rparr>"

fun scene_step :: "poll_event \<Rightarrow> scene \<Rightarrow> scene" where
  "scene_step Poll_due s = start_poll s"
| "scene_step (Poll_answer ok) s =
     (if sn_phase s \<noteq> Fetching then s
      else if sn_aborted s \<or> sn_disposed s \<or> \<not> ok then end_poll s else s\<lparr>sn_phase := Reading\<rparr>)"
| "scene_step (Poll_body v) s =
     (if sn_phase s \<noteq> Reading then s else if sn_aborted s then end_poll s else end_poll (read_description v s))"
| "scene_step Poll_fails s = (if sn_phase s = At_rest then s else end_poll s)"
| "scene_step Scene_reset s = s\<lparr>sn_text := None, sn_danger := False, sn_aborted := (sn_phase s \<noteq> At_rest \<or> sn_aborted s)\<rparr>"
| "scene_step Scene_unmount s = s\<lparr>sn_disposed := True, sn_aborted := (sn_phase s \<noteq> At_rest \<or> sn_aborted s)\<rparr>"

section \<open>The stream of the cloud\<close>

datatype live_status = Idle | Connecting | Streaming | Closed | Failed

record cloud_stream =
  ks_status :: live_status
  ks_error :: "string option"
  ks_info :: "json option"
  ks_frame :: "live_frame option"
  ks_fps :: rat
  ks_gpu_ms :: f32
  ks_received :: nat
  ks_ground :: "json option"
  ks_plate :: "(string \<times> json \<times> json) option"
  ks_calibrating :: bool
  ks_socket :: "nat option"
  ks_opened :: nat
  ks_last :: rat
  ks_sent :: "string list"

datatype cloud_data = Text_data "json option" | Binary_data "byte list"

datatype cloud_event =
    Cloud_url "string option" bool
  | Cloud_message nat cloud_data rat
  | Cloud_error nat
  | Cloud_close nat nat string
  | Cloud_calibrate bool
  | Cloud_clear bool
  | Cloud_unmount

definition malformed_text :: string where
  "malformed_text = ''Received a malformed frame from the stream.''"

text \<open>A control message.  A syntax error throws out of the handler and changes nothing.\<close>

definition on_text :: "json option \<Rightarrow> cloud_stream \<Rightarrow> cloud_stream" where
  "on_text parsed s =
     (case parsed of
        Some v \<Rightarrow>
          (if \<not> (case v of JObj kvs \<Rightarrow> True | JArr vs \<Rightarrow> True | _ \<Rightarrow> False) then s
           else if obj_get v ''type'' = JStr ''plate''
           then s\<lparr>ks_plate := Some (''data:image/jpeg;base64,'' @ js_string (obj_get v ''jpeg''), obj_get v ''samples'', obj_get v ''spanSeconds'')\<rparr>
           else if obj_get v ''type'' = JStr ''ground'' then s\<lparr>ks_ground := Some v, ks_calibrating := False\<rparr>
           else s\<lparr>ks_info := Some v, ks_status := Streaming\<rparr>)
      | None \<Rightarrow> s)"

text \<open>The displayed rate, in exact arithmetic where the code rounds to doubles.\<close>

definition next_fps :: "rat \<Rightarrow> rat \<Rightarrow> rat \<Rightarrow> rat" where
  "next_fps now prev fps =
     (if prev > 0
      then (let instant = 1000 / max 1 (now - prev) in if fps = 0 then instant else fps + 15 / 100 * (instant - fps))
      else fps)"

definition on_frame :: "live_frame \<Rightarrow> rat \<Rightarrow> cloud_stream \<Rightarrow> cloud_stream" where
  "on_frame f now s =
     s\<lparr>ks_fps := next_fps now (ks_last s) (ks_fps s), ks_last := now, ks_gpu_ms := lf_gpu_ms f,
       ks_received := Suc (ks_received s), ks_frame := Some f\<rparr>"

definition on_cloud_message :: "cloud_data \<Rightarrow> rat \<Rightarrow> cloud_stream \<Rightarrow> cloud_stream" where
  "on_cloud_message d now s =
     (case d of
        Text_data parsed \<Rightarrow> on_text parsed s
      | Binary_data buf \<Rightarrow>
          (case decode_frame buf of
             Inr (Some f) \<Rightarrow> on_frame f now s
           | Inr None \<Rightarrow> s\<lparr>ks_error := Some malformed_text\<rparr>
           | Inl err \<Rightarrow> s))"

definition cloud_connect :: "bool \<Rightarrow> cloud_stream \<Rightarrow> cloud_stream" where
  "cloud_connect fails s =
     (let s = s\<lparr>ks_socket := None, ks_status := Connecting, ks_error := None, ks_info := None, ks_frame := None, ks_fps := 0,
                ks_received := 0, ks_ground := None, ks_plate := None, ks_calibrating := True, ks_last := 0\<rparr>
      in if fails then s else s\<lparr>ks_socket := Some (ks_opened s), ks_opened := Suc (ks_opened s)\<rparr>)"

fun cloud_step :: "cloud_event \<Rightarrow> cloud_stream \<Rightarrow> cloud_stream" where
  "cloud_step (Cloud_url target fails) s =
     (if target = None \<or> target = Some [] then s\<lparr>ks_socket := None, ks_status := Idle\<rparr> else cloud_connect fails s)"
| "cloud_step (Cloud_message k d now) s = (if ks_socket s = Some k then on_cloud_message d now s else s)"
| "cloud_step (Cloud_error k) s =
     (if ks_socket s = Some k then s\<lparr>ks_error := Some ''The live stream connection failed.'', ks_status := Failed\<rparr> else s)"
| "cloud_step (Cloud_close k code reason) s =
     (if ks_socket s \<noteq> Some k \<or> ks_status s = Failed then s
      else if code \<ge> 4000 \<and> reason \<noteq> [] then s\<lparr>ks_error := Some reason, ks_status := Failed\<rparr>
      else s\<lparr>ks_status := Closed\<rparr>)"
| "cloud_step (Cloud_calibrate up) s =
     (if ks_socket s = None \<or> \<not> up then s else s\<lparr>ks_calibrating := True, ks_sent := ks_sent s @ [''calibrate'']\<rparr>)"
| "cloud_step (Cloud_clear up) s =
     (let s = s\<lparr>ks_ground := None\<rparr> in if ks_socket s = None \<or> \<not> up then s else s\<lparr>ks_sent := ks_sent s @ [''clear-ground'']\<rparr>)"
| "cloud_step Cloud_unmount s = s\<lparr>ks_socket := None\<rparr>"

definition cloud_run :: "cloud_event list \<Rightarrow> cloud_stream \<Rightarrow> cloud_stream" where
  "cloud_run es s = fold cloud_step es s"

end
