(* ===== verification/Viewer_Claims.thy ===== *)
theory Viewer_Claims
  imports Viewer
begin

text \<open>
  What the sockets of the viewer guarantee: one connection at most and no giving up, boxes that are never ahead of
  the painted frame, no description from before a reset, and the newest well-formed frame of the current socket.
\<close>

section \<open>One connection, and no giving up\<close>

definition ws_wanted :: "ws \<Rightarrow> bool" where
  "ws_wanted s = (ws_mounted s \<and> ws_enabled s)"

definition ws_inv :: "(json \<Rightarrow> bool) \<Rightarrow> ws \<Rightarrow> bool" where
  "ws_inv valid s =
     (ws_live s = (case ws_socket s of None \<Rightarrow> [] | Some k \<Rightarrow> [k]) \<and> (ws_socket s = None \<or> ws_timer s = None) \<and>
      reconnect_min \<le> ws_backoff s \<and> ws_backoff s \<le> reconnect_max \<and>
      (case ws_timer s of None \<Rightarrow> True | Some d \<Rightarrow> reconnect_min \<le> d \<and> d \<le> reconnect_max) \<and>
      (ws_connected s \<longrightarrow> ws_socket s \<noteq> None) \<and> ws_closed_by_us s = (\<not> ws_wanted s) \<and>
      (ws_wanted s \<longleftrightarrow> ws_socket s \<noteq> None \<or> ws_timer s \<noteq> None) \<and>
      (case ws_latest s of None \<Rightarrow> True | Some v \<Rightarrow> valid v))"

lemmas ws_simps = ws_inv_def ws_wanted_def ws_connect_def ws_disconnect_def schedule_reconnect_def reconnect_min_def reconnect_max_def

lemma ws_start_inv: "ws_inv valid (ws_start on fails)"
  by (cases on; cases fails) (simp_all add: ws_start_def ws_simps Let_def)

lemma ws_step_inv:
  assumes "ws_inv valid s"
  shows "ws_inv valid (ws_step valid e s)"
proof (cases e)
  case (Ws_enabled on fails)
  then show ?thesis using assms by (auto simp: ws_simps Let_def split: option.splits if_splits)
next
  case (Ws_text k parsed)
  then show ?thesis using assms by (auto simp: ws_simps ws_message_def split: option.splits)
next
  case (Ws_close k)
  then show ?thesis using assms by (auto simp: ws_simps split: option.splits)
next
  case (Ws_timer fails)
  then show ?thesis using assms by (auto simp: ws_simps Let_def split: option.splits)
next
  case Ws_unmount
  then show ?thesis using assms by (auto simp: ws_simps Let_def split: option.splits)
qed (use assms in \<open>auto simp: ws_simps split: option.splits\<close>)

lemma ws_reach_inv: "ws_reach valid s \<Longrightarrow> ws_inv valid s"
  by (induction rule: ws_reach.induct) (simp_all add: ws_start_inv ws_step_inv)

text \<open>C36. A JSON socket of the viewer is never open twice and never given up: in every reachable state at most
  one socket is open; while the stream is wanted there is a socket or a reconnection that is due in half a second to
  five seconds, never both; otherwise there is neither; and the value shown has passed the validator.\<close>

theorem ws_never_gives_up:
  assumes "ws_reach valid s"
  shows "length (ws_live s) \<le> 1 \<and>
    (if ws_mounted s \<and> ws_enabled s
     then (case (ws_socket s, ws_timer s) of
             (Some k, None) \<Rightarrow> ws_live s = [k] | (None, Some d) \<Rightarrow> ws_live s = [] \<and> 500 \<le> d \<and> d \<le> 5000 | _ \<Rightarrow> False)
     else ws_socket s = None \<and> ws_timer s = None \<and> ws_live s = [] \<and> \<not> ws_connected s) \<and>
    (case ws_latest s of None \<Rightarrow> True | Some v \<Rightarrow> valid v)"
  using ws_reach_inv [OF assms] by (auto simp: ws_simps split: option.splits)

text \<open>The delays between failed attempts double up to the bound.\<close>

lemma backoff_doubles:
  assumes "ws_timer s = Some d" and "ws_socket s = None"
  shows "ws_timer (ws_step valid (Ws_timer True) s) = Some (ws_backoff s)"
    and "ws_backoff (ws_step valid (Ws_timer True) s) = min 5000 (ws_backoff s * 2)"
  using assms by (simp_all add: ws_connect_def schedule_reconnect_def reconnect_max_def Let_def)

theorem ws_never_gives_up_witness:
  "ws_timer (ws_step is_detection (Ws_close 0) (ws_start True False)) = Some 500 \<and>
   length (ws_live (ws_step is_detection (Ws_close 0) (ws_start True False))) \<le> 1"
proof -
  have r: "ws_reach is_detection (ws_step is_detection (Ws_close 0) (ws_start True False))"
    by (intro ws_stepped ws_started)
  have "ws_timer (ws_step is_detection (Ws_close 0) (ws_start True False)) = Some 500"
    by (simp add: ws_start_def ws_simps Let_def)
  with ws_never_gives_up [OF r] show ?thesis by blast
qed

section \<open>Boxes are never ahead of the painted frame\<close>

lemma jwf_buffer_put: "jwf m \<Longrightarrow> jwf (buffer_put n v m)"
  by (simp add: buffer_put_def Let_def)

lemma buffer_put_length: "length m \<le> frame_buffer \<Longrightarrow> length (buffer_put n v m) \<le> frame_buffer"
proof -
  assume m: "length m \<le> frame_buffer"
  let ?m = "jset m n v"
  have l: "length ?m \<le> Suc frame_buffer" using m by (simp add: length_jset)
  have "length (jdel ?m (fst (hd ?m))) < length ?m" if "?m \<noteq> []"
    using that unfolding jdel_def by (cases ?m) (auto intro: le_imp_less_Suc)
  then show ?thesis using l by (cases "?m = []") (auto simp: buffer_put_def Let_def)
qed

lemma buffer_put_set: "set (buffer_put n v m) \<subseteq> insert (n, v) (set m)"
  using set_jset_subset [of m n v] by (auto simp: buffer_put_def jdel_def Let_def)

definition best_of :: "(int, 'v) jsmap \<Rightarrow> int \<Rightarrow> int \<times> 'v option \<Rightarrow> int \<times> 'v option" where
  "best_of m target x = foldl (\<lambda>best kv. if fst kv \<le> target \<and> fst best < fst kv then (fst kv, Some (snd kv)) else best) x m"

lemma best_of_spec:
  "fst x \<le> fst (best_of m target x) \<and> (\<forall>n\<in>fst ` set m. n \<le> target \<longrightarrow> n \<le> fst (best_of m target x)) \<and>
   (best_of m target x = x \<or> (\<exists>v. best_of m target x = (fst (best_of m target x), Some v) \<and> (fst (best_of m target x), v) \<in> set m \<and>
      fst x < fst (best_of m target x) \<and> fst (best_of m target x) \<le> target))"
proof (induction m arbitrary: x)
  case (Cons kv m)
  let ?x = "if fst kv \<le> target \<and> fst x < fst kv then (fst kv, Some (snd kv)) else x"
  have b: "best_of (kv # m) target x = best_of m target ?x" by (simp add: best_of_def)
  obtain n w where kv: "kv = (n, w)" by (cases kv)
  show ?case
  proof (cases "n \<le> target \<and> fst x < n")
    case True
    then have x: "?x = (n, Some w)" by (simp add: kv)
    from Cons.IH [of "(n, Some w)"] True show ?thesis unfolding b x by (auto simp: kv)
  next
    case False
    then have x: "?x = x" by (auto simp: kv)
    from Cons.IH [of x] False show ?thesis unfolding b x by (auto simp: kv)
  qed
qed (simp add: best_of_def)

lemma at_or_before_Some:
  assumes "jwf m"
  shows "at_or_before m target = Some v \<longleftrightarrow>
    (\<exists>n. map_of m n = Some v \<and> 0 \<le> n \<and> n \<le> target \<and> (\<forall>n' \<in> fst ` set m. n' \<le> target \<longrightarrow> n' \<le> n))"
proof -
  have d: "distinct (map fst m)" using assms by (simp add: jwf_def)
  let ?b = "best_of m target (-1, None)"
  have a: "at_or_before m target = snd ?b" by (simp add: at_or_before_def best_of_def)
  have ge: "\<And>n'. n' \<in> fst ` set m \<Longrightarrow> n' \<le> target \<Longrightarrow> n' \<le> fst ?b"
    and c: "?b = (-1, None) \<or> (\<exists>v. ?b = (fst ?b, Some v) \<and> (fst ?b, v) \<in> set m \<and> -1 < fst ?b \<and> fst ?b \<le> target)"
    using best_of_spec [of "(-1, None)" m target] by auto
  show ?thesis
  proof
    assume "at_or_before m target = Some v"
    then have "snd ?b = Some v" using a by simp
    then have "(fst ?b, v) \<in> set m \<and> -1 < fst ?b \<and> fst ?b \<le> target" using c by (metis option.inject option.distinct(1) snd_conv)
    then show "\<exists>n. map_of m n = Some v \<and> 0 \<le> n \<and> n \<le> target \<and> (\<forall>n' \<in> fst ` set m. n' \<le> target \<longrightarrow> n' \<le> n)"
      using ge d by (intro exI [of _ "fst ?b"]) auto
  next
    assume "\<exists>n. map_of m n = Some v \<and> 0 \<le> n \<and> n \<le> target \<and> (\<forall>n' \<in> fst ` set m. n' \<le> target \<longrightarrow> n' \<le> n)"
    then obtain n where n: "map_of m n = Some v" "0 \<le> n" "n \<le> target" "\<forall>n' \<in> fst ` set m. n' \<le> target \<longrightarrow> n' \<le> n" by blast
    have nm: "n \<in> fst ` set m" using n(1) by (metis map_of_SomeD fst_conv image_eqI)
    then have "n \<le> fst ?b" using ge n(3) by blast
    then obtain v' where v': "?b = (fst ?b, Some v')" "(fst ?b, v') \<in> set m" "fst ?b \<le> target" using c n(2) by force
    then have "fst ?b \<le> n" using n(4) by (metis fst_conv image_eqI)
    with \<open>n \<le> fst ?b\<close> have "fst ?b = n" by simp
    then have "v' = v" using v'(2) n(1) d by (metis map_of_is_SomeI option.inject)
    then show "at_or_before m target = Some v" using a v'(1) by (metis snd_conv)
  qed
qed

text \<open>What the viewer has kept of the detections it received, and what it draws behind the painted frame.\<close>

definition detections :: "json list \<Rightarrow> live_stream \<Rightarrow> live_stream" where
  "detections msgs s = fold on_detection msgs s"

lemma on_detection_buffer:
  "is_detection v \<Longrightarrow> \<exists>n. obj_get v ''seq'' = JNum n \<and> lv_detections (on_detection v s) = buffer_put n v (lv_detections s) \<and>
     lv_displayed (on_detection v s) = lv_displayed s"
  by (auto simp: is_detection_def on_detection_def split: json.splits)

lemma detections_buffer:
  assumes "\<forall>v\<in>set msgs. is_detection v" and "jwf (lv_detections s)" and "length (lv_detections s) \<le> frame_buffer"
    and "\<forall>(n, v)\<in>set (lv_detections s). obj_get v ''seq'' = JNum n"
  shows "jwf (lv_detections (detections msgs s)) \<and> length (lv_detections (detections msgs s)) \<le> frame_buffer \<and>
    lv_displayed (detections msgs s) = lv_displayed s \<and>
    (\<forall>(n, v)\<in>set (lv_detections (detections msgs s)). obj_get v ''seq'' = JNum n \<and> (v \<in> set msgs \<or> (n, v) \<in> set (lv_detections s)))"
  using assms
proof (induction msgs arbitrary: s)
  case (Cons v msgs)
  obtain n where n: "obj_get v ''seq'' = JNum n" "lv_detections (on_detection v s) = buffer_put n v (lv_detections s)"
    "lv_displayed (on_detection v s) = lv_displayed s"
    using on_detection_buffer Cons.prems(1) by (meson list.set_intros(1))
  have "\<forall>(k, w)\<in>set (lv_detections (on_detection v s)). obj_get w ''seq'' = JNum k"
    using n buffer_put_set [of n v "lv_detections s"] Cons.prems(4) by auto
  moreover have "jwf (lv_detections (on_detection v s))" "length (lv_detections (on_detection v s)) \<le> frame_buffer"
    using n Cons.prems(2,3) by (simp_all add: jwf_buffer_put buffer_put_length)
  ultimately have ih: "jwf (lv_detections (detections msgs (on_detection v s))) \<and>
      length (lv_detections (detections msgs (on_detection v s))) \<le> frame_buffer \<and>
      lv_displayed (detections msgs (on_detection v s)) = lv_displayed (on_detection v s) \<and>
      (\<forall>(n, w)\<in>set (lv_detections (detections msgs (on_detection v s))). obj_get w ''seq'' = JNum n \<and>
         (w \<in> set msgs \<or> (n, w) \<in> set (lv_detections (on_detection v s))))"
    using Cons.IH [of "on_detection v s"] Cons.prems(1) by auto
  have "detections (v # msgs) s = detections msgs (on_detection v s)" by (simp add: detections_def)
  then show ?case using ih n buffer_put_set [of n v "lv_detections s"] by fastforce
qed (auto simp: detections_def)

definition fresh_live :: live_stream where
  "fresh_live = \<lparr>lv_enabled = True, lv_want = True, lv_detections = [], lv_displayed = -1, lv_running = True\<rparr>"

text \<open>Boxes are never ahead of the painted frame: whatever detections came in, the boxes drawn are none, or those of
  a received detection whose number is at most the number of the painted frame and at least that of every other
  detection kept up to it; and no more than 180 detections are kept.\<close>

theorem boxes_never_ahead:
  assumes "\<forall>v\<in>set msgs. is_detection v" and "s = commit_displayed n (detections msgs fresh_live)"
  shows "length (lv_detections s) \<le> 180 \<and>
    (displayed_boxes s = JArr [] \<or>
     (\<exists>v m. v \<in> set msgs \<and> displayed_boxes s = obj_get v ''boxes'' \<and> obj_get v ''seq'' = JNum m \<and> 0 \<le> m \<and> m \<le> n \<and>
        list_all (\<lambda>kv. if fst kv \<le> n then fst kv \<le> m else True) (lv_detections s)))"
proof -
  have b: "jwf (lv_detections (detections msgs fresh_live))" "length (lv_detections (detections msgs fresh_live)) \<le> frame_buffer"
    "\<And>k v. (k, v) \<in> set (lv_detections (detections msgs fresh_live)) \<Longrightarrow> obj_get v ''seq'' = JNum k \<and> v \<in> set msgs"
    using detections_buffer [OF assms(1), of fresh_live] by (auto simp: fresh_live_def)
  have s: "lv_detections s = lv_detections (detections msgs fresh_live)" "lv_displayed s = n"
    by (simp_all add: assms(2) commit_displayed_def)
  show ?thesis
  proof (cases "at_or_before (lv_detections s) n")
    case None
    then show ?thesis using b(2) s by (simp add: displayed_boxes_def frame_buffer_def)
  next
    case (Some v)
    then obtain m where m: "map_of (lv_detections s) m = Some v" "0 \<le> m" "m \<le> n" "\<forall>k \<in> fst ` set (lv_detections s). k \<le> n \<longrightarrow> k \<le> m"
      using at_or_before_Some b(1) s(1) by metis
    have v: "obj_get v ''seq'' = JNum m" "v \<in> set msgs" using b(3) map_of_SomeD [OF m(1)] s(1) by auto
    then have "is_detection v" using assms(1) by blast
    then obtain bs where bs: "obj_get v ''boxes'' = JArr bs" by (auto simp: is_detection_def split: json.splits)
    have d: "displayed_boxes s = obj_get v ''boxes''" using Some s(2) bs by (simp add: displayed_boxes_def js_coalesce_def)
    have k: "list_all (\<lambda>kv. if fst kv \<le> n then fst kv \<le> m else True) (lv_detections s)" using m(4) by (auto simp: list_all_iff)
    have "length (lv_detections s) \<le> 180" using b(2) s(1) by (simp add: frame_buffer_def)
    with d k v m(2,3) show ?thesis by blast
  qed
qed

abbreviation detection_at :: "int \<Rightarrow> json" where
  "detection_at n \<equiv> JObj [(''seq'', JNum n), (''boxes'', JArr [JNum n])]"

theorem boxes_never_ahead_witness:
  "displayed_boxes (commit_displayed 5 (detections [detection_at 4, detection_at 6] fresh_live)) = JArr [JNum 4] \<and>
   length (lv_detections (commit_displayed 5 (detections [detection_at 4, detection_at 6] fresh_live))) \<le> 180"
proof -
  have d: "\<forall>v\<in>set [detection_at 4, detection_at 6]. is_detection v" by (simp add: is_detection_def)
  have "displayed_boxes (commit_displayed 5 (detections [detection_at 4, detection_at 6] fresh_live)) = JArr [JNum 4]"
    by (simp add: displayed_boxes_def commit_displayed_def detections_def on_detection_def fresh_live_def buffer_put_def frame_buffer_def
        at_or_before_def js_coalesce_def Let_def)
  with boxes_never_ahead [OF d refl, of 5] show ?thesis by blast
qed

section \<open>No description from before a reset\<close>

lemma scene_no_stale:
  assumes "sn_aborted s" and "sn_phase s \<noteq> At_rest" and "e \<noteq> Scene_reset" and "e \<noteq> Scene_unmount"
  shows "sn_text (scene_step e s) = sn_text s \<and> sn_danger (scene_step e s) = sn_danger s"
  using assms by (cases e) (auto simp: start_poll_def end_poll_def)

text \<open>A request is in flight exactly while a poll is pending, and none is started beside it or after the unmount.\<close>

lemma scene_one_request:
  "sn_phase s \<noteq> At_rest \<or> sn_disposed s \<Longrightarrow> sn_requests (scene_step e s) = sn_requests s"
  by (cases e) (auto simp: start_poll_def end_poll_def read_description_def)

section \<open>The newest frame of the current socket\<close>

text \<open>The frames that a run of events brings from one socket.\<close>

fun frames_of :: "nat \<Rightarrow> cloud_event list \<Rightarrow> live_frame list" where
  "frames_of k [] = []"
| "frames_of k (Cloud_message j (Binary_data buf) now # es) =
     (if j = k then (case decode_frame buf of Inr (Some f) \<Rightarrow> f # frames_of k es | _ \<Rightarrow> frames_of k es) else frames_of k es)"
| "frames_of k (e # es) = frames_of k es"

fun stays :: "cloud_event \<Rightarrow> bool" where
  "stays (Cloud_url target fails) = False"
| "stays Cloud_unmount = False"
| "stays e = True"

lemma cloud_run_frames:
  assumes "ks_socket s = Some k" and "list_all stays es"
  shows "ks_socket (cloud_run es s) = Some k \<and> ks_received (cloud_run es s) = ks_received s + length (frames_of k es) \<and>
    ks_frame (cloud_run es s) = (if frames_of k es = [] then ks_frame s else Some (last (frames_of k es)))"
  using assms
proof (induction es arbitrary: s)
  case (Cons e es)
  have run: "cloud_run (e # es) s = cloud_run es (cloud_step e s)" by (simp add: cloud_run_def)
  show ?case
  proof (cases "\<exists>buf now f. e = Cloud_message k (Binary_data buf) now \<and> decode_frame buf = Inr (Some f)")
    case True
    then obtain buf now f where e: "e = Cloud_message k (Binary_data buf) now" "decode_frame buf = Inr (Some f)" by blast
    then have st: "cloud_step e s = on_frame f now s" using Cons.prems(1) by (simp add: on_cloud_message_def)
    have "ks_socket (on_frame f now s) = Some k" using Cons.prems(1) by (simp add: on_frame_def)
    from Cons.IH [OF this] Cons.prems(2) show ?thesis unfolding run st by (simp add: e on_frame_def)
  next
    case False
    have st: "ks_socket (cloud_step e s) = Some k \<and> ks_received (cloud_step e s) = ks_received s \<and> ks_frame (cloud_step e s) = ks_frame s"
      using False Cons.prems
      by (cases e) (auto simp: on_cloud_message_def on_text_def Let_def split: cloud_data.splits sum.splits option.splits json.splits)
    have fr: "frames_of k (e # es) = frames_of k es"
      using False by (cases "(k, e # es)" rule: frames_of.cases) (auto split: sum.splits option.splits)
    from Cons.IH [of "cloud_step e s"] st Cons.prems(2) show ?thesis unfolding run fr by simp
  qed
qed (simp add: cloud_run_def)

text \<open>What the viewer shows is the newest well-formed frame of the socket it is connected to: behind a change of the
  address, whatever messages, errors, closings and controls follow, of this socket and of any earlier one, the frame shown is the last
  that this socket brought and that decodes, the counter counts those, and before the first of them there is none.\<close>

theorem cloud_newest:
  assumes "target \<noteq> []" and "list_all stays es" and "k = ks_opened s"
  shows "ks_received (cloud_run (Cloud_url (Some target) False # es) s) = length (frames_of k es) \<and>
    ks_frame (cloud_run (Cloud_url (Some target) False # es) s) = (if frames_of k es = [] then None else Some (last (frames_of k es)))"
proof -
  let ?s = "cloud_connect False s"
  have run: "cloud_run (Cloud_url (Some target) False # es) s = cloud_run es ?s" using assms(1) by (simp add: cloud_run_def)
  have c: "ks_socket ?s = Some k" "ks_received ?s = 0" "ks_frame ?s = None"
    using assms(3) by (simp_all add: cloud_connect_def Let_def)
  show ?thesis unfolding run using cloud_run_frames [OF c(1) assms(2)] c(2,3) by simp
qed

definition idle_stream :: cloud_stream where
  "idle_stream =
     \<lparr>ks_status = Idle, ks_error = None, ks_info = None, ks_frame = None, ks_fps = 0, ks_gpu_ms = 0, ks_received = 0, ks_ground = None,
      ks_plate = None, ks_calibrating = False, ks_socket = None, ks_opened = 1, ks_last = 0, ks_sent = []\<rparr>"

text \<open>A late frame of the first socket, a malformed one and a packed one of the second.\<close>

theorem cloud_newest_witness:
  "\<exists>f. lf_points f = 0 \<and>
     ks_frame (cloud_run [Cloud_url (Some ''ws'') False, Cloud_message 0 (Binary_data (replicate 40 0)) 5,
       Cloud_message 1 (Binary_data []) 6, Cloud_message 1 (Binary_data (replicate 40 0)) 7] idle_stream) = Some f \<and>
     ks_received (cloud_run [Cloud_url (Some ''ws'') False, Cloud_message 0 (Binary_data (replicate 40 0)) 5,
       Cloud_message 1 (Binary_data []) 6, Cloud_message 1 (Binary_data (replicate 40 0)) 7] idle_stream) = 1"
proof -
  obtain f where b: "decode_frame (replicate 40 0) = Inr (Some f)" "lf_points f = 0" using empty_frame_decoded by blast
  let ?es = "[Cloud_message 0 (Binary_data (replicate 40 0)) 5, Cloud_message 1 (Binary_data []) 6,
    Cloud_message 1 (Binary_data (replicate 40 0)) 7]"
  have "decode_frame [] = Inr None" by (simp add: decode_frame_def header_bytes_def)
  then have f: "frames_of 1 ?es = [f]" using b(1) by (simp only: frames_of.simps if_True) simp
  have k: "1 = ks_opened idle_stream" by (simp add: idle_stream_def)
  have st: "list_all stays ?es" by simp
  have t: "''ws'' \<noteq> []" by simp
  from cloud_newest [OF t st k] f b(2) show ?thesis by (intro exI [of _ f]) simp
qed

text \<open>The note that a frame was malformed stays while well-formed frames go on arriving.\<close>

lemma malformed_note_stays: "ks_error (on_frame f now s) = ks_error s"
  by (simp add: on_frame_def)

text \<open>A stream that is closed before its ground was announced goes on showing that it is calibrating.\<close>

lemma calibrating_stays: "ks_calibrating s \<Longrightarrow> ks_calibrating (cloud_step (Cloud_close k code reason) s)"
  by simp

end
