(* ===== verification/Spec2Isabelle.thy ===== *)
theory Spec2Isabelle
  imports Agentic Api_Claims Auth_Claims Boot Broker_Claims Bus City Coco_Live Compile_Claims Deployment Dialer Gateway_Claims Intent_Claims
    Judge_Claims Ledger_Claims Openshell Orchestrator Pages_Claims Portal_Claims Recorder Response_Plan Scripts Startup Stream_Claims Surface_Claims Telegram_Claims
    Viewer_Claims
begin

text \<open>
  OMODA, the autonomy broker of src/src (JavaScript): cameras, people and services propose work, a planner
  chooses a declared tool, a person consents where the tool is dangerous, and a broker executes the action
  under a network policy that is opened for that one call and closed behind it.  This library models
  its components and proves what they promise to each other.

  \<^bold>\<open>How a request travels.\<close>  A stream event, an API call or a voice note becomes an intent
  (\<open>Stream\<close>, \<open>Api_Server\<close>, \<open>Telegram_Loop\<close>, \<open>Intents\<close>).  L0 (\<open>Orchestrator\<close>) retrieves context (\<open>Knowledge\<close>), asks a
  model through the router (\<open>Planning\<close>, \<open>Router\<close>, \<open>Inference\<close>) for a declared tool (\<open>Compile\<close>, \<open>Manifest\<close>) and
  registers an action awaiting consent.  An operator decides (\<open>Intents.decide\<close>), and the broker (\<open>Broker\<close>)
  checks the action against the prohibited list (\<open>Prohibited\<close>), the taxonomy (\<open>Taxonomy\<close>) and the decision
  (\<open>Decision\<close>), opens the policy (\<open>Envelope\<close>, \<open>Policy_Port\<close>, \<open>Openshell\<close>), executes, registers the way back
  (\<open>Undo\<close>) and closes the policy; each step is a record of the hash-chained ledger (\<open>Ledger\<close>), projected to the
  audit stream (\<open>Audit_Stream\<close>) and the bus (\<open>Bus\<close>).

  \<^bold>\<open>Theories and sources\<close> (under src/src).
  \<^item> \<open>Prelude\<close>, \<open>Js_Regex\<close>, \<open>Json\<close>, \<open>Json_Roundtrip\<close>, \<open>Json_Pretty\<close>: strings, insertion-ordered maps (with the locale
    \<open>keyed_store\<close>), regular expressions, JSON values, \<open>stringify\<close>, \<open>parse\<close> and the ledger's \<open>canonical\<close>; parsing
    reads back what was rendered, and no two texts are canonical for different records.
  \<^item> \<open>Ledger\<close>, \<open>Ledger_Chain\<close>, \<open>Ledger_Durable\<close>, \<open>Ledger_Claims\<close>: ledger/ledger.js; the chain invariant, restart
    from the file, and the commitment of the head hash.
  \<^item> \<open>Taxonomy\<close>, \<open>Prohibited\<close>, \<open>Decision\<close>, \<open>Undo\<close>: domain/taxonomy.js, domain/prohibited.js, broker/decision.js,
    broker/undo.js; each guard characterised completely, the reversal at most once under any interleaving.
  \<^item> \<open>Envelope\<close>, \<open>Policy_Port\<close> (locale \<open>policy_port\<close>), \<open>Openshell\<close>: policy/envelope.js and policy/openshell.js; a
    delta grants one request more and its revert restores the policy.
  \<^item> \<open>Broker\<close>, \<open>Broker_Safety\<close>, \<open>Broker_Claims\<close>: broker/authorize.js, every tier and error path.
  \<^item> \<open>Manifest\<close>, \<open>Compile\<close>, \<open>Compile_Claims\<close>: schema/manifest.js, policy/compile.js, skills/load.js; the compiled
    policy grants what is declared and no more.
  \<^item> \<open>Expiring\<close> (locale \<open>expiring\<close>), \<open>Auth\<close>, \<open>Auth_Claims\<close>: api/auth.js, web/admin-auth.js; tokens, signatures,
    nonces and rate limits.
  \<^item> \<open>Intents\<close>, \<open>Intent_Claims\<close>: transport/envelope.js and api/intents.js; idempotency, finality, separation of
    duties, the two-person rule and the agreement with the broker's check.
  \<^item> \<open>Stream\<close>, \<open>Stream_Claims\<close>: api/stream.js; \<open>Dialer\<close>: its dialer, event by event (the step relation \<open>dial_reach\<close>), its
    upgrade handler, and the dialers of coco/live.js; \<open>Bus\<close>: bus.js and api/outputs.js; \<open>Triggers\<close>: transport/triggers.js.
  \<^item> \<open>Response_Plan\<close>, \<open>Narrate\<close>, \<open>Audit_Stream\<close>: domain/response-plan.js and telemetry/display.js, narrate.js, audit.js.
  \<^item> \<open>Screen\<close>, \<open>Router\<close>, \<open>Inference\<close>, \<open>Planning\<close>: models/screen.js, router.js, client.js, plan.js.
  \<^item> \<open>Coco\<close>, \<open>Coco_Live\<close>: coco/adapter.js and coco/live.js; the window of observations, and the relay of frames, which
    writes what decoding and publishing would write.
  \<^item> \<open>Judge\<close>, \<open>Judge_Claims\<close>: coco/judge.js; one intent per open incident.  \<open>Knowledge\<close>: knowledge/store.js;
    \<open>Orchestrator\<close>: orchestrator.js.
  \<^item> \<open>Recorder\<close>: training/recorder.js; \<open>Agentic\<close>: telemetry/agentic.js.
  \<^item> \<open>Gateway\<close>, \<open>Gateway_Claims\<close>: gateway/openclaw.js; the signed payload binds its fields, and requests are
    answered by their responses alone (the step relation \<open>gw_reach\<close>).
  \<^item> \<open>Modality\<close>, \<open>Telegram\<close>, \<open>Telegram_Loop\<close>, \<open>Telegram_Claims\<close>: channels/modality.js, telegram.js, telegram-loop.js;
    media stay on the box, strangers are inert, only a settled approval executes.
  \<^item> \<open>Api_Server\<close>, \<open>Api_Claims\<close>: api/server.js; every change of an intent is authenticated, scoped, signed and logged.
    \<open>Portal\<close>, \<open>Portal_Claims\<close>: the rest of its admin portal; a deployment passes the gates of the loader and overwrites
    nothing.  \<open>Pages\<close>, \<open>Pages_Claims\<close>: web/ui.js, every page as its tree of elements; the pages carry no script whatever they
    show, their forms are taken by the server, and the audit page shows the records exactly.
  \<^item> \<open>Boot\<close>: the parts of boot.js that join the operator loop to the broker, and the theorem on the whole path from a
    tap on the phone to an effect outside.  \<open>Deployment\<close>: its settings, skills, identities and the ledger's observer; the
    one deciding identity it issues can settle no two-person action.
    \<open>Startup\<close>: where it may listen, which parts it starts for its settings, and the lines it prints.
  \<^item> \<open>Scripts\<close>: scripts/gateway-pair.mjs and compliance-check.mjs; a pairing is approved only on request, with a
    credential, and for this device alone, and every attempt leaves a record.
  \<^item> \<open>City\<close>: mock/city-services.js, the services that the demonstration calls.

  \<^bold>\<open>The viewer\<close> (under src/see/webapp), which shows what the cameras see.
  \<^item> \<open>Wire\<close>, \<open>Cloud_Wire\<close>: the bytes of cloud/useLiveCloudStream.ts and cloud/staticWorld.ts, with the packers of
    d4rt_backend/live.py and api.py: what the Python side packs is what the viewer decodes, decoding never
    throws, and positions survive the two roundings.
  \<^item> \<open>Viewer\<close>, \<open>Viewer_Claims\<close>: composables/useWsJson.ts, useLiveStream.ts, useSceneDescription.ts and the state of
    useLiveCloudStream.ts: reconnection (the step relation \<open>ws_reach\<close>), boxes aligned to the painted frame, the newest
    frame of the current socket.
  \<^item> \<open>Surface\<close>, \<open>Surface_Claims\<close>: components/cloud/surfaceMesh.ts: the flood fills are reachability, and the road comes out
    as one slab with exactly its small enclosed gaps closed.

  \<^bold>\<open>Conventions.\<close>  A thrown error is \<open>Inl\<close> of its message, a refusal a value of the component's result type.
  State is passed explicitly in records.  An operation that awaits is split there where other
  calls can come in between (\<open>undo_begin\<close> and \<open>undo_finish\<close>, \<open>judge_begin\<close> and \<open>judge_finish\<close>).  Clocks, fresh ids, the
  disk, the network, SHA-256, HMAC and the libraries for YAML and schema errors are arguments; what
  is relied on of them (no collision among the hashed texts, an answer of the transport) is a
  hypothesis of the theorem that needs it.

  \<^bold>\<open>Bounds and fuel.\<close>  Characters are the code units below 256; numbers are integers (the code's
  fractions are confidences, which no modelled guard computes with), except in the viewer: there a float of the wire
  is its 32 bits, a stored quotient is rounded to single precision (\<open>single\<close>), and averaged positions are a parameter.  The regular expression
  matcher, \<open>JSON.parse\<close> and the splitting and replacing loops run on fuel that bounds the length of the
  text; \<open>rep_m_fuel\<close> and the parser's round trip show that it is enough.  Loops that might not end
  (\<open>scan_phrase\<close>, \<open>cut_long\<close>) are partial functions, and their claims prove that they do; the flood fills and the
  diffusion are total by a measure, and \<open>diffuse_spec\<close> shows that no cell is left over.

  \<^bold>\<open>Not modelled.\<close>  The text that React writes for a tree of elements, and the sockets, listeners and processes that
  boot.js opens.  demo/, mock/serve-city.js and scripts/benchmark-g1.mjs, which only start, drive, time and print, and the calls into
  telemetry.  Of the viewer the rendering (useLiveCloudScene.ts, blobBoxes.ts, the
  panels) and the rectangles fitted to paint, which are floating point geometry on a graphics library, and of see/ the Python pipeline
  but for its packers.
\<close>

end
